(* ===== verification/Prelude.thy ===== *)
theory Prelude
  imports Main
begin

text \<open>
  What every component of the development shares: the clock, the results of
  fallible operations, HTTP statuses, and generic facts on lists, filters and maps.

  Times are nanoseconds on Go's own axis: the zero \<open>time.Time\<close> is 0 and every instant the
  panel can read from a clock is positive. A \<open>time.Duration\<close> is a difference of two times.
\<close>

named_theorems time_units \<open>the durations of the source, in nanoseconds\<close>
named_theorems http_codes \<open>the status codes the handlers answer with\<close>
named_theorems counter_laws \<open>what the operations of a failure counter do to one key\<close>

section \<open>Time\<close>

type_synonym time = int
type_synonym duration = int

definition second :: duration where "second = 1000000000"
definition minute :: duration where "minute = 60 * second"
definition hour :: duration where "hour = 60 * minute"

lemmas [time_units] = second_def minute_def hour_def

text \<open>The zero value of \<open>time.Time\<close>, and \<open>Time.Unix\<close>.\<close>

definition zero_time :: time where "zero_time = 0"

definition unix_epoch_seconds :: int where "unix_epoch_seconds = 62135596800"

definition unix :: "time \<Rightarrow> int" where
  "unix t = t div second - unix_epoch_seconds"

lemma unix_mono: "s \<le> t \<Longrightarrow> unix s \<le> unix t"
  by (simp add: unix_def second_def zdiv_mono1)

text \<open>\<open>int(d.Seconds())\<close> for a duration that is not negative.\<close>

definition whole_seconds :: "duration \<Rightarrow> int" where
  "whole_seconds d = d div second"

section \<open>Go's truncated division\<close>

definition go_div :: "int \<Rightarrow> int \<Rightarrow> int" where
  "go_div a b = sgn a * sgn b * (\<bar>a\<bar> div \<bar>b\<bar>)"

lemma go_div_nonneg [simp]: "0 \<le> a \<Longrightarrow> 0 < b \<Longrightarrow> go_div a b = a div b"
  by (cases "a = 0") (simp_all add: go_div_def)

section \<open>HTTP statuses\<close>

definition StatusOK :: int where "StatusOK = 200"
definition StatusBadRequest :: int where "StatusBadRequest = 400"
definition StatusUnauthorized :: int where "StatusUnauthorized = 401"
definition StatusForbidden :: int where "StatusForbidden = 403"
definition StatusRequestEntityTooLarge :: int where "StatusRequestEntityTooLarge = 413"
definition StatusTooManyRequests :: int where "StatusTooManyRequests = 429"
definition StatusInternalServerError :: int where "StatusInternalServerError = 500"
definition StatusServiceUnavailable :: int where "StatusServiceUnavailable = 503"

lemmas [http_codes] = StatusOK_def StatusBadRequest_def StatusUnauthorized_def
  StatusForbidden_def StatusRequestEntityTooLarge_def StatusTooManyRequests_def
  StatusInternalServerError_def StatusServiceUnavailable_def

section \<open>Lists\<close>

lemma sorted_le_last: "sorted xs \<Longrightarrow> x \<in> set xs \<Longrightarrow> x \<le> last xs"
  by (induction xs) auto

text \<open>Below an element of a descending list there are only smaller ones.\<close>

lemma sorted_rev_drop_le:
  "sorted (rev xs) \<Longrightarrow> n < length xs \<Longrightarrow> y \<in> set (drop n xs) \<Longrightarrow> y \<le> xs ! n"
proof (induction xs arbitrary: n)
  case (Cons x xs)
  then have "sorted (rev xs)" and "\<forall>y \<in> set xs. y \<le> x" by (auto simp: sorted_append)
  with Cons show ?case by (cases n) auto
qed simp

text \<open>On a sorted list, keeping what lies after a cutoff is dropping a prefix.\<close>

lemma sorted_filter_greater_suffix:
  "sorted (xs :: 'a::linorder list) \<Longrightarrow>
     \<exists>ys. xs = ys @ filter (\<lambda>x. c < x) xs \<and> (\<forall>y \<in> set ys. y \<le> c)"
proof (induction xs)
  case Nil
  then show ?case by simp
next
  case (Cons x xs)
  show ?case
  proof (cases "c < x")
    case True
    with Cons.prems have "\<forall>y \<in> set xs. c < y" by auto
    with True show ?thesis by simp
  next
    case False
    from Cons obtain ys where "xs = ys @ filter (\<lambda>x. c < x) xs" "\<forall>y \<in> set ys. y \<le> c" by auto
    with False have "x # xs = (x # ys) @ filter (\<lambda>x. c < x) (x # xs) \<and> (\<forall>y \<in> set (x # ys). y \<le> c)"
      by simp
    then show ?thesis by blast
  qed
qed

section \<open>Maps\<close>

text \<open>Deleting every entry of a Go map that satisfies a test.\<close>

definition map_prune :: "('v \<Rightarrow> bool) \<Rightarrow> ('k \<rightharpoonup> 'v) \<Rightarrow> ('k \<rightharpoonup> 'v)" where
  "map_prune stale m = (\<lambda>k. case m k of None \<Rightarrow> None | Some v \<Rightarrow> if stale v then None else Some v)"

lemma map_prune_Some [simp]:
  "map_prune stale m k = Some v \<longleftrightarrow> m k = Some v \<and> \<not> stale v"
  by (auto simp: map_prune_def split: option.splits)

lemma map_prune_None:
  "map_prune stale m k = None \<longleftrightarrow> (case m k of None \<Rightarrow> True | Some v \<Rightarrow> stale v)"
  by (auto simp: map_prune_def split: option.splits)

lemma map_of_filter_values:
  "distinct (map fst xs) \<Longrightarrow> map_of (filter (\<lambda>(k, v). P v) xs) k =
     (case map_of xs k of None \<Rightarrow> None | Some v \<Rightarrow> if P v then Some v else None)"
proof (induction xs)
  case (Cons a xs)
  obtain k' v' where a: "a = (k', v')" by (cases a)
  with Cons.prems have "map_of xs k' = None" by (simp add: map_of_eq_None_iff)
  with Cons a show ?case by (auto split: option.splits)
qed simp

end
