(* ===== verification/FailureCounter.thy ===== *)
theory FailureCounter
  imports Prelude
begin

text \<open>
  The contract of a sliding-window failure counter with a lock, as the login middleware uses it:
  it asks for the remaining lock time of a key, records a failure for a key, and a reaper drops
  stale entries in the background. The locale states what a provider must do to the recent
  failures and to the lock of each key; the theorem proved once inside it is the point of such a
  counter: over any run, at most \<open>max_fail\<close> failures of a key fall into one window.
\<close>

section \<open>Runs of events with bounded density\<close>

text \<open>
  A log of event times is kept newest first. It is \<open>spaced\<close> when an event and the one \<open>n\<close>
  places before it are at least \<open>w\<close> apart.
\<close>

definition spaced :: "nat \<Rightarrow> duration \<Rightarrow> time list \<Rightarrow> bool" where
  "spaced n w log = (\<forall>i. i + n < length log \<longrightarrow> log ! (i + n) + w \<le> log ! i)"

definition in_window :: "time \<Rightarrow> duration \<Rightarrow> time list \<Rightarrow> time list" where
  "in_window t w log = filter (\<lambda>x. t \<le> x \<and> x < t + w) log"

lemma spaced_tl: "spaced n w (x # log) \<Longrightarrow> spaced n w log"
  unfolding spaced_def
proof (intro allI impI)
  fix i
  assume h: "\<forall>i. i + n < length (x # log) \<longrightarrow> (x # log) ! (i + n) + w \<le> (x # log) ! i"
    and "i + n < length log"
  then show "log ! (i + n) + w \<le> log ! i" using spec [OF h, of "Suc i"] by simp
qed

lemma spaced_Cons:
  "spaced n w log \<Longrightarrow> 0 < n \<Longrightarrow> (n \<le> length log \<Longrightarrow> log ! (n - 1) + w \<le> x) \<Longrightarrow> spaced n w (x # log)"
  unfolding spaced_def
proof (intro allI impI)
  fix i
  assume h: "\<forall>i. i + n < length log \<longrightarrow> log ! (i + n) + w \<le> log ! i"
    and n: "0 < n" and x: "n \<le> length log \<Longrightarrow> log ! (n - 1) + w \<le> x"
    and i: "i + n < length (x # log)"
  show "(x # log) ! (i + n) + w \<le> (x # log) ! i"
  proof (cases i)
    case 0
    with i n x show ?thesis by (simp add: nth_Cons')
  next
    case (Suc j)
    with i spec [OF h, of j] show ?thesis by simp
  qed
qed

theorem spaced_window_bound:
  "sorted (rev log) \<Longrightarrow> spaced n w log \<Longrightarrow> 0 < n \<Longrightarrow> length (in_window t w log) \<le> n"
proof (induction log)
  case Nil
  then show ?case by (simp add: in_window_def)
next
  case (Cons x log)
  have desc: "\<forall>y \<in> set log. y \<le> x" and srt: "sorted (rev log)"
    using Cons.prems(1) by (auto simp: sorted_append)
  show ?case
  proof (cases "t \<le> x \<and> x < t + w")
    case False
    then have "in_window t w (x # log) = in_window t w log" by (auto simp: in_window_def)
    then show ?thesis using Cons.IH [OF srt spaced_tl [OF Cons.prems(2)] Cons.prems(3)] by simp
  next
    case True
    let ?l = "x # log"
    have old: "y < t" if y: "y \<in> set (drop n ?l)" for y
    proof -
      from y have lt: "n < length ?l" by (cases "n < length ?l") auto
      have "y \<le> ?l ! n"
        by (rule sorted_rev_drop_le [OF Cons.prems(1) lt y])
      moreover have "?l ! n + w \<le> x"
        using Cons.prems(2) lt unfolding spaced_def by (auto dest: spec [of _ 0])
      ultimately show ?thesis using True by linarith
    qed
    have "in_window t w ?l = in_window t w (take n ?l @ drop n ?l)" by simp
    also have "\<dots> = in_window t w (take n ?l)"
    proof -
      have "in_window t w (drop n ?l) = []"
        unfolding in_window_def filter_empty_conv using old by force
      then show ?thesis by (simp only: in_window_def filter_append append_Nil2)
    qed
    also have "length \<dots> \<le> n" unfolding in_window_def
      by (rule order_trans [OF length_filter_le]) simp
    finally show ?thesis .
  qed
qed

text \<open>
  A counter holds the recent part of a log: what it has forgotten is at least \<open>w\<close> older than the
  horizon \<open>hz\<close>. Forgetting more of the oldest is sound once it is that old.
\<close>

definition held :: "duration \<Rightarrow> time \<Rightarrow> time list \<Rightarrow> time list \<Rightarrow> bool" where
  "held w hz hits log = (rev hits = take (length hits) log \<and>
     (\<forall>t \<in> set (drop (length hits) log). t + w \<le> hz))"

lemma held_Nil [simp]: "held w hz [] []"
  by (simp add: held_def)

lemma held_later: "held w hz hits log \<Longrightarrow> hz \<le> hz' \<Longrightarrow> held w hz' hits log"
  unfolding held_def by fastforce

lemma held_snoc: "held w hz hits log \<Longrightarrow> held w hz (hits @ [t]) (t # log)"
  by (simp add: held_def)

lemma held_sorted:
  assumes "held w hz hits log" and "sorted (rev log)"
  shows "sorted hits"
proof -
  have "hits = rev (take (length hits) log)" using assms(1) by (metis held_def rev_rev_ident)
  then show ?thesis using assms(2) by (metis append_take_drop_id rev_append sorted_append)
qed

lemma held_forget:
  assumes h: "held w hz hits log" and split: "hits = old @ new"
    and old: "\<And>t. t \<in> set old \<Longrightarrow> t + w \<le> hz'" and le: "hz \<le> hz'"
  shows "held w hz' new log"
proof -
  let ?n = "length new" and ?f = "length hits"
  have rv: "rev hits = take ?f log" using h by (simp add: held_def)
  have log: "log = rev new @ rev old @ drop ?f log"
    using split by (metis append_assoc append_take_drop_id rev_append rv)
  then have "take ?n log = rev new" and "drop ?n log = rev old @ drop ?f log"
    by (metis append_eq_conv_conj length_rev)+
  then show ?thesis using old h le by (fastforce simp: held_def)
qed

lemma held_filter:
  assumes "held w hz hits log" and "sorted (rev log)" and "hz \<le> now"
  shows "held w now (filter (\<lambda>t. now - w < t) hits) log"
proof -
  obtain old where split: "hits = old @ filter (\<lambda>t. now - w < t) hits"
    and old: "\<forall>t \<in> set old. t \<le> now - w"
    using sorted_filter_greater_suffix [OF held_sorted [OF assms(1,2)]] by blast
  show ?thesis by (rule held_forget [OF assms(1) split]) (use old assms(3) in auto)
qed

lemma held_spaced_Cons:
  assumes sp: "spaced n w log" and n: "0 < n" and h: "held w hz hits log"
    and len: "length hits < n" and le: "hz \<le> x"
  shows "spaced n w (x # log)"
proof (rule spaced_Cons [OF sp n])
  assume "n \<le> length log"
  then have "log ! (n - 1) \<in> set (drop (length hits) log)"
    using len n by (auto simp: in_set_conv_nth intro!: exI [of _ "n - 1 - length hits"])
  then show "log ! (n - 1) + w \<le> x" using h le by (fastforce simp: held_def)
qed

section \<open>The contract\<close>

locale failure_counter =
  fixes fails :: "'m \<Rightarrow> 'k \<Rightarrow> time list"
    and until :: "'m \<Rightarrow> 'k \<Rightarrow> time"
    and remaining :: "time \<Rightarrow> 'k \<Rightarrow> 'm \<Rightarrow> duration"
    and trimmed :: "time \<Rightarrow> 'k \<Rightarrow> 'm \<Rightarrow> 'm"
    and engaged :: "time \<Rightarrow> 'k \<Rightarrow> 'm \<Rightarrow> bool"
    and recorded :: "time \<Rightarrow> 'k \<Rightarrow> 'm \<Rightarrow> 'm"
    and reaped :: "time \<Rightarrow> 'm \<Rightarrow> 'm"
    and window lock :: duration
    and max_fail :: nat
  assumes window_pos: "0 < window"
    and window_le_lock: "window \<le> lock"
    and max_fail_pos: "0 < max_fail"
    and remaining_eq: "0 < now \<Longrightarrow> remaining now k m = max 0 (until m k - now)"
    and trimmed_locked: "now < until m k \<Longrightarrow> trimmed now k m = m"
    and trimmed_fails: "until m k \<le> now \<Longrightarrow>
          fails (trimmed now k m) k = filter (\<lambda>t. now - window < t) (fails m k)"
    and trimmed_other: "k' \<noteq> k \<Longrightarrow> fails (trimmed now k m) k' = fails m k'"
    and trimmed_until: "until (trimmed now k m) k' = until m k'"
    and engaged_iff: "engaged now k m = (max_fail \<le> Suc (length (fails m k)))"
    and recorded_engaged: "engaged now k m \<Longrightarrow>
          fails (recorded now k m) k = [] \<and> until (recorded now k m) k = now + lock"
    and recorded_counted: "\<not> engaged now k m \<Longrightarrow>
          fails (recorded now k m) k = fails m k @ [now] \<and> until (recorded now k m) k = until m k"
    and recorded_other: "k' \<noteq> k \<Longrightarrow>
          fails (recorded now k m) k' = fails m k' \<and> until (recorded now k m) k' = until m k'"
    and reaped_keeps: "0 < now \<Longrightarrow>
          fails (reaped now m) k = fails m k \<and> until (reaped now m) k = until m k \<or>
          fails (reaped now m) k = [] \<and> until m k < now \<and> until (reaped now m) k < now \<and>
          (fails m k = [] \<or> last (fails m k) < now - (window + lock))"
begin

text \<open>
  How a counter represents the log of the failures it was told about, at a moment \<open>now\<close>: it
  holds the most recent ones, fewer than the limit; whatever it has forgotten is either out of the
  window already or will be when the lock ends.
\<close>

definition tracks :: "'m \<Rightarrow> 'k \<Rightarrow> time list \<Rightarrow> time \<Rightarrow> bool" where
  "tracks m k log now = (sorted (rev log) \<and> (\<forall>t \<in> set log. t \<le> now) \<and> spaced max_fail window log \<and>
     length (fails m k) < max_fail \<and> held window (max now (until m k)) (fails m k) log)"

lemma tracks_init: "fails m k = [] \<Longrightarrow> tracks m k [] now"
  using max_fail_pos by (simp add: tracks_def spaced_def)

lemma tracks_later: "tracks m k log now \<Longrightarrow> now \<le> now' \<Longrightarrow> tracks m k log now'"
  unfolding tracks_def by (fastforce elim: held_later)

lemma tracks_window:
  "tracks m k log now \<Longrightarrow> length (in_window t window log) \<le> max_fail"
  by (rule spaced_window_bound) (auto simp: tracks_def max_fail_pos)

lemma tracks_frame:
  "fails m' k = fails m k \<Longrightarrow> until m' k = until m k \<Longrightarrow> tracks m' k log now = tracks m k log now"
  unfolding tracks_def by (simp only:)

lemma tracks_trimmed:
  assumes tr: "tracks m k log now"
  shows "tracks (trimmed now k m) k log now"
proof (cases "now < until m k")
  case True
  then show ?thesis using tr by (simp add: trimmed_locked)
next
  case False
  then have "held window now (filter (\<lambda>t. now - window < t) (fails m k)) log"
    using tr by (intro held_filter [of _ "max now (until m k)"]) (auto simp: tracks_def)
  moreover have "length (filter (\<lambda>t. now - window < t) (fails m k)) < max_fail"
    using tr by (auto simp: tracks_def intro: le_less_trans [OF length_filter_le])
  ultimately show ?thesis using tr False by (simp add: tracks_def trimmed_fails trimmed_until max_def)
qed

lemma tracks_reaped:
  assumes tr: "tracks m k log now" and now: "0 < now"
  shows "tracks (reaped now m) k log now"
  using reaped_keeps [OF now, of m k]
proof
  assume "fails (reaped now m) k = fails m k \<and> until (reaped now m) k = until m k"
  then show ?thesis using tr tracks_frame by blast
next
  assume r: "fails (reaped now m) k = [] \<and> until m k < now \<and> until (reaped now m) k < now \<and>
    (fails m k = [] \<or> last (fails m k) < now - (window + lock))"
  have h: "held window now (fails m k) log" using tr r by (simp add: tracks_def max_def)
  have old: "t + window \<le> now" if t: "t \<in> set (fails m k)" for t
  proof -
    have "t \<le> last (fails m k)"
      using t tr by (intro sorted_le_last held_sorted [OF h]) (auto simp: tracks_def)
    moreover have "last (fails m k) < now - (window + lock)" using t r by auto
    ultimately show ?thesis using window_pos window_le_lock by linarith
  qed
  have "held window now [] log" by (rule held_forget [OF h, of "fails m k"]) (use old in auto)
  then show ?thesis using tr r max_fail_pos by (simp add: tracks_def max_def)
qed

text \<open>
  Recording a failure at \<open>now\<close>, after the lock was seen open at \<open>at \<le> now\<close>.
\<close>

lemma tracks_recorded:
  assumes tr: "tracks m k log at" and unlocked: "until m k \<le> at" and le: "at \<le> now"
  shows "tracks (recorded now k m) k (now # log) now"
proof -
  have h: "held window at (fails m k) log" and len: "length (fails m k) < max_fail"
    and srt: "sorted (rev (now # log))" "\<forall>t \<in> set (now # log). t \<le> now"
    using tr unlocked le by (auto simp: tracks_def max_def sorted_append intro: order_trans split: if_splits)
  have spc: "spaced max_fail window (now # log)"
    using tr by (intro held_spaced_Cons [OF _ max_fail_pos h len le]) (simp add: tracks_def)
  show ?thesis
  proof (cases "engaged now k m")
    case True
    have "\<forall>t \<in> set (now # log). t + window \<le> max now (now + lock)"
    proof
      fix t
      assume "t \<in> set (now # log)"
      with srt(2) have "t \<le> now" by blast
      with window_le_lock show "t + window \<le> max now (now + lock)" by linarith
    qed
    then show ?thesis using srt spc max_fail_pos recorded_engaged [OF True]
      unfolding tracks_def held_def by simp
  next
    case False
    have "held window (max now (until m k)) (fails m k @ [now]) (now # log)"
      by (rule held_snoc [OF held_later [OF h]]) (use le in simp)
    then show ?thesis using srt spc False by (simp add: tracks_def recorded_counted engaged_iff)
  qed
qed

lemma tracks_other:
  "k' \<noteq> k \<Longrightarrow> tracks (trimmed now k m) k' log at = tracks m k' log at"
  "k' \<noteq> k \<Longrightarrow> tracks (recorded now k m) k' log at = tracks m k' log at"
  by (rule tracks_frame; simp add: trimmed_other trimmed_until recorded_other)+

text \<open>A locked key stays locked: neither a lookup nor the reaper ends a lock early.\<close>

lemma lock_kept:
  "now < until m k \<Longrightarrow> until (trimmed at k' m) k = until m k"
  "0 < now \<Longrightarrow> now < until m k \<Longrightarrow> until (reaped now m) k = until m k"
  using reaped_keeps [of now m k] by (auto simp: trimmed_until)

lemma remaining_pos_iff: "0 < now \<Longrightarrow> 0 < remaining now k m \<longleftrightarrow> now < until m k"
  by (auto simp: remaining_eq)

end

end
