(* ===== verification/GoText.thy ===== *)
theory GoText
  imports Prelude "HOL-Library.Sublist"
begin

text \<open>
  The part of Go's \<open>strings\<close>, \<open>strconv\<close>, \<open>unicode/utf8\<close> and \<open>bufio\<close> that the modelled code calls.
  A Go string is a byte sequence, which is what HOL's \<^typ>\<open>string\<close> is. Case mapping is exact on
  ASCII; the mapping tables of package \<open>unicode\<close> are left out, so bytes from 128 up are kept.
\<close>

section \<open>Bytes and runes\<close>

definition byte :: "char \<Rightarrow> nat" where
  "byte c = of_char c"

definition byte_in :: "nat \<Rightarrow> nat \<Rightarrow> char \<Rightarrow> bool" where
  "byte_in lo hi c = (lo \<le> byte c \<and> byte c \<le> hi)"

definition cont_byte :: "char \<Rightarrow> bool" where
  "cont_byte c = byte_in 128 191 c"

text \<open>
  The size of the rune \<open>utf8.DecodeRuneInString\<close> reads at the start of a string: 1 for
  ASCII and for every byte that begins no well-formed sequence.
\<close>

fun rune_width :: "string \<Rightarrow> nat" where
  "rune_width [] = 0"
| "rune_width (a # s) =
     (if byte_in 194 223 a \<and> (case s of b # _ \<Rightarrow> cont_byte b | _ \<Rightarrow> False) then 2
      else if byte_in 224 239 a \<and> (case s of b # c # _ \<Rightarrow>
          (if byte a = 224 then byte_in 160 191 b
           else if byte a = 237 then byte_in 128 159 b else cont_byte b) \<and> cont_byte c
        | _ \<Rightarrow> False) then 3
      else if byte_in 240 244 a \<and> (case s of b # c # d # _ \<Rightarrow>
          (if byte a = 240 then byte_in 144 191 b
           else if byte a = 244 then byte_in 128 143 b else cont_byte b) \<and> cont_byte c \<and> cont_byte d
        | _ \<Rightarrow> False) then 4
      else 1)"

text \<open>A byte that is no rune on its own and begins no well-formed sequence.\<close>

definition invalid_lead :: "string \<Rightarrow> bool" where
  "invalid_lead s = (s \<noteq> [] \<and> rune_width s = 1 \<and> 128 \<le> byte (hd s))"

lemma rune_width_bounds: "s \<noteq> [] \<Longrightarrow> 1 \<le> rune_width s \<and> rune_width s \<le> length s"
  by (cases s) (auto split: list.splits)

lemma rune_width_le_4: "rune_width s \<le> 4"
  by (cases s) (auto split: list.splits)

lemma rune_width_eq_0 [simp]: "rune_width s = 0 \<longleftrightarrow> s = []"
  using rune_width_bounds [of s] by (cases "s = []") auto

text \<open>The runes of \<open>for _, r := range s\<close>, each as the bytes it was read from.\<close>

function (sequential) runes :: "string \<Rightarrow> string list" where
  "runes [] = []"
| "runes (a # s) = take (rune_width (a # s)) (a # s) # runes (drop (rune_width (a # s)) (a # s))"
  by pat_completeness auto
termination
proof (relation "measure length", goal_cases)
  case (2 a s)
  have "1 \<le> rune_width (a # s)" using rune_width_bounds [of "a # s"] by simp
  then show ?case by (simp del: rune_width.simps)
qed simp

declare runes.simps(2) [simp del]
declare rune_width.simps(2) [simp del]

lemma concat_runes [simp]: "concat (runes s) = s"
proof (induction s rule: runes.induct)
  case (2 a s)
  then show ?case by (simp add: runes.simps(2))
qed simp

text \<open>What \<open>WriteRune\<close> appends for a rune of a range loop: an invalid byte was read as U+FFFD.\<close>

definition write_rune :: "string \<Rightarrow> string" where
  "write_rune r = (if invalid_lead r then [CHR 0xEF, CHR 0xBF, CHR 0xBD] else r)"

section \<open>ASCII case\<close>

definition lower_char :: "char \<Rightarrow> char" where
  "lower_char c = (if byte_in 65 90 c then char_of (byte c + 32) else c)"

definition upper_char :: "char \<Rightarrow> char" where
  "upper_char c = (if byte_in 97 122 c then char_of (byte c - 32) else c)"

definition to_lower :: "string \<Rightarrow> string" where "to_lower s = map lower_char s"
definition to_upper :: "string \<Rightarrow> string" where "to_upper s = map upper_char s"

lemma length_to_lower [simp]: "length (to_lower s) = length s"
  by (simp add: to_lower_def)

lemma lower_char_idem [simp]: "lower_char (lower_char c) = lower_char c"
  by (auto simp: lower_char_def byte_in_def byte_def)

lemma to_lower_idem [simp]: "to_lower (to_lower s) = to_lower s"
  by (simp add: to_lower_def)

lemma to_lower_append: "to_lower (s @ t) = to_lower s @ to_lower t"
  by (simp add: to_lower_def)

section \<open>Searching, trimming, splitting\<close>

definition has_prefix :: "string \<Rightarrow> string \<Rightarrow> bool" where
  "has_prefix s p = (take (length p) s = p)"

definition has_suffix :: "string \<Rightarrow> string \<Rightarrow> bool" where
  "has_suffix s p = (length p \<le> length s \<and> drop (length s - length p) s = p)"

lemma has_prefix_iff: "has_prefix s p \<longleftrightarrow> (\<exists>t. s = p @ t)"
  by (auto simp: has_prefix_def intro: exI [of _ "drop (length p) s"])
     (metis append_take_drop_id)

lemma has_suffix_iff: "has_suffix s p \<longleftrightarrow> (\<exists>t. s = t @ p)"
  by (auto simp: has_suffix_def)
     (metis append_take_drop_id)

text \<open>\<open>strings.Index\<close>: the least offset at which \<open>p\<close> occurs, \<open>None\<close> for -1.\<close>

fun index_of :: "string \<Rightarrow> string \<Rightarrow> nat option" where
  "index_of s p = (if has_prefix s p then Some 0
     else (case s of [] \<Rightarrow> None | _ # t \<Rightarrow> map_option Suc (index_of t p)))"

declare index_of.simps [simp del]

definition contains :: "string \<Rightarrow> string \<Rightarrow> bool" where
  "contains s p = (index_of s p \<noteq> None)"

lemma index_of_Some:
  "index_of s p = Some i \<Longrightarrow> i + length p \<le> length s \<and> take (length p) (drop i s) = p"
proof (induction s arbitrary: i)
  case Nil
  then show ?case by (auto simp: index_of.simps [of "[]" p] has_prefix_def split: if_splits)
next
  case (Cons a s)
  show ?case
  proof (cases "has_prefix (a # s) p")
    case True
    with Cons.prems have "i = 0" by (simp add: index_of.simps [of "a # s" p])
    from True have "take (length p) (a # s) = p" by (simp add: has_prefix_def)
    moreover from this have "length p \<le> length (a # s)" by (metis length_take min.cobounded1)
    ultimately show ?thesis using \<open>i = 0\<close> by simp
  next
    case False
    with Cons.prems obtain j where "index_of s p = Some j" "i = Suc j"
      by (auto simp: index_of.simps [of "a # s" p])
    with Cons.IH show ?thesis by auto
  qed
qed

lemma contains_iff: "contains s p \<longleftrightarrow> (\<exists>a b. s = a @ p @ b)"
proof (induction s)
  case Nil
  then show ?case
    by (auto simp: contains_def index_of.simps [of "[]" p] has_prefix_def)
next
  case (Cons x s)
  have step: "contains (x # s) p \<longleftrightarrow> has_prefix (x # s) p \<or> contains s p"
    by (auto simp: contains_def index_of.simps [of "x # s" p])
  have "(\<exists>a b. x # s = a @ p @ b) \<longleftrightarrow> has_prefix (x # s) p \<or> (\<exists>a b. s = a @ p @ b)"
  proof
    assume "\<exists>a b. x # s = a @ p @ b"
    then obtain a b where ab: "x # s = a @ p @ b" by blast
    then show "has_prefix (x # s) p \<or> (\<exists>a b. s = a @ p @ b)"
      by (cases a) (auto simp: has_prefix_iff)
  next
    assume "has_prefix (x # s) p \<or> (\<exists>a b. s = a @ p @ b)"
    then show "\<exists>a b. x # s = a @ p @ b"
      by (metis append_Cons append_Nil has_prefix_iff)
  qed
  then show ?case using step Cons.IH by simp
qed

definition trim_prefix :: "string \<Rightarrow> string \<Rightarrow> string" where
  "trim_prefix s p = (if has_prefix s p then drop (length p) s else s)"

definition trim_suffix :: "string \<Rightarrow> string \<Rightarrow> string" where
  "trim_suffix s p = (if has_suffix s p then take (length s - length p) s else s)"

text \<open>\<open>strings.Trim(s, cutset)\<close> and \<open>TrimLeft\<close>, for a cutset of ASCII bytes.\<close>

definition trim_left :: "string \<Rightarrow> string \<Rightarrow> string" where
  "trim_left s cs = dropWhile (\<lambda>c. c \<in> set cs) s"

definition trim_right :: "string \<Rightarrow> string \<Rightarrow> string" where
  "trim_right s cs = rev (dropWhile (\<lambda>c. c \<in> set cs) (rev s))"

definition trim :: "string \<Rightarrow> string \<Rightarrow> string" where
  "trim s cs = trim_right (trim_left s cs) cs"

text \<open>
  \<open>strings.TrimSpace\<close>. The size of the whitespace rune a string begins with, 0 for none:
  the ASCII six, U+0085, U+00A0, U+1680, U+2000 to U+200A, U+2028, U+2029, U+202F, U+205F, U+3000.
\<close>

definition ascii_space :: "char \<Rightarrow> bool" where
  "ascii_space c = (byte c = 32 \<or> byte_in 9 13 c)"

definition space_width :: "string \<Rightarrow> nat" where
  "space_width s = (case s of
      [] \<Rightarrow> 0
    | a # t \<Rightarrow>
        if ascii_space a then 1
        else (case t of
            [] \<Rightarrow> 0
          | b # u \<Rightarrow>
              if byte a = 194 \<and> (byte b = 133 \<or> byte b = 160) then 2
              else (case u of
                  [] \<Rightarrow> 0
                | c # _ \<Rightarrow>
                    if (byte a = 225 \<and> byte b = 154 \<and> byte c = 128)
                     \<or> (byte a = 226 \<and> byte b = 128 \<and>
                          (byte_in 128 138 c \<or> byte c = 168 \<or> byte c = 169 \<or> byte c = 175))
                     \<or> (byte a = 226 \<and> byte b = 129 \<and> byte c = 159)
                     \<or> (byte a = 227 \<and> byte b = 128 \<and> byte c = 128) then 3 else 0)))"

text \<open>The same tests on characters, which evaluate faster than on their numbers.\<close>

lemma byte_eq_iff: "n < 256 \<Longrightarrow> byte c = n \<longleftrightarrow> c = char_of n"
  by (auto simp: byte_def)

lemma ascii_space_code [code]:
  "ascii_space c = (c = CHR 32 \<or> c = CHR 9 \<or> c = CHR 10 \<or> c = CHR 11 \<or> c = CHR 12 \<or> c = CHR 13)"
proof -
  have "9 \<le> n \<and> n \<le> 13 \<longleftrightarrow> n = 9 \<or> n = 10 \<or> n = 11 \<or> n = 12 \<or> n = 13" for n :: nat by auto
  then show ?thesis by (simp add: ascii_space_def byte_in_def byte_eq_iff char_of_def bit_0)
qed

lemma space_width_code [code]:
  "space_width s = (case s of
      [] \<Rightarrow> 0
    | a # t \<Rightarrow>
        if ascii_space a then 1
        else if a = CHR 0xC2 then (case t of b # _ \<Rightarrow> if b = CHR 0x85 \<or> b = CHR 0xA0 then 2 else 0 | _ \<Rightarrow> 0)
        else if a = CHR 0xE1 \<or> a = CHR 0xE2 \<or> a = CHR 0xE3 then
          (case t of
             b # c # _ \<Rightarrow>
               if (byte a = 225 \<and> byte b = 154 \<and> byte c = 128)
                \<or> (byte a = 226 \<and> byte b = 128 \<and>
                     (byte_in 128 138 c \<or> byte c = 168 \<or> byte c = 169 \<or> byte c = 175))
                \<or> (byte a = 226 \<and> byte b = 129 \<and> byte c = 159)
                \<or> (byte a = 227 \<and> byte b = 128 \<and> byte c = 128) then 3 else 0
           | _ \<Rightarrow> 0)
        else 0)"
proof (cases s)
  case (Cons a t)
  have "byte a = 194 \<longleftrightarrow> a = CHR 0xC2" "byte a = 225 \<longleftrightarrow> a = CHR 0xE1"
    "byte a = 226 \<longleftrightarrow> a = CHR 0xE2" "byte a = 227 \<longleftrightarrow> a = CHR 0xE3"
    "\<And>b. byte b = 133 \<longleftrightarrow> b = CHR 0x85" "\<And>b. byte b = 160 \<longleftrightarrow> b = CHR 0xA0"
    by (simp_all add: byte_eq_iff char_of_def bit_0)
  note bytes = this
  show ?thesis
  proof (cases "a = CHR 0xC2")
    case True
    then have "byte a = 194" using bytes by simp
    then show ?thesis using Cons True bytes
      by (cases t; cases "tl t") (simp_all add: space_width_def)
  next
    case False
    then have "byte a \<noteq> 194" using bytes by simp
    then show ?thesis using Cons False bytes
      by (cases t; cases "tl t") (simp_all add: space_width_def)
  qed
qed (simp add: space_width_def)

lemma space_width_le: "space_width s \<le> length s"
  by (auto simp: space_width_def split: list.splits)

function trim_space_left :: "string \<Rightarrow> string" where
  "trim_space_left s = (if space_width s = 0 then s else trim_space_left (drop (space_width s) s))"
  by pat_completeness auto
termination
proof (relation "measure length", goal_cases)
  case (2 s)
  then show ?case using space_width_le [of s] by (cases s) (auto simp: space_width_def)
qed simp

declare trim_space_left.simps [simp del]

text \<open>The size of the whitespace rune a string ends with, 0 for none.\<close>

definition space_suffix_width :: "string \<Rightarrow> nat" where
  "space_suffix_width s =
     (if s = [] then 0
      else if ascii_space (last s) then 1
      else if 2 \<le> length s \<and> space_width (drop (length s - 2) s) = 2 then 2
      else if 3 \<le> length s \<and> space_width (drop (length s - 3) s) = 3 then 3
      else 0)"

function trim_space_right :: "string \<Rightarrow> string" where
  "trim_space_right s = (if space_suffix_width s = 0 then s
     else trim_space_right (take (length s - space_suffix_width s) s))"
  by pat_completeness auto
termination
  by (relation "measure length") (auto simp: space_suffix_width_def split: if_splits)

declare trim_space_right.simps [simp del]

definition trim_space :: "string \<Rightarrow> string" where
  "trim_space s = trim_space_right (trim_space_left s)"

lemma trim_space_left_suffix: "suffix (trim_space_left s) s"
proof (induction s rule: trim_space_left.induct)
  case (1 s)
  show ?case
  proof (cases "space_width s = 0")
    case True
    then show ?thesis by (simp add: trim_space_left.simps [of s])
  next
    case False
    with 1 have "suffix (trim_space_left (drop (space_width s) s)) (drop (space_width s) s)" by simp
    then show ?thesis using False
      by (auto simp: trim_space_left.simps [of s] intro: suffix_order.trans suffix_drop)
  qed
qed

lemma trim_space_right_prefix: "prefix (trim_space_right s) s"
proof (induction s rule: trim_space_right.induct)
  case (1 s)
  show ?case
  proof (cases "space_suffix_width s = 0")
    case True
    then show ?thesis by (simp add: trim_space_right.simps [of s])
  next
    case False
    with 1 show ?thesis
      by (auto simp: trim_space_right.simps [of s] intro: prefix_order.trans take_is_prefix)
  qed
qed

lemma length_trim_space: "length (trim_space s) \<le> length s"
  using suffix_length_le [OF trim_space_left_suffix [of s]]
    prefix_length_le [OF trim_space_right_prefix [of "trim_space_left s"]]
  by (simp add: trim_space_def)

lemma set_trim_space: "set (trim_space s) \<subseteq> set s"
  using set_mono_suffix [OF trim_space_left_suffix [of s]]
    set_mono_prefix [OF trim_space_right_prefix [of "trim_space_left s"]]
  by (auto simp: trim_space_def)

text \<open>\<open>strings.Split\<close> with a separator of one byte.\<close>

fun split_on :: "char \<Rightarrow> string \<Rightarrow> string list" where
  "split_on d [] = [[]]"
| "split_on d (c # s) =
     (if c = d then [] # split_on d s
      else (case split_on d s of [] \<Rightarrow> [[c]] | f # fs \<Rightarrow> (c # f) # fs))"

lemma split_on_nonempty [simp]: "split_on d s \<noteq> []"
  by (cases s) (auto split: list.splits)

text \<open>\<open>strings.Join\<close>.\<close>

fun join :: "string \<Rightarrow> string list \<Rightarrow> string" where
  "join sep [] = []"
| "join sep [x] = x"
| "join sep (x # y # xs) = x @ sep @ join sep (y # xs)"

lemma join_split_on: "join [d] (split_on d s) = s"
proof (induction s)
  case (Cons c s)
  then show ?case
    by (cases "split_on d s" rule: list.exhaust; cases "tl (split_on d s)") auto
qed simp

lemma split_on_free: "f \<in> set (split_on d s) \<Longrightarrow> d \<notin> set f"
  by (induction s arbitrary: f) (auto split: list.splits if_splits)

lemma split_on_none: "d \<notin> set x \<Longrightarrow> split_on d x = [x]"
  by (induction x) auto

lemma split_on_first: "d \<notin> set x \<Longrightarrow> split_on d (x @ d # s) = x # split_on d s"
  by (induction x) auto

lemma split_on_join:
  "xs \<noteq> [] \<Longrightarrow> \<forall>x \<in> set xs. d \<notin> set x \<Longrightarrow> split_on d (join [d] xs) = xs"
proof (induction xs rule: list_nonempty_induct)
  case (single x)
  then show ?case by (simp add: split_on_none)
next
  case (cons x xs)
  then show ?case by (cases xs) (simp_all add: split_on_first)
qed

text \<open>\<open>strings.Fields\<close>: the maximal runs without whitespace runes.\<close>

function (sequential) fields_acc :: "string \<Rightarrow> string \<Rightarrow> string list" where
  "fields_acc cur [] = (if cur = [] then [] else [rev cur])"
| "fields_acc cur (c # s) =
     (if space_width (c # s) = 0 then fields_acc (c # cur) s
      else (if cur = [] then [] else [rev cur]) @ fields_acc [] (drop (space_width (c # s)) (c # s)))"
  by pat_completeness auto
termination by (relation "measure (\<lambda>(cur, s). length s)") (auto simp: drop_Cons')

declare fields_acc.simps(2) [simp del]

definition fields :: "string \<Rightarrow> string list" where
  "fields s = fields_acc [] s"

text \<open>A word has no whitespace rune in it, wherever a rune is looked for.\<close>

definition word :: "string \<Rightarrow> bool" where
  "word f = (f \<noteq> [] \<and> (\<forall>i < length f. space_width (drop i f) = 0))"

lemma space_width_plain: "byte c < 128 \<Longrightarrow> \<not> ascii_space c \<Longrightarrow> space_width (c # s) = 0"
  by (auto simp: space_width_def split: list.splits)

lemma space_width_before_plain:
  assumes a: "a \<noteq> []" "space_width a = 0" and c: "byte c < 128"
  shows "space_width (a @ c # t) = 0"
proof -
  obtain x y where x: "a = x # y" using a by (cases a) auto
  show ?thesis
  proof (cases y)
    case Nil
    with a x c show ?thesis by (auto simp: space_width_def byte_in_def split: list.splits if_splits)
  next
    case (Cons z w)
    with a x c show ?thesis
      by (cases w) (auto simp: space_width_def byte_in_def split: list.splits if_splits)
  qed
qed

lemma fields_acc_word:
  assumes "\<forall>i < length f. space_width (drop i f) = 0"
  shows "fields_acc cur f = (if rev cur @ f = [] then [] else [rev cur @ f])"
    and "fields_acc cur (f @ CHR '' '' # t) = (if rev cur @ f = [] then [] else [rev cur @ f]) @ fields_acc [] t"
  using assms
proof (induction f arbitrary: cur)
  case Nil
  {
    case 1
    show ?case by simp
  next
    case 2
    have "space_width (CHR '' '' # t) = 1" by (simp add: space_width_def ascii_space_def byte_def)
    then show ?case by (simp add: fields_acc.simps(2))
  }
next
  case (Cons c f)
  {
    case 1
    then have "space_width (c # f) = 0" and "\<forall>i < length f. space_width (drop i f) = 0" by force+
    then show ?case using Cons.IH(1) [of "c # cur"] by (simp add: fields_acc.simps(2))
  next
    case 2
    then have w: "space_width (c # f) = 0" and "\<forall>i < length f. space_width (drop i f) = 0" by force+
    moreover have "space_width (c # f @ CHR '' '' # t) = 0"
      using space_width_before_plain [of "c # f" "CHR '' ''" t] w by (simp add: byte_def)
    ultimately show ?case using Cons.IH(2) [of "c # cur"] by (simp add: fields_acc.simps(2))
  }
qed

lemma fields_join: "list_all word fs \<Longrightarrow> fields (join '' '' fs) = fs"
proof (induction "'' ''" fs rule: join.induct)
  case (2 x)
  then show ?case using fields_acc_word(1) [of x "[]"] by (simp add: fields_def word_def)
next
  case (3 x y xs)
  then show ?case using fields_acc_word(2) [of x "[]" "join '' '' (y # xs)"] by (simp add: fields_def word_def)
qed (simp add: fields_def)

lemma space_width_prefix: "space_width (x @ y) = 0 \<Longrightarrow> space_width x = 0"
proof (cases x)
  case (Cons a t)
  assume z: "space_width (x @ y) = 0"
  show ?thesis
  proof (cases t)
    case Nil
    with z Cons show ?thesis by (simp add: space_width_def split: if_splits)
  next
    case (Cons b u)
    with z \<open>x = a # t\<close> show ?thesis by (cases u) (simp_all add: space_width_def split: if_splits)
  qed
qed (simp add: space_width_def)

lemma fields_acc_words:
  "(\<forall>i < length cur. space_width (drop i (rev cur @ s)) = 0) \<Longrightarrow> list_all word (fields_acc cur s)"
proof (induction cur s rule: fields_acc.induct)
  case (1 cur)
  then show ?case by (simp add: word_def)
next
  case (2 cur c s)
  have cur: "cur = [] \<or> word (rev cur)"
  proof (cases cur)
    case (Cons x xs)
    have "space_width (drop i (rev cur)) = 0" if "i < length cur" for i
      using 2(3) that space_width_prefix [of "drop i (rev cur)" "c # s"] by simp
    then show ?thesis by (simp add: word_def)
  qed simp
  show ?case
  proof (cases "space_width (c # s) = 0")
    case True
    have "space_width (drop i (rev (c # cur) @ s)) = 0" if "i < length (c # cur)" for i
      using 2(3) that True by (cases "i = length cur") auto
    then have "list_all word (fields_acc (c # cur) s)" using 2(1) True by blast
    then show ?thesis using True by (simp add: fields_acc.simps(2))
  next
    case False
    then have "list_all word (fields_acc [] (drop (space_width (c # s)) (c # s)))" using 2(2) by simp
    then show ?thesis using cur False by (auto simp: fields_acc.simps(2))
  qed
qed

lemma fields_words: "list_all word (fields s)"
  by (simp add: fields_def fields_acc_words)

text \<open>\<open>strings.Cut(s, sep)\<close> for a separator of one byte.\<close>

fun cut_at :: "char \<Rightarrow> string \<Rightarrow> string \<times> string \<times> bool" where
  "cut_at d [] = ([], [], False)"
| "cut_at d (c # s) = (if c = d then ([], s, True)
     else (case cut_at d s of (a, b, found) \<Rightarrow> (c # a, b, found)))"

text \<open>\<open>strings.LastIndex(s, ":")\<close> and its like, for one byte.\<close>

definition last_index :: "char \<Rightarrow> string \<Rightarrow> nat option" where
  "last_index d s = (let n = length (takeWhile (\<lambda>c. c \<noteq> d) (rev s)) in
     if n = length s then None else Some (length s - Suc n))"

text \<open>\<open>strings.ReplaceAll\<close> for a pattern that is not empty.\<close>

function replace_all :: "string \<Rightarrow> string \<Rightarrow> string \<Rightarrow> string" where
  "replace_all s from to =
     (case s of [] \<Rightarrow> []
      | c # t \<Rightarrow>
          if from \<noteq> [] \<and> has_prefix s from then to @ replace_all (drop (length from) s) from to
          else c # replace_all t from to)"
  by pat_completeness auto
termination
  by (relation "measure (\<lambda>(s, from, to). length s)") (auto simp: has_prefix_def split: list.splits)

declare replace_all.simps [simp del]

lemma replace_all_absent: "hd pat \<notin> set s \<Longrightarrow> pat \<noteq> [] \<Longrightarrow> replace_all s pat rep = s"
proof (induction s)
  case (Cons c s)
  then have "\<not> has_prefix (c # s) pat" by (cases pat) (auto simp: has_prefix_def)
  then show ?case using Cons by (simp add: replace_all.simps [of "c # s"])
qed (simp add: replace_all.simps)

text \<open>
  \<open>strings.ToLower\<close> as far as it makes ASCII: besides the capital letters it turns U+0130 into i and
  U+212A into k. Other runes map to runes outside ASCII and are left as they are.
\<close>

definition go_lower :: "string \<Rightarrow> string" where
  "go_lower s = to_lower (replace_all (replace_all s [CHR 0xC4, CHR 0xB0] ''i'') [CHR 0xE2, CHR 0x84, CHR 0xAA] ''k'')"

section \<open>Numbers\<close>

fun digits_of :: "nat \<Rightarrow> string" where
  "digits_of n = (if n < 10 then [char_of (48 + n)] else digits_of (n div 10) @ [char_of (48 + n mod 10)])"

declare digits_of.simps [simp del]

text \<open>\<open>strconv.Itoa\<close>.\<close>

definition itoa :: "int \<Rightarrow> string" where
  "itoa i = (if i < 0 then CHR ''-'' # digits_of (nat (- i)) else digits_of (nat i))"

definition is_digit :: "char \<Rightarrow> bool" where
  "is_digit c = byte_in 48 57 c"

fun value_of :: "nat \<Rightarrow> string \<Rightarrow> nat" where
  "value_of acc [] = acc"
| "value_of acc (c # s) = value_of (10 * acc + (byte c - 48)) s"

definition all_digits :: "string \<Rightarrow> bool" where
  "all_digits s = list_all is_digit s"

text \<open>\<open>strconv.Atoi\<close> and \<open>ParseInt(s, 10, 64)\<close>: an optional sign, digits, the int64 range.\<close>

definition atoi :: "string \<Rightarrow> int option" where
  "atoi s =
     (let (neg, d) = (case s of c # t \<Rightarrow>
            if c = CHR ''-'' then (True, t) else if c = CHR ''+'' then (False, t) else (False, s)
          | [] \<Rightarrow> (False, s))
      in if d = [] \<or> \<not> all_digits d then None
         else let v = int (value_of 0 d) in
           if neg then (if v \<le> 2 ^ 63 then Some (- v) else None)
           else (if v < 2 ^ 63 then Some v else None))"

text \<open>
  \<open>n, _ := strconv.ParseInt(s, 10, 64)\<close> with the error dropped: 0 for a syntax error, the nearest
  int64 for a value out of range.
\<close>

definition parse_int_lossy :: "string \<Rightarrow> int" where
  "parse_int_lossy s =
     (let (neg, d) = (case s of c # t \<Rightarrow>
            if c = CHR ''-'' then (True, t) else if c = CHR ''+'' then (False, t) else (False, s)
          | [] \<Rightarrow> (False, s))
      in if d = [] \<or> \<not> all_digits d then 0
         else let v = int (value_of 0 d) in
           if neg then max (- v) (- (2 ^ 63)) else min v (2 ^ 63 - 1))"

lemma value_of_append: "value_of acc (s @ [c]) = 10 * value_of acc s + (byte c - 48)"
  by (induction s arbitrary: acc) auto

lemma digit_char [simp]:
  assumes "n < 10"
  shows "byte (char_of (48 + n)) = 48 + n"
  using assms by (simp add: byte_def)

lemma digits_of_digits: "all_digits (digits_of n) \<and> digits_of n \<noteq> [] \<and> value_of 0 (digits_of n) = n"
proof (induction n rule: digits_of.induct)
  case (1 n)
  show ?case
  proof (cases "n < 10")
    case True
    then show ?thesis
      by (subst digits_of.simps, subst (2) digits_of.simps, subst (3) digits_of.simps)
         (simp add: all_digits_def is_digit_def byte_in_def)
  next
    case False
    then have "digits_of n = digits_of (n div 10) @ [char_of (48 + n mod 10)]"
      by (subst digits_of.simps) simp
    with 1 False show ?thesis
      by (simp add: all_digits_def is_digit_def byte_in_def value_of_append)
  qed
qed

lemma digits_of_not_sign:
  "digits_of n = c # s \<Longrightarrow> c \<noteq> CHR ''-'' \<and> c \<noteq> CHR ''+''"
  using digits_of_digits [of n] by (auto simp: all_digits_def is_digit_def byte_in_def byte_def)

theorem atoi_itoa: "- (2 ^ 63) \<le> i \<Longrightarrow> i < 2 ^ 63 \<Longrightarrow> atoi (itoa i) = Some i"
proof -
  assume lo: "- (2 ^ 63) \<le> i" and hi: "i < 2 ^ 63"
  show ?thesis
  proof (cases "i < 0")
    case True
    with lo digits_of_digits [of "nat (- i)"] show ?thesis
      by (simp add: itoa_def atoi_def)
  next
    case False
    obtain c s where cs: "digits_of (nat i) = c # s"
      using digits_of_digits [of "nat i"] by (cases "digits_of (nat i)") auto
    with digits_of_not_sign [OF cs] digits_of_digits [of "nat i"] False hi show ?thesis
      by (simp add: itoa_def atoi_def Let_def)
  qed
qed

section \<open>\<open>bufio.Scanner\<close> over lines\<close>

text \<open>
  The default scanner yields lines without their newline and one carriage return before it,
  and stops with \<open>ErrTooLong\<close> at a line of 65536 bytes or more. The result is the lines it
  yields and whether \<open>Err()\<close> is set afterwards.
\<close>

definition max_scan_token :: int where "max_scan_token = 65536"

definition line_fits :: "string \<Rightarrow> bool" where "line_fits l = (int (length l) < max_scan_token)"

definition drop_cr :: "string \<Rightarrow> string" where
  "drop_cr l = (if l \<noteq> [] \<and> last l = CHR 13 then butlast l else l)"

fun scan_tokens :: "string list \<Rightarrow> string list \<times> bool" where
  "scan_tokens [] = ([], False)"
| "scan_tokens [l] = (if l = [] then ([], False)
     else if \<not> line_fits l then ([], True) else ([drop_cr l], False))"
| "scan_tokens (l # ls) = (if \<not> line_fits l then ([], True)
     else (case scan_tokens ls of (out, err) \<Rightarrow> (drop_cr l # out, err)))"

definition scan_lines :: "string \<Rightarrow> string list \<times> bool" where
  "scan_lines s = scan_tokens (split_on (CHR 10) s)"

section \<open>Facts the text rewriters share\<close>

lemma index_of_last: "d \<notin> set b \<Longrightarrow> last_index d (a @ d # b) = Some (length a)"
proof -
  assume "d \<notin> set b"
  then have "takeWhile (\<lambda>c. c \<noteq> d) (rev (a @ d # b)) = rev b"
    by (auto simp: takeWhile_append)
  then show ?thesis by (simp add: last_index_def Let_def)
qed

lemma last_index_None: "d \<notin> set s \<Longrightarrow> last_index d s = None"
proof -
  assume "d \<notin> set s"
  then have "takeWhile (\<lambda>c. c \<noteq> d) (rev s) = rev s" by (auto simp: takeWhile_eq_all_conv)
  then show ?thesis unfolding last_index_def by (simp only: Let_def length_rev simp_thms if_True)
qed

lemma last_index_Some:
  assumes "last_index d s = Some i"
  shows "i < length s \<and> s ! i = d \<and> d \<notin> set (drop (Suc i) s)"
proof -
  let ?w = "takeWhile (\<lambda>c. c \<noteq> d) (rev s)"
  have ne: "length ?w < length s" and i: "i = length s - Suc (length ?w)"
    using assms length_takeWhile_le [of "\<lambda>c. c \<noteq> d" "rev s"] by (auto simp: last_index_def Let_def split: if_splits)
  have "rev s ! length ?w = d" using ne nth_length_takeWhile [of "\<lambda>c. c \<noteq> d" "rev s"] by simp
  then have at: "s ! i = d" using ne i by (simp add: rev_nth)
  have "take (length ?w) (rev s) = ?w" by (metis takeWhile_eq_take)
  then have "drop (length s - length ?w) s = rev ?w" by (simp add: take_rev rev_swap)
  then have "drop (Suc i) s = rev ?w" using ne i by (simp only: Suc_diff_Suc diff_Suc_Suc)
  then have "d \<notin> set (drop (Suc i) s)" by (auto dest: set_takeWhileD)
  with at ne i show ?thesis by simp
qed

lemma digits_of_chars: "c \<in> set (digits_of n) \<Longrightarrow> is_digit c"
  using digits_of_digits [of n] by (auto simp: all_digits_def list_all_iff)

lemma itoa_digits: "0 \<le> i \<Longrightarrow> c \<in> set (itoa i) \<Longrightarrow> is_digit c"
  by (auto simp: itoa_def digits_of_chars)

lemma itoa_nonempty [simp]: "itoa i \<noteq> []"
  using digits_of_digits by (auto simp: itoa_def)

lemma digit_not_space: "is_digit c \<Longrightarrow> \<not> ascii_space c \<and> c \<noteq> CHR '':'' \<and> c \<noteq> CHR 10 \<and> c \<noteq> CHR 13"
  by (auto simp: is_digit_def byte_in_def byte_def ascii_space_def)

text \<open>Lines written one by one and read back.\<close>

lemma split_on_lines:
  "\<forall>l \<in> set ls. d \<notin> set l \<Longrightarrow> split_on d (concat (map (\<lambda>l. l @ [d]) ls)) = ls @ [[]]"
proof (induction ls)
  case (Cons l ls)
  then show ?case by (simp add: split_on_first)
qed simp

lemma scan_tokens_lines:
  "\<forall>l \<in> set ls. line_fits l \<Longrightarrow> scan_tokens (ls @ [[]]) = (map drop_cr ls, False)"
proof (induction ls)
  case (Cons l ls)
  then show ?case by (cases ls) auto
qed simp

lemma scan_lines_written:
  assumes "\<forall>l \<in> set ls. CHR 10 \<notin> set l \<and> line_fits l"
  shows "scan_lines (concat (map (\<lambda>l. l @ [CHR 10]) ls)) = (map drop_cr ls, False)"
  using assms by (simp add: scan_lines_def split_on_lines scan_tokens_lines)

lemma set_drop_cr: "set (drop_cr l) \<subseteq> set l"
  by (auto simp: drop_cr_def dest: in_set_butlastD)

lemma length_drop_cr: "length (drop_cr l) \<le> length l"
  by (simp add: drop_cr_def)

lemma scan_tokens_lines_of:
  "l \<in> set (fst (scan_tokens ls)) \<Longrightarrow> \<exists>r \<in> set ls. l = drop_cr r \<and> line_fits r"
  by (induction ls rule: scan_tokens.induct) (auto split: if_splits prod.splits)

lemma scan_lines_of:
  "l \<in> set (fst (scan_lines s)) \<Longrightarrow> CHR 10 \<notin> set l \<and> line_fits l"
proof -
  assume "l \<in> set (fst (scan_lines s))"
  then obtain r where r: "r \<in> set (split_on (CHR 10) s)" "l = drop_cr r" "line_fits r"
    using scan_tokens_lines_of unfolding scan_lines_def by blast
  then show ?thesis using split_on_free [OF r(1)] set_drop_cr [of r] length_drop_cr [of r] by (auto simp: line_fits_def)
qed

lemma word_plain:
  assumes "f \<noteq> []" and "\<And>c. c \<in> set f \<Longrightarrow> byte c < 128 \<and> \<not> ascii_space c"
  shows "word f"
  unfolding word_def
proof (intro conjI allI impI assms(1))
  fix i
  assume "i < length f"
  then have "drop i f = f ! i # drop (Suc i) f" and "f ! i \<in> set f" by (simp_all add: Cons_nth_drop_Suc)
  then show "space_width (drop i f) = 0" using assms(2) space_width_plain by metis
qed

lemma word_extend:
  assumes "word (p @ q)" and "\<And>c. c \<in> set s \<Longrightarrow> byte c < 128 \<and> \<not> ascii_space c" and "s \<noteq> []"
  shows "word (p @ s)"
  unfolding word_def
proof (intro conjI allI impI)
  fix i
  assume i: "i < length (p @ s)"
  obtain c s' where s: "s = c # s'" using assms(3) by (cases s) auto
  show "space_width (drop i (p @ s)) = 0"
  proof (cases "i < length p")
    case True
    have "space_width (drop i (p @ q)) = 0" using assms(1) True unfolding word_def by (metis length_append trans_less_add1)
    then have "space_width (drop i p @ q) = 0" using True by simp
    then have "space_width (drop i p) = 0" by (rule space_width_prefix)
    then show ?thesis using True assms(2) [of c] s space_width_before_plain [of "drop i p" c s'] by simp
  next
    case False
    have "word s" by (rule word_plain) (use assms in auto)
    then show ?thesis using False i by (auto simp: word_def)
  qed
qed (use assms(3) in simp)

lemma trim_space_left_keep: "space_width s = 0 \<Longrightarrow> trim_space_left s = s"
  by (simp add: trim_space_left.simps)

lemma space_suffix_plain:
  assumes "byte c < 128" and "\<not> ascii_space c"
  shows "space_suffix_width (s @ [c]) = 0"
proof -
  have two: "space_width [a, c] \<noteq> 2" for a
    using assms by (auto simp: space_width_def)
  have three: "space_width [a, b, c] \<noteq> 3" for a b
    using assms by (auto simp: space_width_def byte_in_def)
  have "space_width (drop (length s - Suc 0) (s @ [c])) \<noteq> 2" if "s \<noteq> []"
  proof -
    have "drop (length s - 1) s = [last s]" using that by (metis append_butlast_last_id append_eq_conv_conj length_butlast)
    then show ?thesis using two that by simp
  qed
  moreover have "space_width (drop (length s - 2) (s @ [c])) \<noteq> 3" if l: "2 \<le> length s"
  proof -
    obtain r a b where "s = r @ [a, b]"
    proof -
      have "\<exists>a b. xs = [a, b]" if "length xs = 2" for xs :: string
        using that by (auto simp: numeral_2_eq_2 length_Suc_conv)
      then obtain a b where "drop (length s - 2) s = [a, b]" using l by fastforce
      then show ?thesis using that append_take_drop_id by metis
    qed
    then show ?thesis using three by simp
  qed
  ultimately show ?thesis using assms(2) by (cases s) (auto simp: space_suffix_width_def numeral_3_eq_3)
qed

lemma trim_space_plain_ends:
  assumes "byte c < 128" "\<not> ascii_space c" and "byte d < 128" "\<not> ascii_space d"
  shows "trim_space (c # s @ [d]) = c # s @ [d]"
  using space_width_plain [OF assms(1,2), of "s @ [d]"] space_suffix_plain [OF assms(3,4), of "c # s"]
  by (simp add: trim_space_def trim_space_left_keep trim_space_right.simps)

lemma trim_space_blank_prefix:
  "ascii_space b \<Longrightarrow> trim_space (b # s) = trim_space s"
  by (simp add: trim_space_def trim_space_left.simps [of "b # s"] space_width_def)

lemma space_width_trim_left: "space_width (trim_space_left s) = 0"
proof (induction s rule: trim_space_left.induct)
  case (1 s)
  then show ?case by (cases "space_width s = 0") (simp_all add: trim_space_left.simps [of s])
qed

lemma space_suffix_trim_right: "space_suffix_width (trim_space_right s) = 0"
proof (induction s rule: trim_space_right.induct)
  case (1 s)
  then show ?case by (cases "space_suffix_width s = 0") (simp_all add: trim_space_right.simps [of s])
qed

lemma space_width_trim: "space_width (trim_space s) = 0"
proof -
  obtain r where "trim_space_left s = trim_space s @ r"
    using trim_space_right_prefix [of "trim_space_left s"] by (auto simp: trim_space_def prefix_def)
  then show ?thesis using space_width_trim_left [of s] space_width_prefix by metis
qed

lemma trim_space_idem [simp]: "trim_space (trim_space s) = trim_space s"
proof -
  have "trim_space_left (trim_space s) = trim_space s" by (simp add: trim_space_left_keep space_width_trim)
  moreover have "trim_space_right (trim_space s) = trim_space s"
    using space_suffix_trim_right by (simp add: trim_space_def trim_space_right.simps [of "trim_space_right (trim_space_left s)"])
  ultimately show ?thesis by (simp add: trim_space_def [of "trim_space s"])
qed

lemma trim_space_indent:
  "\<forall>b \<in> set ind. ascii_space b \<Longrightarrow> trim_space (ind @ s) = trim_space s"
  by (induction ind) (simp_all add: trim_space_blank_prefix)

lemma contains_member: "x \<in> set xs \<Longrightarrow> contains x p \<Longrightarrow> contains (join sep xs) p"
proof (induction sep xs rule: join.induct)
  case (3 sep y z xs)
  then show ?case
  proof (cases "x = y")
    case True
    with 3(3) show ?thesis by (auto simp: contains_iff) (metis append.assoc)
  next
    case False
    with 3 have "contains (join sep (z # xs)) p" by simp
    then show ?thesis by (auto simp: contains_iff) (metis append.assoc)
  qed
qed simp_all

lemma contains_append: "contains s p \<Longrightarrow> contains (a @ s @ b) p"
  by (auto simp: contains_iff) (metis append.assoc)

lemma cut_at_first: "d \<notin> set a \<Longrightarrow> cut_at d (a @ d # b) = (a, b, True)"
  by (induction a) auto

lemma unlines_scan:
  "\<not> snd (scan_lines (concat (map (\<lambda>l. l @ [CHR 10]) ls))) \<Longrightarrow> \<forall>l \<in> set ls. CHR 10 \<notin> set l \<Longrightarrow>
   fst (scan_lines (concat (map (\<lambda>l. l @ [CHR 10]) ls))) = map drop_cr ls"
proof -
  have short: "\<not> snd (scan_tokens (ls @ [[]])) \<Longrightarrow> \<forall>l \<in> set ls. line_fits l"
  proof (induction ls)
    case (Cons l ls)
    then show ?case by (cases ls) (auto split: if_splits prod.splits)
  qed simp
  assume "\<not> snd (scan_lines (concat (map (\<lambda>l. l @ [CHR 10]) ls)))" and nl: "\<forall>l \<in> set ls. CHR 10 \<notin> set l"
  then have "\<forall>l \<in> set ls. line_fits l" using short by (simp add: scan_lines_def split_on_lines)
  with nl show ?thesis by (simp add: scan_lines_written)
qed

lemma split_on_subset: "l \<in> set (split_on d s) \<Longrightarrow> set l \<subseteq> set s"
proof (induction s arbitrary: l)
  case (Cons a s)
  show ?case
  proof (cases "a = d")
    case True
    then show ?thesis using Cons by auto
  next
    case False
    obtain f fs where "split_on d s = f # fs" using split_on_nonempty by (cases "split_on d s") auto
    then show ?thesis using Cons False by auto (metis in_mono)+
  qed
qed simp

lemma scan_lines_subset: "l \<in> set (fst (scan_lines s)) \<Longrightarrow> set l \<subseteq> set s"
proof -
  assume "l \<in> set (fst (scan_lines s))"
  then obtain r where "r \<in> set (split_on (CHR 10) s)" "l = drop_cr r"
    using scan_tokens_lines_of unfolding scan_lines_def by blast
  then show ?thesis using split_on_subset set_drop_cr by blast
qed

lemma drop_cr_id: "CHR 13 \<notin> set l \<Longrightarrow> drop_cr l = l"
  using last_in_set by (fastforce simp: drop_cr_def)

lemma fields_acc_subset: "f \<in> set (fields_acc cur s) \<Longrightarrow> set f \<subseteq> set cur \<union> set s"
proof (induction cur s rule: fields_acc.induct)
  case (2 cur c s)
  show ?case
  proof (cases "space_width (c # s) = 0")
    case True
    with 2 show ?thesis by (auto simp: fields_acc.simps(2))
  next
    case False
    then have "f = rev cur \<or> f \<in> set (fields_acc [] (drop (space_width (c # s)) (c # s)))"
      using 2(3) by (auto simp: fields_acc.simps(2) split: if_splits)
    then show ?thesis using 2(2) [OF False] set_drop_subset by fastforce
  qed
qed (simp split: if_splits)

lemma fields_subset: "f \<in> set (fields s) \<Longrightarrow> set f \<subseteq> set s"
  using fields_acc_subset [of f "[]" s] by (simp add: fields_def)

lemma join_subset: "c \<in> set (join sep xs) \<Longrightarrow> c \<in> set sep \<or> (\<exists>x \<in> set xs. c \<in> set x)"
  by (induction sep xs rule: join.induct) auto

lemma trim_suffix_subset: "c \<in> set (trim_suffix s p) \<Longrightarrow> c \<in> set s"
  by (auto simp: trim_suffix_def dest: in_set_takeD split: if_splits)

text \<open>A text of visible ASCII is its own trim.\<close>

definition visible :: "string \<Rightarrow> bool" where
  "visible s = list_all (\<lambda>c. byte c < 128 \<and> \<not> ascii_space c) s"

lemma trim_space_visible:
  assumes "visible s"
  shows "trim_space s = s"
proof -
  consider "s = []" | c where "s = [c]" | c d r where "s = c # r @ [d]"
    by (metis append_butlast_last_id neq_Nil_conv)
  then show ?thesis
  proof cases
    case 1
    then show ?thesis by (simp add: trim_space_def trim_space_left_keep trim_space_right.simps space_width_def space_suffix_width_def)
  next
    case (2 c)
    then show ?thesis using assms space_width_plain [of c "[]"] space_suffix_plain [of c "[]"]
      by (simp add: visible_def trim_space_def trim_space_left_keep trim_space_right.simps)
  next
    case (3 c d r)
    then show ?thesis using assms trim_space_plain_ends [of c d r] by (simp add: visible_def)
  qed
qed

end
