(* ===== verification/RateLimit.thy ===== *)
theory RateLimit
  imports FailureCounter GoText
begin

text \<open>
  \<open>internal/middleware/ratelimit.go\<close> and \<open>lockoutlog.go\<close>: the login limiter with its two
  counters (per address, per account), its reaper, the audit of a lock that engages, and the
  generic per-address limiter of the public endpoints. Each section of code under one mutex is one
  step on the state it guards; the clock readings a request makes are arguments.
\<close>

section \<open>Constants\<close>

definition loginWindow :: duration where "loginWindow = 15 * minute"
definition loginMaxFail :: nat where "loginMaxFail = 5"
definition loginLock :: duration where "loginLock = 30 * minute"
definition loginMaxLag :: duration where "loginMaxLag = 2 * second"

definition accountWindow :: duration where "accountWindow = 15 * minute"
definition accountMaxFail :: nat where "accountMaxFail = 20"
definition accountLock :: duration where "accountLock = 15 * minute"

definition maxLoginBody :: nat where "maxLoginBody = 8192"
definition maxAccountKey :: nat where "maxAccountKey = 64"
definition auditNameLimit :: nat where "auditNameLimit = 64"
definition blockedComplainInterval :: duration where "blockedComplainInterval = 60 * second"

lemmas limiter_consts = loginWindow_def loginMaxFail_def loginLock_def loginMaxLag_def
  accountWindow_def accountMaxFail_def accountLock_def time_units

section \<open>The failure records\<close>

record login_record =
  failures :: "time list"
  lockedAt :: time

type_synonym login_map = "string \<rightharpoonup> login_record"

definition new_login_record :: login_record where
  "new_login_record = \<lparr>failures = [], lockedAt = zero_time\<rparr>"

definition record_of :: "login_map \<Rightarrow> string \<Rightarrow> login_record" where
  "record_of m k = (case m k of None \<Rightarrow> new_login_record | Some r \<Rightarrow> r)"

definition loginStatus :: "time \<Rightarrow> string \<Rightarrow> login_map \<Rightarrow> (nat \<times> duration) \<times> login_map" where
  "loginStatus now ip m = (case m ip of
      None \<Rightarrow> ((0, 0), m)
    | Some r \<Rightarrow>
        if now < lockedAt r then ((loginMaxFail, lockedAt r - now), m)
        else (let kept = filter (\<lambda>t. now - loginWindow < t) (failures r)
              in ((length kept, 0), m(ip \<mapsto> r\<lparr>failures := kept\<rparr>))))"

definition loginRecordFail :: "time \<Rightarrow> string \<Rightarrow> login_map \<Rightarrow> bool \<times> login_map" where
  "loginRecordFail now ip m =
     (let r = record_of m ip;
          r' = r\<lparr>failures := failures r @ [now]\<rparr>
      in if loginMaxFail \<le> length (failures r')
         then (True, m(ip \<mapsto> r'\<lparr>lockedAt := now + loginLock, failures := []\<rparr>))
         else (False, m(ip \<mapsto> r')))"

definition accountLockRemaining :: "time \<Rightarrow> string \<Rightarrow> login_map \<Rightarrow> duration \<times> login_map" where
  "accountLockRemaining now name m = (case m name of
      None \<Rightarrow> (0, m)
    | Some r \<Rightarrow>
        if now < lockedAt r then (lockedAt r - now, m)
        else (let kept = filter (\<lambda>t. now - accountWindow < t) (failures r)
              in (0, m(name \<mapsto> r\<lparr>failures := kept\<rparr>))))"

definition accountRecordFail :: "time \<Rightarrow> string \<Rightarrow> login_map \<Rightarrow> bool \<times> login_map" where
  "accountRecordFail now name m =
     (let r = record_of m name;
          r' = r\<lparr>failures := failures r @ [now]\<rparr>
      in if accountMaxFail \<le> length (failures r')
         then (True, m(name \<mapsto> r'\<lparr>lockedAt := now + accountLock, failures := []\<rparr>))
         else (False, m(name \<mapsto> r')))"

text \<open>One tick of \<open>loginReaper\<close> over one of the two maps.\<close>

definition stale_record :: "time \<Rightarrow> duration \<Rightarrow> login_record \<Rightarrow> bool" where
  "stale_record now keep r =
     (lockedAt r < now \<and> (failures r = [] \<or> last (failures r) < now - keep))"

definition loginReaper_tick :: "time \<Rightarrow> login_map \<times> login_map \<Rightarrow> login_map \<times> login_map" where
  "loginReaper_tick now = (\<lambda>(login, account).
     (map_prune (stale_record now (loginWindow + loginLock)) login,
      map_prune (stale_record now (accountWindow + accountLock)) account))"

section \<open>Both counters meet the contract\<close>

definition rec_fails :: "login_map \<Rightarrow> string \<Rightarrow> time list" where
  "rec_fails m k = failures (record_of m k)"

definition rec_until :: "login_map \<Rightarrow> string \<Rightarrow> time" where
  "rec_until m k = lockedAt (record_of m k)"

lemmas counter_defs = loginStatus_def loginRecordFail_def accountLockRemaining_def
  accountRecordFail_def rec_fails_def rec_until_def record_of_def new_login_record_def zero_time_def

lemma reaped_record:
  "0 < now \<Longrightarrow>
   rec_fails (map_prune (stale_record now keep) m) k = rec_fails m k \<and>
   rec_until (map_prune (stale_record now keep) m) k = rec_until m k \<or>
   rec_fails (map_prune (stale_record now keep) m) k = [] \<and> rec_until m k < now \<and>
   rec_until (map_prune (stale_record now keep) m) k < now \<and>
   (rec_fails m k = [] \<or> last (rec_fails m k) < now - keep)"
  by (cases "m k") (auto simp: counter_defs map_prune_def stale_record_def)

interpretation login: failure_counter rec_fails rec_until
  "\<lambda>now k m. snd (fst (loginStatus now k m))" "\<lambda>now k m. snd (loginStatus now k m)"
  "\<lambda>now k m. fst (loginRecordFail now k m)" "\<lambda>now k m. snd (loginRecordFail now k m)"
  "\<lambda>now m. map_prune (stale_record now (loginWindow + loginLock)) m"
  loginWindow loginLock loginMaxFail
proof (unfold_locales, goal_cases)
  case (13 now m k)
  then show ?case by (rule reaped_record)
qed (auto simp: counter_defs limiter_consts Let_def split: option.splits if_splits)

interpretation account: failure_counter rec_fails rec_until
  "\<lambda>now k m. fst (accountLockRemaining now k m)" "\<lambda>now k m. snd (accountLockRemaining now k m)"
  "\<lambda>now k m. fst (accountRecordFail now k m)" "\<lambda>now k m. snd (accountRecordFail now k m)"
  "\<lambda>now m. map_prune (stale_record now (accountWindow + accountLock)) m"
  accountWindow accountLock accountMaxFail
proof (unfold_locales, goal_cases)
  case (13 now m k)
  then show ?case by (rule reaped_record)
qed (auto simp: counter_defs limiter_consts Let_def split: option.splits if_splits)

section \<open>The account a login names, and names fit for a log\<close>

text \<open>
  \<open>accountKey\<close> cuts after 64 runes, never inside one.
\<close>

definition accountKey :: "string \<Rightarrow> string" where
  "accountKey name = concat (take maxAccountKey (runes name))"

definition control_rune :: "string \<Rightarrow> bool" where
  "control_rune r = (case r of [c] \<Rightarrow> byte c < 32 \<or> byte c = 127 | _ \<Rightarrow> False)"

fun safeName_loop :: "string \<Rightarrow> string list \<Rightarrow> string" where
  "safeName_loop out [] = out"
| "safeName_loop out (r # rs) =
     (if control_rune r then safeName_loop out rs
      else (let out' = out @ write_rune r
            in if auditNameLimit \<le> length out' then out' else safeName_loop out' rs))"

definition safeName :: "string \<Rightarrow> string" where
  "safeName value = safeName_loop [] (runes value)"

text \<open>
  What a login request's body is when it is read: its bytes, whether reading failed after them,
  and what \<open>json.Unmarshal\<close> makes of the \<open>username\<close> field (\<open>None\<close> when it refuses the body).
\<close>

record login_body =
  body_bytes :: string
  body_read_err :: bool
  json_username :: "string option"

definition loginAccount :: "login_body option \<Rightarrow> string \<times> bool" where
  "loginAccount body = (case body of
      None \<Rightarrow> ([], False)
    | Some b \<Rightarrow>
        if maxLoginBody < length (body_bytes b) then ([], True)
        else if body_read_err b then ([], False)
        else (case json_username b of
            None \<Rightarrow> ([], False)
          | Some u \<Rightarrow> (accountKey (to_lower (trim_space u)), False)))"

section \<open>The throttled log and the audit of a lock\<close>

datatype lockout_action = LockoutAddress | LockoutAccount

record lockout_row =
  lo_action :: lockout_action
  lo_account :: string
  lo_address :: string
  lo_target :: string

record limiter_state =
  loginMap :: login_map
  accountMap :: login_map
  lastBlocked :: "string \<rightharpoonup> time"
  auditRows :: "lockout_row list"
  blockedLines :: "(string \<times> string \<times> string) list"

definition recordLockout :: "bool \<Rightarrow> lockout_action \<Rightarrow> string \<Rightarrow> string \<Rightarrow> string \<Rightarrow>
    limiter_state \<Rightarrow> limiter_state" where
  "recordLockout hasDB action account address target st =
     (if hasDB then st\<lparr>auditRows := auditRows st @
        [\<lparr>lo_action = action, lo_account = safeName account, lo_address = address,
          lo_target = safeName target\<rparr>]\<rparr>
      else st)"

definition noteBlocked :: "time \<Rightarrow> string \<Rightarrow> string \<Rightarrow> string \<Rightarrow> limiter_state \<Rightarrow> limiter_state" where
  "noteBlocked now kind subject address st =
     (if (case lastBlocked st kind of None \<Rightarrow> False
            | Some previous \<Rightarrow> now - previous < blockedComplainInterval) then st
      else st\<lparr>lastBlocked := (lastBlocked st)(kind \<mapsto> now),
              blockedLines := blockedLines st @ [(kind, safeName subject, address)]\<rparr>)"

section \<open>\<open>LoginRateLimit\<close>\<close>

text \<open>
  A request as the middleware sees it: the counted address (the result of
  \<open>httpx.RateLimitKey(httpx.ClientIP(r))\<close>), the body, and the statuses the wrapped handler passes
  to \<open>WriteHeader\<close>; the clock readings follow the order of the code.
\<close>

record login_request =
  rq_ip :: string
  rq_body :: "login_body option"
  rq_codes :: "int list"

record login_clock =
  at_status :: time
  at_note :: time
  at_account :: time
  at_fail :: time
  at_accountFail :: time

definition clock_runs :: "login_clock \<Rightarrow> bool" where
  "clock_runs c = (0 < at_status c \<and> at_status c \<le> at_account c \<and> at_account c \<le> at_fail c \<and>
     at_fail c \<le> at_accountFail c)"

datatype login_outcome =
    AddressLocked int      \<comment> \<open>429 with its \<open>Retry-After\<close>\<close>
  | BodyTooLarge           \<comment> \<open>413\<close>
  | AccountLocked int      \<comment> \<open>429 with its \<open>Retry-After\<close>\<close>
  | Handled duration int   \<comment> \<open>the delay before the handler ran, and its final status\<close>

definition statusWriter_code :: "int list \<Rightarrow> int" where
  "statusWriter_code codes = fold (\<lambda>c _. c) codes StatusOK"

definition login_delay :: "nat \<Rightarrow> duration" where
  "login_delay count = (if 0 < count then min (int count * (second div 4)) loginMaxLag else 0)"

definition account_gate :: "login_clock \<Rightarrow> string \<Rightarrow> string \<Rightarrow> limiter_state \<Rightarrow> duration \<times> limiter_state" where
  "account_gate c ip account st =
     (if account = [] then (0, st)
      else (case accountLockRemaining (at_account c) account (accountMap st) of (remaining, m) \<Rightarrow>
        (let st' = st\<lparr>accountMap := m\<rparr>
         in if 0 < remaining then (remaining, noteBlocked (at_note c) ''the account lock'' account ip st')
            else (0, st'))))"

definition count_failure :: "bool \<Rightarrow> login_clock \<Rightarrow> string \<Rightarrow> string \<Rightarrow> limiter_state \<Rightarrow> limiter_state" where
  "count_failure hasDB c ip account st =
     (case loginRecordFail (at_fail c) ip (loginMap st) of (locked, m) \<Rightarrow>
        (let st1 = st\<lparr>loginMap := m\<rparr>;
             st2 = (if locked then recordLockout hasDB LockoutAddress account ip ip st1 else st1)
         in if account = [] then st2
            else (case accountRecordFail (at_accountFail c) account (accountMap st2) of (locked', m') \<Rightarrow>
              (let st3 = st2\<lparr>accountMap := m'\<rparr>
               in if locked' then recordLockout hasDB LockoutAccount account ip account st3 else st3))))"

definition LoginRateLimit :: "bool \<Rightarrow> login_clock \<Rightarrow> login_request \<Rightarrow> limiter_state \<Rightarrow>
    login_outcome \<times> limiter_state" where
  "LoginRateLimit hasDB c rq st =
     (case loginStatus (at_status c) (rq_ip rq) (loginMap st) of ((count, remain), m) \<Rightarrow>
       (let st0 = st\<lparr>loginMap := m\<rparr>
        in if 0 < remain then
             (AddressLocked (whole_seconds remain + 1),
              noteBlocked (at_note c) ''the address lock'' (rq_ip rq) (rq_ip rq) st0)
           else (case loginAccount (rq_body rq) of (account, oversize) \<Rightarrow>
             if oversize then (BodyTooLarge, st0)
             else (case account_gate c (rq_ip rq) account st0 of (remaining, st1) \<Rightarrow>
               if 0 < remaining then (AccountLocked (whole_seconds remaining + 1), st1)
               else (let code = statusWriter_code (rq_codes rq)
                     in (Handled (login_delay count) code,
                         if code = StatusUnauthorized then count_failure hasDB c (rq_ip rq) account st1
                         else st1))))))"

definition durationText :: "int \<Rightarrow> string" where
  "durationText sec = (if sec < 60 then itoa sec @ '' seconds''
     else itoa (go_div (sec + 59) 60) @ '' minutes'')"

section \<open>Runs of the login limiter\<close>

text \<open>
  What happens to the limiter, one mutex section after another: login requests, each processed to
  its end, and ticks of the reaper.
\<close>

datatype limiter_event = Request login_clock login_request | Reap time

definition reap_state :: "time \<Rightarrow> limiter_state \<Rightarrow> limiter_state" where
  "reap_state now st = (case loginReaper_tick now (loginMap st, accountMap st) of
     (lm, am) \<Rightarrow> st\<lparr>loginMap := lm, accountMap := am\<rparr>)"

definition limiter_step :: "bool \<Rightarrow> limiter_event \<Rightarrow> limiter_state \<Rightarrow> limiter_state" where
  "limiter_step hasDB e st = (case e of
      Request c rq \<Rightarrow> snd (LoginRateLimit hasDB c rq st)
    | Reap now \<Rightarrow> reap_state now st)"

definition empty_limiter :: limiter_state where
  "empty_limiter = \<lparr>loginMap = Map.empty, accountMap = Map.empty, lastBlocked = Map.empty,
     auditRows = [], blockedLines = []\<rparr>"

text \<open>An attempt fails when the wrapped handler ran and answered 401.\<close>

fun attempt_failed :: "login_outcome \<Rightarrow> bool" where
  "attempt_failed (Handled d code) = (code = StatusUnauthorized)"
| "attempt_failed _ = False"

fun event_end :: "limiter_event \<Rightarrow> time" where
  "event_end (Request c rq) = at_accountFail c"
| "event_end (Reap now) = now"

fun orderly :: "time \<Rightarrow> limiter_event list \<Rightarrow> bool" where
  "orderly t [] = True"
| "orderly t (Request c rq # es) = (t \<le> at_status c \<and> clock_runs c \<and> orderly (at_accountFail c) es)"
| "orderly t (Reap now # es) = (t \<le> now \<and> 0 < now \<and> orderly now es)"

text \<open>The times of the failed attempts of an address, and of an account, in a run.\<close>

fun address_failures :: "bool \<Rightarrow> string \<Rightarrow> limiter_event list \<Rightarrow> limiter_state \<Rightarrow> time list" where
  "address_failures hasDB ip [] st = []"
| "address_failures hasDB ip (e # es) st =
     (case e of Request c rq \<Rightarrow>
        if rq_ip rq = ip \<and> attempt_failed (fst (LoginRateLimit hasDB c rq st)) then [at_fail c] else []
      | Reap now \<Rightarrow> []) @ address_failures hasDB ip es (limiter_step hasDB e st)"

fun account_failures :: "bool \<Rightarrow> string \<Rightarrow> limiter_event list \<Rightarrow> limiter_state \<Rightarrow> time list" where
  "account_failures hasDB name [] st = []"
| "account_failures hasDB name (e # es) st =
     (case e of Request c rq \<Rightarrow>
        if fst (loginAccount (rq_body rq)) = name \<and> attempt_failed (fst (LoginRateLimit hasDB c rq st))
        then [at_accountFail c] else []
      | Reap now \<Rightarrow> []) @ account_failures hasDB name es (limiter_step hasDB e st)"

lemma recordLockout_maps [simp]:
  "loginMap (recordLockout h a x y z st) = loginMap st"
  "accountMap (recordLockout h a x y z st) = accountMap st"
  "lastBlocked (recordLockout h a x y z st) = lastBlocked st"
  by (simp_all add: recordLockout_def)

lemma noteBlocked_maps [simp]:
  "loginMap (noteBlocked n k x y st) = loginMap st"
  "accountMap (noteBlocked n k x y st) = accountMap st"
  by (simp_all add: noteBlocked_def)

lemma count_failure_loginMap:
  "loginMap (count_failure h c ip account st) = snd (loginRecordFail (at_fail c) ip (loginMap st))"
  by (simp add: count_failure_def Let_def split: prod.splits)

lemma count_failure_accountMap:
  "accountMap (count_failure h c ip account st) =
     (if account = [] then accountMap st
      else snd (accountRecordFail (at_accountFail c) account (accountMap st)))"
  by (simp add: count_failure_def Let_def split: prod.splits)

lemma account_gate_loginMap [simp]: "loginMap (snd (account_gate c ip account st)) = loginMap st"
  by (simp add: account_gate_def Let_def split: prod.splits)

lemma account_gate_accountMap:
  "accountMap (snd (account_gate c ip account st)) =
     (if account = [] then accountMap st
      else snd (accountLockRemaining (at_account c) account (accountMap st)))"
  by (simp add: account_gate_def Let_def split: prod.splits)

lemma account_gate_remaining:
  "account \<noteq> [] \<Longrightarrow>
     0 < fst (account_gate c ip account st) \<longleftrightarrow>
     0 < fst (accountLockRemaining (at_account c) account (accountMap st))"
  by (simp add: account_gate_def Let_def split: prod.splits)

text \<open>\<open>LoginRateLimit\<close> as a decision list over its three lookups.\<close>

definition status_of :: "login_clock \<Rightarrow> login_request \<Rightarrow> limiter_state \<Rightarrow> (nat \<times> duration) \<times> login_map" where
  "status_of c rq st = loginStatus (at_status c) (rq_ip rq) (loginMap st)"

definition gate_of :: "login_clock \<Rightarrow> login_request \<Rightarrow> limiter_state \<Rightarrow> duration \<times> limiter_state" where
  "gate_of c rq st = account_gate c (rq_ip rq) (fst (loginAccount (rq_body rq)))
     (st\<lparr>loginMap := snd (status_of c rq st)\<rparr>)"

lemma LoginRateLimit_eq:
  "LoginRateLimit h c rq st =
     (if 0 < snd (fst (status_of c rq st)) then
        (AddressLocked (whole_seconds (snd (fst (status_of c rq st))) + 1),
         noteBlocked (at_note c) ''the address lock'' (rq_ip rq) (rq_ip rq)
           (st\<lparr>loginMap := snd (status_of c rq st)\<rparr>))
      else if snd (loginAccount (rq_body rq)) then
        (BodyTooLarge, st\<lparr>loginMap := snd (status_of c rq st)\<rparr>)
      else if 0 < fst (gate_of c rq st) then
        (AccountLocked (whole_seconds (fst (gate_of c rq st)) + 1), snd (gate_of c rq st))
      else (Handled (login_delay (fst (fst (status_of c rq st)))) (statusWriter_code (rq_codes rq)),
        if statusWriter_code (rq_codes rq) = StatusUnauthorized
        then count_failure h c (rq_ip rq) (fst (loginAccount (rq_body rq))) (snd (gate_of c rq st))
        else snd (gate_of c rq st)))"
  by (simp add: LoginRateLimit_def status_of_def gate_of_def split_def Let_def)

lemma gate_of_loginMap [simp]: "loginMap (snd (gate_of c rq st)) = snd (status_of c rq st)"
  by (simp add: gate_of_def)

lemma LoginRateLimit_loginMap:
  "loginMap (snd (LoginRateLimit h c rq st)) =
     (if attempt_failed (fst (LoginRateLimit h c rq st))
      then snd (loginRecordFail (at_fail c) (rq_ip rq) (snd (status_of c rq st)))
      else snd (status_of c rq st))"
  by (simp add: LoginRateLimit_eq count_failure_loginMap)

lemma LoginRateLimit_failed:
  "attempt_failed (fst (LoginRateLimit h c rq st)) \<Longrightarrow>
     \<not> 0 < snd (fst (status_of c rq st)) \<and> \<not> 0 < fst (gate_of c rq st)"
  by (simp add: LoginRateLimit_eq split: if_splits)

lemma LoginRateLimit_accountMap:
  "accountMap (snd (LoginRateLimit h c rq st)) =
     (let name = fst (loginAccount (rq_body rq));
          looked = 0 < snd (fst (status_of c rq st)) \<or> snd (loginAccount (rq_body rq)) \<or> name = [];
          m = (if looked then accountMap st
               else snd (accountLockRemaining (at_account c) name (accountMap st)))
      in if attempt_failed (fst (LoginRateLimit h c rq st)) \<and> name \<noteq> []
         then snd (accountRecordFail (at_accountFail c) name m) else m)"
  by (simp add: LoginRateLimit_eq count_failure_accountMap gate_of_def account_gate_accountMap Let_def)

section \<open>No more than the limit in any window\<close>

lemma address_failures_bound:
  "orderly t es \<Longrightarrow> login.tracks (loginMap st) ip log t \<Longrightarrow>
     length (in_window w loginWindow (rev (address_failures h ip es st) @ log)) \<le> loginMaxFail"
proof (induction es arbitrary: t st log)
  case Nil
  then show ?case using login.tracks_window by simp
next
  case (Cons e es)
  show ?case
  proof (cases e)
    case (Reap now)
    with Cons.prems have "login.tracks (loginMap st) ip log now" and now: "0 < now" "orderly now es"
      by (auto intro: login.tracks_later)
    then have "login.tracks (loginMap (limiter_step h e st)) ip log now"
      using Reap by (simp add: limiter_step_def reap_state_def loginReaper_tick_def login.tracks_reaped)
    from Cons.IH [OF now(2) this] show ?thesis using Reap by simp
  next
    case (Request c rq)
    let ?m = "loginMap st" and ?s = "snd (status_of c rq st)"
    from Cons.prems Request have cl: "t \<le> at_status c" "clock_runs c" "orderly (at_accountFail c) es"
      by auto
    have trs: "login.tracks ?m ip log (at_status c)"
      using Cons.prems(2) cl(1) by (rule login.tracks_later)
    have trim: "login.tracks ?s ip log (at_status c)"
      using login.tracks_trimmed [OF trs] login.tracks_other(1) [of ip "rq_ip rq"] trs
      by (cases "ip = rq_ip rq") (auto simp: status_of_def)
    show ?thesis
    proof (cases "attempt_failed (fst (LoginRateLimit h c rq st)) \<and> rq_ip rq = ip")
      case False
      have "login.tracks (loginMap (limiter_step h e st)) ip log (at_status c)"
        using False trim login.tracks_other(2) [of ip "rq_ip rq"]
        by (auto simp: limiter_step_def Request LoginRateLimit_loginMap)
      then have "login.tracks (loginMap (limiter_step h e st)) ip log (at_accountFail c)"
        using cl(2) by (auto simp: clock_runs_def intro: login.tracks_later)
      from Cons.IH [OF cl(3) this] show ?thesis using False Request by auto
    next
      case True
      have "rec_until ?s ip \<le> at_status c"
        using LoginRateLimit_failed [of h c rq st] True cl(2)
          login.remaining_pos_iff [of "at_status c" "rq_ip rq" ?m]
        by (auto simp: status_of_def clock_runs_def login.trimmed_until)
      then have "login.tracks (snd (loginRecordFail (at_fail c) ip ?s)) ip (at_fail c # log) (at_fail c)"
        using cl(2) by (intro login.tracks_recorded [OF trim]) (auto simp: clock_runs_def)
      then have "login.tracks (loginMap (limiter_step h e st)) ip (at_fail c # log) (at_accountFail c)"
        using True cl(2) by (auto simp: limiter_step_def Request LoginRateLimit_loginMap clock_runs_def
            intro: login.tracks_later)
      from Cons.IH [OF cl(3) this] show ?thesis using True Request by simp
    qed
  qed
qed

lemma account_failures_bound:
  "orderly t es \<Longrightarrow> name \<noteq> [] \<Longrightarrow> account.tracks (accountMap st) name log t \<Longrightarrow>
     length (in_window w accountWindow (rev (account_failures h name es st) @ log)) \<le> accountMaxFail"
proof (induction es arbitrary: t st log)
  case Nil
  then show ?case using account.tracks_window by simp
next
  case (Cons e es)
  show ?case
  proof (cases e)
    case (Reap now)
    with Cons.prems have "account.tracks (accountMap st) name log now" and now: "0 < now" "orderly now es"
      by (auto intro: account.tracks_later)
    then have "account.tracks (accountMap (limiter_step h e st)) name log now"
      using Reap by (simp add: limiter_step_def reap_state_def loginReaper_tick_def account.tracks_reaped)
    from Cons.IH [OF now(2) Cons.prems(2) this] show ?thesis using Reap by simp
  next
    case (Request c rq)
    let ?m = "accountMap st" and ?n = "fst (loginAccount (rq_body rq))"
    let ?s = "snd (accountLockRemaining (at_account c) ?n ?m)"
    from Cons.prems Request have cl: "t \<le> at_account c" "clock_runs c" "orderly (at_accountFail c) es"
      by (auto simp: clock_runs_def)
    have tra: "account.tracks ?m name log (at_account c)"
      using Cons.prems(3) cl(1) by (rule account.tracks_later)
    have trim: "account.tracks ?s name log (at_account c)"
      using account.tracks_trimmed [OF tra] account.tracks_other(1) [of name ?n] tra
      by (cases "name = ?n") auto
    show ?thesis
    proof (cases "attempt_failed (fst (LoginRateLimit h c rq st)) \<and> ?n = name")
      case False
      have "account.tracks (accountMap (limiter_step h e st)) name log (at_account c)"
        using False trim tra account.tracks_other(2) [of name ?n]
        by (auto simp: limiter_step_def Request LoginRateLimit_accountMap Let_def)
      then have "account.tracks (accountMap (limiter_step h e st)) name log (at_accountFail c)"
        using cl(2) by (auto simp: clock_runs_def intro: account.tracks_later)
      from Cons.IH [OF cl(3) Cons.prems(2) this] show ?thesis using False Request by auto
    next
      case True
      then have failed: "attempt_failed (fst (LoginRateLimit h c rq st))" by simp
      have "\<not> 0 < fst (accountLockRemaining (at_account c) name ?m)"
        using LoginRateLimit_failed [OF failed] True Cons.prems(2)
          account_gate_remaining [of name c "rq_ip rq" "st\<lparr>loginMap := snd (status_of c rq st)\<rparr>"]
        by (simp add: gate_of_def)
      then have "rec_until ?s name \<le> at_account c"
        using cl(2) account.remaining_pos_iff [of "at_account c" name ?m]
        by (auto simp: clock_runs_def account.trimmed_until)
      then have "account.tracks (snd (accountRecordFail (at_accountFail c) name ?s)) name
          (at_accountFail c # log) (at_accountFail c)"
        using cl(2) by (intro account.tracks_recorded [OF trim]) (auto simp: clock_runs_def)
      moreover have "\<not> (0 < snd (fst (status_of c rq st)) \<or> snd (loginAccount (rq_body rq)))"
        using failed by (auto simp: LoginRateLimit_eq split: if_splits)
      ultimately have "account.tracks (accountMap (limiter_step h e st)) name
          (at_accountFail c # log) (at_accountFail c)"
        using True Cons.prems(2)
        by (simp add: limiter_step_def Request LoginRateLimit_accountMap Let_def)
      from Cons.IH [OF cl(3) Cons.prems(2) this] show ?thesis using True Request by simp
    qed
  qed
qed

section \<open>The generic limiter\<close>

text \<open>
  \<open>RateLimit(name, maxRequests, window)\<close> on the shared map of recent hits. Reading \<open>hits[0]\<close> of an
  empty list is a panic in Go, which only a limit of 0 or less can reach.
\<close>

type_synonym gen_map = "string \<rightharpoonup> time list"

datatype gen_outcome = Admitted | Limited int | IndexPanic

definition gen_key :: "string \<Rightarrow> string \<Rightarrow> string" where
  "gen_key name ip = name @ ''|'' @ ip"

definition RateLimit :: "string \<Rightarrow> int \<Rightarrow> duration \<Rightarrow> time \<Rightarrow> string \<Rightarrow> gen_map \<Rightarrow> gen_outcome \<times> gen_map" where
  "RateLimit name maxRequests window now ip gm =
     (let key = gen_key name ip;
          hits = (case gm key of None \<Rightarrow> [] | Some h \<Rightarrow> h);
          kept = filter (\<lambda>t. now - window < t) hits
      in if maxRequests \<le> int (length kept)
         then ((case kept of [] \<Rightarrow> IndexPanic | h # _ \<Rightarrow> Limited (whole_seconds (h + window - now) + 1)),
               gm(key \<mapsto> kept))
         else (Admitted, gm(key \<mapsto> kept @ [now])))"

definition genReaper_keep :: duration where "genReaper_keep = 30 * minute"

definition genReaper_tick :: "time \<Rightarrow> gen_map \<Rightarrow> gen_map" where
  "genReaper_tick now gm = map_prune (\<lambda>hits. hits = [] \<or> last hits < now - genReaper_keep) gm"

datatype gen_event = Hit time string | GenReap time

fun gen_time :: "gen_event \<Rightarrow> time" where
  "gen_time (Hit t ip) = t"
| "gen_time (GenReap t) = t"

fun gen_orderly :: "time \<Rightarrow> gen_event list \<Rightarrow> bool" where
  "gen_orderly t [] = True"
| "gen_orderly t (e # es) = (t \<le> gen_time e \<and> gen_orderly (gen_time e) es)"

text \<open>The times at which a run admits a request of one address.\<close>

fun admissions :: "string \<Rightarrow> int \<Rightarrow> duration \<Rightarrow> string \<Rightarrow> gen_event list \<Rightarrow> gen_map \<Rightarrow> time list" where
  "admissions name mx w ip [] gm = []"
| "admissions name mx w ip (GenReap now # es) gm = admissions name mx w ip es (genReaper_tick now gm)"
| "admissions name mx w ip (Hit now ip' # es) gm =
     (case RateLimit name mx w now ip' gm of (out, gm') \<Rightarrow>
        (if ip' = ip \<and> out = Admitted then [now] else []) @ admissions name mx w ip es gm')"

definition gen_hits :: "gen_map \<Rightarrow> string \<Rightarrow> time list" where
  "gen_hits gm key = (case gm key of None \<Rightarrow> [] | Some h \<Rightarrow> h)"

lemma gen_key_inj [simp]: "gen_key name ip = gen_key name ip' \<longleftrightarrow> ip = ip'"
  by (simp add: gen_key_def)

lemma RateLimit_admitted:
  "fst (RateLimit name mx w now ip gm) = Admitted \<longleftrightarrow>
     int (length (filter (\<lambda>t. now - w < t) (gen_hits gm (gen_key name ip)))) < mx"
  by (auto simp: RateLimit_def gen_hits_def Let_def split: list.splits)

lemma RateLimit_hits:
  "gen_hits (snd (RateLimit name mx w now ip' gm)) (gen_key name ip) =
     (if ip' = ip then filter (\<lambda>t. now - w < t) (gen_hits gm (gen_key name ip)) @
        (if fst (RateLimit name mx w now ip gm) = Admitted then [now] else [])
      else gen_hits gm (gen_key name ip))"
  by (auto simp: RateLimit_def gen_hits_def Let_def split: list.splits)

definition gen_tracks :: "int \<Rightarrow> duration \<Rightarrow> time list \<Rightarrow> time list \<Rightarrow> time \<Rightarrow> bool" where
  "gen_tracks mx w hits log now = (sorted (rev log) \<and> (\<forall>t \<in> set log. t \<le> now) \<and>
     spaced (nat mx) w log \<and> held w now hits log)"

lemma gen_tracks_reaped:
  assumes tr: "gen_tracks mx w (gen_hits gm key) log now" and w: "w \<le> genReaper_keep"
  shows "gen_tracks mx w (gen_hits (genReaper_tick now gm) key) log now"
proof (cases "gm key")
  case None
  then show ?thesis using tr by (simp add: gen_hits_def genReaper_tick_def map_prune_def)
next
  case (Some hits)
  have h: "held w now hits log" and srt: "sorted (rev log)"
    using tr Some by (auto simp: gen_tracks_def gen_hits_def)
  have "held w now [] log" if "last hits < now - genReaper_keep"
  proof (rule held_forget [OF h, of hits])
    fix t
    assume "t \<in> set hits"
    with sorted_le_last [OF held_sorted [OF h srt]] have "t \<le> last hits" .
    then show "t + w \<le> now" using that w by linarith
  qed simp_all
  then show ?thesis using tr Some
    by (auto simp: gen_hits_def genReaper_tick_def map_prune_def gen_tracks_def)
qed

lemma gen_tracks_hit:
  assumes tr: "gen_tracks mx w (gen_hits gm (gen_key name ip)) log t" and le: "t \<le> now" and mx: "0 < mx"
  shows "gen_tracks mx w (gen_hits (snd (RateLimit name mx w now ip gm)) (gen_key name ip))
    ((if fst (RateLimit name mx w now ip gm) = Admitted then [now] else []) @ log) now"
proof -
  let ?hits = "gen_hits gm (gen_key name ip)" and ?kept = "filter (\<lambda>t. now - w < t) (gen_hits gm (gen_key name ip))"
  have srt: "sorted (rev log)" "\<forall>t \<in> set log. t \<le> now" and sp: "spaced (nat mx) w log"
    and h: "held w t ?hits log"
    using tr le by (auto simp: gen_tracks_def)
  have k: "held w now ?kept log" by (rule held_filter [OF h srt(1) le])
  show ?thesis
  proof (cases "fst (RateLimit name mx w now ip gm) = Admitted")
    case False
    then show ?thesis using srt sp k by (simp add: gen_tracks_def RateLimit_hits)
  next
    case True
    then have "length ?kept < nat mx" using mx by (simp add: RateLimit_admitted)
    then have "spaced (nat mx) w (now # log)" using mx by (intro held_spaced_Cons [OF sp _ k]) auto
    then show ?thesis using True srt held_snoc [OF k]
      by (simp add: gen_tracks_def RateLimit_hits sorted_append)
  qed
qed

lemma admissions_bound:
  "gen_orderly t es \<Longrightarrow> 0 < mx \<Longrightarrow> w \<le> genReaper_keep \<Longrightarrow>
   gen_tracks mx w (gen_hits gm (gen_key name ip)) log t \<Longrightarrow>
     length (in_window at w (rev (admissions name mx w ip es gm) @ log)) \<le> nat mx"
proof (induction es arbitrary: t gm log)
  case Nil
  then show ?case by (auto simp: gen_tracks_def intro: spaced_window_bound)
next
  case (Cons e es)
  from Cons.prems(1) have ord: "gen_orderly (gen_time e) es" "t \<le> gen_time e" by auto
  have later: "gen_tracks mx w (gen_hits gm (gen_key name ip)) log (gen_time e)"
    using Cons.prems(4) ord(2) unfolding gen_tracks_def by (fastforce elim: held_later)
  show ?case
  proof (cases e)
    case (GenReap now)
    show ?thesis
      using Cons.IH [OF ord(1) Cons.prems(2,3) gen_tracks_reaped [OF later Cons.prems(3), folded GenReap]]
        GenReap by (simp add: gen_tracks_reaped)
  next
    case (Hit now ip')
    show ?thesis
    proof (cases "ip' = ip")
      case True
      let ?r = "RateLimit name mx w now ip gm"
      have "gen_tracks mx w (gen_hits (snd ?r) (gen_key name ip))
          ((if fst ?r = Admitted then [now] else []) @ log) (gen_time e)"
        using gen_tracks_hit [OF Cons.prems(4) _ Cons.prems(2), of now] ord(2) Hit by simp
      from Cons.IH [OF ord(1) Cons.prems(2,3) this] show ?thesis
        using Hit True by (cases ?r) (auto split: if_splits)
    next
      case False
      have "gen_tracks mx w (gen_hits (snd (RateLimit name mx w now ip' gm)) (gen_key name ip)) log (gen_time e)"
        using later False by (simp add: RateLimit_hits)
      from Cons.IH [OF ord(1) Cons.prems(2,3) this] show ?thesis
        using Hit False by (cases "RateLimit name mx w now ip' gm") auto
    qed
  qed
qed

lemma in_window_rev: "length (in_window w d (rev xs)) = length (in_window w d xs)"
  by (simp add: in_window_def rev_filter [symmetric])

text \<open>
  C2. In any run of the login limiter from its empty start, however the requests of other
  addresses and the ticks of the reaper are mixed in, at most five failed attempts of one address
  reach the login handler within any fifteen minutes.
\<close>

theorem login_window_bound:
  assumes "orderly t es"
  shows "length (in_window w loginWindow (address_failures h ip es empty_limiter)) \<le> 5"
proof -
  have "login.tracks (loginMap empty_limiter) ip [] t"
    by (rule login.tracks_init) (simp add: empty_limiter_def counter_defs)
  from address_failures_bound [OF assms this] show ?thesis
    by (simp add: in_window_rev loginMaxFail_def)
qed

definition tick :: "int \<Rightarrow> login_clock" where
  "tick s = \<lparr>at_status = s * second, at_note = s * second, at_account = s * second,
     at_fail = s * second, at_accountFail = s * second\<rparr>"

definition wrong :: "string \<Rightarrow> login_request" where
  "wrong ip = \<lparr>rq_ip = ip,
     rq_body = Some \<lparr>body_bytes = ''{}'', body_read_err = False, json_username = Some '' Root ''\<rparr>,
     rq_codes = [401]\<rparr>"

theorem login_window_bound_witness:
  "length (in_window 0 loginWindow (address_failures True ''a''
     [Request (tick 1) (wrong ''a''), Reap (2 * second), Request (tick 3) (wrong ''b''),
      Request (tick 4) (wrong ''a'')] empty_limiter)) \<le> 5 \<and>
   address_failures True ''a''
     [Request (tick 1) (wrong ''a''), Reap (2 * second), Request (tick 3) (wrong ''b''),
      Request (tick 4) (wrong ''a'')] empty_limiter = [1 * second, 4 * second]"
proof
  show "length (in_window 0 loginWindow (address_failures True ''a''
     [Request (tick 1) (wrong ''a''), Reap (2 * second), Request (tick 3) (wrong ''b''),
      Request (tick 4) (wrong ''a'')] empty_limiter)) \<le> 5"
    by (rule login_window_bound [of 0]) (simp add: tick_def clock_runs_def second_def)
qed code_simp

text \<open>
  The account counter closes the gap the address counter leaves: over any run from the empty
  start, from whatever mixture of addresses, at most twenty failed attempts naming one account
  reach the login handler within any fifteen minutes.
\<close>

theorem account_window_bound:
  assumes "orderly t es" and "name \<noteq> []"
  shows "length (in_window w accountWindow (account_failures h name es empty_limiter)) \<le> 20"
proof -
  have "account.tracks (accountMap empty_limiter) name [] t"
    by (rule account.tracks_init) (simp add: empty_limiter_def counter_defs)
  from account_failures_bound [OF assms this] show ?thesis
    by (simp add: in_window_rev accountMaxFail_def)
qed

theorem account_window_bound_witness:
  "length (in_window 0 accountWindow (account_failures True ''root''
     [Request (tick 1) (wrong ''a''), Request (tick 3) (wrong ''b'')] empty_limiter)) \<le> 20 \<and>
   account_failures True ''root''
     [Request (tick 1) (wrong ''a''), Request (tick 3) (wrong ''b'')] empty_limiter = [1 * second, 3 * second]"
proof
  show "length (in_window 0 accountWindow (account_failures True ''root''
     [Request (tick 1) (wrong ''a''), Request (tick 3) (wrong ''b'')] empty_limiter)) \<le> 20"
    by (rule account_window_bound [of 0]) (simp_all add: tick_def clock_runs_def second_def)
qed code_simp

text \<open>
  The generic limiter admits at most \<open>maxRequests\<close> requests of one address in any span of its
  window, over any run and with the reaper ticking at any time, provided the window is no longer
  than the thirty minutes the reaper keeps an idle entry.
\<close>

theorem generic_limiter_bound:
  assumes "gen_orderly t es" and "0 < mx" and "w \<le> 30 * minute"
  shows "int (length (in_window at w (admissions name mx w ip es Map.empty))) \<le> mx"
proof -
  have "gen_tracks mx w (gen_hits Map.empty (gen_key name ip)) [] t"
    by (simp add: gen_tracks_def gen_hits_def spaced_def)
  moreover have "w \<le> genReaper_keep" using assms(3) by (simp add: genReaper_keep_def)
  ultimately have "length (in_window at w (rev (admissions name mx w ip es Map.empty) @ [])) \<le> nat mx"
    using assms by (intro admissions_bound)
  then show ?thesis using assms(2) by (simp add: in_window_rev nat_le_iff le_nat_iff)
qed

theorem generic_limiter_bound_witness:
  "int (length (in_window 0 minute (admissions ''mtasts'' 2 minute ''a''
     [Hit second ''a'', Hit (2 * second) ''a'', GenReap (3 * second), Hit (4 * second) ''a''] Map.empty))) \<le> 2 \<and>
   admissions ''mtasts'' 2 minute ''a''
     [Hit second ''a'', Hit (2 * second) ''a'', GenReap (3 * second), Hit (4 * second) ''a''] Map.empty =
     [second, 2 * second]"
proof
  show "int (length (in_window 0 minute (admissions ''mtasts'' 2 minute ''a''
     [Hit second ''a'', Hit (2 * second) ''a'', GenReap (3 * second), Hit (4 * second) ''a''] Map.empty))) \<le> 2"
    by (rule generic_limiter_bound [of 0]) (simp_all add: time_units)
qed code_simp

definition backup_burst :: "time \<Rightarrow> gen_event list" where
  "backup_burst t = replicate 20 (Hit t ''a'')"

text \<open>
  The proviso of the bound is needed, and the panel has a limiter outside it: \<open>backup-create\<close> allows
  20 requests an hour, and a run in which a client spends its 20, the reaper ticks 31 minutes
  later, and the client spends 20 more admits 40 within that hour.
\<close>

theorem backup_create_exceeds_its_limit:
  "gen_orderly 0 (backup_burst minute @ GenReap (32 * minute) # backup_burst (33 * minute)) \<and>
   length (in_window minute hour (admissions ''backup-create'' 20 hour ''a''
     (backup_burst minute @ GenReap (32 * minute) # backup_burst (33 * minute)) Map.empty)) = 40"
  by code_simp

end
