(* ===== verification/LoginInterleaving.thy ===== *)
theory LoginInterleaving
  imports RateLimit
begin

text \<open>
  \<open>LoginRateLimit\<close> under concurrent requests. The middleware holds no lock while the login handler
  runs: a request is checked on the way in, and counted on the way out. The two halves are one
  step each of an interleaving semantics; the reaper is a third kind of step.
\<close>

section \<open>The two halves of the middleware\<close>

text \<open>Everything before \<open>next.ServeHTTP\<close>: \<open>None\<close> lets the request through to the handler.\<close>

definition login_enter :: "login_clock \<Rightarrow> login_request \<Rightarrow> limiter_state \<Rightarrow>
    login_outcome option \<times> limiter_state" where
  "login_enter c rq st =
     (case loginStatus (at_status c) (rq_ip rq) (loginMap st) of ((count, remain), m) \<Rightarrow>
       (let st0 = st\<lparr>loginMap := m\<rparr>
        in if 0 < remain then
             (Some (AddressLocked (whole_seconds remain + 1)),
              noteBlocked (at_note c) ''the address lock'' (rq_ip rq) (rq_ip rq) st0)
           else (case loginAccount (rq_body rq) of (account, oversize) \<Rightarrow>
             if oversize then (Some BodyTooLarge, st0)
             else (case account_gate c (rq_ip rq) account st0 of (remaining, st1) \<Rightarrow>
               if 0 < remaining then (Some (AccountLocked (whole_seconds remaining + 1)), st1)
               else (None, st1)))))"

text \<open>Everything after it.\<close>

definition login_exit :: "bool \<Rightarrow> login_clock \<Rightarrow> login_request \<Rightarrow> limiter_state \<Rightarrow> limiter_state" where
  "login_exit hasDB c rq st =
     (if statusWriter_code (rq_codes rq) = StatusUnauthorized
      then count_failure hasDB c (rq_ip rq) (fst (loginAccount (rq_body rq))) st else st)"

lemma login_enter_eq:
  "login_enter c rq st =
     (if 0 < snd (fst (status_of c rq st)) then
        (Some (AddressLocked (whole_seconds (snd (fst (status_of c rq st))) + 1)),
         noteBlocked (at_note c) ''the address lock'' (rq_ip rq) (rq_ip rq)
           (st\<lparr>loginMap := snd (status_of c rq st)\<rparr>))
      else if snd (loginAccount (rq_body rq)) then
        (Some BodyTooLarge, st\<lparr>loginMap := snd (status_of c rq st)\<rparr>)
      else if 0 < fst (gate_of c rq st) then
        (Some (AccountLocked (whole_seconds (fst (gate_of c rq st)) + 1)), snd (gate_of c rq st))
      else (None, snd (gate_of c rq st)))"
  by (simp add: login_enter_def status_of_def gate_of_def split_def Let_def)

text \<open>Run back to back, the halves are the middleware.\<close>

lemma login_halves:
  "snd (LoginRateLimit h c rq st) =
     (case login_enter c rq st of (Some out, st') \<Rightarrow> st' | (None, st') \<Rightarrow> login_exit h c rq st')"
  by (simp add: LoginRateLimit_eq login_enter_eq login_exit_def)

section \<open>Interleavings\<close>

record conc_state =
  clock :: time
  lim :: limiter_state
  inflight :: "login_request list"

inductive conc_step :: "bool \<Rightarrow> conc_state \<Rightarrow> conc_state \<Rightarrow> bool" for h where
  refuse: "clock_runs c \<Longrightarrow> clock s \<le> at_status c \<Longrightarrow> login_enter c rq (lim s) = (Some out, l) \<Longrightarrow>
     conc_step h s (s\<lparr>clock := at_account c, lim := l\<rparr>)"
| admit: "clock_runs c \<Longrightarrow> clock s \<le> at_status c \<Longrightarrow> login_enter c rq (lim s) = (None, l) \<Longrightarrow>
     conc_step h s (s\<lparr>clock := at_account c, lim := l, inflight := rq # inflight s\<rparr>)"
| finish: "clock_runs c \<Longrightarrow> clock s \<le> at_fail c \<Longrightarrow> rq \<in> set (inflight s) \<Longrightarrow>
     conc_step h s (s\<lparr>clock := at_accountFail c, lim := login_exit h c rq (lim s),
       inflight := remove1 rq (inflight s)\<rparr>)"
| reap: "0 < now \<Longrightarrow> clock s \<le> now \<Longrightarrow>
     conc_step h s (s\<lparr>clock := now, lim := reap_state now (lim s)\<rparr>)"

inductive_cases conc_stepE: "conc_step h s t"

inductive conc_reach :: "bool \<Rightarrow> conc_state \<Rightarrow> bool" for h where
  start: "conc_reach h \<lparr>clock = 0, lim = empty_limiter, inflight = []\<rparr>"
| step: "conc_reach h s \<Longrightarrow> conc_step h s t \<Longrightarrow> conc_reach h t"

subsection \<open>A lock holds under every interleaving\<close>

lemma enter_loginMap: "loginMap (snd (login_enter c rq st)) = snd (status_of c rq st)"
  by (simp add: login_enter_eq)

lemma enter_until: "rec_until (loginMap (snd (login_enter c rq st))) k = rec_until (loginMap st) k"
  by (simp add: enter_loginMap status_of_def login.trimmed_until)

lemma enter_untilD:
  "login_enter c rq st = (out, l) \<Longrightarrow> rec_until (loginMap l) k = rec_until (loginMap st) k"
  by (metis enter_until snd_conv)

lemma exit_until:
  "rec_until (loginMap (login_exit h c rq st)) k = rec_until (loginMap st) k \<or>
   rec_until (loginMap (login_exit h c rq st)) k = at_fail c + loginLock"
  by (cases "k = rq_ip rq"; cases "fst (loginRecordFail (at_fail c) (rq_ip rq) (loginMap st))")
     (auto simp: login_exit_def count_failure_loginMap login.recorded_engaged login.recorded_counted
        login.recorded_other)

lemma reap_loginMap:
  "loginMap (reap_state now st) = map_prune (stale_record now (loginWindow + loginLock)) (loginMap st)"
  by (simp add: reap_state_def loginReaper_tick_def)

text \<open>No lock reaches further into the future than the lock duration.\<close>

definition locks_bounded :: "conc_state \<Rightarrow> bool" where
  "locks_bounded s = (0 \<le> clock s \<and> (\<forall>k. rec_until (loginMap (lim s)) k \<le> clock s + loginLock))"

lemma locks_bounded_step: "conc_step h s t \<Longrightarrow> locks_bounded s \<Longrightarrow> locks_bounded t"
proof (induction rule: conc_step.induct)
  case (refuse c s rq out l)
  then have "rec_until (loginMap l) k \<le> at_account c + loginLock" for k
    using enter_untilD [OF refuse.hyps(3), of k] by (auto simp: locks_bounded_def clock_runs_def dest: spec [of _ k])
  with refuse show ?case by (auto simp: locks_bounded_def clock_runs_def)
next
  case (admit c s rq l)
  then have "rec_until (loginMap l) k \<le> at_account c + loginLock" for k
    using enter_untilD [OF admit.hyps(3), of k] by (auto simp: locks_bounded_def clock_runs_def dest: spec [of _ k])
  with admit show ?case by (auto simp: locks_bounded_def clock_runs_def)
next
  case (finish c s rq)
  have "rec_until (loginMap (login_exit h c rq (lim s))) k \<le> at_accountFail c + loginLock" for k
    using exit_until [of h c rq "lim s" k] finish
    by (auto simp: locks_bounded_def clock_runs_def dest: spec [of _ k])
  with finish show ?case by (auto simp: locks_bounded_def clock_runs_def)
next
  case (reap now s)
  have "rec_until (loginMap (reap_state now (lim s))) k \<le> now + loginLock" for k
    using reaped_record [OF reap.hyps(1), of "loginWindow + loginLock" "loginMap (lim s)" k] reap
    by (auto simp: locks_bounded_def reap_loginMap limiter_consts dest: spec [of _ k])
  with reap show ?case by (auto simp: locks_bounded_def)
qed

lemma locks_bounded_reach: "conc_reach h s \<Longrightarrow> locks_bounded s"
proof (induction rule: conc_reach.induct)
  case start
  show ?case by (simp add: locks_bounded_def empty_limiter_def counter_defs limiter_consts)
next
  case (step s t)
  then show ?case by (blast intro: locks_bounded_step)
qed

lemma conc_step_clock: "conc_step h s t \<Longrightarrow> clock s \<le> clock t"
  by (induction rule: conc_step.induct) (auto simp: clock_runs_def)

lemma lock_survives_step:
  assumes "conc_step h s t" and "locks_bounded s" and "clock t < rec_until (loginMap (lim s)) ip"
  shows "rec_until (loginMap (lim s)) ip \<le> rec_until (loginMap (lim t)) ip"
  using assms
proof (induction rule: conc_step.induct)
  case (refuse c s rq out l)
  then show ?case by (simp add: enter_untilD)
next
  case (admit c s rq l)
  then show ?case by (simp add: enter_untilD)
next
  case (finish c s rq)
  then show ?case using exit_until [of h c rq "lim s" ip]
    by (auto simp: locks_bounded_def dest: spec [of _ ip])
next
  case (reap now s)
  then show ?case
    using reaped_record [OF reap.hyps(1), of "loginWindow + loginLock" "loginMap (lim s)" ip]
    by (simp add: reap_loginMap)
qed

lemma enter_refused:
  "0 < at_status c \<Longrightarrow> at_status c < rec_until (loginMap st) (rq_ip rq) \<Longrightarrow>
     \<exists>retry. fst (login_enter c rq st) = Some (AddressLocked retry) \<and>
       rec_until (loginMap st) (rq_ip rq) - at_status c < retry * second \<and>
       loginMap (snd (login_enter c rq st)) = loginMap st \<and>
       accountMap (snd (login_enter c rq st)) = accountMap st"
proof -
  assume now: "0 < at_status c" and locked: "at_status c < rec_until (loginMap st) (rq_ip rq)"
  let ?d = "rec_until (loginMap st) (rq_ip rq) - at_status c"
  have d: "snd (fst (status_of c rq st)) = ?d"
    using login.remaining_eq [OF now, of "rq_ip rq" "loginMap st"] locked by (simp add: status_of_def)
  moreover have "snd (status_of c rq st) = loginMap st"
    using login.trimmed_locked [OF locked] by (simp add: status_of_def)
  moreover have "?d < (whole_seconds ?d + 1) * second"
    using locked by (simp add: whole_seconds_def second_def)
  ultimately show ?thesis using locked by (simp add: login_enter_eq)
qed

inductive conc_run :: "bool \<Rightarrow> conc_state \<Rightarrow> conc_state \<Rightarrow> bool" for h where
  here: "conc_run h s s"
| more: "conc_run h s t \<Longrightarrow> conc_step h t u \<Longrightarrow> conc_run h s u"

lemma conc_run_reach: "conc_run h s t \<Longrightarrow> conc_reach h s \<Longrightarrow> conc_reach h t"
  by (induction rule: conc_run.induct) (auto intro: conc_reach.step)

lemma lock_survives_run:
  "conc_run h s t \<Longrightarrow> conc_reach h s \<Longrightarrow> clock t < rec_until (loginMap (lim s)) ip \<Longrightarrow>
     rec_until (loginMap (lim s)) ip \<le> rec_until (loginMap (lim t)) ip"
proof (induction rule: conc_run.induct)
  case (more s t u)
  have "clock t \<le> clock u" using conc_step_clock [OF more.hyps(2)] .
  then have "rec_until (loginMap (lim s)) ip \<le> rec_until (loginMap (lim t)) ip"
    using more by simp
  moreover have "rec_until (loginMap (lim t)) ip \<le> rec_until (loginMap (lim u)) ip"
    using more calculation
    by (intro lock_survives_step [OF more.hyps(2)] locks_bounded_reach [OF conc_run_reach]) auto
  ultimately show ?case by simp
qed simp

text \<open>
  Once an address is locked, no interleaving of login requests, counted failures and reaper
  ticks lets a request from it through before the lock ends: whatever states a run passes through,
  a request that arrives before the end of the lock is answered 429 without reaching the handler,
  the \<open>Retry-After\<close> it is given outlasts the lock, and no counter changes.
\<close>

theorem locked_address_stays_refused:
  assumes "conc_reach h s" and "conc_run h s t"
    and "clock t \<le> at_status c" and "0 < at_status c"
    and "at_status c < rec_until (loginMap (lim s)) (rq_ip rq)"
  shows "\<exists>retry. fst (login_enter c rq (lim t)) = Some (AddressLocked retry) \<and>
    rec_until (loginMap (lim s)) (rq_ip rq) < at_status c + retry * second \<and>
    loginMap (snd (login_enter c rq (lim t))) = loginMap (lim t) \<and>
    accountMap (snd (login_enter c rq (lim t))) = accountMap (lim t)"
proof -
  have le: "rec_until (loginMap (lim s)) (rq_ip rq) \<le> rec_until (loginMap (lim t)) (rq_ip rq)"
    using assms by (intro lock_survives_run) auto
  then have "at_status c < rec_until (loginMap (lim t)) (rq_ip rq)" using assms(5) by simp
  from enter_refused [OF assms(4) this] le show ?thesis by force
qed

subsection \<open>Attempts in flight are not counted\<close>

text \<open>
  A request that finds no failure recorded is let through and leaves the counters as they were, so
  the check cannot see the attempts that are still in the handler.
\<close>

lemma enter_fresh:
  assumes "loginMap st (rq_ip rq) = None" and "snd (loginAccount (rq_body rq)) = False"
    and "accountMap st (fst (loginAccount (rq_body rq))) = None"
  shows "login_enter c rq st = (None, st)"
proof -
  have s: "status_of c rq st = ((0, 0), loginMap st)" using assms(1) by (simp add: status_of_def loginStatus_def)
  have g: "gate_of c rq st = (0, st)"
    using assms(3) by (simp add: gate_of_def s account_gate_def accountLockRemaining_def Let_def)
  show ?thesis using assms(2) by (simp add: login_enter_eq s g)
qed

definition still_clock :: "time \<Rightarrow> login_clock" where
  "still_clock t = \<lparr>at_status = t, at_note = t, at_account = t, at_fail = t, at_accountFail = t\<rparr>"

text \<open>
  The limit bounds counted failures, not attempts: for every \<open>n\<close> there is an interleaving in
  which \<open>n\<close> requests from one address, naming one account, are all let through to the password
  check while no failure has been counted. (All arrive before the first of them is answered.)
\<close>

theorem attempts_in_flight_unbounded:
  assumes "snd (loginAccount (rq_body rq)) = False"
  shows "\<exists>s. conc_reach h s \<and> inflight s = replicate n rq \<and> lim s = empty_limiter"
proof -
  have "\<exists>s. conc_reach h s \<and> inflight s = replicate n rq \<and> lim s = empty_limiter \<and> clock s \<le> 1"
  proof (induction n)
    case 0
    show ?case by (rule exI [of _ "\<lparr>clock = 0, lim = empty_limiter, inflight = []\<rparr>"])
      (simp add: conc_reach.start)
  next
    case (Suc n)
    then obtain s where s: "conc_reach h s" "inflight s = replicate n rq" "lim s = empty_limiter" "clock s \<le> 1"
      by blast
    have "login_enter (still_clock 1) rq (lim s) = (None, lim s)"
      using s(3) assms by (intro enter_fresh) (simp_all add: empty_limiter_def)
    then have "conc_step h s (s\<lparr>clock := at_account (still_clock 1), lim := lim s, inflight := rq # inflight s\<rparr>)"
      using s(4) by (intro conc_step.admit) (simp_all add: clock_runs_def still_clock_def)
    from conc_reach.step [OF s(1) this] s show ?case
      by (intro exI [of _ "s\<lparr>clock := at_account (still_clock 1), lim := lim s, inflight := rq # inflight s\<rparr>"])
         (simp add: still_clock_def)
  qed
  then show ?thesis by blast
qed

definition guess :: login_request where
  "guess = \<lparr>rq_ip = ''192.0.2.7'',
     rq_body = Some \<lparr>body_bytes = ''{}'', body_read_err = False, json_username = Some ''root''\<rparr>,
     rq_codes = [401]\<rparr>"

lemma guess_account: "loginAccount (rq_body guess) = (''root'', False)"
  by code_simp

theorem attempts_in_flight_unbounded_witness:
  "\<exists>s. conc_reach True s \<and> inflight s = replicate 1000 guess \<and> lim s = empty_limiter"
  by (rule attempts_in_flight_unbounded) (simp add: guess_account)

text \<open>A run that locks an address: the same wrong guess, one second after another.\<close>

fun attack :: "nat \<Rightarrow> conc_state" where
  "attack 0 = \<lparr>clock = 0, lim = empty_limiter, inflight = []\<rparr>"
| "attack (Suc n) = \<lparr>clock = int (Suc n) * second,
     lim = login_exit True (still_clock (int (Suc n) * second)) guess
             (snd (login_enter (still_clock (int (Suc n) * second)) guess (lim (attack n)))),
     inflight = []\<rparr>"

lemma attack_clock: "clock (attack n) = int n * second" "inflight (attack n) = []"
  by (cases n; simp)+

lemma conc_update_all:
  "(s :: conc_state)\<lparr>clock := a, lim := b, inflight := i\<rparr> = \<lparr>clock = a, lim = b, inflight = i\<rparr>"
  by (cases s) simp

lemma attack_reach:
  "(\<forall>i<n. fst (login_enter (still_clock (int (Suc i) * second)) guess (lim (attack i))) = None) \<Longrightarrow>
     conc_reach True (attack n)"
proof (induction n)
  case 0
  show ?case by (simp add: conc_reach.start)
next
  case (Suc n)
  let ?c = "still_clock (int (Suc n) * second)" and ?s = "attack n"
  let ?l = "snd (login_enter ?c guess (lim ?s))"
  let ?t = "?s\<lparr>clock := at_account ?c, lim := ?l, inflight := guess # inflight ?s\<rparr>"
  have runs: "clock_runs ?c" and le: "clock ?s \<le> at_status ?c"
    by (simp_all add: clock_runs_def still_clock_def attack_clock second_def)
  have "login_enter ?c guess (lim ?s) = (None, ?l)"
    using Suc.prems by (metis lessI prod.collapse)
  then have "conc_reach True ?t"
    using Suc le runs by (intro conc_reach.step [OF _ conc_step.admit]) auto
  then have "conc_reach True (?t\<lparr>clock := at_accountFail ?c, lim := login_exit True ?c guess (lim ?t),
      inflight := remove1 guess (inflight ?t)\<rparr>)"
    using runs by (elim conc_reach.step) (intro conc_step.finish, auto simp: still_clock_def)
  then show ?case by (simp add: still_clock_def attack_clock conc_update_all)
qed

lemma guess_fails: "statusWriter_code (rq_codes guess) = StatusUnauthorized" "rq_ip guess = ''192.0.2.7''"
  by (simp_all add: guess_def statusWriter_code_def http_codes)

lemma attack_enter:
  assumes "0 < t" and "rec_until (loginMap st) (rq_ip guess) \<le> t" and "rec_until (accountMap st) ''root'' \<le> t"
  shows "fst (login_enter (still_clock t) guess st) = None"
    "loginMap (snd (login_enter (still_clock t) guess st)) = snd (loginStatus t (rq_ip guess) (loginMap st))"
    "accountMap (snd (login_enter (still_clock t) guess st)) = snd (accountLockRemaining t ''root'' (accountMap st))"
proof -
  have s: "\<not> 0 < snd (fst (status_of (still_clock t) guess st))"
    using login.remaining_eq [OF assms(1)] assms(2) by (simp add: status_of_def still_clock_def)
  have g: "\<not> 0 < fst (gate_of (still_clock t) guess st)"
    using account.remaining_eq [OF assms(1)] assms(3)
    by (simp add: gate_of_def guess_account account_gate_remaining) (simp add: still_clock_def)
  show "fst (login_enter (still_clock t) guess st) = None"
    "loginMap (snd (login_enter (still_clock t) guess st)) = snd (loginStatus t (rq_ip guess) (loginMap st))"
    "accountMap (snd (login_enter (still_clock t) guess st)) = snd (accountLockRemaining t ''root'' (accountMap st))"
    using s g by (simp_all add: login_enter_eq guess_account gate_of_def account_gate_accountMap)
      (simp_all add: status_of_def still_clock_def)
qed

lemma attack_counts:
  "n < 5 \<Longrightarrow> length (rec_fails (loginMap (lim (attack n))) (rq_ip guess)) = n \<and>
     (\<forall>t \<in> set (rec_fails (loginMap (lim (attack n))) (rq_ip guess)). 0 \<le> t) \<and>
     rec_until (loginMap (lim (attack n))) (rq_ip guess) = 0 \<and>
     length (rec_fails (accountMap (lim (attack n))) ''root'') \<le> n \<and>
     rec_until (accountMap (lim (attack n))) ''root'' = 0"
proof (induction n)
  case 0
  show ?case by (simp add: empty_limiter_def counter_defs)
next
  case (Suc n)
  let ?t = "int (Suc n) * second" and ?L = "loginMap (lim (attack n))" and ?A = "accountMap (lim (attack n))"
  let ?ip = "rq_ip guess"
  have IH: "length (rec_fails ?L ?ip) = n" "\<forall>t \<in> set (rec_fails ?L ?ip). 0 \<le> t" "rec_until ?L ?ip = 0"
    "length (rec_fails ?A ''root'') \<le> n" "rec_until ?A ''root'' = 0"
    using Suc by auto
  have t: "0 < ?t" "?t - loginWindow < 0" using Suc.prems by (simp_all add: limiter_consts)
  note en = attack_enter [OF t(1), of "lim (attack n)"]
  let ?L1 = "snd (loginStatus ?t ?ip ?L)" and ?A1 = "snd (accountLockRemaining ?t ''root'' ?A)"
  have "rec_fails ?L1 ?ip = rec_fails ?L ?ip"
    using IH(2,3) t by (subst login.trimmed_fails) (auto simp: filter_id_conv)
  moreover have "length (rec_fails ?A1 ''root'') \<le> n"
    using IH(4,5) t by (subst account.trimmed_fails) (auto intro: order_trans [OF length_filter_le])
  moreover have "\<not> fst (loginRecordFail ?t ?ip ?L1)" "\<not> fst (accountRecordFail ?t ''root'' ?A1)"
    using calculation IH(1) Suc.prems
    by (auto simp: login.engaged_iff account.engaged_iff loginMaxFail_def accountMaxFail_def)
  ultimately show ?case
    using IH t en login.recorded_counted [of ?t ?ip ?L1] account.recorded_counted [of ?t "''root''" ?A1]
    by (simp add: login_exit_def guess_fails guess_account count_failure_loginMap count_failure_accountMap
        login.trimmed_until account.trimmed_until still_clock_def)
qed

lemma attack_admitted:
  "\<forall>i<5. fst (login_enter (still_clock (int (Suc i) * second)) guess (lim (attack i))) = None"
  using attack_counts by (auto intro!: attack_enter simp: second_def)

lemma attack_locked: "rec_until (loginMap (lim (attack 5))) ''192.0.2.7'' = 1805 * second"
proof -
  let ?t = "5 * second" and ?L = "loginMap (lim (attack 4))" and ?ip = "rq_ip guess"
  let ?L1 = "snd (loginStatus ?t ?ip ?L)"
  have c: "length (rec_fails ?L ?ip) = 4" "\<forall>t \<in> set (rec_fails ?L ?ip). 0 \<le> t" "rec_until ?L ?ip = 0"
    "rec_until (accountMap (lim (attack 4))) ''root'' = 0" using attack_counts [of 4] by auto
  have "rec_fails ?L1 ?ip = rec_fails ?L ?ip"
    using c(2,3) by (subst login.trimmed_fails) (auto simp: filter_id_conv limiter_consts)
  then have "fst (loginRecordFail ?t ?ip ?L1)" using c(1) by (simp add: login.engaged_iff loginMaxFail_def)
  moreover have "loginMap (snd (login_enter (still_clock ?t) guess (lim (attack 4)))) = ?L1"
    using c by (intro attack_enter) (simp_all add: second_def)
  then have "loginMap (lim (attack (Suc 4))) = snd (loginRecordFail ?t ?ip ?L1)"
    unfolding attack.simps(2) by (simp add: login_exit_def guess_fails count_failure_loginMap still_clock_def)
  moreover have "Suc 4 = (5::nat)" by simp
  ultimately show ?thesis
    using login.recorded_engaged [of ?t ?ip ?L1] by (simp add: guess_fails limiter_consts)
qed

theorem locked_address_stays_refused_witness:
  "\<exists>retry. fst (login_enter (still_clock (100 * second)) guess (lim (attack 5))) = Some (AddressLocked retry) \<and>
     1805 * second < 100 * second + retry * second"
  using locked_address_stays_refused [OF attack_reach [OF attack_admitted] conc_run.here,
      of "still_clock (100 * second)" guess]
  by (simp add: still_clock_def guess_fails attack_clock attack_locked del: attack.simps)
     (auto simp: second_def)

end
