(* ===== verification/StateCache.thy ===== *)
theory StateCache
  imports GoText "HOL-Library.AList"
begin

text \<open>
  \<open>internal/middleware/dbresilience.go\<close> and \<open>dbresiliencelog.go\<close>: the two authorization reads every
  request makes go through \<open>readState\<close>, which retries a failed query and then falls back on the
  value last read for the key while that value is fresh. The Go map is an association list
  without repeated keys, since its size decides when a store prunes it.
\<close>

section \<open>State\<close>

definition dbRetryAttempts :: nat where "dbRetryAttempts = 2"
definition stateCacheTTL :: duration where "stateCacheTTL = 30 * second"
definition stateCacheMaxEntries :: nat where "stateCacheMaxEntries = 1024"
definition stateComplainInterval :: duration where "stateComplainInterval = stateCacheTTL"

record cachedState =
  cs_value :: int
  cs_at :: time

datatype complaintKind = ComplaintFallback | ComplaintDenied

datatype state_line = Degraded complaintKind string | Recovered

record auth_state =
  stateCache :: "(string \<times> cachedState) list"
  lastComplaint :: "complaintKind \<rightharpoonup> time"
  degradedSince :: time
  stateLines :: "state_line list"

definition init_auth_state :: auth_state where
  "init_auth_state = \<lparr>stateCache = [], lastComplaint = Map.empty, degradedSince = zero_time, stateLines = []\<rparr>"

section \<open>Operations\<close>

definition stateStore :: "string \<Rightarrow> int \<Rightarrow> time \<Rightarrow> auth_state \<Rightarrow> auth_state" where
  "stateStore key value at st =
     (let c = (if stateCacheMaxEntries \<le> length (stateCache st)
               then filter (\<lambda>(k, v). \<not> (stateCacheTTL < at - cs_at v)) (stateCache st)
               else stateCache st)
      in st\<lparr>stateCache := AList.update key \<lparr>cs_value = value, cs_at = at\<rparr> c\<rparr>)"

definition stateLoad :: "string \<Rightarrow> time \<Rightarrow> auth_state \<Rightarrow> int option" where
  "stateLoad key at st = (case map_of (stateCache st) key of
      None \<Rightarrow> None
    | Some v \<Rightarrow> if stateCacheTTL < at - cs_at v then None else Some (cs_value v))"

definition complainState :: "time \<Rightarrow> complaintKind \<Rightarrow> string \<Rightarrow> auth_state \<Rightarrow> auth_state" where
  "complainState now kind key st =
     (let st1 = (if degradedSince st = zero_time then st\<lparr>degradedSince := now\<rparr> else st)
      in if (case lastComplaint st1 kind of None \<Rightarrow> False
             | Some previous \<Rightarrow> now - previous < stateComplainInterval) then st1
         else st1\<lparr>lastComplaint := (lastComplaint st1)(kind \<mapsto> now),
                  stateLines := stateLines st1 @ [Degraded kind key]\<rparr>)"

definition noteStateHealthy :: "auth_state \<Rightarrow> auth_state" where
  "noteStateHealthy st =
     (if degradedSince st = zero_time then st
      else st\<lparr>degradedSince := zero_time, lastComplaint := Map.empty,
              stateLines := stateLines st @ [Recovered]\<rparr>)"

datatype read_error = ErrNoRows | ErrQuery | ErrContext

datatype db_answer = Answer int | NoRows | Failed

definition fallbackState :: "time \<Rightarrow> string \<Rightarrow> read_error \<Rightarrow> auth_state \<Rightarrow> (read_error + int) \<times> auth_state" where
  "fallbackState now key readErr st = (case stateLoad key now st of
      Some value \<Rightarrow> (Inr value, complainState now ComplaintFallback key st)
    | None \<Rightarrow> (Inl readErr, complainState now ComplaintDenied key st))"

text \<open>
  What one call meets: the answer of the query at each attempt, whether the request's context
  ended during the pause before it, and the clock readings of the store and of the fallback.
\<close>

record read_env =
  query :: "nat \<Rightarrow> db_answer"
  cancelled :: "nat \<Rightarrow> bool"
  stored_at :: "nat \<Rightarrow> time"
  fallback_at :: time

function readState_from :: "read_env \<Rightarrow> string \<Rightarrow> nat \<Rightarrow> read_error \<Rightarrow> auth_state \<Rightarrow>
    (read_error + int) \<times> auth_state" where
  "readState_from env key attempt lastErr st =
     (if dbRetryAttempts < attempt then fallbackState (fallback_at env) key lastErr st
      else if 0 < attempt \<and> cancelled env attempt then fallbackState (fallback_at env) key ErrContext st
      else (case query env attempt of
          Answer value \<Rightarrow> (Inr value, noteStateHealthy (stateStore key value (stored_at env attempt) st))
        | NoRows \<Rightarrow> (Inl ErrNoRows, st)
        | Failed \<Rightarrow> readState_from env key (Suc attempt) ErrQuery st))"
  by pat_completeness auto
termination
  by (relation "measure (\<lambda>(env, key, attempt, e, st). 3 - attempt)") (auto simp: dbRetryAttempts_def)

declare readState_from.simps [simp del]

definition readState :: "read_env \<Rightarrow> string \<Rightarrow> auth_state \<Rightarrow> (read_error + int) \<times> auth_state" where
  "readState env key st = readState_from env key 0 ErrQuery st"

section \<open>The cache as a map\<close>

lemma stateStore_lookup:
  "distinct (map fst (stateCache st)) \<Longrightarrow>
   map_of (stateCache (stateStore key value at st)) k =
     (if k = key then Some \<lparr>cs_value = value, cs_at = at\<rparr>
      else (case map_of (stateCache st) k of None \<Rightarrow> None
            | Some v \<Rightarrow> if stateCacheMaxEntries \<le> length (stateCache st) \<and> stateCacheTTL < at - cs_at v
                       then None else Some v))"
proof -
  assume d: "distinct (map fst (stateCache st))"
  then show ?thesis
    by (auto simp: stateStore_def Let_def update_conv' map_of_filter_values [OF d, of "\<lambda>v. \<not> (stateCacheTTL < at - cs_at v)"]
        split: option.splits)
qed

lemma stateStore_distinct:
  "distinct (map fst (stateCache st)) \<Longrightarrow> distinct (map fst (stateCache (stateStore key value at st)))"
  by (auto simp: stateStore_def Let_def distinct_map_filter intro!: distinct_update)

lemma complainState_cache [simp]: "stateCache (complainState now kind key st) = stateCache st"
  by (simp add: complainState_def Let_def)

lemma noteStateHealthy_cache [simp]: "stateCache (noteStateHealthy st) = stateCache st"
  by (simp add: noteStateHealthy_def)

lemma fallbackState_cache [simp]: "stateCache (snd (fallbackState now key e st)) = stateCache st"
  by (simp add: fallbackState_def split: option.splits)

text \<open>
  Every call ends in one of four ways: an answer that was stored, an absent row, the cached
  value, or a refusal.
\<close>

lemma readState_from_cases:
  "(\<exists>a v. attempt \<le> a \<and> query env a = Answer v \<and>
      readState_from env key attempt e st =
        (Inr v, noteStateHealthy (stateStore key v (stored_at env a) st))) \<or>
   (\<exists>a. attempt \<le> a \<and> query env a = NoRows \<and> readState_from env key attempt e st = (Inl ErrNoRows, st)) \<or>
   (\<exists>e'. readState_from env key attempt e st = fallbackState (fallback_at env) key e' st)"
proof (induction env key attempt e st rule: readState_from.induct)
  case (1 env key attempt e st)
  show ?case
  proof (cases "dbRetryAttempts < attempt \<or> 0 < attempt \<and> cancelled env attempt")
    case True
    then show ?thesis by (auto simp: readState_from.simps [of env key attempt e st])
  next
    case False
    then have unfold: "readState_from env key attempt e st = (case query env attempt of
          Answer value \<Rightarrow> (Inr value, noteStateHealthy (stateStore key value (stored_at env attempt) st))
        | NoRows \<Rightarrow> (Inl ErrNoRows, st)
        | Failed \<Rightarrow> readState_from env key (Suc attempt) ErrQuery st)"
      by (subst readState_from.simps) auto
    show ?thesis
    proof (cases "query env attempt")
      case Failed
      with 1 False have "(\<exists>a v. Suc attempt \<le> a \<and> query env a = Answer v \<and>
          readState_from env key (Suc attempt) ErrQuery st =
            (Inr v, noteStateHealthy (stateStore key v (stored_at env a) st))) \<or>
        (\<exists>a. Suc attempt \<le> a \<and> query env a = NoRows \<and>
          readState_from env key (Suc attempt) ErrQuery st = (Inl ErrNoRows, st)) \<or>
        (\<exists>e'. readState_from env key (Suc attempt) ErrQuery st = fallbackState (fallback_at env) key e' st)"
        by blast
      with unfold Failed show ?thesis by (auto intro: Suc_leD)
    qed (use unfold in auto)
  qed
qed

section \<open>Nothing is invented, and nothing outlives the window\<close>

text \<open>
  \<open>truth t k\<close> is what the database held for \<open>k\<close> at \<open>t\<close>. A query that answers read it at some moment
  no more than \<open>lat\<close> before the store that follows.
\<close>

definition read_at :: "(time \<Rightarrow> string \<Rightarrow> int) \<Rightarrow> duration \<Rightarrow> string \<Rightarrow> int \<Rightarrow> time \<Rightarrow> bool" where
  "read_at truth lat key v at = (\<exists>q. q \<le> at \<and> at \<le> q + lat \<and> truth q key = v)"

definition honest_env :: "(time \<Rightarrow> string \<Rightarrow> int) \<Rightarrow> duration \<Rightarrow> string \<Rightarrow> read_env \<Rightarrow> bool" where
  "honest_env truth lat key env =
     (\<forall>a v. query env a = Answer v \<longrightarrow> read_at truth lat key v (stored_at env a))"

definition honest_cache :: "(time \<Rightarrow> string \<Rightarrow> int) \<Rightarrow> duration \<Rightarrow> auth_state \<Rightarrow> bool" where
  "honest_cache truth lat st = (distinct (map fst (stateCache st)) \<and>
     (\<forall>k v. map_of (stateCache st) k = Some v \<longrightarrow> read_at truth lat k (cs_value v) (cs_at v)))"

lemma honest_cache_init: "honest_cache truth lat init_auth_state"
  by (simp add: honest_cache_def init_auth_state_def)

lemma honest_cache_frame:
  "stateCache st' = stateCache st \<Longrightarrow> honest_cache truth lat st' = honest_cache truth lat st"
  unfolding honest_cache_def by (simp only:)

lemma honest_cache_store:
  "honest_cache truth lat st \<Longrightarrow> read_at truth lat key v at \<Longrightarrow> honest_cache truth lat (stateStore key v at st)"
  by (auto simp: honest_cache_def stateStore_lookup stateStore_distinct split: option.splits if_splits)

lemma honest_cache_readState:
  assumes "honest_cache truth lat st" and "honest_env truth lat key env"
  shows "honest_cache truth lat (snd (readState env key st))"
  using readState_from_cases [of 0 env key ErrQuery st] unfolding readState_def
proof (elim disjE exE conjE)
  fix a v
  assume "query env a = Answer v" and r: "readState_from env key 0 ErrQuery st =
    (Inr v, noteStateHealthy (stateStore key v (stored_at env a) st))"
  then have "honest_cache truth lat (stateStore key v (stored_at env a) st)"
    using assms by (intro honest_cache_store) (auto simp: honest_env_def)
  then show "honest_cache truth lat (snd (readState_from env key 0 ErrQuery st))"
    unfolding r snd_conv by (subst honest_cache_frame [OF noteStateHealthy_cache])
next
  fix e'
  assume r: "readState_from env key 0 ErrQuery st = fallbackState (fallback_at env) key e' st"
  show "honest_cache truth lat (snd (readState_from env key 0 ErrQuery st))"
    unfolding r by (subst honest_cache_frame [OF fallbackState_cache]) (rule assms(1))
qed (use assms(1) in simp)

text \<open>The moment a call's result stands for: the store of its answer, or the fallback.\<close>

lemma readState_value:
  assumes "honest_cache truth lat st" and "honest_env truth lat key env"
    and "fst (readState env key st) = Inr v"
  shows "(\<exists>a. query env a = Answer v \<and> read_at truth lat key v (stored_at env a)) \<or>
    (\<exists>at. fallback_at env \<le> at + stateCacheTTL \<and> read_at truth lat key v at)"
  using readState_from_cases [of 0 env key ErrQuery st]
proof (elim disjE exE conjE)
  fix a w
  assume "query env a = Answer w" and "readState_from env key 0 ErrQuery st =
    (Inr w, noteStateHealthy (stateStore key w (stored_at env a) st))"
  then show ?thesis using assms by (auto simp: readState_def honest_env_def)
next
  fix e'
  assume "readState_from env key 0 ErrQuery st = fallbackState (fallback_at env) key e' st"
  then have "stateLoad key (fallback_at env) st = Some v"
    using assms(3) by (auto simp: readState_def fallbackState_def split: option.splits)
  then show ?thesis using assms(1)
    by (auto simp: stateLoad_def honest_cache_def split: option.splits if_splits)
       (metis add.commute diff_le_eq linorder_not_less)
qed (use assms in \<open>auto simp: readState_def\<close>)

fun run_reads :: "(string \<times> read_env) list \<Rightarrow> auth_state \<Rightarrow> auth_state" where
  "run_reads [] st = st"
| "run_reads ((key, env) # rs) st = run_reads rs (snd (readState env key st))"

lemma honest_cache_run:
  "honest_cache truth lat st \<Longrightarrow> (\<forall>(key, env) \<in> set rs. honest_env truth lat key env) \<Longrightarrow>
     honest_cache truth lat (run_reads rs st)"
proof (induction rs arbitrary: st)
  case (Cons r rs)
  obtain key env where r: "r = (key, env)" by (cases r)
  have "honest_cache truth lat (snd (readState env key st))"
    using Cons.prems r by (intro honest_cache_readState) auto
  with Cons r show ?case by simp
qed simp

end
