(* ===== verification/Session.thy ===== *)
theory Session
  imports StateCache
begin

text \<open>
  Sessions: the token claims (\<open>internal/auth/jwt.go\<close>), the two revocation checks and
  \<open>RequireAuth\<close> (\<open>internal/middleware/auth.go\<close>), the list of signed-out sessions
  (\<open>internal/sessionrevoke\<close>) and the idle timeout (\<open>internal/sessionidle\<close>). The JWT library is a
  parameter: \<open>jwt_decode\<close> reads a token's header algorithm and claims, \<open>jwt_valid\<close> is its verdict on
  signature and expiry under a key.
\<close>

section \<open>Tokens\<close>

record claims =
  UserID :: int
  Username :: string
  Role :: string
  TokenVersion :: int
  ID :: string
  IssuedAt :: "int option"
  ExpiresAt :: "int option"
  Issuer :: string

record jwt_lib =
  jwt_decode :: "string \<Rightarrow> (string \<times> claims) option"
  jwt_valid :: "string \<Rightarrow> string \<Rightarrow> bool"
  jwt_sign :: "string \<Rightarrow> claims \<Rightarrow> string option"

definition servika_issuer :: string where "servika_issuer = ''servika''"
definition HS256 :: string where "HS256 = ''HS256''"

text \<open>\<open>Issue\<close>: \<open>jti\<close> is what \<open>sessionID\<close> drew (\<open>None\<close> when the random source failed), \<open>now\<close> in Unix seconds.\<close>

definition Issue :: "jwt_lib \<Rightarrow> string \<Rightarrow> int \<Rightarrow> string option \<Rightarrow> int \<Rightarrow> int \<Rightarrow> string \<Rightarrow> string \<Rightarrow> int \<Rightarrow>
    string option" where
  "Issue lib secret lifetimeSec jti now uid username role tokenVersion =
     (case jti of None \<Rightarrow> None
      | Some j \<Rightarrow> jwt_sign lib secret
          \<lparr>UserID = uid, Username = username, Role = role, TokenVersion = tokenVersion, ID = j,
           IssuedAt = Some now, ExpiresAt = Some (now + lifetimeSec), Issuer = servika_issuer\<rparr>)"

datatype parse_error = EmptyToken | InvalidToken | NotAdministratorToken

definition Parse :: "jwt_lib \<Rightarrow> string \<Rightarrow> string \<Rightarrow> parse_error + claims" where
  "Parse lib secret raw =
     (if raw = [] then Inl EmptyToken
      else (case jwt_decode lib raw of
          None \<Rightarrow> Inl InvalidToken
        | Some (alg, c) \<Rightarrow>
            if alg \<noteq> HS256 \<or> \<not> jwt_valid lib secret raw then Inl InvalidToken
            else if Issuer c \<noteq> servika_issuer \<or> Role c = [] then Inl NotAdministratorToken
            else Inr c))"

section \<open>Signed-out sessions\<close>

text \<open>
  The table \<open>revoked_sessions\<close>: identifiers and expiry times. \<open>INSERT IGNORE\<close> keeps an existing row.
\<close>

type_synonym revoked_table = "(string \<times> int) list"

definition Revoke :: "bool \<Rightarrow> string \<Rightarrow> int \<Rightarrow> revoked_table \<Rightarrow> revoked_table" where
  "Revoke hasDB jti expiresAt tab =
     (if \<not> hasDB \<or> jti = [] then tab
      else if jti \<in> set (map fst tab) then tab else tab @ [(jti, expiresAt)])"

definition Listed :: "string \<Rightarrow> revoked_table \<Rightarrow> int" where
  "Listed jti tab = int (length (filter (\<lambda>(j, e). j = jti) tab))"

definition sweep :: "int \<Rightarrow> revoked_table \<Rightarrow> revoked_table" where
  "sweep utc_now tab = filter (\<lambda>(j, e). \<not> (e < utc_now)) tab"

lemma Listed_pos_iff: "0 < Listed jti tab \<longleftrightarrow> jti \<in> set (map fst tab)"
  by (force simp: Listed_def filter_empty_conv)

section \<open>The revocation checks\<close>

definition version_key :: "int \<Rightarrow> string" where
  "version_key uid = ''token_version:users:'' @ itoa uid"

definition revoked_key :: "string \<Rightarrow> string" where
  "revoked_key jti = ''revoked_session:'' @ jti"

definition tokenVersionMatches :: "bool \<Rightarrow> read_env \<Rightarrow> int \<Rightarrow> int \<Rightarrow> auth_state \<Rightarrow>
    (read_error + bool) \<times> auth_state" where
  "tokenVersionMatches hasDB env uid claimVersion st =
     (if \<not> hasDB then (Inr True, st)
      else (case readState env (version_key uid) st of
          (Inl e, st') \<Rightarrow> (Inl e, st')
        | (Inr current, st') \<Rightarrow> (Inr (current = claimVersion), st')))"

definition sessionRevoked :: "bool \<Rightarrow> read_env \<Rightarrow> string \<Rightarrow> auth_state \<Rightarrow>
    (read_error + bool) \<times> auth_state" where
  "sessionRevoked hasDB env jti st =
     (if \<not> hasDB \<or> jti = [] then (Inr False, st)
      else (case readState env (revoked_key jti) st of
          (Inl e, st') \<Rightarrow> (Inl e, st')
        | (Inr listed, st') \<Rightarrow> (Inr (0 < listed), st')))"

datatype response = Deny int string | Next

definition notRevoked :: "bool \<Rightarrow> read_env \<Rightarrow> read_env \<Rightarrow> claims \<Rightarrow> auth_state \<Rightarrow> response \<times> auth_state" where
  "notRevoked hasDB envV envS c st =
     (case tokenVersionMatches hasDB envV (UserID c) (TokenVersion c) st of
        (Inl e, st1) \<Rightarrow> (Deny StatusServiceUnavailable ''could not verify session'', st1)
      | (Inr False, st1) \<Rightarrow> (Deny StatusUnauthorized ''session has been revoked'', st1)
      | (Inr True, st1) \<Rightarrow>
          (case sessionRevoked hasDB envS (ID c) st1 of
             (Inl e, st2) \<Rightarrow> (Deny StatusServiceUnavailable ''could not verify session'', st2)
           | (Inr revoked, st2) \<Rightarrow>
               (if revoked then Deny StatusUnauthorized ''session has been revoked'' else Next, st2)))"

section \<open>The idle timeout\<close>

definition MaxMinutes :: int where "MaxMinutes = 1440"
definition touchInterval :: duration where "touchInterval = 30 * second"
definition settingTTL :: duration where "settingTTL = 60 * second"

definition Valid :: "int \<Rightarrow> bool" where
  "Valid minutes = (0 \<le> minutes \<and> minutes \<le> MaxMinutes)"

record idle_state =
  idle_cached :: int
  idle_cachedAt :: time
  last_activity :: "int \<rightharpoonup> int"
  idle_lastComplaint :: time
  idle_lines :: nat

definition Invalidate :: "idle_state \<Rightarrow> idle_state" where
  "Invalidate st = st\<lparr>idle_cached := 0, idle_cachedAt := zero_time\<rparr>"

text \<open>What the database does during one check, and the clock readings in code order.\<close>

record idle_env =
  setting_row :: "int option"
  activity_readable :: bool
  touch_ok :: bool
  now_cached :: time
  now_stored :: time
  now_current :: time

definition Minutes :: "idle_env \<Rightarrow> idle_state \<Rightarrow> int option \<times> idle_state" where
  "Minutes env st =
     (if now_cached env - settingTTL < idle_cachedAt st then (Some (idle_cached st), st)
      else (case setting_row env of
          None \<Rightarrow> (None, st)
        | Some minutes \<Rightarrow> (Some minutes, st\<lparr>idle_cached := minutes, idle_cachedAt := now_stored env\<rparr>)))"

text \<open>\<open>Enforce\<close>: \<open>None\<close> is an error, \<open>Some True\<close> an expired session.\<close>

definition Enforce :: "bool \<Rightarrow> idle_env \<Rightarrow> int \<Rightarrow> idle_state \<Rightarrow> bool option \<times> idle_state" where
  "Enforce hasDB env userID st =
     (if \<not> hasDB \<or> userID \<le> 0 then (Some False, st)
      else (case Minutes env st of
          (None, st1) \<Rightarrow> (None, st1)
        | (Some minutes, st1) \<Rightarrow>
            if minutes \<le> 0 then (Some False, st1)
            else (case (if activity_readable env then last_activity st1 userID else None) of
                None \<Rightarrow> (None, st1)
              | Some stamp \<Rightarrow>
                  let current = unix (now_current env)
                  in if 0 < stamp \<and> minutes * 60 < current - stamp then (Some True, st1)
                     else if current - stamp < touchInterval div second then (Some False, st1)
                     else if touch_ok env
                     then (Some False, st1\<lparr>last_activity := (last_activity st1)(userID \<mapsto> current)\<rparr>)
                     else (None, st1))))"

definition Complain :: "time \<Rightarrow> idle_state \<Rightarrow> idle_state" where
  "Complain now st =
     (if now - idle_lastComplaint st < touchInterval then st
      else st\<lparr>idle_lastComplaint := now, idle_lines := Suc (idle_lines st)\<rparr>)"

section \<open>\<open>RequireAuth\<close>\<close>

record auth_world =
  aw_auth :: auth_state
  aw_idle :: idle_state

record auth_env =
  ae_version :: read_env
  ae_session :: read_env
  ae_idle :: idle_env
  ae_complain :: time

definition RequireAuth :: "jwt_lib \<Rightarrow> string \<Rightarrow> bool \<Rightarrow> auth_env \<Rightarrow> string option \<Rightarrow> auth_world \<Rightarrow>
    (response \<times> claims option) \<times> auth_world" where
  "RequireAuth lib secret hasDB env cookie w =
     (case cookie of
        None \<Rightarrow> ((Deny StatusUnauthorized ''authorization required'', None), w)
      | Some tokenRaw \<Rightarrow>
          if tokenRaw = [] then ((Deny StatusUnauthorized ''authorization required'', None), w)
          else if 8192 < length tokenRaw then ((Deny StatusUnauthorized ''invalid session'', None), w)
          else (case Parse lib secret tokenRaw of
              Inl e \<Rightarrow> ((Deny StatusUnauthorized ''invalid session'', None), w)
            | Inr c \<Rightarrow>
                (case notRevoked hasDB (ae_version env) (ae_session env) c (aw_auth w) of
                   (Deny code msg, a1) \<Rightarrow> ((Deny code msg, None), w\<lparr>aw_auth := a1\<rparr>)
                 | (Next, a1) \<Rightarrow>
                     (case Enforce hasDB (ae_idle env) (UserID c) (aw_idle w) of
                        (None, i1) \<Rightarrow>
                          ((Next, Some c), w\<lparr>aw_auth := a1, aw_idle := Complain (ae_complain env) i1\<rparr>)
                      | (Some expired, i1) \<Rightarrow>
                          (if expired
                           then (Deny StatusUnauthorized ''session expired after inactivity'', None)
                           else (Next, Some c),
                           w\<lparr>aw_auth := a1, aw_idle := i1\<rparr>)))))"

section \<open>What lets a request through\<close>

lemma tokenVersionMatches_True:
  "fst (tokenVersionMatches True env uid v st) = Inr True \<longleftrightarrow> fst (readState env (version_key uid) st) = Inr v"
  by (auto simp: tokenVersionMatches_def split: prod.splits sum.splits)

lemma tokenVersionMatches_state:
  "snd (tokenVersionMatches True env uid v st) = snd (readState env (version_key uid) st)"
  by (auto simp: tokenVersionMatches_def split: prod.splits sum.splits)

lemma sessionRevoked_False:
  "fst (sessionRevoked True env jti st) = Inr False \<longleftrightarrow>
     jti = [] \<or> (\<exists>n \<le> 0. fst (readState env (revoked_key jti) st) = Inr n)"
  by (auto simp: sessionRevoked_def split: prod.splits sum.splits)

lemma notRevoked_Next:
  "fst (notRevoked True envV envS c st) = Next \<longleftrightarrow>
     fst (tokenVersionMatches True envV (UserID c) (TokenVersion c) st) = Inr True \<and>
     fst (sessionRevoked True envS (ID c) (snd (tokenVersionMatches True envV (UserID c) (TokenVersion c) st))) = Inr False"
  by (auto simp: notRevoked_def split: prod.splits sum.splits bool.splits)

lemma RequireAuth_Next:
  "fst (fst (RequireAuth lib secret True env cookie w)) = Next \<longleftrightarrow>
     (\<exists>tok c. cookie = Some tok \<and> tok \<noteq> [] \<and> length tok \<le> 8192 \<and> Parse lib secret tok = Inr c \<and>
        fst (notRevoked True (ae_version env) (ae_session env) c (aw_auth w)) = Next \<and>
        fst (Enforce True (ae_idle env) (UserID c) (aw_idle w)) \<noteq> Some True)"
  by (auto simp: RequireAuth_def not_less split: option.splits sum.splits prod.splits response.splits bool.splits)

text \<open>
  C1. A request reaches a handler only with a session the panel vouches for. The cookie must hold
  a token of at most 8192 bytes that the JWT library accepts for HS256 under the panel's secret, with
  the panel as issuer and a role; the account's version must have been read and be the token's;
  the session must not be listed as signed out; and the idle check must not have expired it. A
  failed read of the version or of the list refuses the request (the checks fail closed), a failed
  idle check does not.
\<close>

theorem RequireAuth_admits_iff:
  "fst (fst (RequireAuth lib secret True env cookie w)) = Next \<longleftrightarrow>
     (\<exists>tok c. cookie = Some tok \<and> tok \<noteq> [] \<and> length tok \<le> 8192 \<and>
        jwt_decode lib tok = Some (HS256, c) \<and> jwt_valid lib secret tok \<and>
        Issuer c = servika_issuer \<and> Role c \<noteq> [] \<and>
        fst (readState (ae_version env) (version_key (UserID c)) (aw_auth w)) = Inr (TokenVersion c) \<and>
        (ID c = [] \<or> (\<exists>n \<le> 0. fst (readState (ae_session env) (revoked_key (ID c))
           (snd (readState (ae_version env) (version_key (UserID c)) (aw_auth w)))) = Inr n)) \<and>
        fst (Enforce True (ae_idle env) (UserID c) (aw_idle w)) \<noteq> Some True)"
proof -
  have parse: "Parse lib secret tok = Inr c \<longleftrightarrow> tok \<noteq> [] \<and> jwt_decode lib tok = Some (HS256, c) \<and>
      jwt_valid lib secret tok \<and> Issuer c = servika_issuer \<and> Role c \<noteq> []" for tok c
    by (auto simp: Parse_def split: option.splits)
  show ?thesis
    unfolding RequireAuth_Next notRevoked_Next tokenVersionMatches_True tokenVersionMatches_state
      sessionRevoked_False parse by blast
qed

section \<open>Revocation takes effect\<close>

lemma stale_value_refused:
  assumes "honest_cache truth lat st" and "honest_env truth lat key env"
    and "\<And>t. r \<le> t \<Longrightarrow> truth t key \<noteq> v"
    and "\<And>a. r + lat + stateCacheTTL < stored_at env a" and "r + lat + stateCacheTTL < fallback_at env"
  shows "fst (readState env key st) \<noteq> Inr v"
proof
  assume "fst (readState env key st) = Inr v"
  from readState_value [OF assms(1,2) this] obtain at where "r + lat < at" "read_at truth lat key v at"
  proof
    assume "\<exists>a. query env a = Answer v \<and> read_at truth lat key v (stored_at env a)"
    then obtain a where "read_at truth lat key v (stored_at env a)" by blast
    moreover have "r + lat < stored_at env a"
      using assms(4) [of a] by (simp add: stateCacheTTL_def second_def)
    ultimately show ?thesis by (intro that)
  next
    assume "\<exists>at. fallback_at env \<le> at + stateCacheTTL \<and> read_at truth lat key v at"
    then show ?thesis using assms(5) that by force
  qed
  then obtain q where "r + lat < at" "at \<le> q + lat" and q: "truth q key = v" by (auto simp: read_at_def)
  then have "r \<le> q" by linarith
  with assms(3) q show False by blast
qed

text \<open>
  Revoking an account's sessions takes effect everywhere within a bounded time, whether or
  not the database answers: once the account's version has differed from a token's since \<open>r\<close>, no
  check made more than thirty seconds (and one query's latency) after \<open>r\<close> accepts that token, over
  any history of earlier reads. A database outage can extend a revoked session by the cache
  lifetime and by no more.
\<close>

theorem revoked_version_refused:
  assumes "\<forall>(key, env) \<in> set history. honest_env truth lat key env"
    and "honest_env truth lat (version_key uid) env"
    and "\<And>t. r \<le> t \<Longrightarrow> truth t (version_key uid) \<noteq> v"
    and "\<And>a. r + lat + 30 * second < stored_at env a" and "r + lat + 30 * second < fallback_at env"
  shows "fst (tokenVersionMatches True env uid v (run_reads history init_auth_state)) \<noteq> Inr True"
  unfolding tokenVersionMatches_True
proof (rule stale_value_refused [OF honest_cache_run [OF honest_cache_init assms(1)] assms(2,3)])
  show "r + lat + stateCacheTTL < stored_at env a" for a using assms(4) [of a] by (simp add: stateCacheTTL_def)
  show "r + lat + stateCacheTTL < fallback_at env" using assms(5) by (simp add: stateCacheTTL_def)
qed

definition up_env :: "int \<Rightarrow> time \<Rightarrow> read_env" where
  "up_env v t = \<lparr>query = (\<lambda>_. Answer v), cancelled = (\<lambda>_. False), stored_at = (\<lambda>_. t), fallback_at = t\<rparr>"

definition down_env :: "time \<Rightarrow> read_env" where
  "down_env t = \<lparr>query = (\<lambda>_. Failed), cancelled = (\<lambda>_. False), stored_at = (\<lambda>_. t), fallback_at = t\<rparr>"

lemma honest_up: "truth t key = v \<Longrightarrow> 0 \<le> lat \<Longrightarrow> honest_env truth lat key (up_env v t)"
  by (auto simp: honest_env_def read_at_def up_env_def intro!: exI [of _ t])

lemma honest_down: "honest_env truth lat key (down_env t)"
  by (simp add: honest_env_def down_env_def)

theorem revoked_version_refused_witness:
  "fst (tokenVersionMatches True (down_env (50 * second)) 7 1
      (run_reads [(version_key 7, up_env 1 (10 * second))] init_auth_state)) \<noteq> Inr True \<and>
   fst (tokenVersionMatches True (down_env (40 * second)) 7 1
      (run_reads [(version_key 7, up_env 1 (10 * second))] init_auth_state)) = Inr True"
proof
  show "fst (tokenVersionMatches True (down_env (50 * second)) 7 1
      (run_reads [(version_key 7, up_env 1 (10 * second))] init_auth_state)) \<noteq> Inr True"
    by (rule revoked_version_refused [of _ "\<lambda>t k. if t < 15 * second then 1 else 2" 0 _ _ "15 * second"])
       (simp_all add: honest_up honest_down second_def, simp_all add: down_env_def)
qed code_simp

subsection \<open>A signed-out session stays signed out\<close>

datatype table_op = DoRevoke string int | DoSweep int

fun table_step :: "table_op \<Rightarrow> revoked_table \<Rightarrow> revoked_table" where
  "table_step (DoRevoke j e) tab = Revoke True j e tab"
| "table_step (DoSweep now) tab = sweep now tab"

lemma table_keeps:
  "(jti, e) \<in> set tab \<Longrightarrow> (\<forall>now. DoSweep now \<in> set ops \<longrightarrow> now \<le> e) \<Longrightarrow>
     (jti, e) \<in> set (fold table_step ops tab)"
proof (induction ops arbitrary: tab)
  case (Cons op ops)
  then have "(jti, e) \<in> set (table_step op tab)"
    by (cases op) (auto simp: Revoke_def sweep_def)
  with Cons show ?case by simp
qed simp

lemma Revoke_lists:
  "jti \<noteq> [] \<Longrightarrow> jti \<notin> set (map fst tab) \<Longrightarrow> (jti, e) \<in> set (Revoke True jti e tab)"
  by (simp add: Revoke_def)

text \<open>
  Signing out ends that one session for good: after a logout has recorded the session of a
  token that expires at \<open>e\<close>, whatever sessions are revoked and whatever sweeps run up to \<open>e\<close>, a check
  that reads the table refuses the token with 401, and with 503 when it cannot read it and has
  nothing cached.
\<close>

theorem signed_out_session_refused:
  assumes "ID c \<noteq> []" and "ID c \<notin> set (map fst tab)"
    and "\<forall>now. DoSweep now \<in> set ops \<longrightarrow> now \<le> e"
    and "query envS 0 = Answer (Listed (ID c) (fold table_step ops (Revoke True (ID c) e tab)))"
  shows "fst (sessionRevoked True envS (ID c) st) = Inr True \<and> fst (notRevoked True envV envS c st) \<noteq> Next"
proof -
  have "(ID c, e) \<in> set (fold table_step ops (Revoke True (ID c) e tab))"
    by (intro table_keeps Revoke_lists) (use assms in auto)
  then have "0 < Listed (ID c) (fold table_step ops (Revoke True (ID c) e tab))"
    by (force simp: Listed_pos_iff)
  then have "fst (sessionRevoked True envS (ID c) st') = Inr True" for st'
    using assms(1,4)
    by (simp add: sessionRevoked_def readState_def readState_from.simps [of envS _ 0] dbRetryAttempts_def)
  then show ?thesis by (simp add: notRevoked_Next)
qed

definition sample_claims :: claims where
  "sample_claims = \<lparr>UserID = 7, Username = ''ann'', Role = ''reseller'', TokenVersion = 1, ID = ''j1'',
     IssuedAt = Some 0, ExpiresAt = Some 900, Issuer = ''servika''\<rparr>"

theorem signed_out_session_refused_witness:
  "fst (notRevoked True (up_env 1 5) (up_env 1 5) sample_claims init_auth_state) \<noteq> Next \<and>
   fst (notRevoked True (up_env 1 5) (up_env 0 5) sample_claims init_auth_state) = Next"
proof
  have one: "Listed (ID sample_claims) (fold table_step [DoRevoke ''j2'' 700, DoSweep 800]
      (Revoke True (ID sample_claims) 900 [])) = 1" by code_simp
  show "fst (notRevoked True (up_env 1 5) (up_env 1 5) sample_claims init_auth_state) \<noteq> Next"
    by (rule conjunct2 [OF signed_out_session_refused [where tab = "[]" and e = 900
          and ops = "[DoRevoke ''j2'' 700, DoSweep 800]"]])
       (simp_all only: one, simp_all add: sample_claims_def up_env_def)
qed code_simp

end
