(* ===== verification/SessionIdle.thy ===== *)
theory SessionIdle
  imports Session
begin

text \<open>
  What the idle timeout of \<open>internal/sessionidle\<close> does over runs of requests: a session in use is
  never ended, and an account once found idle is found idle at every later request, because only
  a passing check rewrites the stamp the check compares against.
\<close>

fun idle_run :: "idle_env list \<Rightarrow> int \<Rightarrow> idle_state \<Rightarrow> bool option list \<times> idle_state" where
  "idle_run [] uid st = ([], st)"
| "idle_run (env # envs) uid st =
     (case Enforce True env uid st of (r, st1) \<Rightarrow>
        (case idle_run envs uid st1 of (rs, st2) \<Rightarrow> (r # rs, st2)))"

text \<open>The database answers throughout, and the setting stays at \<open>m\<close> minutes.\<close>

definition steady :: "int \<Rightarrow> idle_env \<Rightarrow> bool" where
  "steady m env = (setting_row env = Some m \<and> activity_readable env \<and> touch_ok env)"

definition at_second :: "idle_env \<Rightarrow> int" where
  "at_second env = unix (now_current env)"

lemma Minutes_steady:
  "steady m env \<Longrightarrow> idle_cached st = m \<Longrightarrow>
     fst (Minutes env st) = Some m \<and> idle_cached (snd (Minutes env st)) = m \<and>
     last_activity (snd (Minutes env st)) = last_activity st"
  by (auto simp: Minutes_def steady_def)

lemma Enforce_steady:
  assumes "steady m env" and "idle_cached st = m" and "0 < m" and "0 < uid"
    and "last_activity st uid = Some s"
  shows "Enforce True env uid st =
    (let st1 = snd (Minutes env st); c = at_second env
     in if 0 < s \<and> m * 60 < c - s then (Some True, st1)
        else if c - s < 30 then (Some False, st1)
        else (Some False, st1\<lparr>last_activity := (last_activity st1)(uid \<mapsto> c)\<rparr>))"
proof -
  obtain st1 where m: "Minutes env st = (Some m, st1)"
    using Minutes_steady [OF assms(1,2)] by (cases "Minutes env st") auto
  moreover have "last_activity st1 = last_activity st"
    using Minutes_steady [OF assms(1,2)] m by simp
  moreover have "touchInterval div second = 30" by (simp add: touchInterval_def second_def)
  ultimately show ?thesis using assms
    by (simp add: Enforce_def steady_def Let_def at_second_def)
qed

section \<open>A session in use is kept\<close>

fun gaps_within :: "int \<Rightarrow> int \<Rightarrow> idle_env list \<Rightarrow> bool" where
  "gaps_within g c [] = True"
| "gaps_within g c (env # envs) =
     (c \<le> at_second env \<and> at_second env - c \<le> g \<and> gaps_within g (at_second env) envs)"

lemma active_run:
  "gaps_within (m * 60 - 30) c envs \<Longrightarrow> \<forall>env \<in> set envs. steady m env \<Longrightarrow> idle_cached st = m \<Longrightarrow>
   0 < m \<Longrightarrow> 0 < uid \<Longrightarrow> last_activity st uid = Some s \<Longrightarrow> 0 < s \<Longrightarrow> s \<le> c \<Longrightarrow> c - s < 30 \<Longrightarrow>
     set (fst (idle_run envs uid st)) \<subseteq> {Some False}"
proof (induction envs arbitrary: c st s)
  case (Cons env envs)
  let ?st1 = "snd (Minutes env st)" and ?c = "at_second env"
  from Cons.prems have gap: "c \<le> ?c" "?c - c \<le> m * 60 - 30" "gaps_within (m * 60 - 30) ?c envs"
    and st: "steady m env" "\<forall>env \<in> set envs. steady m env" by auto
  note min = Minutes_steady [OF st(1) Cons.prems(3)]
  note enf = Enforce_steady [OF st(1) Cons.prems(3-6)]
  have keep: "\<not> (0 < s \<and> m * 60 < ?c - s)" using gap Cons.prems by linarith
  show ?case
  proof (cases "?c - s < 30")
    case True
    have "set (fst (idle_run envs uid ?st1)) \<subseteq> {Some False}"
      using min Cons.prems gap(1) True by (intro Cons.IH [OF gap(3) st(2)]) auto
    then show ?thesis using enf keep True by (auto simp: Let_def split: prod.splits)
  next
    case False
    let ?st2 = "?st1\<lparr>last_activity := (last_activity ?st1)(uid \<mapsto> ?c)\<rparr>"
    have "set (fst (idle_run envs uid ?st2)) \<subseteq> {Some False}"
      using min Cons.prems gap(1) False by (intro Cons.IH [OF gap(3) st(2), where s = ?c]) auto
    then show ?thesis using enf keep False by (auto simp: Let_def split: prod.splits)
  qed
qed simp


definition quiet_env :: "int \<Rightarrow> int \<Rightarrow> idle_env" where
  "quiet_env m c = \<lparr>setting_row = Some m, activity_readable = True, touch_ok = True,
     now_cached = (c + unix_epoch_seconds) * second, now_stored = (c + unix_epoch_seconds) * second,
     now_current = (c + unix_epoch_seconds) * second\<rparr>"

definition idle_start :: "int \<Rightarrow> idle_state" where
  "idle_start m = \<lparr>idle_cached = m, idle_cachedAt = zero_time, last_activity = [7 \<mapsto> 0],
     idle_lastComplaint = zero_time, idle_lines = 0\<rparr>"

lemma quiet_env_simps [simp]: "steady m (quiet_env m c)" "at_second (quiet_env m c) = c"
  by (simp_all add: steady_def quiet_env_def at_second_def unix_def second_def)


section \<open>An idle account stays idle\<close>

text \<open>
  Once an account has been idle past the timeout it can no longer be used: whatever requests
  follow, on this session or on any session opened by signing in again, every idle check
  reports it expired and none of them rewrites the stamp, for as long as the setting stays on.
  Signing in does not write the stamp (see \<open>Login\<close>), so nothing but switching the setting off
  ends this.
\<close>

theorem idle_expiry_is_permanent:
  assumes "\<forall>env \<in> set envs. steady m env \<and> m * 60 < at_second env - s"
    and "idle_cached st = m" and "0 < m" and "0 < uid" and "last_activity st uid = Some s" and "0 < s"
  shows "set (fst (idle_run envs uid st)) \<subseteq> {Some True} \<and>
    last_activity (snd (idle_run envs uid st)) = last_activity st"
  using assms
proof (induction envs arbitrary: st)
  case (Cons env envs)
  then have env: "steady m env" "m * 60 < at_second env - s" by auto
  note min = Minutes_steady [OF env(1) Cons.prems(2)]
  have "Enforce True env uid st = (Some True, snd (Minutes env st))"
    using Enforce_steady [OF env(1) Cons.prems(2-5)] env(2) Cons.prems(6) by (simp add: Let_def)
  moreover have "set (fst (idle_run envs uid (snd (Minutes env st)))) \<subseteq> {Some True} \<and>
      last_activity (snd (idle_run envs uid (snd (Minutes env st)))) = last_activity st"
    using Cons min by (metis list.set_intros(2))
  ultimately show ?case by (auto split: prod.splits)
qed simp

theorem idle_expiry_is_permanent_witness:
  "set (fst (idle_run [quiet_env 5 1400, quiet_env 5 5000] 7 ((idle_start 5)\<lparr>last_activity := [7 \<mapsto> 1000]\<rparr>))) = {Some True}"
proof -
  have "set (fst (idle_run [quiet_env 5 1400, quiet_env 5 5000] 7 ((idle_start 5)\<lparr>last_activity := [7 \<mapsto> 1000]\<rparr>))) \<subseteq> {Some True}"
    by (rule conjunct1 [OF idle_expiry_is_permanent [where m = 5 and s = 1000]]) (auto simp: idle_start_def)
  moreover have "fst (idle_run [quiet_env 5 1400, quiet_env 5 5000] 7 ((idle_start 5)\<lparr>last_activity := [7 \<mapsto> 1000]\<rparr>)) \<noteq> []"
    by (auto split: prod.splits)
  ultimately show ?thesis by (metis set_empty subset_singletonD)
qed

end
