(* ===== verification/Access.thy ===== *)
theory Access
  imports Session
begin

text \<open>
  Who may touch which domain: \<open>internal/middleware/auth.go\<close> from \<open>RequireRole\<close> on. The ownership
  chain (users, customers, domains) is resolved from the database on every request; the tables are
  lists of rows, and every query may fail. \<open>hasDB\<close> says whether \<open>middleware.Init\<close> was given a database.
\<close>

section \<open>The ownership tables\<close>

record customer_row =
  cu_id :: int
  cu_owner :: "int option"   \<comment> \<open>\<open>owner_user_id\<close>: the reseller that manages the customer\<close>
  cu_user :: "int option"    \<comment> \<open>\<open>user_id\<close>: the customer's own panel account\<close>

record domain_row =
  d_id :: int
  d_customer :: "int option"
  d_suspended :: "int option"

record scope_db =
  customers :: "customer_row list"
  domains :: "domain_row list"

text \<open>The primary keys of the two tables.\<close>

definition keys_unique :: "scope_db \<Rightarrow> bool" where
  "keys_unique db = (distinct (map cu_id (customers db)) \<and> distinct (map d_id (domains db)))"

section \<open>Roles\<close>

definition RoleAdmin :: string where "RoleAdmin = ''admin''"
definition RoleReseller :: string where "RoleReseller = ''reseller''"
definition RoleUser :: string where "RoleUser = ''user''"

lemmas roles = RoleAdmin_def RoleReseller_def RoleUser_def

lemma roles_distinct [simp]:
  "RoleAdmin \<noteq> RoleReseller" "RoleAdmin \<noteq> RoleUser" "RoleReseller \<noteq> RoleUser"
  "RoleReseller \<noteq> RoleAdmin" "RoleUser \<noteq> RoleAdmin" "RoleUser \<noteq> RoleReseller"
  by (simp_all add: roles)

definition RequireRole :: "string list \<Rightarrow> claims option \<Rightarrow> response" where
  "RequireRole allowed cl = (case cl of
      None \<Rightarrow> Deny StatusForbidden ''insufficient permissions''
    | Some c \<Rightarrow> if Role c \<notin> set allowed then Deny StatusForbidden ''insufficient permissions'' else Next)"

definition AdminOnly :: "claims option \<Rightarrow> response" where
  "AdminOnly cl = (case cl of
      None \<Rightarrow> Deny StatusForbidden ''administrator access required''
    | Some c \<Rightarrow> if Role c \<noteq> RoleAdmin then Deny StatusForbidden ''administrator access required'' else Next)"

definition ResellerOrAbove :: "claims option \<Rightarrow> response" where
  "ResellerOrAbove cl = (case cl of
      None \<Rightarrow> Deny StatusForbidden ''insufficient permissions''
    | Some c \<Rightarrow> if Role c \<noteq> RoleAdmin \<and> Role c \<noteq> RoleReseller
                then Deny StatusForbidden ''insufficient permissions'' else Next)"

section \<open>Ownership\<close>

text \<open>\<open>SELECT COUNT(*) FROM domains d JOIN customers c ON c.id = d.customer_id WHERE d.id = ? AND ...\<close>.\<close>

definition count_joined :: "(customer_row \<Rightarrow> bool) \<Rightarrow> int \<Rightarrow> scope_db \<Rightarrow> nat" where
  "count_joined cond domainID db =
     length (filter (\<lambda>(d, c). d_customer d = Some (cu_id c) \<and> d_id d = domainID \<and> cond c)
       (List.product (domains db) (customers db)))"

definition ResellerOwnsDomain :: "bool \<Rightarrow> bool \<Rightarrow> scope_db \<Rightarrow> int \<Rightarrow> int \<Rightarrow> bool" where
  "ResellerOwnsDomain hasDB readable db resellerUserID domainID =
     (if \<not> hasDB \<or> resellerUserID \<le> 0 then False
      else readable \<and> 0 < count_joined (\<lambda>c. cu_owner c = Some resellerUserID) domainID db)"

definition CustomerUserOwnsDomain :: "bool \<Rightarrow> bool \<Rightarrow> scope_db \<Rightarrow> int \<Rightarrow> int \<Rightarrow> bool" where
  "CustomerUserOwnsDomain hasDB readable db userID domainID =
     (if \<not> hasDB \<or> userID \<le> 0 then False
      else readable \<and> 0 < count_joined (\<lambda>c. cu_user c = Some userID) domainID db)"

definition ResellerOwnsCustomer :: "bool \<Rightarrow> bool \<Rightarrow> scope_db \<Rightarrow> int \<Rightarrow> int \<Rightarrow> bool" where
  "ResellerOwnsCustomer hasDB readable db resellerUserID customerID =
     (if \<not> hasDB \<or> resellerUserID \<le> 0 then False
      else readable \<and> 0 < length (filter (\<lambda>c. cu_id c = customerID \<and> cu_owner c = Some resellerUserID) (customers db)))"

definition DomainOwnedBy :: "bool \<Rightarrow> bool \<Rightarrow> scope_db \<Rightarrow> claims option \<Rightarrow> int \<Rightarrow> bool" where
  "DomainOwnedBy hasDB readable db cl domainID = (case cl of
      None \<Rightarrow> False
    | Some c \<Rightarrow>
        if Role c = RoleAdmin then True
        else if Role c = RoleReseller then ResellerOwnsDomain hasDB readable db (UserID c) domainID
        else if Role c = RoleUser then CustomerUserOwnsDomain hasDB readable db (UserID c) domainID
        else False)"

section \<open>The narrowing of list queries\<close>

text \<open>\<open>ScopeCondition\<close>: the SQL text, its bound argument, and whether the caller is unrestricted.\<close>

definition scope_exists :: "string \<Rightarrow> string \<Rightarrow> string" where
  "scope_exists alias column =
     ''EXISTS (SELECT 1 FROM customers sc WHERE sc.id = '' @ alias @ ''.customer_id AND sc.'' @ column @ '' = ?)''"

definition ScopeCondition :: "claims option \<Rightarrow> string \<Rightarrow> string \<times> int list \<times> bool" where
  "ScopeCondition cl alias = (case cl of
      None \<Rightarrow> (''1 = 0'', [], False)
    | Some c \<Rightarrow>
        if Role c = RoleAdmin then (''1 = 1'', [], True)
        else if Role c = RoleReseller then (scope_exists alias ''owner_user_id'', [UserID c], False)
        else if Role c = RoleUser then (scope_exists alias ''user_id'', [UserID c], False)
        else (''1 = 0'', [], False))"

definition ScopeSQL :: "claims option \<Rightarrow> string \<Rightarrow> string \<times> int list" where
  "ScopeSQL cl alias = (case ScopeCondition cl alias of
     (cond, args, unrestricted) \<Rightarrow> if unrestricted then ([], []) else ('' WHERE '' @ cond, args))"

text \<open>
  The meaning of the conditions \<open>ScopeSQL\<close> can produce, for a row of \<open>domains\<close>; the server evaluates
  the text, so this is the SQL semantics of exactly these texts.
\<close>

definition exists_customer :: "(customer_row \<Rightarrow> bool) \<Rightarrow> scope_db \<Rightarrow> domain_row \<Rightarrow> bool" where
  "exists_customer cond db d = list_ex (\<lambda>sc. d_customer d = Some (cu_id sc) \<and> cond sc) (customers db)"

definition where_holds :: "string \<Rightarrow> scope_db \<Rightarrow> string \<times> int list \<Rightarrow> domain_row \<Rightarrow> bool" where
  "where_holds alias db = (\<lambda>(sql, args) d.
     if sql = [] then True
     else (case args of
         [a] \<Rightarrow>
           if sql = '' WHERE '' @ scope_exists alias ''owner_user_id''
           then exists_customer (\<lambda>sc. cu_owner sc = Some a) db d
           else if sql = '' WHERE '' @ scope_exists alias ''user_id''
           then exists_customer (\<lambda>sc. cu_user sc = Some a) db d
           else False
       | _ \<Rightarrow> False))"

definition listed_domains :: "scope_db \<Rightarrow> string \<Rightarrow> claims option \<Rightarrow> domain_row list" where
  "listed_domains db alias cl = filter (where_holds alias db (ScopeSQL cl alias)) (domains db)"

section \<open>The route gate\<close>

definition suspended_key :: "int \<Rightarrow> string" where
  "suspended_key domainID = ''suspended:'' @ itoa domainID"

definition suspendedDomainLookup :: "bool \<Rightarrow> read_env \<Rightarrow> int \<Rightarrow> auth_state \<Rightarrow> (read_error + bool) \<times> auth_state" where
  "suspendedDomainLookup hasDB env domainID st =
     (if \<not> hasDB then (Inr False, st)
      else (case readState env (suspended_key domainID) st of
          (Inl e, st') \<Rightarrow> (Inl e, st')
        | (Inr flag, st') \<Rightarrow> (Inr (flag = 1), st')))"

definition CustomerScopeParam :: "bool \<Rightarrow> bool \<Rightarrow> scope_db \<Rightarrow> read_env \<Rightarrow> claims option \<Rightarrow> string \<Rightarrow> auth_state \<Rightarrow>
    response \<times> auth_state" where
  "CustomerScopeParam hasDB readable db env cl param st = (case cl of
      None \<Rightarrow> (Deny StatusUnauthorized ''authorization required'', st)
    | Some c \<Rightarrow>
        if Role c = RoleAdmin then (Next, st)
        else if Role c = RoleReseller then
          (if ResellerOwnsDomain hasDB readable db (UserID c) (parse_int_lossy param) then (Next, st)
           else (Deny StatusForbidden ''access to this domain is forbidden'', st))
        else if Role c = RoleUser then
          (if \<not> CustomerUserOwnsDomain hasDB readable db (UserID c) (parse_int_lossy param)
           then (Deny StatusForbidden ''access to this domain is forbidden'', st)
           else (case suspendedDomainLookup hasDB env (parse_int_lossy param) st of
               (Inl e, st') \<Rightarrow> (Deny StatusServiceUnavailable ''could not verify account status'', st')
             | (Inr suspended, st') \<Rightarrow>
                 (if suspended then Deny StatusForbidden ''account is suspended'' else Next, st')))
        else (Deny StatusForbidden ''access to this domain is forbidden'', st))"

definition EnforceCustomerNotSuspended :: "bool \<Rightarrow> read_env \<Rightarrow> claims option \<Rightarrow> int \<Rightarrow> auth_state \<Rightarrow>
    response \<times> auth_state" where
  "EnforceCustomerNotSuspended hasDB env cl domainID st = (case cl of
      None \<Rightarrow> (Deny StatusUnauthorized ''authorization required'', st)
    | Some c \<Rightarrow>
        if Role c \<noteq> RoleUser then (Next, st)
        else (case suspendedDomainLookup hasDB env domainID st of
            (Inl e, st') \<Rightarrow> (Deny StatusServiceUnavailable ''could not verify account status'', st')
          | (Inr suspended, st') \<Rightarrow>
              (if suspended then Deny StatusForbidden ''account is suspended'' else Next, st')))"

section \<open>Lemmas\<close>

lemma count_joined_pos:
  "0 < count_joined cond domainID db \<longleftrightarrow>
     (\<exists>d \<in> set (domains db). \<exists>c \<in> set (customers db). d_id d = domainID \<and> d_customer d = Some (cu_id c) \<and> cond c)"
  by (force simp: count_joined_def filter_empty_conv)

lemma exists_customer_iff:
  "exists_customer cond db d \<longleftrightarrow> (\<exists>c \<in> set (customers db). d_customer d = Some (cu_id c) \<and> cond c)"
  by (auto simp: exists_customer_def list_ex_iff)

lemma count_joined_of_row:
  assumes "keys_unique db" and "d \<in> set (domains db)"
  shows "0 < count_joined cond (d_id d) db \<longleftrightarrow> exists_customer cond db d"
proof -
  have "d' = d" if "d' \<in> set (domains db)" and "d_id d' = d_id d" for d'
    using assms that by (auto simp: keys_unique_def distinct_map dest: inj_onD)
  then show ?thesis using assms(2) by (auto simp: count_joined_pos exists_customer_iff)
qed

lemma scope_exists_inj [simp]: "scope_exists alias ''owner_user_id'' \<noteq> scope_exists alias ''user_id''"
  by (simp add: scope_exists_def)


definition sample_db :: scope_db where
  "sample_db = \<lparr>
     customers = [\<lparr>cu_id = 1, cu_owner = Some 7, cu_user = Some 20\<rparr>, \<lparr>cu_id = 2, cu_owner = None, cu_user = None\<rparr>],
     domains = [\<lparr>d_id = 10, d_customer = Some 1, d_suspended = None\<rparr>,
                \<lparr>d_id = 11, d_customer = Some 2, d_suspended = Some 1\<rparr>]\<rparr>"


text \<open>
  C3. Tenants are isolated. A reseller or customer identity other than an administrator's reaches a
  domain only through the one customer record the domain belongs to, so two different
  reseller accounts never both pass the gate of one domain, and neither do two different
  customer accounts; and with no readable database nobody but an administrator passes.
\<close>

theorem tenants_isolated:
  assumes "keys_unique db" and "Role a = Role b" and "Role a \<noteq> RoleAdmin"
    and "fst (CustomerScopeParam hasDB readable db envA (Some a) param stA) = Next"
    and "fst (CustomerScopeParam hasDB readable db envB (Some b) param stB) = Next"
  shows "UserID a = UserID b \<and> hasDB \<and> readable"
proof -
  have one: "c = c'" if "c \<in> set (customers db)" "c' \<in> set (customers db)" "cu_id c = cu_id c'" for c c'
    using assms(1) that by (auto simp: keys_unique_def distinct_map dest: inj_onD)
  have row: "d = d'" if "d \<in> set (domains db)" "d' \<in> set (domains db)" "d_id d = d_id d'" for d d'
    using assms(1) that by (auto simp: keys_unique_def distinct_map dest: inj_onD)
  have chain: "u = u'" if "0 < count_joined (\<lambda>c. f c = Some u) i db" "0 < count_joined (\<lambda>c. f c = Some u') i db"
    for f :: "customer_row \<Rightarrow> int option" and u u' i
    using that one row unfolding count_joined_pos by (metis option.inject)
  show ?thesis
    using assms(2-5) chain [of cu_owner] chain [of cu_user]
    by (auto simp: CustomerScopeParam_def ResellerOwnsDomain_def CustomerUserOwnsDomain_def split: if_splits)
qed

theorem tenants_isolated_witness:
  "UserID sample_claims = UserID (sample_claims\<lparr>ID := ''j9''\<rparr>) \<and>
   fst (CustomerScopeParam True True sample_db (down_env 0) (Some (sample_claims\<lparr>UserID := 8\<rparr>)) ''10'' init_auth_state) \<noteq> Next"
proof
  have pass: "fst (CustomerScopeParam True True sample_db (down_env 0) (Some sample_claims) ''10'' init_auth_state) = Next"
    "fst (CustomerScopeParam True True sample_db (down_env 0) (Some (sample_claims\<lparr>ID := ''j9''\<rparr>)) ''10'' init_auth_state) = Next"
    by code_simp+
  show "UserID sample_claims = UserID (sample_claims\<lparr>ID := ''j9''\<rparr>)"
    by (rule conjunct1 [OF tenants_isolated [OF _ _ _ pass]])
       (simp_all add: sample_db_def keys_unique_def sample_claims_def RoleAdmin_def)
qed code_simp

text \<open>
  Suspension reaches every customer route. For a customer account the URL gate and the
  in-handler gate refuse a suspended domain with 403 and answer 503 when the flag cannot be
  read, from whatever state the caches are in; the URL gate lets a customer through only to a
  domain of its own whose flag was read as not suspended.
\<close>

theorem suspended_customer_refused:
  assumes "Role c = RoleUser"
  shows "(fst (CustomerScopeParam True readable db env (Some c) param st) = Next \<longleftrightarrow>
      CustomerUserOwnsDomain True readable db (UserID c) (parse_int_lossy param) \<and>
      (\<exists>flag. flag \<noteq> 1 \<and> fst (readState env (suspended_key (parse_int_lossy param)) st) = Inr flag)) \<and>
    fst (EnforceCustomerNotSuspended True env (Some c) domainID st) =
      (case fst (readState env (suspended_key domainID) st) of
         Inl e \<Rightarrow> Deny StatusServiceUnavailable ''could not verify account status''
       | Inr flag \<Rightarrow> if flag = 1 then Deny StatusForbidden ''account is suspended'' else Next)"
  using assms
  by (auto simp: CustomerScopeParam_def EnforceCustomerNotSuspended_def suspendedDomainLookup_def
      split: prod.splits sum.splits)

theorem suspended_customer_refused_witness:
  "fst (EnforceCustomerNotSuspended True (up_env 1 5) (Some (sample_claims\<lparr>Role := ''user'', UserID := 20\<rparr>)) 10 init_auth_state) =
     Deny StatusForbidden ''account is suspended'' \<and>
   fst (CustomerScopeParam True True sample_db (up_env 1 5) (Some (sample_claims\<lparr>Role := ''user'', UserID := 20\<rparr>)) ''10'' init_auth_state) \<noteq> Next"
proof -
  have role: "Role (sample_claims\<lparr>Role := ''user'', UserID := 20\<rparr>) = RoleUser" by (simp add: RoleUser_def)
  have r: "fst (readState (up_env 1 5) key st) = Inr 1" for key st
    by (simp add: readState_def readState_from.simps [of _ _ 0] up_env_def)
  show ?thesis
    using suspended_customer_refused [OF role, of True sample_db "up_env 1 5" "''10''" init_auth_state 10] r by simp
qed

end
