(* ===== verification/Gates.thy ===== *)
theory Gates
  imports Session
begin

text \<open>
  The remaining request gates of \<open>internal/middleware\<close>: the cross-origin write check
  (\<open>crossorigin.go\<close>, \<open>cors.go\<close>), maintenance mode, the JSON body limit with its upload exemption, and
  the ceiling on concurrent uploads (\<open>uploadslot.go\<close>). A header is absent exactly when its value
  is empty. \<open>net/url\<close> is a parameter: \<open>url_host\<close> is the host part of a URL, \<open>None\<close> when it does not parse.
\<close>

section \<open>Cross-origin writes\<close>

definition stateChanging :: "string \<Rightarrow> bool" where
  "stateChanging method = (method = ''POST'' \<or> method = ''PUT'' \<or> method = ''PATCH'' \<or> method = ''DELETE'')"

definition sameOrigin :: "(string \<Rightarrow> string option) \<Rightarrow> string \<Rightarrow> string \<Rightarrow> bool" where
  "sameOrigin url_host origin host = (case url_host origin of
      None \<Rightarrow> False
    | Some h \<Rightarrow> if h = [] then False else h = host)"

definition originAllowed :: "(string \<Rightarrow> string option) \<Rightarrow> string \<Rightarrow> string \<Rightarrow> string \<Rightarrow> bool" where
  "originAllowed url_host fetchSite origin host =
     (if fetchSite = ''same-origin'' \<or> fetchSite = ''none'' then True
      else if fetchSite = ''same-site'' \<or> fetchSite = ''cross-site'' then False
      else if origin \<noteq> [] then sameOrigin url_host origin host
      else True)"

definition EnforceSameOrigin :: "(string \<Rightarrow> string option) \<Rightarrow> string \<Rightarrow> string \<Rightarrow> string \<Rightarrow> string \<Rightarrow> response" where
  "EnforceSameOrigin url_host method fetchSite origin host =
     (if \<not> stateChanging method \<or> originAllowed url_host fetchSite origin host then Next
      else Deny StatusForbidden ''cross-origin request refused'')"

text \<open>\<open>CORS\<close>: the \<open>Access-Control-Allow-Origin\<close> it sets, and whether it ends the request itself.\<close>

definition CORS :: "(string \<Rightarrow> string option) \<Rightarrow> string \<Rightarrow> string \<Rightarrow> string \<Rightarrow> string option \<times> bool" where
  "CORS url_host method origin host =
     (if origin \<noteq> [] \<and> sameOrigin url_host origin host then Some origin else None, method = ''OPTIONS'')"



section \<open>Maintenance mode and the body limit\<close>

definition MaintenanceMode :: "string \<Rightarrow> string \<Rightarrow> bool" where
  "MaintenanceMode env_value path =
     (let v = to_lower env_value
      in if v \<noteq> ''1'' \<and> v \<noteq> ''true'' then True
         else path = ''/healthz'' \<or> has_prefix path ''/api/v1/auth/'' \<or> has_prefix path ''/api/v1/customer/'')"

definition maxJSONBodyBytes :: int where "maxJSONBodyBytes = 10485760"

definition isMailboxImport :: "string \<Rightarrow> bool" where
  "isMailboxImport p = (has_suffix p ''/import'' \<and> contains p ''/mail/'')"

definition isStreamingUpload :: "string \<Rightarrow> bool" where
  "isStreamingUpload p =
     (has_suffix p ''/files/upload'' \<or> has_suffix p ''/admin/transfers/analyze'' \<or>
      has_suffix p ''/admin/transfers/import'' \<or> has_suffix p ''/import/archive'' \<or>
      has_suffix p ''/import/sql'' \<or> isMailboxImport p)"

text \<open>\<open>BodyLimit\<close>: the cap on the body, \<open>None\<close> for a request that carries none.\<close>

definition BodyLimit :: "string \<Rightarrow> string \<Rightarrow> int option" where
  "BodyLimit method path =
     (if method = ''POST'' \<and> isStreamingUpload path then None else Some maxJSONBodyBytes)"

section \<open>Upload slots\<close>

definition maxConcurrentUploads :: nat where "maxConcurrentUploads = 3"

text \<open>
  The slots in use per account, and the release functions handed out: each belongs to an
  account and, being wrapped in a \<open>sync.Once\<close>, acts at most once.
\<close>

record slot_state =
  uploadSlots :: "string \<rightharpoonup> nat"
  releases :: "(string \<times> bool) list"

definition slots_of :: "slot_state \<Rightarrow> string \<Rightarrow> nat" where
  "slots_of st account = (case uploadSlots st account of None \<Rightarrow> 0 | Some n \<Rightarrow> n)"

text \<open>\<open>acquireUploadSlot\<close>: the handle of the release function, or a refusal.\<close>

definition acquireUploadSlot :: "string \<Rightarrow> slot_state \<Rightarrow> nat option \<times> slot_state" where
  "acquireUploadSlot account st =
     (if maxConcurrentUploads \<le> slots_of st account then (None, st)
      else (Some (length (releases st)),
            st\<lparr>uploadSlots := (uploadSlots st)(account \<mapsto> Suc (slots_of st account)),
               releases := releases st @ [(account, False)]\<rparr>))"

definition release :: "nat \<Rightarrow> slot_state \<Rightarrow> slot_state" where
  "release h st =
     (if h < length (releases st) then
        (case releases st ! h of (account, used) \<Rightarrow>
           if used then st
           else st\<lparr>uploadSlots := (if slots_of st account \<le> 1 then (uploadSlots st)(account := None)
                                  else (uploadSlots st)(account \<mapsto> slots_of st account - 1)),
                   releases := (releases st)[h := (account, True)]\<rparr>)
      else st)"

definition uploadAccount :: "claims option \<Rightarrow> string \<Rightarrow> string" where
  "uploadAccount cl ip_key = (case cl of
      Some c \<Rightarrow> ''user:'' @ itoa (UserID c)
    | None \<Rightarrow> ''ip:'' @ ip_key)"

text \<open>\<open>UploadSlot\<close> on the way in: \<open>Inl\<close> refuses, \<open>Inr\<close> runs the handler with or without a slot.\<close>

definition UploadSlot :: "string \<Rightarrow> string \<Rightarrow> claims option \<Rightarrow> string \<Rightarrow> slot_state \<Rightarrow>
    (response + nat option) \<times> slot_state" where
  "UploadSlot method path cl ip_key st =
     (if method \<noteq> ''POST'' \<or> \<not> isStreamingUpload path then (Inr None, st)
      else (case acquireUploadSlot (uploadAccount cl ip_key) st of
          (None, st') \<Rightarrow> (Inl (Deny StatusTooManyRequests ''too many uploads are already running for this account''), st')
        | (Some h, st') \<Rightarrow> (Inr (Some h), st')))"

subsection \<open>The count is the number of running uploads\<close>

definition running :: "slot_state \<Rightarrow> string \<Rightarrow> nat" where
  "running st account = count_list (releases st) (account, False)"

definition slots_inv :: "slot_state \<Rightarrow> bool" where
  "slots_inv st = (\<forall>a. slots_of st a = running st a \<and> running st a \<le> maxConcurrentUploads \<and>
     (uploadSlots st a = None \<longleftrightarrow> running st a = 0))"

lemma count_list_update:
  "h < length xs \<Longrightarrow> xs ! h \<noteq> y \<Longrightarrow>
     count_list (xs[h := y]) x = (if x = xs ! h then count_list xs x - 1 else if x = y then Suc (count_list xs x) else count_list xs x)"
proof (induction xs arbitrary: h)
  case (Cons z xs)
  show ?case
  proof (cases h)
    case 0
    with Cons.prems show ?thesis by auto
  next
    case (Suc k)
    have "0 < count_list xs (xs ! k)" using Cons.prems Suc by (metis Suc_less_eq count_list_0_iff gr0I length_Cons nth_mem)
    with Suc Cons show ?thesis by auto
  qed
qed simp

lemma slots_inv_acquire: "slots_inv st \<Longrightarrow> slots_inv (snd (acquireUploadSlot account st))"
  by (auto simp: slots_inv_def acquireUploadSlot_def running_def slots_of_def not_le
      split: option.splits if_splits)

lemma slots_inv_release:
  assumes "slots_inv st"
  shows "slots_inv (release h st)"
proof (cases "h < length (releases st) \<and> \<not> snd (releases st ! h)")
  case False
  then have "release h st = st" by (auto simp: release_def split: prod.splits)
  then show ?thesis using assms by simp
next
  case True
  then obtain a where a: "releases st ! h = (a, False)" by (cases "releases st ! h") auto
  have pos: "0 < running st a"
    using True a by (metis count_list_0_iff nth_mem running_def gr0I)
  have run: "count_list ((releases st)[h := (a, True)]) (b, False) = (if b = a then running st a - 1 else running st b)" for b
    using True a by (simp add: count_list_update running_def)
  have inv: "slots_of st b = running st b" "running st b \<le> maxConcurrentUploads"
    "uploadSlots st b = None \<longleftrightarrow> running st b = 0" for b
    using assms by (auto simp: slots_inv_def)
  have r: "release h st = st\<lparr>uploadSlots := (if running st a \<le> 1 then (uploadSlots st)(a := None)
      else (uploadSlots st)(a \<mapsto> running st a - 1)), releases := (releases st)[h := (a, True)]\<rparr>"
    using True a inv(1) by (simp add: release_def)
  have "slots_of (release h st) b = running (release h st) b \<and>
      running (release h st) b \<le> maxConcurrentUploads \<and>
      (uploadSlots (release h st) b = None \<longleftrightarrow> running (release h st) b = 0)" for b
    using inv [of b] inv [of a] pos unfolding r
    by (cases "b = a") (auto simp: running_def [of "_\<lparr>releases := _\<rparr>"] run slots_of_def)
  then show ?thesis by (simp add: slots_inv_def)
qed

datatype slot_op = Acquire string | Release nat

fun slot_step :: "slot_op \<Rightarrow> slot_state \<Rightarrow> slot_state" where
  "slot_step (Acquire a) st = snd (acquireUploadSlot a st)"
| "slot_step (Release h) st = release h st"

definition no_uploads :: slot_state where
  "no_uploads = \<lparr>uploadSlots = Map.empty, releases = []\<rparr>"

text \<open>
  C7. However uploads start and end, and however often a release function is called, the slot
  count of an account is the number of its uploads still running, is never above three, and
  has no entry once none is left; a new upload is accepted exactly while fewer than three run.
\<close>

theorem upload_slots_exact:
  "slots_of (fold slot_step ops no_uploads) a = running (fold slot_step ops no_uploads) a \<and>
   running (fold slot_step ops no_uploads) a \<le> 3 \<and>
   (uploadSlots (fold slot_step ops no_uploads) a = None \<longleftrightarrow> running (fold slot_step ops no_uploads) a = 0) \<and>
   (fst (acquireUploadSlot a (fold slot_step ops no_uploads)) \<noteq> None \<longleftrightarrow>
      running (fold slot_step ops no_uploads) a < 3)"
proof -
  have "slots_inv st \<Longrightarrow> slots_inv (fold slot_step ops st)" for st
  proof (induction ops arbitrary: st)
    case (Cons op ops)
    then have "slots_inv (slot_step op st)"
      by (cases op) (simp_all add: slots_inv_acquire slots_inv_release)
    with Cons.IH show ?case by simp
  qed simp
  moreover have "slots_inv no_uploads"
    by (simp add: slots_inv_def no_uploads_def running_def slots_of_def)
  ultimately have "slots_inv (fold slot_step ops no_uploads)" .
  then show ?thesis by (auto simp: slots_inv_def acquireUploadSlot_def maxConcurrentUploads_def)
qed

end
