(* ===== verification/Encoding.thy ===== *)
theory Encoding
  imports GoText
begin

text \<open>
  The two text encodings the panel stores secrets in: \<open>base64.StdEncoding\<close>, which
  internal/secret writes sealed values with, and \<open>base32.StdEncoding\<close>, which internal/auth reads
  TOTP seeds with. Both are Go's decoders: they skip carriage returns and newlines, want the
  padding, and do not look at the bits a short last group leaves over.
\<close>

definition digit_index :: "string \<Rightarrow> char \<Rightarrow> nat option" where
  "digit_index alphabet c =
     (let n = length (takeWhile (\<lambda>d. d \<noteq> c) alphabet) in if n < length alphabet then Some n else None)"

lemma takeWhile_until_nth:
  "distinct xs \<Longrightarrow> n < length xs \<Longrightarrow> length (takeWhile (\<lambda>d. d \<noteq> xs ! n) xs) = n"
proof (induction xs arbitrary: n)
  case (Cons x xs)
  then show ?case by (cases n) auto
qed simp

lemma digit_index_nth:
  "distinct alphabet \<Longrightarrow> n < length alphabet \<Longrightarrow> digit_index alphabet (alphabet ! n) = Some n"
  by (simp add: digit_index_def takeWhile_until_nth)

definition strip_newlines :: "string \<Rightarrow> string" where
  "strip_newlines s = filter (\<lambda>c. c \<noteq> CHR 13 \<and> c \<noteq> CHR 10) s"

definition pad_char :: char where "pad_char = CHR ''=''"

section \<open>Base64\<close>

definition b64_alphabet :: string where
  "b64_alphabet = ''ABCDEFGHIJKLMNOPQRSTUVWXYZabcdefghijklmnopqrstuvwxyz0123456789+/''"

abbreviation b64_digit :: "nat \<Rightarrow> char" where "b64_digit n \<equiv> b64_alphabet ! n"
abbreviation b64_value :: "char \<Rightarrow> nat option" where "b64_value \<equiv> digit_index b64_alphabet"

fun b64_encode :: "string \<Rightarrow> string" where
  "b64_encode [] = []"
| "b64_encode [a] = [b64_digit (byte a div 4), b64_digit (byte a mod 4 * 16), pad_char, pad_char]"
| "b64_encode [a, b] =
     [b64_digit (byte a div 4), b64_digit (byte a mod 4 * 16 + byte b div 16),
      b64_digit (byte b mod 16 * 4), pad_char]"
| "b64_encode (a # b # c # s) =
     b64_digit (byte a div 4) # b64_digit (byte a mod 4 * 16 + byte b div 16) #
     b64_digit (byte b mod 16 * 4 + byte c div 64) # b64_digit (byte c mod 64) # b64_encode s"

fun b64_groups :: "string \<Rightarrow> string option" where
  "b64_groups [] = Some []"
| "b64_groups (w # x # y # z # s) =
     (case (b64_value w, b64_value x) of
        (Some i, Some j) \<Rightarrow>
          (if y = pad_char then
             (if z = pad_char \<and> s = [] then Some [char_of (i * 4 + j div 16)] else None)
           else (case b64_value y of
               None \<Rightarrow> None
             | Some k \<Rightarrow>
                 if z = pad_char then
                   (if s = [] then Some [char_of (i * 4 + j div 16), char_of (j mod 16 * 16 + k div 4)]
                    else None)
                 else (case (b64_value z, b64_groups s) of
                     (Some l, Some rest) \<Rightarrow>
                       Some (char_of (i * 4 + j div 16) # char_of (j mod 16 * 16 + k div 4) #
                             char_of (k mod 4 * 64 + l) # rest)
                   | _ \<Rightarrow> None)))
      | _ \<Rightarrow> None)"
| "b64_groups _ = None"

definition b64_decode :: "string \<Rightarrow> string option" where
  "b64_decode s = b64_groups (strip_newlines s)"

lemma byte_less [simp]: "byte c < 256"
  by (simp add: byte_def)

lemma char_of_byte [simp]: "char_of (byte c) = c"
  by (simp add: byte_def)

lemma b64_length: "length b64_alphabet = 64"
  by (simp add: b64_alphabet_def)

lemma b64_value_digit [simp]: "n < 64 \<Longrightarrow> b64_value (b64_digit n) = Some n"
  by (rule digit_index_nth) (simp_all add: b64_length, simp add: b64_alphabet_def)

lemma b64_digit_set: "n < 64 \<Longrightarrow> b64_digit n \<in> set b64_alphabet"
  by (simp add: b64_length)

lemma b64_digit_plain:
  assumes "n < 64"
  shows "b64_digit n \<noteq> pad_char \<and> b64_digit n \<noteq> CHR 13 \<and> b64_digit n \<noteq> CHR 10"
proof -
  have "pad_char \<notin> set b64_alphabet \<and> CHR 13 \<notin> set b64_alphabet \<and> CHR 10 \<notin> set b64_alphabet"
    by (simp add: b64_alphabet_def pad_char_def)
  with b64_digit_set [OF assms] show ?thesis by auto
qed

lemma pack [simp]:
  assumes "(x::nat) < n"
  shows "(y * n + x) div n = y" and "(y * n + x) mod n = x"
  using assms by (simp_all add: div_mult_self3)

lemma high_bits [simp]:
  "byte a div 4 < 64" "byte b div 16 < 16" "byte c div 64 < 4"
  using byte_less [of a] byte_less [of b] byte_less [of c] by (simp_all add: less_mult_imp_div_less)

lemma low_bits [simp]:
  "byte a mod 4 * 16 < 64" "byte b mod 16 * 4 < 64"
proof -
  have "byte a mod 4 < 4" "byte b mod 16 < 16" by simp_all
  then show "byte a mod 4 * 16 < 64" "byte b mod 16 * 4 < 64" by linarith+
qed

lemma joined_bits [simp]:
  "byte a mod 4 * 16 + byte b div 16 < 64" "byte b mod 16 * 4 + byte c div 64 < 64"
proof -
  have "byte a mod 4 < 4" "byte b div 16 < 16" "byte b mod 16 < 16" "byte c div 64 < 4" by simp_all
  then show "byte a mod 4 * 16 + byte b div 16 < 64" "byte b mod 16 * 4 + byte c div 64 < 64"
    by linarith+
qed

lemma b64_groups_encode: "b64_groups (b64_encode s) = Some s"
  by (induction s rule: b64_encode.induct) (simp_all add: b64_digit_plain)

lemma b64_encode_plain: "c \<in> set (b64_encode s) \<Longrightarrow> c \<noteq> CHR 13 \<and> c \<noteq> CHR 10"
  by (induction s rule: b64_encode.induct) (auto simp: b64_digit_plain pad_char_def)

lemma b64_decode_encode [simp]: "b64_decode (b64_encode s) = Some s"
proof -
  have "strip_newlines (b64_encode s) = b64_encode s"
    unfolding strip_newlines_def by (rule filter_True) (use b64_encode_plain in blast)
  then show ?thesis by (simp add: b64_decode_def b64_groups_encode)
qed

section \<open>Base32\<close>

definition b32_alphabet :: string where
  "b32_alphabet = ''ABCDEFGHIJKLMNOPQRSTUVWXYZ234567''"

fun digit_values :: "string \<Rightarrow> string \<Rightarrow> nat list option" where
  "digit_values alphabet [] = Some []"
| "digit_values alphabet (c # s) =
     (case (digit_index alphabet c, digit_values alphabet s) of
        (Some v, Some vs) \<Rightarrow> Some (v # vs)
      | _ \<Rightarrow> None)"

text \<open>The bytes a group of at most eight digits stands for; a group of \<open>n\<close> digits holds \<open>5 n div 8\<close> bytes.\<close>

definition bits5 :: "nat \<Rightarrow> bool list" where
  "bits5 v = map (\<lambda>k. odd (v div k)) [16, 8, 4, 2, 1]"

definition bits_char :: "bool list \<Rightarrow> char" where
  "bits_char bs = char_of (foldl (\<lambda>acc b. 2 * acc + (if b then 1 else 0 :: nat)) 0 bs)"

definition b32_bytes :: "nat list \<Rightarrow> string" where
  "b32_bytes vs =
     map (\<lambda>i. bits_char (take 8 (drop (8 * i) (concat (map bits5 vs))))) [0..<5 * length vs div 8]"

text \<open>
  A group with padding must be the last one, hold 2, 4, 5 or 7 digits, and be padded to eight.
\<close>

definition b32_group :: "bool \<Rightarrow> string \<Rightarrow> string option" where
  "b32_group final g =
     (let d = takeWhile (\<lambda>c. c \<noteq> pad_char) g in
      if length g \<noteq> 8 then None
      else if d \<noteq> g \<and> \<not> (final \<and> length d \<in> {2, 4, 5, 7} \<and> list_all (\<lambda>c. c = pad_char) (drop (length d) g))
      then None
      else map_option b32_bytes (digit_values b32_alphabet d))"

function b32_groups :: "string \<Rightarrow> string option" where
  "b32_groups s =
     (if s = [] then Some []
      else (case (b32_group (length s \<le> 8) (take 8 s), b32_groups (drop 8 s)) of
          (Some a, Some b) \<Rightarrow> Some (a @ b)
        | _ \<Rightarrow> None))"
  by pat_completeness auto
termination by (relation "measure length") auto

declare b32_groups.simps [simp del]

definition b32_decode :: "string \<Rightarrow> string option" where
  "b32_decode s = b32_groups (strip_newlines s)"

lemma b32_rfc4648_vectors:
  "b32_decode ''MY======'' = Some ''f'' \<and> b32_decode ''MZXW6YTBOI======'' = Some ''foobar'' \<and>
   b32_decode ''MZXW6YQ='' = Some ''foob'' \<and> b32_decode ''MZXW6YQ'' = None"
  by code_simp

end
