(* ===== verification/Credentials.thy ===== *)
theory Credentials
  imports Encoding FailureCounter
begin

text \<open>
  What the panel checks a caller's credentials with: secrets sealed at rest (internal/secret,
  internal/auth/totpseal.go), one-time codes (totp.go), the two password worlds (password.go and the
  shadow file reader of handlers.go), and the step-up counter (stepup.go).

  The primitives are parameters: an AEAD cipher, HMAC-SHA1, bcrypt, yescrypt, and the openssl
  command. Nothing is assumed of them in a definition; a theorem names the law it needs.
\<close>

section \<open>Sealed values\<close>

record aead =
  NonceSize :: nat
  Seal :: "string \<Rightarrow> string \<Rightarrow> string \<Rightarrow> string"
  Open :: "string \<Rightarrow> string \<Rightarrow> string \<Rightarrow> string option"

text \<open>The documented contract of \<open>cipher.AEAD\<close>: \<open>Open\<close> undoes \<open>Seal\<close> under the same nonce and additional data, and fails under other additional data.\<close>

definition aead_law :: "aead \<Rightarrow> bool" where
  "aead_law g = (\<forall>n p a b. Open g n (Seal g n p a) b = (if a = b then Some p else None))"

definition seal_prefix :: string where "seal_prefix = ''enc:v1:''"

datatype secret_error = NotInit | NonceFailed | DecodeFailed | ShortCipher | OpenFailed

definition IsEncrypted :: "string \<Rightarrow> bool" where
  "IsEncrypted value = has_prefix value seal_prefix"

text \<open>\<open>nonce\<close> is what \<open>rand.Read\<close> drew, \<open>None\<close> when it failed.\<close>

definition EncryptWith :: "aead option \<Rightarrow> string option \<Rightarrow> string \<Rightarrow> string \<Rightarrow> secret_error + string" where
  "EncryptWith gcm nonce plaintext aad =
     (case gcm of None \<Rightarrow> Inl NotInit
      | Some g \<Rightarrow> (case nonce of None \<Rightarrow> Inl NonceFailed
          | Some n \<Rightarrow> Inr (seal_prefix @ b64_encode (n @ Seal g n plaintext aad))))"

definition DecryptWith :: "aead option \<Rightarrow> string \<Rightarrow> string \<Rightarrow> secret_error + string" where
  "DecryptWith gcm value aad =
     (if \<not> has_prefix value seal_prefix then Inr value
      else (case gcm of None \<Rightarrow> Inl NotInit
        | Some g \<Rightarrow> (case b64_decode (trim_prefix value seal_prefix) of
            None \<Rightarrow> Inl DecodeFailed
          | Some raw \<Rightarrow>
              if length raw < NonceSize g then Inl ShortCipher
              else (case Open g (take (NonceSize g) raw) (drop (NonceSize g) raw) aad of
                  None \<Rightarrow> Inl OpenFailed
                | Some p \<Rightarrow> Inr p))))"

definition totpAAD :: "int \<Rightarrow> string" where
  "totpAAD userID = ''users.totp_secret:'' @ itoa userID"

definition SealTOTPSecret :: "aead option \<Rightarrow> string option \<Rightarrow> string \<Rightarrow> int \<Rightarrow> secret_error + string" where
  "SealTOTPSecret gcm nonce seed userID = EncryptWith gcm nonce seed (totpAAD userID)"

definition OpenTOTPSecret :: "aead option \<Rightarrow> string \<Rightarrow> int \<Rightarrow> secret_error + string" where
  "OpenTOTPSecret gcm stored userID = DecryptWith gcm stored (totpAAD userID)"

lemma trim_own_prefix [simp]: "trim_prefix (p @ s) p = s"
  by (simp add: trim_prefix_def has_prefix_def)

lemma has_own_prefix [simp]: "has_prefix (p @ s) p"
  by (simp add: has_prefix_def)

lemma decrypt_sealed:
  "aead_law g \<Longrightarrow> length n = NonceSize g \<Longrightarrow>
   DecryptWith (Some g) (seal_prefix @ b64_encode (n @ Seal g n p a)) b = (if a = b then Inr p else Inl OpenFailed)"
  by (simp add: DecryptWith_def aead_law_def)

lemma int_range_itoa_inj:
  "itoa i = itoa j \<Longrightarrow> - (2 ^ 63) \<le> i \<Longrightarrow> i < 2 ^ 63 \<Longrightarrow> - (2 ^ 63) \<le> j \<Longrightarrow> j < 2 ^ 63 \<Longrightarrow> i = j"
  by (metis atoi_itoa option.inject)

text \<open>
  C12. A sealed TOTP seed opens for the account it was sealed for and for no other: moved into
  another account's row, the same stored value is an error, never a usable seed. A row that holds
  no sealed value is used as it is.
\<close>
theorem sealed_seed_bound_to_account:
  assumes "aead_law g" and "length n = NonceSize g"
    and "0 \<le> owner" and "owner < 2 ^ 63" and "0 \<le> other" and "other < 2 ^ 63"
    and "SealTOTPSecret (Some g) (Some n) seed owner = Inr stored"
  shows "IsEncrypted stored \<and>
    OpenTOTPSecret (Some g) stored other = (if other = owner then Inr seed else Inl OpenFailed)"
  using assms int_range_itoa_inj [of owner other]
  by (auto simp: SealTOTPSecret_def OpenTOTPSecret_def EncryptWith_def IsEncrypted_def totpAAD_def
      decrypt_sealed)

text \<open>A cipher that meets the contract: the additional data is written in front, self-delimiting.\<close>

fun delimited :: "string \<Rightarrow> string" where
  "delimited [] = ''.''"
| "delimited (c # s) = CHR ''x'' # c # delimited s"

definition toy_aead :: aead where
  "toy_aead = \<lparr>NonceSize = 1, Seal = (\<lambda>n p a. delimited a @ p),
     Open = (\<lambda>n c a. if has_prefix c (delimited a) then Some (drop (length (delimited a)) c) else None)\<rparr>"

lemma delimited_prefix: "has_prefix (delimited a @ p) (delimited b) \<longleftrightarrow> a = b"
proof (induction a arbitrary: b)
  case Nil
  then show ?case by (cases b) (auto simp: has_prefix_def)
next
  case (Cons c a)
  show ?case
  proof (cases b)
    case (Cons d b')
    then show ?thesis using Cons.IH [of b'] by (auto simp: has_prefix_def)
  qed (simp add: has_prefix_def)
qed

lemma toy_aead_law: "aead_law toy_aead"
  by (auto simp: aead_law_def toy_aead_def delimited_prefix)

theorem sealed_seed_bound_to_account_witness:
  "OpenTOTPSecret (Some toy_aead) ''enc:v1:Tnh1eHN4ZXhyeHN4Lnh0eG94dHhweF94c3hleGN4cnhleHR4Ong3LkpCU1c='' 8 = Inl OpenFailed"
proof -
  have "SealTOTPSecret (Some toy_aead) (Some ''N'') ''JBSW'' 7 =
      Inr ''enc:v1:Tnh1eHN4ZXhyeHN4Lnh0eG94dHhweF94c3hleGN4cnhleHR4Ong3LkpCU1c=''"
    by code_simp
  from sealed_seed_bound_to_account [OF toy_aead_law _ _ _ _ _ this, of 8] show ?thesis
    by (simp add: toy_aead_def)
qed

section \<open>One-time codes\<close>

text \<open>
  \<open>strings.ToUpper\<close> as far as base32 can tell: of the runes outside ASCII only U+0131 and U+017F
  have an ASCII upper case, and a seed with any other rune outside ASCII does not decode.
\<close>

definition upper_rune :: "string \<Rightarrow> string" where
  "upper_rune r = (if r = [CHR 0xC4, CHR 0xB1] then ''I'' else if r = [CHR 0xC5, CHR 0xBF] then ''S''
     else to_upper r)"

definition seed_upper :: "string \<Rightarrow> string" where
  "seed_upper s = concat (map upper_rune (runes s))"

definition seed_key :: "string \<Rightarrow> string option" where
  "seed_key secret =
     (let s = seed_upper (trim_space secret); m = length s mod 8
      in b32_decode (if m \<noteq> 0 then s @ replicate (8 - m) pad_char else s))"

text \<open>\<open>binary.BigEndian.PutUint64\<close>.\<close>

fun low_bytes :: "nat \<Rightarrow> nat \<Rightarrow> string" where
  "low_bytes 0 c = []"
| "low_bytes (Suc k) c = low_bytes k (c div 256) @ [char_of c]"

definition big_endian :: "nat \<Rightarrow> string" where
  "big_endian c = low_bytes 8 c"

text \<open>\<open>fmt.Sprintf("%06d", v)\<close>.\<close>

definition six_digits :: "nat \<Rightarrow> string" where
  "six_digits v = (let d = digits_of v in replicate (6 - length d) (CHR ''0'') @ d)"

text \<open>The four bytes at \<open>off\<close>, the first without its top bit, disjoint in the 32-bit value they are ORed into.\<close>

definition dynamic_truncation :: "string \<Rightarrow> int" where
  "dynamic_truncation mac =
     (let off = byte (last mac) mod 16
      in int (byte (mac ! off) mod 128) * 2 ^ 24 + int (byte (mac ! (off + 1))) * 2 ^ 16 +
         int (byte (mac ! (off + 2))) * 2 ^ 8 + int (byte (mac ! (off + 3))))"

definition hotp :: "(string \<Rightarrow> string \<Rightarrow> string) \<Rightarrow> string \<Rightarrow> nat \<Rightarrow> string option" where
  "hotp hmac_sha1 secret counter =
     (case seed_key secret of
        None \<Rightarrow> None
      | Some key \<Rightarrow>
          if key = [] then None
          else Some (six_digits (nat (dynamic_truncation (hmac_sha1 key (big_endian counter)) mod 1000000))))"

text \<open>The loop over the three steps of the window; \<open>t\<close> is the current Unix time over 30.\<close>

fun match_step :: "(string \<Rightarrow> string \<Rightarrow> string) \<Rightarrow> string \<Rightarrow> string \<Rightarrow> int \<Rightarrow> int list \<Rightarrow> int option" where
  "match_step hmac_sha1 secret code minStep [] = None"
| "match_step hmac_sha1 secret code minStep (c # cs) =
     (if c \<le> minStep then match_step hmac_sha1 secret code minStep cs
      else if hotp hmac_sha1 secret (nat (c mod 2 ^ 64)) = Some code then Some c
      else match_step hmac_sha1 secret code minStep cs)"

definition validStep :: "(string \<Rightarrow> string \<Rightarrow> string) \<Rightarrow> time \<Rightarrow> string \<Rightarrow> string \<Rightarrow> int \<Rightarrow> int option" where
  "validStep hmac_sha1 now secret code minStep =
     (let code = trim_space code in
      if length code \<noteq> 6 \<or> secret = [] then None
      else let t = go_div (unix now) 30
        in match_step hmac_sha1 secret code minStep [t - 1, t, t + 1])"

definition TOTPVerify :: "(string \<Rightarrow> string \<Rightarrow> string) \<Rightarrow> time \<Rightarrow> string \<Rightarrow> string \<Rightarrow> bool" where
  "TOTPVerify hmac_sha1 now secret code = (validStep hmac_sha1 now secret code (- 1) \<noteq> None)"

definition TOTPVerifyStep :: "(string \<Rightarrow> string \<Rightarrow> string) \<Rightarrow> time \<Rightarrow> string \<Rightarrow> string \<Rightarrow> int \<Rightarrow> int option" where
  "TOTPVerifyStep hmac_sha1 now secret code lastStep = validStep hmac_sha1 now secret code lastStep"

lemma match_step_iff:
  "match_step h secret code m cs = Some c \<longleftrightarrow>
     (\<exists>pre post. cs = pre @ c # post \<and> m < c \<and> hotp h secret (nat (c mod 2 ^ 64)) = Some code \<and>
        (\<forall>d \<in> set pre. m < d \<longrightarrow> hotp h secret (nat (d mod 2 ^ 64)) \<noteq> Some code))"
proof (induction cs)
  case (Cons d cs)
  show ?case
  proof (cases "m < d \<and> hotp h secret (nat (d mod 2 ^ 64)) = Some code")
    case True
    then show ?thesis by (auto simp: Cons_eq_append_conv)
  next
    case False
    then have "match_step h secret code m (d # cs) = match_step h secret code m cs" by auto
    also have "\<dots> = Some c \<longleftrightarrow> (\<exists>pre post. d # cs = pre @ c # post \<and> m < c \<and>
        hotp h secret (nat (c mod 2 ^ 64)) = Some code \<and>
        (\<forall>d \<in> set pre. m < d \<longrightarrow> hotp h secret (nat (d mod 2 ^ 64)) \<noteq> Some code))"
      unfolding Cons.IH using False by (auto simp: Cons_eq_append_conv; fastforce)
    finally show ?thesis .
  qed
qed simp

lemma TOTPVerifyStep_Some:
  "TOTPVerifyStep h now secret code lastStep = Some c \<Longrightarrow>
     lastStep < c \<and> c \<in> {go_div (unix now) 30 - 1 .. go_div (unix now) 30 + 1} \<and> secret \<noteq> [] \<and>
     hotp h secret (nat (c mod 2 ^ 64)) = Some (trim_space code)"
  by (auto simp: TOTPVerifyStep_def validStep_def Let_def split: if_splits)

lemma digits_of_length: "n < 10 ^ Suc k \<Longrightarrow> length (digits_of n) \<le> Suc k"
proof (induction k arbitrary: n)
  case (Suc k)
  show ?case
  proof (cases "n < 10")
    case False
    then have "length (digits_of n) = Suc (length (digits_of (n div 10)))"
      by (subst digits_of.simps) simp
    also have "\<dots> \<le> Suc (Suc k)" using Suc.IH [of "n div 10"] Suc.prems by simp
    finally show ?thesis .
  qed (subst digits_of.simps, simp)
qed (subst digits_of.simps, simp)

text \<open>A code is always six decimal digits, so the length test of \<open>validStep\<close> turns away no real code.\<close>

lemma hotp_six_digits:
  assumes "hotp h secret c = Some code"
  shows "length code = 6 \<and> all_digits code"
proof -
  obtain v where v: "code = six_digits (nat (v mod 1000000))"
    using assms by (auto simp: hotp_def split: option.splits if_splits)
  have "length (digits_of (nat (v mod 1000000))) \<le> Suc 5" by (rule digits_of_length) simp
  then show ?thesis using digits_of_digits [of "nat (v mod 1000000)"]
    by (auto simp: v six_digits_def Let_def all_digits_def list_all_iff is_digit_def byte_in_def byte_def
        split: if_splits)
qed

text \<open>RFC 4226, appendix D: the truncation of the HMAC of counter 0, and its code.\<close>

lemma rfc4226_counter_0:
  "dynamic_truncation (map char_of [0xcc, 0x93, 0xcf, 0x18, 0x50, 0x8d, 0x94, 0x93, 0x4c, 0x64, 0xb6, 0x5d,
     0x8b, 0xa7, 0x66, 0x7f, 0xb7, 0xcd, 0xe4, 0xb0 :: nat]) = 1284755224"
  by (simp add: dynamic_truncation_def Let_def byte_def)

lemma rfc4226_code_0: "six_digits (nat (1284755224 mod 1000000)) = ''755224''"
proof -
  have "digits_of 755224 = ''755224''"
    by (subst digits_of.simps, simp)+ code_simp
  then show ?thesis by (simp add: six_digits_def)
qed

lemma rfc4226_seed: "seed_key '' gezdgnbvgy3tqojqgezdgnbvgy3tqojq '' = Some ''12345678901234567890''"
  by code_simp

section \<open>The two password worlds\<close>

text \<open>
  \<open>strings.EqualFold\<close> with "root": no rune outside ASCII folds to r, o or t, so the test is on ASCII
  case alone.
\<close>

definition IsRootUser :: "string \<Rightarrow> bool" where
  "IsRootUser username = (to_lower (trim_space username) = ''root'')"

definition PasswordMinLength :: nat where "PasswordMinLength = 8"

datatype password_error = ErrPasswordTooShort | BcryptFailed

definition HashPassword :: "(string \<Rightarrow> string option) \<Rightarrow> string \<Rightarrow> password_error + string" where
  "HashPassword bcrypt_generate password =
     (if length password < PasswordMinLength then Inl ErrPasswordTooShort
      else (case bcrypt_generate password of None \<Rightarrow> Inl BcryptFailed | Some h \<Rightarrow> Inr h))"

definition PasswordMatches :: "(string \<Rightarrow> string \<Rightarrow> bool) \<Rightarrow> string \<Rightarrow> string \<Rightarrow> bool" where
  "PasswordMatches bcrypt_compare hash password =
     (if trim_space hash = [] then False
      else if password = [] then False
      else bcrypt_compare hash password)"

text \<open>The file as \<open>os.ReadFile\<close> returned it, \<open>None\<close> when it could not be read.\<close>

definition rootShadowHash :: "string option \<Rightarrow> string" where
  "rootShadowHash shadow =
     (case shadow of None \<Rightarrow> []
      | Some data \<Rightarrow> (case find (\<lambda>line. has_prefix line ''root:'') (split_on (CHR 10) data) of
          None \<Rightarrow> []
        | Some line \<Rightarrow> (let parts = split_on (CHR '':'') line in if 2 \<le> length parts then parts ! 1 else [])))"

definition cryptAlphabet :: "string \<Rightarrow> bool" where
  "cryptAlphabet s = list_all (\<lambda>c. byte_in 48 57 c \<or> byte_in 97 122 c \<or> byte_in 65 90 c \<or>
     c = CHR ''.'' \<or> c = CHR ''/'' \<or> c = CHR ''$'') s"

definition cryptIDAndSalt :: "string list \<Rightarrow> (string \<times> string) option" where
  "cryptIDAndSalt parts =
     (if length parts = 4 then Some (parts ! 1, parts ! 2)
      else if length parts = 5 \<and> has_prefix (parts ! 2) ''rounds='' then
        (let rounds = trim_prefix (parts ! 2) ''rounds='' in
         if rounds = [] \<or> \<not> all_digits rounds then None
         else Some (parts ! 1, parts ! 2 @ ''$'' @ parts ! 3))
      else None)"

definition legacyCryptSalt :: "string \<Rightarrow> (string \<times> string) option" where
  "legacyCryptSalt hash =
     (case cryptIDAndSalt (split_on (CHR ''$'') hash) of
        None \<Rightarrow> None
      | Some (ident, salt) \<Rightarrow>
          if ident = [] \<or> salt = [] then None
          else if \<not> cryptAlphabet (trim_prefix salt ''rounds='') then None
          else Some (ident, salt))"

text \<open>\<open>openssl flag salt password\<close> is what the command printed, \<open>None\<close> when it failed.\<close>

definition legacyCryptVerify :: "(string \<Rightarrow> string \<Rightarrow> string \<Rightarrow> string option) \<Rightarrow> string \<Rightarrow> string \<Rightarrow> bool" where
  "legacyCryptVerify openssl password hash =
     (case legacyCryptSalt hash of
        None \<Rightarrow> False
      | Some (ident, salt) \<Rightarrow>
          if ident \<noteq> ''6'' \<and> ident \<noteq> ''5'' \<and> ident \<noteq> ''1'' then False
          else (case openssl (CHR ''-'' # ident) salt password of
              None \<Rightarrow> False
            | Some out \<Rightarrow> trim_space out = hash))"

definition verifyRootPassword :: "(string \<Rightarrow> string \<Rightarrow> string option) \<Rightarrow>
    (string \<Rightarrow> string \<Rightarrow> string \<Rightarrow> string option) \<Rightarrow> string option \<Rightarrow> string \<Rightarrow> bool" where
  "verifyRootPassword yescrypt openssl shadow password =
     (let hash = rootShadowHash shadow in
      if length hash < 3 \<or> \<not> has_prefix hash ''$'' then False
      else if has_prefix hash ''$y$'' then
        (case yescrypt password hash of None \<Rightarrow> False | Some computed \<Rightarrow> computed = hash)
      else legacyCryptVerify openssl password hash)"

lemma split_on_4:
  assumes "split_on d s = [a, b, c, e]"
  shows "s = a @ d # b @ d # c @ d # e"
  using join_split_on [of d s] assms by simp

lemma split_on_5:
  assumes "split_on d s = [a, b, c, e, f]"
  shows "s = a @ d # b @ d # c @ d # e @ d # f"
  using join_split_on [of d s] assms by simp

lemma split_on_lead:
  "split_on d (d # s) = [] # split_on d s"
  by simp

lemma cryptIDAndSalt_parts:
  assumes "cryptIDAndSalt (split_on (CHR ''$'') (CHR ''$'' # s)) = Some (ident, salt)"
  shows "\<exists>digest. CHR ''$'' # s = CHR ''$'' # ident @ CHR ''$'' # salt @ CHR ''$'' # digest"
proof -
  let ?p = "split_on (CHR ''$'') (CHR ''$'' # s)"
  consider (four) a b c e where "?p = [a, b, c, e]" | (five) a b c e f where "?p = [a, b, c, e, f]"
    using assms unfolding cryptIDAndSalt_def
    by (auto simp: length_Suc_conv eval_nat_numeral split: if_splits)
  then show ?thesis
  proof cases
    case four
    then have "a = []" by simp
    with assms four split_on_4 [OF four] show ?thesis
      by (simp only: cryptIDAndSalt_def) auto
  next
    case five
    then have "a = []" by simp
    with assms five split_on_5 [OF five] show ?thesis
      by (simp only: cryptIDAndSalt_def) (auto simp: Let_def split: if_splits)
  qed
qed

lemma legacyCryptSalt_no_option:
  "legacyCryptSalt hash = Some (ident, salt) \<Longrightarrow> hd salt \<noteq> CHR ''-''"
  by (auto simp: legacyCryptSalt_def cryptAlphabet_def trim_prefix_def has_prefix_iff neq_Nil_conv
      byte_in_def byte_def split: option.splits if_splits)

text \<open>
  C11. The root login accepts only a real password hash: never a locked or empty entry. A yescrypt hash
  must be reproduced exactly; any other is split into \<open>$id$salt$digest\<close> with one of three known
  formats, the salt handed to the command is a piece of the hash and cannot be read as an option, and
  what the command prints must be the whole hash.
\<close>
theorem root_login_sound:
  assumes "verifyRootPassword yescrypt openssl shadow password"
  shows "\<exists>hash. rootShadowHash shadow = hash \<and>
    (has_prefix hash ''$y$'' \<and> yescrypt password hash = Some hash \<or>
     (\<exists>ident salt digest out. hash = ''$'' @ ident @ ''$'' @ salt @ ''$'' @ digest \<and> ident \<in> {''6'', ''5'', ''1''} \<and>
        salt \<noteq> [] \<and> hd salt \<noteq> CHR ''-'' \<and> openssl (CHR ''-'' # ident) salt password = Some out \<and>
        trim_space out = hash))"
proof -
  define hash where "hash = rootShadowHash shadow"
  show ?thesis
  proof (cases "has_prefix hash ''$y$''")
    case True
    then have "yescrypt password hash = Some hash"
      using assms by (auto simp: verifyRootPassword_def Let_def hash_def split: if_splits option.splits)
    with True show ?thesis using hash_def by blast
  next
    case False
    then have "has_prefix hash ''$''" and v: "legacyCryptVerify openssl password hash"
      using assms by (auto simp: verifyRootPassword_def Let_def hash_def split: if_splits)
    then obtain s where s: "hash = CHR ''$'' # s" by (auto simp: has_prefix_iff)
    obtain ident salt out where salt: "legacyCryptSalt hash = Some (ident, salt)"
      and run: "ident \<in> {''6'', ''5'', ''1''}" "openssl (CHR ''-'' # ident) salt password = Some out" "trim_space out = hash"
      using v by (auto simp: legacyCryptVerify_def split: option.splits if_splits prod.splits)
    from salt have parts: "cryptIDAndSalt (split_on (CHR ''$'') hash) = Some (ident, salt)" and ne: "salt \<noteq> []"
      by (auto simp: legacyCryptSalt_def split: option.splits if_splits prod.splits)
    obtain digest where "hash = CHR ''$'' # ident @ CHR ''$'' # salt @ CHR ''$'' # digest"
      using cryptIDAndSalt_parts [OF parts [unfolded s]] s by blast
    with run ne legacyCryptSalt_no_option [OF salt] show ?thesis using hash_def by auto
  qed
qed

theorem root_login_sound_witness:
  "let shadow = Some ''bin:*:1:
root:$6$rounds=5000$ab$XYZ:19000:0:::'' in
   \<exists>ident salt digest. rootShadowHash shadow = ''$'' @ ident @ ''$'' @ salt @ ''$'' @ digest \<and> hd salt \<noteq> CHR ''-''"
proof -
  let ?shadow = "Some ''bin:*:1:
root:$6$rounds=5000$ab$XYZ:19000:0:::''"
  let ?openssl = "\<lambda>flag salt pw. if salt = ''rounds=5000$ab'' then Some ''$6$rounds=5000$ab$XYZ '' else None"
  have "verifyRootPassword (\<lambda>p h. None) ?openssl ?shadow ''secret''" by code_simp
  from root_login_sound [OF this] show ?thesis
    unfolding Let_def by (elim exE conjE disjE; simp only: option.distinct; blast)
qed

section \<open>The step-up counter\<close>

definition stepUpMaxFailures :: int where "stepUpMaxFailures = 5"
definition stepUpLockFor :: duration where "stepUpLockFor = 15 * minute"

record stepUpState =
  su_failures :: int
  su_until :: time

type_synonym stepUp_map = "int \<rightharpoonup> stepUpState"

definition stepUpLocked :: "time \<Rightarrow> int \<Rightarrow> stepUp_map \<Rightarrow> duration \<times> stepUp_map" where
  "stepUpLocked now userID m =
     (case m userID of
        None \<Rightarrow> (0, m)
      | Some state \<Rightarrow>
          if su_until state = zero_time then (0, m)
          else (let remaining = su_until state - now in
            if remaining \<le> 0 then (0, m(userID := None)) else (remaining, m)))"

definition stepUpFailed :: "time \<Rightarrow> int \<Rightarrow> stepUp_map \<Rightarrow> stepUp_map" where
  "stepUpFailed now userID m =
     (let state = (case m userID of Some s \<Rightarrow> s | None \<Rightarrow> \<lparr>su_failures = 0, su_until = zero_time\<rparr>);
          state = state\<lparr>su_failures := su_failures state + 1\<rparr>;
          state = (if stepUpMaxFailures \<le> su_failures state
                   then state\<lparr>su_until := now + stepUpLockFor\<rparr> else state)
      in m(userID \<mapsto> state))"

definition stepUpPassed :: "int \<Rightarrow> stepUp_map \<Rightarrow> stepUp_map" where
  "stepUpPassed userID m = m(userID := None)"

text \<open>The Retry-After seconds and the minutes of the message.\<close>

definition stepUpRefuse :: "duration \<Rightarrow> int \<times> int \<times> int" where
  "stepUpRefuse remaining =
     (let seconds = whole_seconds remaining + 1 in (StatusTooManyRequests, seconds, seconds div 60 + 1))"

text \<open>
  One step-up check as its handlers run it: the lock is read at \<open>t1\<close>, and unless it refuses, the
  credential is checked and a wrong one recorded at \<open>t2\<close>.
\<close>

datatype stepup_result = StepRefused duration | StepWrong | StepRight

definition stepUp_check :: "time \<Rightarrow> time \<Rightarrow> int \<Rightarrow> bool \<Rightarrow> stepUp_map \<Rightarrow> stepup_result \<times> stepUp_map" where
  "stepUp_check t1 t2 userID correct m =
     (case stepUpLocked t1 userID m of (wait, m1) \<Rightarrow>
        if 0 < wait then (StepRefused wait, m1)
        else if correct then (StepRight, stepUpPassed userID m1)
        else (StepWrong, stepUpFailed t2 userID m1))"

datatype stepup_event = StepUp time time int bool

fun stepup_orderly :: "time \<Rightarrow> stepup_event list \<Rightarrow> bool" where
  "stepup_orderly now [] = (0 < now)"
| "stepup_orderly now (StepUp t1 t2 uid c # es) = (0 < now \<and> now \<le> t1 \<and> t1 \<le> t2 \<and> stepup_orderly t2 es)"

text \<open>The wrong credentials of one account that were looked at since its last right one, newest first.\<close>

fun stepup_wrongs :: "int \<Rightarrow> stepup_event list \<Rightarrow> stepUp_map \<Rightarrow> time list \<Rightarrow> time list" where
  "stepup_wrongs k [] m log = log"
| "stepup_wrongs k (StepUp t1 t2 uid c # es) m log =
     (case stepUp_check t1 t2 uid c m of (r, m') \<Rightarrow>
        stepup_wrongs k es m' (if uid = k then (case r of StepRefused d \<Rightarrow> log | StepWrong \<Rightarrow> t2 # log | StepRight \<Rightarrow> []) else log))"

lemmas stepup_consts = stepUpMaxFailures_def stepUpLockFor_def zero_time_def time_units

definition stepup_hits :: "stepUp_map \<Rightarrow> int \<Rightarrow> time \<Rightarrow> time list \<Rightarrow> time list \<Rightarrow> bool" where
  "stepup_hits m k now hits log =
     (case m k of
        None \<Rightarrow> hits = [] \<and> held stepUpLockFor now [] log
      | Some s \<Rightarrow>
          if su_until s = zero_time
          then su_failures s = int (length hits) \<and> length hits < 5 \<and> held stepUpLockFor now hits log
          else hits = [] \<and> held stepUpLockFor (max now (su_until s)) [] log)"

definition stepup_tracks :: "stepUp_map \<Rightarrow> int \<Rightarrow> time list \<Rightarrow> time \<Rightarrow> bool" where
  "stepup_tracks m k log now = (sorted (rev log) \<and> (\<forall>t \<in> set log. t \<le> now) \<and>
     spaced 5 stepUpLockFor log \<and> (\<exists>hits. stepup_hits m k now hits log))"

lemma stepup_tracks_later: "stepup_tracks m k log now \<Longrightarrow> now \<le> now' \<Longrightarrow> stepup_tracks m k log now'"
  unfolding stepup_tracks_def stepup_hits_def
  by (fastforce elim: held_later split: option.splits if_splits)

lemma stepup_tracks_frame: "m' k = m k \<Longrightarrow> stepup_tracks m' k log now = stepup_tracks m k log now"
  unfolding stepup_tracks_def stepup_hits_def by (simp only:)

lemma stepup_tracks_fresh: "stepup_tracks m k log now \<Longrightarrow> m' k = None \<Longrightarrow> stepup_tracks m' k [] now"
  by (auto simp: stepup_tracks_def stepup_hits_def spaced_def)

lemma stepUpLocked_other: "uid \<noteq> k \<Longrightarrow> snd (stepUpLocked now uid m) k = m k"
  by (auto simp: stepUpLocked_def Let_def split: option.splits)

lemma stepUpLocked_cases:
  obtains (none) "m k = None" "stepUpLocked now k m = (0, m)"
  | (counting) s where "m k = Some s" "su_until s = zero_time" "stepUpLocked now k m = (0, m)"
  | (over) s where "m k = Some s" "su_until s \<noteq> zero_time" "su_until s \<le> now"
      "stepUpLocked now k m = (0, m(k := None))"
  | (locked) s where "m k = Some s" "su_until s \<noteq> zero_time" "now < su_until s"
      "stepUpLocked now k m = (su_until s - now, m)"
proof (cases "m k")
  case None
  then show ?thesis using none by (simp add: stepUpLocked_def)
next
  case (Some s)
  then show ?thesis using counting [of s] over [of s] locked [of s]
    by (cases "su_until s = zero_time"; cases "su_until s \<le> now") (simp_all add: stepUpLocked_def Let_def)
qed

lemma stepup_tracks_locked:
  assumes "stepup_tracks m k log now"
  shows "stepup_tracks (snd (stepUpLocked now k m)) k log now"
proof (cases rule: stepUpLocked_cases [of m k now])
  case (over s)
  from assms obtain hits where "stepup_hits m k now hits log" by (auto simp: stepup_tracks_def)
  then have "stepup_hits (m(k := None)) k now hits log"
    using over(1-3) by (simp add: stepup_hits_def)
  then show ?thesis using assms over(4) unfolding stepup_tracks_def by auto
qed (use assms in simp_all)

text \<open>After the lock let an attempt through, what the counter has forgotten is out of the window.\<close>

lemma stepup_open:
  assumes tr: "stepup_tracks m k log now" and op: "fst (stepUpLocked now k m) \<le> 0"
  shows "\<exists>hits. length hits < 5 \<and> held stepUpLockFor now hits log \<and>
    (case snd (stepUpLocked now k m) k of None \<Rightarrow> hits = []
     | Some s \<Rightarrow> su_until s = zero_time \<and> su_failures s = int (length hits))"
proof -
  from tr obtain hits where h: "stepup_hits m k now hits log" by (auto simp: stepup_tracks_def)
  show ?thesis
  proof (cases rule: stepUpLocked_cases [of m k now])
    case none
    with h show ?thesis by (simp add: stepup_hits_def)
  next
    case (counting s)
    with h show ?thesis by (auto simp: stepup_hits_def)
  next
    case (over s)
    with h show ?thesis by (simp add: stepup_hits_def)
  qed (use op in simp)
qed

lemma stepup_tracks_failed:
  assumes tr: "stepup_tracks m k log t1" and op: "fst (stepUpLocked t1 k m) \<le> 0"
    and le: "t1 \<le> t2" and pos: "0 < t1"
  shows "stepup_tracks (stepUpFailed t2 k (snd (stepUpLocked t1 k m))) k (t2 # log) t2"
proof -
  obtain hits where len: "length hits < 5" and h: "held stepUpLockFor t1 hits log"
    and st: "case snd (stepUpLocked t1 k m) k of None \<Rightarrow> hits = []
     | Some s \<Rightarrow> su_until s = zero_time \<and> su_failures s = int (length hits)"
    using stepup_open [OF tr op] by blast
  have srt: "sorted (rev (t2 # log))" and bound: "\<forall>t \<in> set (t2 # log). t \<le> t2"
    using tr le by (auto simp: stepup_tracks_def sorted_append intro: order_trans)
  have spc: "spaced 5 stepUpLockFor (t2 # log)"
    by (rule held_spaced_Cons [OF _ _ h len le]) (use tr in \<open>simp_all add: stepup_tracks_def\<close>)
  let ?m = "stepUpFailed t2 k (snd (stepUpLocked t1 k m))"
  let ?hits = "if length hits = 4 then [] else hits @ [t2]"
  obtain s where "?m k = Some s" "su_failures s = int (length hits) + 1"
      "su_until s = (if length hits = 4 then t2 + stepUpLockFor else zero_time)"
    using st len by (auto simp: stepUpFailed_def Let_def stepUpMaxFailures_def split: option.splits)
  moreover have "held stepUpLockFor t2 (hits @ [t2]) (t2 # log)"
    by (rule held_snoc [OF held_later [OF h le]])
  moreover have "held stepUpLockFor (max t2 (t2 + stepUpLockFor)) [] (t2 # log)"
    using bound by (auto simp: held_def max_def stepup_consts)
  ultimately have "stepup_hits ?m k t2 ?hits (t2 # log)"
    using len le pos by (auto simp: stepup_hits_def stepup_consts split: if_splits)
  with srt bound spc show ?thesis unfolding stepup_tracks_def by blast
qed

lemma stepup_wrongs_spaced:
  "stepup_tracks m k log now \<Longrightarrow> stepup_orderly now es \<Longrightarrow>
   \<exists>m' end. stepup_tracks m' k (stepup_wrongs k es m log) end"
proof (induction k es m log arbitrary: now rule: stepup_wrongs.induct)
  case (2 k t1 t2 uid c es m log)
  then have le: "now \<le> t1" "t1 \<le> t2" "0 < t1" and rest: "stepup_orderly t2 es" by auto
  have tr: "stepup_tracks m k log t1" using 2(2) le(1) by (rule stepup_tracks_later)
  let ?r = "fst (stepUp_check t1 t2 uid c m)" and ?m = "snd (stepUp_check t1 t2 uid c m)"
  let ?log = "if uid = k then (case ?r of StepRefused d \<Rightarrow> log | StepWrong \<Rightarrow> t2 # log | StepRight \<Rightarrow> []) else log"
  have "stepup_tracks ?m k ?log t2"
  proof (cases "uid = k")
    case False
    then have "?m k = m k"
      by (auto simp: stepUp_check_def split_def stepUpLocked_other stepUpPassed_def stepUpFailed_def Let_def)
    from stepup_tracks_later [OF tr le(2)] have "stepup_tracks ?m k log t2"
      by (subst stepup_tracks_frame [where m = m]) (simp_all add: \<open>?m k = m k\<close>)
    then show ?thesis using False by simp
  next
    case True
    have lk: "stepup_tracks (snd (stepUpLocked t1 k m)) k log t2"
      using stepup_tracks_later [OF stepup_tracks_locked [OF tr] le(2)] .
    consider "0 < fst (stepUpLocked t1 k m)" | "fst (stepUpLocked t1 k m) \<le> 0" c
      | "fst (stepUpLocked t1 k m) \<le> 0" "\<not> c" by fastforce
    then show ?thesis
    proof cases
      case 1
      then show ?thesis using True lk by (simp add: stepUp_check_def split_def)
    next
      case 2
      then show ?thesis using True stepup_tracks_fresh [OF lk, of "stepUpPassed k (snd (stepUpLocked t1 k m))"]
        by (simp add: stepUp_check_def split_def stepUpPassed_def)
    next
      case 3
      then show ?thesis using True stepup_tracks_failed [OF tr 3(1) le(2,3)]
        by (simp add: stepUp_check_def split_def)
    qed
  qed
  from 2(1) [OF prod.collapse this rest] show ?case by (simp add: split_def)
qed auto

text \<open>
  However step-up checks of all accounts follow each other, at most five wrong codes or passwords
  of one account are looked at in any fifteen minutes since its last right one: the counter is not
  reset by time, by the lock running out early, or by other accounts.
\<close>
theorem stepup_window_bound:
  assumes "stepup_orderly now es"
  shows "length (in_window t stepUpLockFor (stepup_wrongs k es Map.empty [])) \<le> 5"
proof -
  have "stepup_tracks Map.empty k [] now" by (simp add: stepup_tracks_def stepup_hits_def spaced_def)
  then obtain m' e where "stepup_tracks m' k (stepup_wrongs k es Map.empty []) e"
    using stepup_wrongs_spaced assms by blast
  then show ?thesis by (intro spaced_window_bound) (auto simp: stepup_tracks_def)
qed

theorem stepup_window_bound_witness:
  "length (in_window 1 stepUpLockFor (stepup_wrongs 7 (map (\<lambda>i. StepUp i i 7 False) [1, 2, 3, 4, 5, 6]) Map.empty [])) \<le> 5"
  by (rule stepup_window_bound [of 1]) simp

end
