(* ===== verification/Accounts.thy ===== *)
theory Accounts
  imports Credentials Session
begin

text \<open>
  The panel's account table, its audit log and the writes and reads both login handlers and the
  profile handlers share (internal/auth/handlers.go). A row has the columns these handlers use. A
  statement can fail: the environment of a request says which ones do, and when the clock is read.
  MySQL's comparison of user names, which depends on the collation, is a parameter.
\<close>

section \<open>State\<close>

record user_row =
  u_id :: int
  u_username :: string
  u_hash :: string
  u_role :: string
  u_status :: string
  u_full_name :: string
  u_email :: string
  u_theme :: string
  u_lang :: string
  u_totp_enabled :: int
  u_totp_secret :: string
  u_totp_last_step :: int
  u_token_version :: int
  u_reseller :: "int option"
  u_last_login :: "time \<times> string"

record audit_row =
  a_uid :: "int option"
  a_username :: string
  a_ip :: string
  a_action :: string
  a_target :: string
  a_ok :: int
  a_reseller :: int

record panel =
  users :: "user_row list"
  audit_log :: "audit_row list"
  revoked_sessions :: revoked_table
  stepups :: stepUp_map
  shadow :: "string option"

datatype statement =
  ReadAccount | ReadTotp | WriteStep | ReadVersion | WriteAuditRow | ReadScope | WriteLastLogin |
  ReadDomain | ReadHash | WriteUser | WriteRevoked

record auth_lib =
  al_same_name :: "string \<Rightarrow> string \<Rightarrow> bool"
  al_bcrypt_compare :: "string \<Rightarrow> string \<Rightarrow> bool"
  al_bcrypt_generate :: "string \<Rightarrow> string option"
  al_yescrypt :: "string \<Rightarrow> string \<Rightarrow> string option"
  al_openssl :: "string \<Rightarrow> string \<Rightarrow> string \<Rightarrow> string option"
  al_chpasswd :: "string \<Rightarrow> string option \<Rightarrow> string option"
  al_hmac :: "string \<Rightarrow> string \<Rightarrow> string"
  al_gcm :: "aead option"
  al_jwt :: jwt_lib

record login_env =
  le_fails :: "statement \<Rightarrow> bool"
  le_now :: time
  le_later :: time
  le_jti :: "string option"
  le_nonce :: "string option"
  le_ip :: string
  le_audit_ip :: string

definition user_by_id :: "int \<Rightarrow> panel \<Rightarrow> user_row option" where
  "user_by_id uid db = find (\<lambda>u. u_id u = uid) (users db)"

definition user_by_name :: "auth_lib \<Rightarrow> string \<Rightarrow> panel \<Rightarrow> user_row option" where
  "user_by_name lib name db = find (\<lambda>u. al_same_name lib (u_username u) name) (users db)"

definition update_user :: "int \<Rightarrow> (user_row \<Rightarrow> user_row) \<Rightarrow> panel \<Rightarrow> panel" where
  "update_user uid f db = db\<lparr>users := map (\<lambda>u. if u_id u = uid then f u else u) (users db)\<rparr>"

text \<open>Every write of these handlers keeps the identifier of a row.\<close>

lemma user_by_id_update [simp]:
  assumes "\<And>u. u_id (f u) = u_id u"
  shows "user_by_id k (update_user uid f db) =
    (if k = uid then map_option f (user_by_id k db) else user_by_id k db)"
proof -
  have "find (\<lambda>u. u_id u = k) (map (\<lambda>u. if u_id u = uid then f u else u) us) =
      (if k = uid then map_option f (find (\<lambda>u. u_id u = k) us) else find (\<lambda>u. u_id u = k) us)" for us
    by (induction us) (auto simp: assms)
  then show ?thesis by (simp add: user_by_id_def update_user_def)
qed

lemma update_user_fields [simp]:
  "audit_log (update_user uid f db) = audit_log db"
  "revoked_sessions (update_user uid f db) = revoked_sessions db"
  "stepups (update_user uid f db) = stepups db"
  "shadow (update_user uid f db) = shadow db"
  by (simp_all add: update_user_def)

lemma user_by_id_frame [simp]:
  "user_by_id k (audit_log_update f db) = user_by_id k db"
  "user_by_id k (revoked_sessions_update f2 db) = user_by_id k db"
  "user_by_id k (stepups_update f3 db) = user_by_id k db"
  "user_by_id k (shadow_update f4 db) = user_by_id k db"
  by (simp_all add: user_by_id_def)

lemma user_by_id_Some: "user_by_id k db = Some u \<Longrightarrow> u_id u = k"
  by (auto simp: user_by_id_def find_Some_iff)

section \<open>The audit log\<close>

text \<open>The reseller an account belongs to; 0 is the root-only scope, and every doubt falls there.\<close>

definition ScopeOf :: "login_env \<Rightarrow> panel \<Rightarrow> int \<Rightarrow> int" where
  "ScopeOf env db uid =
     (if uid \<le> 0 then 0
      else if le_fails env ReadScope then 0
      else (case user_by_id uid db of
          None \<Rightarrow> 0
        | Some u \<Rightarrow>
            if u_role u = ''reseller'' then uid
            else (case u_reseller u of Some r \<Rightarrow> if 0 < r then r else 0 | None \<Rightarrow> 0)))"

definition WriteAuditScoped :: "login_env \<Rightarrow> int \<Rightarrow> string \<Rightarrow> string \<Rightarrow> string \<Rightarrow> string \<Rightarrow> bool \<Rightarrow> int \<Rightarrow> panel \<Rightarrow> panel" where
  "WriteAuditScoped env uid username ip action target ok resellerScope db =
     (if le_fails env WriteAuditRow then db
      else db\<lparr>audit_log := audit_log db @
        [\<lparr>a_uid = (if 0 < uid then Some uid else None), a_username = username, a_ip = ip,
          a_action = action, a_target = target, a_ok = (if ok then 1 else 0),
          a_reseller = (if resellerScope < 0 then 0 else resellerScope)\<rparr>]\<rparr>)"

definition WriteAudit :: "login_env \<Rightarrow> int \<Rightarrow> string \<Rightarrow> string \<Rightarrow> string \<Rightarrow> string \<Rightarrow> bool \<Rightarrow> panel \<Rightarrow> panel" where
  "WriteAudit env uid username ip action target ok db =
     WriteAuditScoped env uid username ip action target ok (ScopeOf env db uid) db"

lemma WriteAudit_frame [simp]:
  "user_by_id k (WriteAudit env uid n ip a t ok db) = user_by_id k db"
  "users (WriteAudit env uid n ip a t ok db) = users db"
  "revoked_sessions (WriteAudit env uid n ip a t ok db) = revoked_sessions db"
  "stepups (WriteAudit env uid n ip a t ok db) = stepups db"
  "shadow (WriteAudit env uid n ip a t ok db) = shadow db"
  by (simp_all add: WriteAudit_def WriteAuditScoped_def)

lemma user_by_name_WriteAudit [simp]:
  "user_by_name lib m (WriteAudit env uid n ip a t ok db) = user_by_name lib m db"
  by (simp add: user_by_name_def)

definition auditLimit :: "string \<Rightarrow> int" where
  "auditLimit raw =
     (let limit = (if raw \<noteq> [] then (case atoi raw of Some n \<Rightarrow> if 0 < n then n else 200 | None \<Rightarrow> 200) else 200)
      in if 1000 < limit then 1000 else limit)"

datatype sql_arg = Num int | Str string

text \<open>
  The query: the conditions that are set, each with the argument its placeholder takes, then the
  limit. Request text only ever becomes an argument.
\<close>

definition audit_conditions :: "string \<Rightarrow> bool \<Rightarrow> int \<Rightarrow> (string \<times> sql_arg list) list" where
  "audit_conditions action onlyFailed scope =
     (if 0 \<le> scope then [(''reseller_id = ?'', [Num scope])] else []) @
     (if trim_space action \<noteq> [] then [(''action = ?'', [Str (trim_space action)])] else []) @
     (if onlyFailed then [(''ok = 0'', [])] else [])"

definition audit_select :: string where
  "audit_select = ''SELECT id, DATE_FORMAT(ts, '%Y-%m-%d %H:%i:%s'), actor_username, ip, action, target, ok'' @
     [CHR 10, CHR 9] @ ''      FROM audit_log''"

definition buildAuditQuery :: "string \<Rightarrow> bool \<Rightarrow> int \<Rightarrow> int \<Rightarrow> string \<times> sql_arg list" where
  "buildAuditQuery action onlyFailed limit scope =
     (let cond = audit_conditions action onlyFailed scope in
      (audit_select @ (if cond \<noteq> [] then '' WHERE '' @ join '' AND '' (map fst cond) else []) @
         '' ORDER BY id DESC LIMIT ?'',
       concat (map snd cond) @ [Num limit]))"

definition auditViewScope :: "claims option \<Rightarrow> int" where
  "auditViewScope c =
     (case c of None \<Rightarrow> 0
      | Some c \<Rightarrow> if Role c = ''admin'' then - 1 else if Role c = ''reseller'' then UserID c else 0)"

text \<open>What MySQL answers: the rows that meet the conditions, newest first, at most the limit.\<close>

fun condition_holds :: "auth_lib \<Rightarrow> audit_row \<Rightarrow> string \<times> sql_arg list \<Rightarrow> bool" where
  "condition_holds lib row (text, args) =
     (case args of
        [Num s] \<Rightarrow> text = ''reseller_id = ?'' \<and> a_reseller row = s
      | [Str a] \<Rightarrow> text = ''action = ?'' \<and> al_same_name lib (a_action row) a
      | [] \<Rightarrow> text = ''ok = 0'' \<and> a_ok row = 0
      | _ \<Rightarrow> False)"

definition AuditList :: "auth_lib \<Rightarrow> claims option \<Rightarrow> string \<Rightarrow> bool \<Rightarrow> string \<Rightarrow> panel \<Rightarrow> audit_row list" where
  "AuditList lib c action onlyFailed rawLimit db =
     take (nat (auditLimit rawLimit))
       (filter (\<lambda>row. list_all (condition_holds lib row) (audit_conditions action onlyFailed (auditViewScope c)))
         (rev (audit_log db)))"

lemma condition_holds_all:
  "list_all (condition_holds lib row) (audit_conditions action onlyFailed scope) \<longleftrightarrow>
     (0 \<le> scope \<longrightarrow> a_reseller row = scope) \<and>
     (trim_space action \<noteq> [] \<longrightarrow> al_same_name lib (a_action row) (trim_space action)) \<and>
     (onlyFailed \<longrightarrow> a_ok row = 0)"
  by (simp add: audit_conditions_def)

fun placeholders :: "string \<Rightarrow> nat" where
  "placeholders [] = 0"
| "placeholders (c # s) = (if c = CHR ''?'' then Suc (placeholders s) else placeholders s)"

lemma placeholders_append [simp]: "placeholders (a @ b) = placeholders a + placeholders b"
  by (induction a) auto

lemma placeholders_join: "placeholders (join '' AND '' xs) = sum_list (map placeholders xs)"
  by (induction "'' AND ''" xs rule: join.induct) simp_all

lemma audit_placeholders:
  "sum_list (map placeholders (map fst (audit_conditions action onlyFailed scope))) =
     length (concat (map snd (audit_conditions action onlyFailed scope)))"
  by (simp add: audit_conditions_def)

lemma audit_texts:
  "map fst (audit_conditions action onlyFailed scope) =
     map fst (audit_conditions (if trim_space action = [] then [] else ''x'') onlyFailed (if scope < 0 then - 1 else 0))"
proof -
  have "trim_space [] = []" "trim_space ''x'' = ''x''" by code_simp+
  then show ?thesis by (simp add: audit_conditions_def)
qed

lemma audit_select_plain: "placeholders audit_select = 0"
  by code_simp

text \<open>
  The audit query cannot be written by its reader: whatever the filter text is, the query has one
  placeholder for every argument, and a second filter text changes the query only by being blank or
  not.
\<close>
theorem audit_query_fixed_text:
  "placeholders (fst (buildAuditQuery action onlyFailed limit scope)) =
     length (snd (buildAuditQuery action onlyFailed limit scope)) \<and>
   fst (buildAuditQuery action onlyFailed limit scope) =
     fst (buildAuditQuery (if trim_space action = [] then [] else ''x'') onlyFailed 1 (if scope < 0 then - 1 else 0))"
proof
  have "placeholders '' WHERE '' = 0" "placeholders '' ORDER BY id DESC LIMIT ?'' = 1" by code_simp+
  then show "placeholders (fst (buildAuditQuery action onlyFailed limit scope)) =
     length (snd (buildAuditQuery action onlyFailed limit scope))"
    unfolding buildAuditQuery_def Let_def fst_conv snd_conv placeholders_append
    using audit_placeholders [of action onlyFailed scope]
    by (simp add: audit_select_plain placeholders_join)
next
  let ?c = "audit_conditions action onlyFailed scope"
  let ?d = "audit_conditions (if trim_space action = [] then [] else ''x'') onlyFailed (if scope < 0 then - 1 else 0)"
  have "?c = [] \<longleftrightarrow> ?d = []" using audit_texts by (metis map_is_Nil_conv)
  then show "fst (buildAuditQuery action onlyFailed limit scope) =
     fst (buildAuditQuery (if trim_space action = [] then [] else ''x'') onlyFailed 1 (if scope < 0 then - 1 else 0))"
    unfolding buildAuditQuery_def Let_def fst_conv audit_texts [of action onlyFailed scope] by simp
qed

text \<open>
  An entry the panel writes for an account's act is shown to administrators and, of the resellers,
  to exactly the one the account belongs to; a failed scope lookup hides it from every reseller.
\<close>
theorem audit_entry_visible_to:
  assumes "\<not> le_fails env WriteAuditRow" and "Role c = ''reseller''" and "0 < UserID c"
    and "audit_log db = []"
  shows "AuditList lib (Some c) [] False [] (WriteAudit env uid username ip action target ok db) \<noteq> [] \<longleftrightarrow>
    \<not> le_fails env ReadScope \<and> 0 < uid \<and>
    (\<exists>u. user_by_id uid db = Some u \<and>
       (if u_role u = ''reseller'' then uid else case u_reseller u of Some r \<Rightarrow> r | None \<Rightarrow> 0) = UserID c)"
proof -
  have t: "trim_space [] = []" by code_simp
  let ?db = "WriteAudit env uid username ip action target ok db"
  have scope: "auditViewScope (Some c) = UserID c" using assms(2) by (simp add: auditViewScope_def)
  have limit: "auditLimit [] = 200" by (simp add: auditLimit_def)
  obtain row where row: "audit_log ?db = [row]" "a_reseller row = max 0 (ScopeOf env db uid)"
    using assms(1,4) by (simp add: WriteAudit_def WriteAuditScoped_def max_def)
  have "AuditList lib (Some c) [] False [] ?db \<noteq> [] \<longleftrightarrow> ScopeOf env db uid = UserID c"
    unfolding AuditList_def scope limit row condition_holds_all t
    using assms(3) row(2) by (auto simp: max_def numeral_eq_Suc)
  also have "\<dots> \<longleftrightarrow> \<not> le_fails env ReadScope \<and> 0 < uid \<and>
    (\<exists>u. user_by_id uid db = Some u \<and>
       (if u_role u = ''reseller'' then uid else case u_reseller u of Some r \<Rightarrow> r | None \<Rightarrow> 0) = UserID c)"
  proof (cases "user_by_id uid db")
    case (Some u)
    then show ?thesis using assms(3)
      by (cases "uid \<le> 0"; cases "le_fails env ReadScope"; cases "u_role u = ''reseller''"; cases "u_reseller u")
         (simp_all add: ScopeOf_def)
  qed (use assms(3) in \<open>simp add: ScopeOf_def\<close>)
  finally show ?thesis .
qed

section \<open>Sample values for concrete runs\<close>

definition sample_user :: user_row where
  "sample_user = \<lparr>u_id = 7, u_username = ''ann'', u_hash = ''h:pw'', u_role = ''reseller'', u_status = ''active'',
     u_full_name = ''Ann'', u_email = [], u_theme = ''system'', u_lang = ''en'', u_totp_enabled = 1,
     u_totp_secret = ''MFRGGZDF'', u_totp_last_step = 0, u_token_version = 3, u_reseller = None,
     u_last_login = (0, [])\<rparr>"

definition sample_panel :: panel where
  "sample_panel = \<lparr>users = [sample_user], audit_log = [], revoked_sessions = [], stepups = Map.empty, shadow = None\<rparr>"

definition sample_env :: "time \<Rightarrow> login_env" where
  "sample_env now = \<lparr>le_fails = (\<lambda>s. False), le_now = now, le_later = now, le_jti = Some ''j'', le_nonce = Some ''N'',
     le_ip = ''192.0.2.1'', le_audit_ip = ''192.0.2.1''\<rparr>"

text \<open>A code is the low byte of its step, the password of a hash stands behind its first two characters.\<close>

definition sample_lib :: auth_lib where
  "sample_lib = \<lparr>al_same_name = (=), al_bcrypt_compare = (\<lambda>h p. h = ''h:'' @ p),
     al_bcrypt_generate = (\<lambda>p. Some (''h:'' @ p)), al_yescrypt = (\<lambda>p h. None),
     al_openssl = (\<lambda>f s p. None), al_chpasswd = (\<lambda>p s. None),
     al_hmac = (\<lambda>k m. replicate 3 (CHR 0x00) @ [last m] @ replicate 16 (CHR 0x00)),
     al_gcm = Some toy_aead,
     al_jwt = \<lparr>jwt_decode = (\<lambda>t. None), jwt_valid = (\<lambda>k t. False), jwt_sign = (\<lambda>k c. Some (Username c))\<rparr>\<rparr>"

theorem audit_entry_visible_to_witness:
  "AuditList sample_lib (Some \<lparr>UserID = 7, Username = ''ann'', Role = ''reseller'', TokenVersion = 3, ID = [],
       IssuedAt = None, ExpiresAt = None, Issuer = servika_issuer\<rparr>) [] False []
     (WriteAudit (sample_env 0) 7 ''ann'' ''192.0.2.1'' ''auth.login'' ''ann'' True sample_panel) \<noteq> []"
  by (subst audit_entry_visible_to)
     (simp_all add: sample_env_def sample_panel_def sample_user_def user_by_id_def)

end
