(* ===== verification/Login.thy ===== *)
theory Login
  imports Accounts
begin

text \<open>
  The two login handlers, management (internal/auth/handlers.go) and customer
  (internal/customer/customer.go), the second factor between them and a token, and logout. The
  second factor is cut at its database accesses, so that two logins can be interleaved there.
\<close>

section \<open>Who is signing in\<close>

record signedIn =
  si_uid :: int
  si_username :: string
  si_role :: string
  si_full_name :: string

datatype login_reply =
  Refuse int string
  | TwoFactorRequired
  | SignedIn string signedIn int

definition bad_login :: login_reply where
  "bad_login = Refuse StatusUnauthorized ''invalid username or password''"

definition rootPasswordOK :: "auth_lib \<Rightarrow> panel \<Rightarrow> string \<Rightarrow> bool" where
  "rootPasswordOK lib db password = verifyRootPassword (al_yescrypt lib) (al_openssl lib) (shadow db) password"

definition rootIdentity :: "auth_lib \<Rightarrow> login_env \<Rightarrow> string \<Rightarrow> string \<Rightarrow> panel \<Rightarrow> (login_reply + signedIn) \<times> panel" where
  "rootIdentity lib env username password db =
     (if \<not> rootPasswordOK lib db password
      then (Inl bad_login, WriteAudit env 0 username (le_audit_ip env) ''auth.login'' username False db)
      else (Inr \<lparr>si_uid = 1, si_username = ''root'', si_role = ''admin'',
              si_full_name = (if le_fails env ReadAccount then []
                else case user_by_id 1 db of Some u \<Rightarrow> u_full_name u | None \<Rightarrow> [])\<rparr>, db))"

definition accountIdentity :: "auth_lib \<Rightarrow> login_env \<Rightarrow> string \<Rightarrow> string \<Rightarrow> panel \<Rightarrow> (login_reply + signedIn) \<times> panel" where
  "accountIdentity lib env username password db =
     (if le_fails env ReadAccount then (Inl (Refuse StatusInternalServerError ''authentication failed''), db)
      else (case user_by_name lib username db of
          None \<Rightarrow> (Inl bad_login, WriteAudit env 0 username (le_audit_ip env) ''auth.login'' username False db)
        | Some u \<Rightarrow>
            let refuse = WriteAudit env (u_id u) (u_username u) (le_audit_ip env) ''auth.login'' (u_username u) False db in
            if \<not> PasswordMatches (al_bcrypt_compare lib) (u_hash u) password
            then (Inl bad_login, WriteAudit env 0 username (le_audit_ip env) ''auth.login'' username False db)
            else if u_status u \<noteq> ''active''
            then (Inl (Refuse StatusForbidden ''account is suspended''), refuse)
            else if u_role u \<noteq> ''admin'' \<and> u_role u \<noteq> ''reseller''
            then (Inl (Refuse StatusForbidden ''this account cannot sign in to the management panel''), refuse)
            else (Inr \<lparr>si_uid = u_id u, si_username = u_username u, si_role = u_role u,
                        si_full_name = u_full_name u\<rparr>, db)))"

definition identify :: "auth_lib \<Rightarrow> login_env \<Rightarrow> string \<Rightarrow> string \<Rightarrow> panel \<Rightarrow> (login_reply + signedIn) \<times> panel" where
  "identify lib env username password db =
     (if IsRootUser username then rootIdentity lib env username password db
      else accountIdentity lib env username password db)"

section \<open>The second factor\<close>

text \<open>The row read, \<open>None\<close> when the read failed or found no row.\<close>

definition second_factor_read :: "login_env \<Rightarrow> int \<Rightarrow> panel \<Rightarrow> (int \<times> string \<times> int) option" where
  "second_factor_read env uid db =
     (if le_fails env ReadTotp then None
      else map_option (\<lambda>u. (u_totp_enabled u, u_totp_secret u, u_totp_last_step u)) (user_by_id uid db))"

datatype factor_verdict =
  FactorRefused login_reply
  | FactorWrong
  | FactorNotNeeded
  | FactorAccepted int

definition second_factor_verdict :: "auth_lib \<Rightarrow> login_env \<Rightarrow> int \<Rightarrow> string \<Rightarrow> (int \<times> string \<times> int) option \<Rightarrow> factor_verdict" where
  "second_factor_verdict lib env uid code row =
     (case row of
        None \<Rightarrow> FactorRefused (Refuse StatusInternalServerError ''could not verify 2FA state'')
      | Some (en, sec, lastStep) \<Rightarrow>
          if en \<noteq> 1 then FactorNotNeeded
          else if trim_space sec = []
          then FactorRefused (Refuse StatusInternalServerError ''2FA configuration is invalid'')
          else if trim_space code = [] then FactorRefused TwoFactorRequired
          else (case OpenTOTPSecret (al_gcm lib) sec uid of
              Inl e \<Rightarrow> FactorRefused (Refuse StatusInternalServerError ''2FA configuration is invalid'')
            | Inr seed \<Rightarrow>
                (case TOTPVerifyStep (al_hmac lib) (le_now env) seed code lastStep of
                   None \<Rightarrow> FactorWrong
                 | Some step \<Rightarrow> FactorAccepted step)))"

definition second_factor_finish :: "login_env \<Rightarrow> signedIn \<Rightarrow> factor_verdict \<Rightarrow> panel \<Rightarrow> login_reply option \<times> panel" where
  "second_factor_finish env who verdict db =
     (case verdict of
        FactorRefused r \<Rightarrow> (Some r, db)
      | FactorWrong \<Rightarrow>
          (Some (Refuse StatusUnauthorized ''invalid or reused 2FA code''),
           WriteAudit env (si_uid who) (si_username who) (le_audit_ip env) ''auth.2fa'' (si_username who) False db)
      | FactorNotNeeded \<Rightarrow> (None, db)
      | FactorAccepted step \<Rightarrow>
          if le_fails env WriteStep
          then (Some (Refuse StatusInternalServerError ''could not update 2FA state''), db)
          else (None, update_user (si_uid who) (\<lambda>u. u\<lparr>u_totp_last_step := step\<rparr>) db))"

definition secondFactorPassed :: "auth_lib \<Rightarrow> login_env \<Rightarrow> signedIn \<Rightarrow> string \<Rightarrow> panel \<Rightarrow> login_reply option \<times> panel" where
  "secondFactorPassed lib env who code db =
     second_factor_finish env who
       (second_factor_verdict lib env (si_uid who) code (second_factor_read env (si_uid who) db)) db"

section \<open>The handlers\<close>

text \<open>
  The body is the decoded user name, password and code, \<open>None\<close> when it does not decode or exceeds
  64 KB. A token leaves only in the cookie that \<open>SignedIn\<close> stands for.
\<close>

definition Login :: "auth_lib \<Rightarrow> login_env \<Rightarrow> string \<Rightarrow> int \<Rightarrow> (string \<times> string \<times> string) option \<Rightarrow> panel \<Rightarrow> login_reply \<times> panel" where
  "Login lib env secret lifetimeSec body db =
     (case body of
        None \<Rightarrow> (Refuse StatusBadRequest ''invalid request body'', db)
      | Some (rawName, password, code) \<Rightarrow>
          let username = trim_space rawName in
          if username = [] \<or> password = []
          then (Refuse StatusBadRequest ''username and password are required'', db)
          else (case identify lib env username password db of
              (Inl r, db1) \<Rightarrow> (r, db1)
            | (Inr who, db1) \<Rightarrow>
                (case secondFactorPassed lib env who code db1 of
                   (Some r, db2) \<Rightarrow> (r, db2)
                 | (None, db2) \<Rightarrow>
                     (case (if le_fails env ReadVersion then None else user_by_id (si_uid who) db2) of
                        None \<Rightarrow> (Refuse StatusInternalServerError ''token generation failed'', db2)
                      | Some row \<Rightarrow>
                          (case Issue (al_jwt lib) secret lifetimeSec (le_jti env) (unix (le_now env))
                                  (si_uid who) (si_username who) (si_role who) (u_token_version row) of
                             None \<Rightarrow> (Refuse StatusInternalServerError ''token generation failed'', db2)
                           | Some tok \<Rightarrow>
                               let db3 = WriteAudit env (si_uid who) (si_username who) (le_audit_ip env)
                                           ''auth.login'' (si_username who) True db2;
                                   db4 = (if le_fails env WriteLastLogin then db3
                                     else update_user (si_uid who)
                                       (\<lambda>u. u\<lparr>u_last_login := (le_later env, le_ip env)\<rparr>) db3)
                               in (SignedIn tok who (unix (le_later env) + lifetimeSec), db4))))))"

definition defaultCustomerLifetimeSec :: int where "defaultCustomerLifetimeSec = 8 * 3600"

definition customer_lifetimeSec :: "int \<Rightarrow> int" where
  "customer_lifetimeSec configured = (if configured \<le> 0 then defaultCustomerLifetimeSec else configured)"

definition authenticate :: "auth_lib \<Rightarrow> login_env \<Rightarrow> string \<Rightarrow> string \<Rightarrow> panel \<Rightarrow> (login_reply + user_row) \<times> panel" where
  "authenticate lib env username password db =
     (if le_fails env ReadAccount then (Inl (Refuse StatusInternalServerError ''authentication failed''), db)
      else (case user_by_name lib username db of
          None \<Rightarrow> (Inl bad_login, WriteAudit env 0 username (le_audit_ip env) ''customer.login'' username False db)
        | Some u \<Rightarrow>
            if u_role u \<noteq> ''user'' \<or> \<not> PasswordMatches (al_bcrypt_compare lib) (u_hash u) password
            then (Inl bad_login, WriteAudit env 0 username (le_audit_ip env) ''customer.login'' username False db)
            else if u_status u \<noteq> ''active''
            then (Inl (Refuse StatusForbidden ''account is suspended''),
                  WriteAudit env (u_id u) username (le_audit_ip env) ''customer.login'' username False db)
            else (Inr u, db)))"

definition no_service_message :: string where
  "no_service_message = ''no service is linked to your account '' @ [CHR 0xE2, CHR 0x80, CHR 0x94] @
     '' contact your provider''"

text \<open>
  \<open>first_domain uid\<close> is the least id of a domain of the account's customers, 0 for none. The reply of
  a customer login has no full name.
\<close>

definition customer_Login :: "auth_lib \<Rightarrow> login_env \<Rightarrow> (int \<Rightarrow> int) \<Rightarrow> string \<Rightarrow> int \<Rightarrow>
    (string \<times> string) option \<Rightarrow> panel \<Rightarrow> login_reply \<times> panel" where
  "customer_Login lib env first_domain secret lifetimeSec body db =
     (case body of
        None \<Rightarrow> (Refuse StatusBadRequest ''invalid request body'', db)
      | Some (rawName, password) \<Rightarrow>
          let username = trim_space rawName in
          if username = [] \<or> password = []
          then (Refuse StatusBadRequest ''username and password are required'', db)
          else (case authenticate lib env username password db of
              (Inl r, db1) \<Rightarrow> (r, db1)
            | (Inr u, db1) \<Rightarrow>
                if (if le_fails env ReadDomain then 0 else first_domain (u_id u)) = 0
                then (Refuse StatusForbidden no_service_message,
                      WriteAudit env (u_id u) username (le_audit_ip env) ''customer.login'' username False db1)
                else (case Issue (al_jwt lib) secret (customer_lifetimeSec lifetimeSec) (le_jti env)
                             (unix (le_now env)) (u_id u) username (u_role u) (u_token_version u) of
                    None \<Rightarrow> (Refuse StatusInternalServerError ''token generation failed'', db1)
                  | Some tok \<Rightarrow>
                      let db2 = WriteAudit env (u_id u) username (le_audit_ip env) ''customer.login'' username True db1;
                          db3 = (if le_fails env WriteLastLogin then db2
                            else update_user (u_id u) (\<lambda>v. v\<lparr>u_last_login := (le_later env, le_ip env)\<rparr>) db2)
                      in (SignedIn tok
                            \<lparr>si_uid = u_id u, si_username = username, si_role = u_role u, si_full_name = []\<rparr>
                            (unix (le_later env) + customer_lifetimeSec lifetimeSec), db3))))"

text \<open>Logout: the reply is always the same; what matters is the row it leaves.\<close>

definition revokePresentedSession :: "auth_lib \<Rightarrow> login_env \<Rightarrow> string \<Rightarrow> string option \<Rightarrow> panel \<Rightarrow> panel" where
  "revokePresentedSession lib env secret cookie db =
     (case cookie of
        None \<Rightarrow> db
      | Some v \<Rightarrow>
          if v = [] then db
          else (case Parse (al_jwt lib) secret v of
              Inl e \<Rightarrow> db
            | Inr c \<Rightarrow>
                (case ExpiresAt c of
                   None \<Rightarrow> db
                 | Some expires \<Rightarrow>
                     if ID c = [] \<or> le_fails env WriteRevoked then db
                     else db\<lparr>revoked_sessions := Revoke True (ID c) expires (revoked_sessions db)\<rparr>)))"

definition Logout :: "auth_lib \<Rightarrow> login_env \<Rightarrow> string \<Rightarrow> string option \<Rightarrow> panel \<Rightarrow> int \<times> panel" where
  "Logout lib env secret cookie db = (StatusOK, revokePresentedSession lib env secret cookie db)"

section \<open>What a management session takes\<close>

text \<open>The caller is \<open>who\<close>: by the system's root password, or by an active management account's own.\<close>

definition proves_identity :: "auth_lib \<Rightarrow> login_env \<Rightarrow> string \<Rightarrow> string \<Rightarrow> panel \<Rightarrow> signedIn \<Rightarrow> bool" where
  "proves_identity lib env username password db who =
     (if IsRootUser username
      then rootPasswordOK lib db password \<and> si_uid who = 1 \<and> si_username who = ''root'' \<and> si_role who = ''admin'' \<and>
        si_full_name who = (if le_fails env ReadAccount then []
          else case user_by_id 1 db of Some u \<Rightarrow> u_full_name u | None \<Rightarrow> [])
      else \<not> le_fails env ReadAccount \<and>
        (\<exists>u. user_by_name lib username db = Some u \<and> PasswordMatches (al_bcrypt_compare lib) (u_hash u) password \<and>
           u_status u = ''active'' \<and> u_role u \<in> {''admin'', ''reseller''} \<and>
           who = \<lparr>si_uid = u_id u, si_username = u_username u, si_role = u_role u, si_full_name = u_full_name u\<rparr>))"

text \<open>The second factor of a row: off, or an accepted code of a later step than the last, recorded.\<close>

definition meets_factor :: "auth_lib \<Rightarrow> login_env \<Rightarrow> int \<Rightarrow> string \<Rightarrow> user_row \<Rightarrow> bool" where
  "meets_factor lib env uid code u =
     (u_totp_enabled u \<noteq> 1 \<or>
      trim_space (u_totp_secret u) \<noteq> [] \<and> trim_space code \<noteq> [] \<and> \<not> le_fails env WriteStep \<and>
      (\<exists>seed step. OpenTOTPSecret (al_gcm lib) (u_totp_secret u) uid = Inr seed \<and>
         TOTPVerifyStep (al_hmac lib) (le_now env) seed code (u_totp_last_step u) = Some step))"

lemma identify_Inr:
  "fst (identify lib env n p db) = Inr who \<longleftrightarrow> proves_identity lib env n p db who"
  by (cases who) (auto simp: identify_def rootIdentity_def accountIdentity_def proves_identity_def Let_def
      split: option.splits if_splits)

lemma identify_Inr_state: "fst (identify lib env n p db) = Inr who \<Longrightarrow> snd (identify lib env n p db) = db"
  by (auto simp: identify_def rootIdentity_def accountIdentity_def Let_def split: option.splits if_splits)

lemma identify_not_SignedIn: "fst (identify lib env n p db) \<noteq> Inl (SignedIn tok who e)"
  by (auto simp: identify_def rootIdentity_def accountIdentity_def bad_login_def Let_def
      split: option.splits if_splits)

lemma factor_passed_iff:
  "fst (secondFactorPassed lib env who code db) = None \<longleftrightarrow>
     \<not> le_fails env ReadTotp \<and> (\<exists>u. user_by_id (si_uid who) db = Some u \<and> meets_factor lib env (si_uid who) code u)"
  by (auto simp: secondFactorPassed_def second_factor_finish_def second_factor_verdict_def second_factor_read_def
      meets_factor_def split: option.splits if_splits sum.splits factor_verdict.splits)

lemma factor_not_SignedIn: "fst (secondFactorPassed lib env who code db) \<noteq> Some (SignedIn tok w e)"
  by (auto simp: secondFactorPassed_def second_factor_finish_def second_factor_verdict_def
      split: option.splits if_splits sum.splits factor_verdict.splits)

lemma factor_version [simp]:
  "user_by_id k (snd (secondFactorPassed lib env who code db)) = Some u \<Longrightarrow>
   \<exists>v. user_by_id k db = Some v \<and> u_token_version v = u_token_version u"
  by (auto simp: secondFactorPassed_def second_factor_finish_def split: option.splits if_splits factor_verdict.splits)

lemma factor_version_eq:
  "map_option u_token_version (user_by_id k (snd (secondFactorPassed lib env who code db))) =
     map_option u_token_version (user_by_id k db)"
  by (cases "user_by_id k db")
     (auto simp: secondFactorPassed_def second_factor_finish_def split: option.splits if_splits factor_verdict.splits)

text \<open>The reply of \<open>Login\<close> through projections.\<close>

lemma Login_SignedIn:
  "fst (Login lib env secret life body db) = SignedIn tok who expires \<longleftrightarrow>
     (\<exists>n p c. body = Some (n, p, c) \<and> trim_space n \<noteq> [] \<and> p \<noteq> [] \<and>
        fst (identify lib env (trim_space n) p db) = Inr who \<and>
        fst (secondFactorPassed lib env who c db) = None \<and> \<not> le_fails env ReadVersion \<and>
        (\<exists>v. map_option u_token_version (user_by_id (si_uid who) db) = Some v \<and>
           Issue (al_jwt lib) secret life (le_jti env) (unix (le_now env)) (si_uid who) (si_username who)
             (si_role who) v = Some tok) \<and>
        expires = unix (le_later env) + life)"
proof (cases body)
  case None
  then show ?thesis by (simp add: Login_def)
next
  case (Some b)
  obtain n p c where b: "b = (n, p, c)" by (cases b)
  show ?thesis
  proof (cases "trim_space n = [] \<or> p = []")
    case True
    then show ?thesis using Some b by (auto simp: Login_def)
  next
    case False
    show ?thesis
    proof (cases "fst (identify lib env (trim_space n) p db)")
      case (Inl r)
      then have "r \<noteq> SignedIn tok who expires" using identify_not_SignedIn by metis
      then show ?thesis using Some b False Inl by (auto simp: Login_def split_def)
    next
      case (Inr w)
      have st: "snd (identify lib env (trim_space n) p db) = db" using identify_Inr_state [OF Inr] .
      show ?thesis
      proof (cases "fst (secondFactorPassed lib env w c db)")
        case (Some r)
        then have "r \<noteq> SignedIn tok who expires" using factor_not_SignedIn by metis
        then show ?thesis using \<open>body = Some b\<close> b False Inr st Some by (auto simp: Login_def split_def)
      next
        case None
        let ?db = "snd (secondFactorPassed lib env w c db)"
        have v: "map_option u_token_version (user_by_id (si_uid w) db) =
            map_option u_token_version (user_by_id (si_uid w) ?db)"
          by (rule factor_version_eq [symmetric])
        show ?thesis
        proof (cases "user_by_id (si_uid w) ?db")
          case None
          with v have "user_by_id (si_uid w) db = None" by simp
          then show ?thesis using \<open>body = Some b\<close> b False Inr st None \<open>fst (secondFactorPassed lib env w c db) = None\<close>
            by (auto simp: Login_def split_def)
        next
          case (Some u)
          with v have "map_option u_token_version (user_by_id (si_uid w) db) = Some (u_token_version u)" by simp
          then show ?thesis using \<open>body = Some b\<close> b False Inr st Some \<open>fst (secondFactorPassed lib env w c db) = None\<close>
            by (auto simp: Login_def split_def Let_def simp del: map_option_eq_Some split: option.splits)
        qed
      qed
    qed
  qed
qed


section \<open>Codes in sequence and at once\<close>

definition last_step :: "panel \<Rightarrow> int \<Rightarrow> int" where
  "last_step db k = (case user_by_id k db of Some u \<Rightarrow> u_totp_last_step u | None \<Rightarrow> 0)"

definition factor_on :: "panel \<Rightarrow> int \<Rightarrow> bool" where
  "factor_on db k = (case user_by_id k db of Some u \<Rightarrow> u_totp_enabled u = 1 | None \<Rightarrow> False)"

text \<open>The steps of account \<open>k\<close> whose codes were accepted, logins one after the other.\<close>

fun accepted_steps :: "auth_lib \<Rightarrow> int \<Rightarrow> (login_env \<times> signedIn \<times> string) list \<Rightarrow> panel \<Rightarrow> int list" where
  "accepted_steps lib k [] db = []"
| "accepted_steps lib k ((env, who, code) # reqs) db =
     (case secondFactorPassed lib env who code db of (out, db') \<Rightarrow>
        (if out = None \<and> si_uid who = k \<and> factor_on db k then [last_step db' k] else []) @
        accepted_steps lib k reqs db')"

lemma factor_step:
  assumes "secondFactorPassed lib env who code db = (out, db')"
  shows "last_step db k \<le> last_step db' k \<and>
    (out = None \<and> si_uid who = k \<and> factor_on db k \<longrightarrow> last_step db k < last_step db' k)"
proof (cases "second_factor_verdict lib env (si_uid who) code (second_factor_read env (si_uid who) db)")
  case (FactorAccepted step)
  then obtain u where u: "user_by_id (si_uid who) db = Some u" and s: "u_totp_last_step u < step"
    by (auto simp: second_factor_verdict_def second_factor_read_def split: option.splits if_splits sum.splits
        dest!: TOTPVerifyStep_Some)
  then show ?thesis using assms FactorAccepted
    by (auto simp: secondFactorPassed_def second_factor_finish_def last_step_def split: if_splits)
next
  case FactorNotNeeded
  then have "\<not> factor_on db (si_uid who)"
    by (auto simp: second_factor_verdict_def second_factor_read_def factor_on_def split: option.splits if_splits sum.splits)
  then show ?thesis using assms FactorNotNeeded
    by (auto simp: secondFactorPassed_def second_factor_finish_def)
qed (use assms in \<open>auto simp: secondFactorPassed_def second_factor_finish_def last_step_def\<close>)

text \<open>
  C10. While logins follow one another, no time step of an account ever lets two of them through: the
  accepted steps increase strictly, from the last one the account had recorded.
\<close>
theorem accepted_steps_increase:
  "sorted_wrt (<) (last_step db k # accepted_steps lib k reqs db)"
proof (induction lib k reqs db rule: accepted_steps.induct)
  case (2 lib k env who code reqs db)
  obtain out db' where s: "secondFactorPassed lib env who code db = (out, db')" by force
  from 2 [OF s [symmetric]] have "sorted_wrt (<) (last_step db' k # accepted_steps lib k reqs db')" .
  then have "\<forall>x \<in> set (accepted_steps lib k reqs db'). last_step db' k < x"
    and "sorted_wrt (<) (accepted_steps lib k reqs db')" by simp_all
  with factor_step [OF s, of k] show ?case by (auto simp: s intro: le_less_trans less_trans)
qed simp

text \<open>
  Two logins at once can both pass with one code. Each reads the account's last step before either
  records its own, both are let through, although after them the same code is refused.
\<close>
theorem one_code_two_logins:
  "let now = (62135596800 + 60) * 10 ^ 9; env = sample_env now;
       who = \<lparr>si_uid = 7, si_username = ''ann'', si_role = ''reseller'', si_full_name = ''Ann''\<rparr>;
       read = second_factor_read env 7 sample_panel;
       verdict = second_factor_verdict sample_lib env 7 ''000002'' read;
       first = second_factor_finish env who verdict sample_panel;
       other = second_factor_finish env who verdict (snd first)
   in fst first = None \<and> fst other = None \<and>
      fst (secondFactorPassed sample_lib env who ''000002'' (snd other)) =
        Some (Refuse StatusUnauthorized ''invalid or reused 2FA code'')"
  by code_simp

section \<open>Management and customer accounts\<close>

lemma customer_SignedIn:
  assumes "fst (customer_Login lib env fd secret life body db) = SignedIn tok who expires"
  shows "si_role who = ''user'' \<and> (\<exists>u. user_by_name lib (si_username who) db = Some u \<and> u_id u = si_uid who \<and>
     u_status u = ''active'' \<and> u_role u = ''user'')"
proof (cases body)
  case None
  with assms show ?thesis by (simp add: customer_Login_def)
next
  case (Some b)
  obtain n p where b: "b = (n, p)" by (cases b)
  obtain r db1 where a: "authenticate lib env (trim_space n) p db = (r, db1)" by force
  show ?thesis
  proof (cases r)
    case (Inl x)
    then have "x \<noteq> SignedIn tok who expires"
      using a by (auto simp: authenticate_def bad_login_def split: option.splits if_splits)
    with assms Some b a Inl show ?thesis by (auto simp: customer_Login_def Let_def split: if_splits)
  next
    case (Inr u)
    then have "user_by_name lib (trim_space n) db = Some u" "u_role u = ''user''" "u_status u = ''active''"
      using a by (auto simp: authenticate_def split: option.splits if_splits)
    with assms Some b a Inr show ?thesis
      by (auto simp: customer_Login_def Let_def split: if_splits option.splits)
  qed
qed

text \<open>
  The two sign-in pages serve disjoint accounts: a session from the management page has the role of
  an administrator or reseller, one from the customer page the role of a customer and an active
  account's number.
\<close>
theorem login_pages_disjoint:
  "(fst (Login lib env secret life body db) = SignedIn tok who expires \<longrightarrow> si_role who \<in> {''admin'', ''reseller''}) \<and>
   (fst (customer_Login lib env fd secret life body2 db) = SignedIn tok2 who2 expires2 \<longrightarrow> si_role who2 = ''user'' \<and>
     (\<exists>u. user_by_name lib (si_username who2) db = Some u \<and> u_id u = si_uid who2 \<and>
        u_status u = ''active'' \<and> u_role u = ''user''))"
proof (intro conjI impI)
  assume "fst (Login lib env secret life body db) = SignedIn tok who expires"
  then show "si_role who \<in> {''admin'', ''reseller''}"
    unfolding Login_SignedIn identify_Inr proves_identity_def by (auto split: if_splits)
qed (use customer_SignedIn in blast)+

theorem login_pages_disjoint_witness:
  "let env = sample_env ((62135596800 + 60) * 10 ^ 9) in
   \<exists>tok who expires. fst (Login sample_lib env ''k'' 60 (Some ('' ann'', ''pw'', ''000002'')) sample_panel) = SignedIn tok who expires \<and>
     si_role who \<in> {''admin'', ''reseller''}"
proof -
  let ?env = "sample_env ((62135596800 + 60) * 10 ^ 9)"
  have "fst (Login sample_lib ?env ''k'' 60 (Some ('' ann'', ''pw'', ''000002'')) sample_panel) =
      SignedIn ''ann'' \<lparr>si_uid = 7, si_username = ''ann'', si_role = ''reseller'', si_full_name = ''Ann''\<rparr> 120"
    by code_simp
  with login_pages_disjoint [of sample_lib ?env "''k''" 60 "Some ('' ann'', ''pw'', ''000002'')" sample_panel "''ann''"]
  show ?thesis unfolding Let_def by blast
qed

end
