(* ===== verification/Profile.thy ===== *)
theory Profile
  imports Login
begin

text \<open>
  What a signed-in account changes about itself (internal/auth/profile.go): password, sessions, second
  factor, profile. The credential checks share the step-up counter. \<open>c\<close> is the identity
  \<open>RequireAuth\<close> left in the request, \<open>None\<close> without a session; a body is \<open>None\<close> when it does not decode.
\<close>

datatype profile_reply =
  Reply int string
  | StepUpReply int int int

definition no_session :: profile_reply where
  "no_session = Reply StatusUnauthorized ''no active session''"

definition bad_body :: profile_reply where
  "bad_body = Reply StatusBadRequest ''invalid request body''"

definition done_reply :: profile_reply where "done_reply = Reply StatusOK ''ok''"

definition refuse_step_up :: "duration \<Rightarrow> profile_reply" where
  "refuse_step_up wait = (case stepUpRefuse wait of (code, sec, mins) \<Rightarrow> StepUpReply code sec mins)"

definition bump_version :: "user_row \<Rightarrow> user_row" where
  "bump_version u = u\<lparr>u_token_version := u_token_version u + 1\<rparr>"

section \<open>Passwords and sessions\<close>

text \<open>An error of bcrypt itself is answered with that library's text, which stands here as \<open>bcrypt\<close>.\<close>

definition changeRootPassword :: "auth_lib \<Rightarrow> login_env \<Rightarrow> claims \<Rightarrow> string \<Rightarrow> string \<Rightarrow> panel \<Rightarrow> profile_reply \<times> panel" where
  "changeRootPassword lib env c current next db =
     (if \<not> rootPasswordOK lib db current
      then (Reply StatusUnauthorized ''current password is incorrect'',
            WriteAudit env (UserID c) ''root'' (le_audit_ip env) ''auth.password'' ''root'' False
              (db\<lparr>stepups := stepUpFailed (le_later env) (UserID c) (stepups db)\<rparr>))
      else let db1 = db\<lparr>stepups := stepUpPassed (UserID c) (stepups db)\<rparr> in
        if list_ex (\<lambda>ch. ch = CHR 10 \<or> ch = CHR 13 \<or> ch = CHR 0x00) next
        then (Reply StatusBadRequest ''password contains invalid characters'', db1)
        else (case al_chpasswd lib next (shadow db1) of
            None \<Rightarrow> (Reply StatusInternalServerError ''password change failed'', db1)
          | Some sh \<Rightarrow>
              let db2 = db1\<lparr>shadow := Some sh\<rparr> in
              if le_fails env WriteUser
              then (Reply StatusInternalServerError ''could not revoke existing sessions'', db2)
              else (done_reply, WriteAudit env (UserID c) ''root'' (le_audit_ip env) ''auth.password'' ''root'' True
                     (update_user (UserID c) bump_version db2))))"

definition changeAccountPassword :: "auth_lib \<Rightarrow> login_env \<Rightarrow> claims \<Rightarrow> string \<Rightarrow> string \<Rightarrow> panel \<Rightarrow> profile_reply \<times> panel" where
  "changeAccountPassword lib env c current next db =
     (case (if le_fails env ReadHash then None else user_by_id (UserID c) db) of
        None \<Rightarrow> (Reply StatusInternalServerError ''account could not be read'', db)
      | Some u \<Rightarrow>
          if \<not> PasswordMatches (al_bcrypt_compare lib) (u_hash u) current
          then (Reply StatusUnauthorized ''current password is incorrect'',
                WriteAudit env (UserID c) (Username c) (le_audit_ip env) ''auth.password'' (Username c) False
                  (db\<lparr>stepups := stepUpFailed (le_later env) (UserID c) (stepups db)\<rparr>))
          else let db1 = db\<lparr>stepups := stepUpPassed (UserID c) (stepups db)\<rparr> in
            (case HashPassword (al_bcrypt_generate lib) next of
               Inl e \<Rightarrow> (Reply StatusBadRequest
                 (case e of ErrPasswordTooShort \<Rightarrow> ''password must be at least 8 characters'' | BcryptFailed \<Rightarrow> ''bcrypt''), db1)
             | Inr newHash \<Rightarrow>
                 if le_fails env WriteUser
                 then (Reply StatusInternalServerError ''password change failed'', db1)
                 else (done_reply,
                       WriteAudit env (UserID c) (Username c) (le_audit_ip env) ''auth.password'' (Username c) True
                         (update_user (UserID c) (\<lambda>u. bump_version (u\<lparr>u_hash := newHash\<rparr>)) db1))))"

definition ChangePassword :: "auth_lib \<Rightarrow> login_env \<Rightarrow> claims option \<Rightarrow> (string \<times> string) option \<Rightarrow> panel \<Rightarrow> profile_reply \<times> panel" where
  "ChangePassword lib env claims body db =
     (case claims of
        None \<Rightarrow> (no_session, db)
      | Some c \<Rightarrow>
          (case body of
             None \<Rightarrow> (bad_body, db)
           | Some (current, next) \<Rightarrow>
               if length next < PasswordMinLength
               then (Reply StatusBadRequest ''new password must be at least 8 characters'', db)
               else (case stepUpLocked (le_now env) (UserID c) (stepups db) of
                   (wait, su) \<Rightarrow>
                     let db = db\<lparr>stepups := su\<rparr> in
                     if 0 < wait then (refuse_step_up wait, db)
                     else if IsRootUser (Username c) then changeRootPassword lib env c current next db
                     else changeAccountPassword lib env c current next db)))"

definition RevokeSessions :: "login_env \<Rightarrow> claims option \<Rightarrow> panel \<Rightarrow> profile_reply \<times> panel" where
  "RevokeSessions env claims db =
     (case claims of
        None \<Rightarrow> (no_session, db)
      | Some c \<Rightarrow>
          if le_fails env WriteUser then (Reply StatusInternalServerError ''could not revoke sessions'', db)
          else (done_reply, WriteAudit env (UserID c) ''root'' (le_audit_ip env) ''auth.sessions.revoke'' ''root'' True
                 (update_user (UserID c) bump_version db)))"

section \<open>The second factor\<close>

definition TwoFAEnable :: "auth_lib \<Rightarrow> login_env \<Rightarrow> claims option \<Rightarrow> (string \<times> string) option \<Rightarrow> panel \<Rightarrow> profile_reply \<times> panel" where
  "TwoFAEnable lib env claims body db =
     (case claims of
        None \<Rightarrow> (no_session, db)
      | Some c \<Rightarrow>
          (case body of
             None \<Rightarrow> (bad_body, db)
           | Some (rawSecret, code) \<Rightarrow>
               (case stepUpLocked (le_now env) (UserID c) (stepups db) of
                  (wait, su) \<Rightarrow>
                    let db = db\<lparr>stepups := su\<rparr>; secret = trim_space rawSecret in
                    if 0 < wait then (refuse_step_up wait, db)
                    else (case TOTPVerifyStep (al_hmac lib) (le_now env) secret code (- 1) of
                        None \<Rightarrow> (Reply StatusBadRequest
                            ''code verification failed; enter the six-digit code from your authenticator app'',
                          db\<lparr>stepups := stepUpFailed (le_later env) (UserID c) (stepups db)\<rparr>)
                      | Some step \<Rightarrow>
                          let db1 = db\<lparr>stepups := stepUpPassed (UserID c) (stepups db)\<rparr> in
                          (case SealTOTPSecret (al_gcm lib) (le_nonce env) secret (UserID c) of
                             Inl e \<Rightarrow> (Reply StatusInternalServerError ''2FA settings could not be saved'', db1)
                           | Inr sealed \<Rightarrow>
                               if le_fails env WriteUser
                               then (Reply StatusInternalServerError ''2FA settings could not be saved'', db1)
                               else (done_reply,
                                 WriteAudit env (UserID c) ''root'' (le_audit_ip env) ''auth.2fa.enable'' ''root'' True
                                   (update_user (UserID c)
                                     (\<lambda>u. bump_version (u\<lparr>u_totp_secret := sealed, u_totp_enabled := 1,
                                                           u_totp_last_step := step\<rparr>)) db1)))))))"

definition TwoFADisable :: "auth_lib \<Rightarrow> login_env \<Rightarrow> claims option \<Rightarrow> string option \<Rightarrow> panel \<Rightarrow> profile_reply \<times> panel" where
  "TwoFADisable lib env claims body db =
     (case claims of
        None \<Rightarrow> (no_session, db)
      | Some c \<Rightarrow>
          (case body of
             None \<Rightarrow> (bad_body, db)
           | Some code \<Rightarrow>
               (case stepUpLocked (le_now env) (UserID c) (stepups db) of
                  (wait, su) \<Rightarrow>
                    let db = db\<lparr>stepups := su\<rparr>;
                        (stored, lastStep) = (case (if le_fails env ReadTotp then None else user_by_id (UserID c) db) of
                            None \<Rightarrow> ([], 0)
                          | Some u \<Rightarrow> (u_totp_secret u, u_totp_last_step u))
                    in if 0 < wait then (refuse_step_up wait, db)
                    else (case OpenTOTPSecret (al_gcm lib) stored (UserID c) of
                        Inl e \<Rightarrow> (Reply StatusBadRequest ''code verification failed'', db)
                      | Inr seed \<Rightarrow>
                          if TOTPVerifyStep (al_hmac lib) (le_now env) seed code lastStep = None
                          then (Reply StatusBadRequest ''code verification failed'',
                            WriteAudit env (UserID c) ''root'' (le_audit_ip env) ''auth.2fa.disable'' ''root'' False
                              (db\<lparr>stepups := stepUpFailed (le_later env) (UserID c) (stepups db)\<rparr>))
                          else let db1 = db\<lparr>stepups := stepUpPassed (UserID c) (stepups db)\<rparr> in
                            if le_fails env WriteUser
                            then (Reply StatusInternalServerError ''2FA could not be disabled'', db1)
                            else (done_reply,
                              WriteAudit env (UserID c) ''root'' (le_audit_ip env) ''auth.2fa.disable'' ''root'' True
                                (update_user (UserID c)
                                  (\<lambda>u. bump_version (u\<lparr>u_totp_secret := [], u_totp_enabled := 0\<rparr>)) db1))))))"

section \<open>Profile data\<close>

text \<open>
  \<open>strings.ToLower\<close> and \<open>ToUpper\<close> as far as a language code can tell: of the runes outside ASCII only
  U+0130 and U+212A have an ASCII lower case, U+0131 and U+017F an ASCII upper case.
\<close>

definition lower_rune :: "string \<Rightarrow> string" where
  "lower_rune r = (if r = [CHR 0xC4, CHR 0xB0] then ''i'' else if r = [CHR 0xE2, CHR 0x84, CHR 0xAA] then ''k''
     else to_lower r)"

definition canonLang :: "string \<Rightarrow> string" where
  "canonLang v =
     (let s = trim_space v in
      case cut_at (CHR ''-'') s of
        (base, region, found) \<Rightarrow>
          if found then concat (map lower_rune (runes base)) @ ''-'' @ concat (map upper_rune (runes region))
          else concat (map lower_rune (runes s)))"

definition supportedLangs :: "string list" where
  "supportedLangs = [''en'', ''tr'', ''de'', ''fr'', ''it'', ''pt'', ''pt-BR'', ''es'', ''cs'', ''ro'', ''ja'', ''zh'']"

definition NormalizeLang :: "string \<Rightarrow> string" where
  "NormalizeLang v = (let s = canonLang v in if s \<in> set supportedLangs then s else ''en'')"

definition UpdateProfile :: "login_env \<Rightarrow> claims option \<Rightarrow> (string \<times> string \<times> string \<times> string) option \<Rightarrow> panel \<Rightarrow> profile_reply \<times> panel" where
  "UpdateProfile env claims body db =
     (case claims of
        None \<Rightarrow> (no_session, db)
      | Some c \<Rightarrow>
          (case body of
             None \<Rightarrow> (bad_body, db)
           | Some (rawName, rawEmail, prefTheme, prefLang) \<Rightarrow>
               let name = trim_space rawName; email = trim_space rawEmail;
                   theme = (if prefTheme \<in> {''light'', ''dark'', ''system''} then prefTheme else ''system'');
                   lang = NormalizeLang prefLang
               in if email \<noteq> [] \<and> CHR ''@'' \<notin> set email then (Reply StatusBadRequest ''invalid email address'', db)
               else if le_fails env WriteUser then (Reply StatusInternalServerError ''profile update failed'', db)
               else (done_reply, update_user (UserID c)
                      (\<lambda>u. u\<lparr>u_full_name := name, u_email := email, u_theme := theme, u_lang := lang\<rparr>) db)))"

definition UpdateLanguage :: "login_env \<Rightarrow> claims option \<Rightarrow> string option \<Rightarrow> panel \<Rightarrow> profile_reply \<times> panel" where
  "UpdateLanguage env claims body db =
     (case claims of
        None \<Rightarrow> (no_session, db)
      | Some c \<Rightarrow>
          (case body of
             None \<Rightarrow> (bad_body, db)
           | Some prefLang \<Rightarrow>
               if le_fails env WriteUser then (Reply StatusInternalServerError ''language update failed'', db)
               else (done_reply, update_user (UserID c) (\<lambda>u. u\<lparr>u_lang := NormalizeLang prefLang\<rparr>) db)))"

section \<open>All or nothing\<close>

lemma refuse_not_done [simp]: "refuse_step_up w \<noteq> done_reply"
  by (simp add: refuse_step_up_def done_reply_def split_def)

lemma users_simps [simp]:
  "users (stepups_update f db) = users db"
  "users (shadow_update g db) = users db"
  by simp_all

text \<open>What a change may do to the account rows: nothing, or one write to the caller's that raises its version.\<close>

definition safe_change :: "int \<Rightarrow> panel \<Rightarrow> profile_reply \<times> panel \<Rightarrow> bool" where
  "safe_change uid db out =
     (if fst out = done_reply
      then \<exists>f. users (snd out) = users (update_user uid f db) \<and>
        (\<forall>u. u_id (f u) = u_id u \<and> u_token_version (f u) = u_token_version u + 1)
      else users (snd out) = users db)"

lemma safe_change_reply: "code \<noteq> StatusOK \<Longrightarrow> users db' = users db \<Longrightarrow> safe_change uid db (Reply code msg, db')"
  by (simp add: safe_change_def done_reply_def)

lemma safe_change_stepup: "users db' = users db \<Longrightarrow> safe_change uid db (refuse_step_up w, db')"
  by (simp add: safe_change_def)

lemma safe_change_bad_body: "safe_change uid db (bad_body, db)"
  unfolding bad_body_def by (rule safe_change_reply) (simp_all add: http_codes)

lemma safe_change_done:
  assumes "users db1 = users db" and "\<And>u. u_id (f u) = u_id u" and "\<And>u. u_token_version (f u) = u_token_version u + 1"
  shows "safe_change uid db (done_reply, WriteAudit env a n ip act tg ok (update_user uid f db1))"
  using assms by (auto simp: safe_change_def update_user_def)

lemmas safe_change_intros = safe_change_reply safe_change_stepup safe_change_bad_body safe_change_done

lemma safe_changeRootPassword: "users db = users db0 \<Longrightarrow> safe_change (UserID c) db0 (changeRootPassword lib env c cur next db)"
  unfolding changeRootPassword_def Let_def
  by (auto intro!: safe_change_intros simp: bump_version_def http_codes split: option.splits)

lemma safe_changeAccountPassword:
  "users db = users db0 \<Longrightarrow> safe_change (UserID c) db0 (changeAccountPassword lib env c cur next db)"
  unfolding changeAccountPassword_def Let_def
  by (auto intro!: safe_change_intros simp: bump_version_def http_codes split: option.splits sum.splits)

lemma safe_ChangePassword: "safe_change (UserID c) db (ChangePassword lib env (Some c) body db)"
  unfolding ChangePassword_def Let_def
  by (auto intro!: safe_change_intros safe_changeRootPassword safe_changeAccountPassword
      simp: http_codes split_def split: option.splits)

lemma safe_RevokeSessions: "safe_change (UserID c) db (RevokeSessions env (Some c) db)"
  unfolding RevokeSessions_def
  by (auto intro!: safe_change_intros simp: bump_version_def http_codes)

lemma safe_TwoFAEnable: "safe_change (UserID c) db (TwoFAEnable lib env (Some c) body db)"
  unfolding TwoFAEnable_def Let_def
  by (auto intro!: safe_change_intros
      simp: bump_version_def http_codes split_def split: option.splits sum.splits)

lemma safe_TwoFADisable: "safe_change (UserID c) db (TwoFADisable lib env (Some c) body db)"
  unfolding TwoFADisable_def Let_def
  by (auto intro!: safe_change_intros
      simp: bump_version_def http_codes split_def split: option.splits sum.splits)

text \<open>
  C9. A credential change is all or nothing for the accounts, and always ends the account's sessions:
  when changing a password, revoking sessions, enabling or disabling the second factor answers success,
  the caller's token version has gone up by one and no other row has changed; when it answers anything
  else, no row has.
\<close>
theorem credential_change_ends_sessions:
  assumes "out \<in> {ChangePassword lib env (Some c) b1 db, RevokeSessions env (Some c) db,
      TwoFAEnable lib env (Some c) b2 db, TwoFADisable lib env (Some c) b3 db}"
  shows "if fst out = done_reply
    then (\<forall>k. k \<noteq> UserID c \<longrightarrow> user_by_id k (snd out) = user_by_id k db) \<and>
      map_option u_token_version (user_by_id (UserID c) (snd out)) =
        map_option (\<lambda>u. u_token_version u + 1) (user_by_id (UserID c) db)
    else users (snd out) = users db"
proof -
  have "safe_change (UserID c) db out"
    using assms safe_ChangePassword safe_RevokeSessions safe_TwoFAEnable safe_TwoFADisable by blast
  then consider f where "fst out = done_reply" "users (snd out) = users (update_user (UserID c) f db)"
      "\<And>u. u_id (f u) = u_id u" "\<And>u. u_token_version (f u) = u_token_version u + 1"
    | "fst out \<noteq> done_reply" "users (snd out) = users db"
    unfolding safe_change_def by metis
  then show ?thesis
  proof cases
    case (1 f)
    have "user_by_id k (snd out) = user_by_id k (update_user (UserID c) f db)" for k
      by (simp add: user_by_id_def 1(2))
    with 1 show ?thesis by (simp add: option.map_comp comp_def)
  qed simp
qed

definition ann :: claims where
  "ann = \<lparr>UserID = 7, Username = ''ann'', Role = ''reseller'', TokenVersion = 3, ID = [],
     IssuedAt = None, ExpiresAt = None, Issuer = servika_issuer\<rparr>"

theorem credential_change_ends_sessions_witness:
  "let out = ChangePassword sample_lib (sample_env 1) (Some ann) (Some (''pw'', ''new-password'')) sample_panel in
   fst out = done_reply \<and> map_option u_token_version (user_by_id 7 (snd out)) = Some 4"
proof -
  let ?out = "ChangePassword sample_lib (sample_env 1) (Some ann) (Some (''pw'', ''new-password'')) sample_panel"
  have "fst ?out = done_reply" by code_simp
  moreover have "user_by_id 7 sample_panel = Some sample_user" by (simp add: user_by_id_def sample_panel_def sample_user_def)
  ultimately show ?thesis
    using credential_change_ends_sessions [of ?out sample_lib "sample_env 1" ann "Some (''pw'', ''new-password'')"
        sample_panel None None]
    unfolding Let_def by (simp add: ann_def sample_user_def)
qed

section \<open>Replacing the second factor\<close>

text \<open>
  A session alone can replace a second factor that is already on. Enabling asks for a code of the
  seed the caller brings, not of the one on file: whatever the row held before, the request succeeds
  and the account's factor is from then on the caller's seed.
\<close>
theorem enable_replaces_factor:
  assumes "user_by_id (UserID c) db = Some u" and "fst (stepUpLocked (le_now env) (UserID c) (stepups db)) \<le> 0"
    and "TOTPVerifyStep (al_hmac lib) (le_now env) (trim_space seed) code (- 1) = Some step"
    and "al_gcm lib = Some g" and "aead_law g" and "le_nonce env = Some n" and "length n = NonceSize g"
    and "\<not> le_fails env WriteUser"
  shows "\<exists>u'. fst (TwoFAEnable lib env (Some c) (Some (seed, code)) db) = done_reply \<and>
    user_by_id (UserID c) (snd (TwoFAEnable lib env (Some c) (Some (seed, code)) db)) = Some u' \<and>
    u_totp_enabled u' = 1 \<and> OpenTOTPSecret (al_gcm lib) (u_totp_secret u') (UserID c) = Inr (trim_space seed)"
proof -
  have "SealTOTPSecret (al_gcm lib) (le_nonce env) (trim_space seed) (UserID c) =
      Inr (seal_prefix @ b64_encode (n @ Seal g n (trim_space seed) (totpAAD (UserID c))))"
    using assms by (simp add: SealTOTPSecret_def EncryptWith_def)
  moreover have "OpenTOTPSecret (al_gcm lib) (seal_prefix @ b64_encode (n @ Seal g n (trim_space seed) (totpAAD (UserID c))))
      (UserID c) = Inr (trim_space seed)"
    using assms by (simp add: OpenTOTPSecret_def decrypt_sealed)
  ultimately show ?thesis using assms
    by (simp add: TwoFAEnable_def split_def Let_def bump_version_def)
qed

theorem enable_replaces_factor_witness:
  "\<exists>u'. fst (TwoFAEnable sample_lib (sample_env ((62135596800 + 60) * 10 ^ 9)) (Some ann)
      (Some (''GEZDGNBV'', ''000002'')) sample_panel) = done_reply \<and>
    u_totp_enabled sample_user = 1 \<and> u_totp_secret sample_user \<noteq> ''GEZDGNBV'' \<and>
    user_by_id 7 (snd (TwoFAEnable sample_lib (sample_env ((62135596800 + 60) * 10 ^ 9)) (Some ann)
      (Some (''GEZDGNBV'', ''000002'')) sample_panel)) = Some u' \<and>
    OpenTOTPSecret (al_gcm sample_lib) (u_totp_secret u') 7 = Inr ''GEZDGNBV''"
proof -
  let ?env = "sample_env ((62135596800 + 60) * 10 ^ 9)"
  have code: "TOTPVerifyStep (al_hmac sample_lib) (le_now ?env) (trim_space ''GEZDGNBV'') ''000002'' (- 1) = Some 2"
    and seed: "trim_space ''GEZDGNBV'' = ''GEZDGNBV''" by code_simp+
  have uid: "UserID ann = 7" by (simp add: ann_def)
  have row: "user_by_id (UserID ann) sample_panel = Some sample_user"
    by (simp add: user_by_id_def sample_panel_def sample_user_def ann_def)
  have gcm: "al_gcm sample_lib = Some toy_aead" by (simp add: sample_lib_def)
  have free: "fst (stepUpLocked (le_now ?env) (UserID ann) (stepups sample_panel)) \<le> 0"
    by (simp add: stepUpLocked_def sample_panel_def)
  have nonce: "le_nonce ?env = Some ''N''" "length ''N'' = NonceSize toy_aead" "\<not> le_fails ?env WriteUser"
    by (simp_all add: sample_env_def toy_aead_def)
  show ?thesis
    using enable_replaces_factor [OF row free code gcm toy_aead_law nonce] unfolding uid seed
    by (auto simp: sample_user_def)
qed

end
