(* ===== verification/PanelPort.thy ===== *)
theory PanelPort
  imports GoText
begin

text \<open>
  The pure rules of internal/panelport/panelport.go: which port the panel may move to, and the
  rewriters of the environment file and the nginx files that hold its ports, line by line as
  \<open>bufio.Scanner\<close> reads them. A refusal is its reason code; the English text beside it is not kept.
\<close>

datatype port_error = Refusal string | PlainError

definition ReasonBadPort :: string where "ReasonBadPort = ''panel_port_out_of_range''"
definition ReasonReservedPort :: string where "ReasonReservedPort = ''panel_port_reserved''"
definition ReasonAppPort :: string where "ReasonAppPort = ''panel_port_in_app_range''"
definition ReasonSamePort :: string where "ReasonSamePort = ''panel_port_unchanged''"
definition ReasonNotFound :: string where "ReasonNotFound = ''panel_port_directive_not_found''"
definition ReasonVerifyFailed :: string where "ReasonVerifyFailed = ''panel_port_verification_failed''"
definition ReasonRolledBack :: string where "ReasonRolledBack = ''panel_port_rolled_back''"
definition ReasonRollbackFailed :: string where "ReasonRollbackFailed = ''panel_port_rollback_failed''"
definition ReasonUnreadable :: string where "ReasonUnreadable = ''panel_port_host_unreadable''"
definition ReasonUnknownKind :: string where "ReasonUnknownKind = ''panel_port_unknown_kind''"

lemmas reason_defs = ReasonBadPort_def ReasonReservedPort_def ReasonAppPort_def ReasonSamePort_def
  ReasonNotFound_def ReasonVerifyFailed_def ReasonRolledBack_def ReasonRollbackFailed_def
  ReasonUnreadable_def ReasonUnknownKind_def

section \<open>Which ports may be taken\<close>

definition reservedPorts :: "int list" where
  "reservedPorts = [21, 22, 25, 53, 80, 110, 143, 443, 465, 587, 993, 995, 2222, 3306, 6379]"

definition appPortMin :: int where "appPortMin = 30000"
definition appPortMax :: int where "appPortMax = 30999"

definition ValidatePort :: "int \<Rightarrow> string option" where
  "ValidatePort port =
     (if port < 1 \<or> 65535 < port then Some ReasonBadPort
      else if port < 1024 then Some ReasonReservedPort
      else if port \<in> set reservedPorts then Some ReasonReservedPort
      else if appPortMin \<le> port \<and> port \<le> appPortMax then Some ReasonAppPort
      else None)"

section \<open>The environment file\<close>

definition listen_key :: string where "listen_key = ''SERVIKA_LISTEN''"

definition quote_chars :: string where "quote_chars = [CHR 0x22, CHR 0x27]"

definition ParseListen :: "string \<Rightarrow> (string \<times> int) option" where
  "ParseListen raw =
     (let v = trim_space (trim (trim_space raw) quote_chars) in
      case last_index (CHR '':'') v of
        None \<Rightarrow> None
      | Some i \<Rightarrow>
          (case atoi (drop (Suc i) v) of
             None \<Rightarrow> None
           | Some port \<Rightarrow> if port < 1 \<or> 65535 < port then None else Some (take i v, port)))"

text \<open>The value a line assigns, when it is an assignment of \<open>SERVIKA_LISTEN\<close>.\<close>

definition listen_value :: "string \<Rightarrow> string option" where
  "listen_value line =
     (let l = trim_space line in
      if has_prefix l ''#'' then None
      else (case cut_at (CHR ''='') l of
          (name, rest, found) \<Rightarrow>
            if \<not> found \<or> trim_space name \<noteq> listen_key then None else Some (trim_space rest)))"

definition ReadEnvListen :: "string \<Rightarrow> string" where
  "ReadEnvListen text =
     foldl (\<lambda>v line. case listen_value line of Some x \<Rightarrow> x | None \<Rightarrow> v) [] (fst (scan_lines text))"

definition unlines :: "string list \<Rightarrow> string" where
  "unlines ls = concat (map (\<lambda>l. l @ [CHR 10]) ls)"

definition listen_line :: "string \<Rightarrow> int \<Rightarrow> string" where
  "listen_line host port = listen_key @ ''='' @ host @ '':'' @ itoa port"

definition SetEnvListen :: "string \<Rightarrow> string \<Rightarrow> int \<Rightarrow> port_error + string" where
  "SetEnvListen text host port =
     (case scan_lines text of
        (lines, err) \<Rightarrow>
          if err then Inl PlainError
          else if \<not> list_ex (\<lambda>l. listen_value l \<noteq> None) lines then Inl (Refusal ReasonNotFound)
          else Inr (unlines (map (\<lambda>l. if listen_value l \<noteq> None then listen_line host port else l) lines)))"

section \<open>The nginx listen lines\<close>

definition default_listen :: "string \<Rightarrow> bool" where
  "default_listen trimmed =
     (\<not> has_prefix trimmed ''#'' \<and> has_prefix trimmed ''listen '' \<and> contains trimmed ''default_server'')"

definition listen_fields :: "string \<Rightarrow> string list" where
  "listen_fields trimmed = fields (trim_suffix trimmed '';'')"

definition listenPortOf :: "string \<Rightarrow> int" where
  "listenPortOf line =
     (let fs = listen_fields (trim_space line) in
      if length fs < 2 then 0
      else (let v = fs ! 1;
                v = (case last_index (CHR '':'') v of Some i \<Rightarrow> drop (Suc i) v | None \<Rightarrow> v)
            in case atoi v of None \<Rightarrow> 0 | Some port \<Rightarrow> if port < 1 \<or> 65535 < port then 0 else port))"

text \<open>The reader passes the trimmed line to \<open>listenPortOf\<close>, which trims it again.\<close>

fun first_listen_port :: "string list \<Rightarrow> int" where
  "first_listen_port [] = 0"
| "first_listen_port (l # ls) =
     (if default_listen (trim_space l) \<and> 0 < listenPortOf (trim_space l) then listenPortOf (trim_space l)
      else first_listen_port ls)"

definition ReadNginxListenPort :: "string \<Rightarrow> int" where
  "ReadNginxListenPort text = first_listen_port (fst (scan_lines text))"

definition indent_of :: "string \<Rightarrow> string" where
  "indent_of line = take (length line - length (trim_left line [CHR 32, CHR 9])) line"

definition set_listen_line :: "int \<Rightarrow> string \<Rightarrow> string option" where
  "set_listen_line port line =
     (let trimmed = trim_space line; fs = listen_fields trimmed in
      if \<not> default_listen trimmed \<or> length fs < 2 then None
      else (let address = fs ! 1;
                address = (case last_index (CHR '':'') address of
                    Some i \<Rightarrow> take (Suc i) address @ itoa port
                  | None \<Rightarrow> itoa port);
                rest = (if 2 < length fs then '' '' @ join '' '' (drop 2 fs) else [])
            in Some (indent_of line @ ''listen '' @ address @ rest @ '';'')))"

definition SetNginxListenPort :: "string \<Rightarrow> int \<Rightarrow> port_error + string" where
  "SetNginxListenPort text port =
     (case scan_lines text of
        (lines, err) \<Rightarrow>
          if err then Inl PlainError
          else if \<not> list_ex (\<lambda>l. set_listen_line port l \<noteq> None) lines then Inl (Refusal ReasonNotFound)
          else Inr (unlines (map (\<lambda>l. case set_listen_line port l of Some x \<Rightarrow> x | None \<Rightarrow> l) lines)))"

section \<open>The proxied port\<close>

definition loopback :: "int \<Rightarrow> string" where
  "loopback port = ''127.0.0.1:'' @ itoa port"

definition proxies_to :: "int \<Rightarrow> string \<Rightarrow> bool" where
  "proxies_to port line =
     (let trimmed = trim_space line in
      \<not> has_prefix trimmed ''#'' \<and> has_prefix trimmed ''proxy_pass '' \<and> contains line (loopback port))"

definition SetProxyPort :: "string \<Rightarrow> int \<Rightarrow> int \<Rightarrow> string \<times> nat" where
  "SetProxyPort text oldPort newPort =
     (case scan_lines text of
        (lines, err) \<Rightarrow>
          if err then (text, 0)
          else (unlines (map (\<lambda>l. if proxies_to oldPort l
                                  then replace_all l (loopback oldPort) (loopback newPort) else l) lines),
                length (filter (proxies_to oldPort) lines)))"

section \<open>What is written is what is read\<close>

definition printable :: "string \<Rightarrow> bool" where
  "printable s = list_all (\<lambda>c. 32 < byte c \<and> byte c < 127 \<and> c \<notin> set quote_chars) s"

lemma printable_plain:
  "printable s \<Longrightarrow> c \<in> set s \<Longrightarrow> byte c < 128 \<and> \<not> ascii_space c \<and> c \<noteq> CHR 10 \<and> c \<noteq> CHR 13 \<and> c \<notin> set quote_chars"
  by (fastforce simp: printable_def list_all_iff ascii_space_def byte_in_def byte_def)

lemma itoa_last:
  assumes "0 \<le> p"
  obtains ds d where "itoa p = ds @ [d]" and "is_digit d" and "\<And>c. c \<in> set (itoa p) \<Longrightarrow> is_digit c"
proof -
  obtain ds d where "itoa p = ds @ [d]" by (metis itoa_nonempty append_butlast_last_id)
  then show ?thesis using that itoa_digits [OF assms] by simp
qed

lemma digit_plain: "is_digit d \<Longrightarrow> byte d < 128 \<and> \<not> ascii_space d \<and> d \<notin> set quote_chars"
  by (auto simp: is_digit_def byte_in_def byte_def ascii_space_def quote_chars_def)

lemma address_trim:
  assumes "printable host" and "0 \<le> p"
  shows "trim_space (host @ '':'' @ itoa p) = host @ '':'' @ itoa p"
    and "trim (host @ '':'' @ itoa p) quote_chars = host @ '':'' @ itoa p"
proof -
  obtain ds d where d: "itoa p = ds @ [d]" "is_digit d" using itoa_last [OF assms(2)] by metis
  obtain c s where s: "host @ '':'' @ itoa p = c # s @ [d]"
    and c: "byte c < 128" "\<not> ascii_space c" "c \<notin> set quote_chars"
  proof (cases host)
    case Nil
    then show ?thesis using that [of "CHR '':''" ds] d
      by (simp add: byte_def ascii_space_def byte_in_def quote_chars_def)
  next
    case (Cons a h)
    then show ?thesis using that [of a "h @ '':'' @ ds"] d printable_plain [OF assms(1), of a] by simp
  qed
  show "trim_space (host @ '':'' @ itoa p) = host @ '':'' @ itoa p"
    unfolding s using trim_space_plain_ends c digit_plain [OF d(2)] by blast
  show "trim (host @ '':'' @ itoa p) quote_chars = host @ '':'' @ itoa p"
    unfolding s using c digit_plain [OF d(2)] by (simp add: trim_def trim_left_def trim_right_def)
qed

lemma listen_value_line:
  assumes "printable host" and "0 \<le> p"
  shows "listen_value (listen_line host p) = Some (host @ '':'' @ itoa p)"
proof -
  obtain ds d where d: "itoa p = ds @ [d]" "is_digit d" using itoa_last [OF assms(2)] by metis
  have line: "listen_line host p = CHR ''S'' # (''ERVIKA_LISTEN='' @ host @ '':'' @ ds) @ [d]"
    by (simp add: listen_line_def listen_key_def d)
  have "trim_space (listen_line host p) = listen_line host p"
    unfolding line by (rule trim_space_plain_ends)
      (use digit_plain [OF d(2)] in \<open>simp_all add: byte_def ascii_space_def byte_in_def\<close>)
  moreover have "cut_at (CHR ''='') (listen_line host p) = (listen_key, host @ '':'' @ itoa p, True)"
    using cut_at_first [of "CHR ''=''" listen_key "host @ '':'' @ itoa p"]
    by (simp add: listen_line_def listen_key_def)
  moreover have "trim_space listen_key = listen_key" "\<not> has_prefix (listen_line host p) ''#''"
    by (code_simp, simp add: line has_prefix_def)
  ultimately show ?thesis using address_trim(1) [OF assms] by (simp add: listen_value_def)
qed

lemma foldl_only:
  "\<forall>l \<in> set ls. f l = None \<or> f l = Some x \<Longrightarrow> \<exists>l \<in> set ls. f l \<noteq> None \<or> v = x \<Longrightarrow>
   foldl (\<lambda>v l. case f l of Some y \<Rightarrow> y | None \<Rightarrow> v) v ls = x"
proof (induction ls arbitrary: v)
  case (Cons l ls)
  show ?case
  proof (cases "\<exists>k \<in> set ls. f k \<noteq> None")
    case True
    then show ?thesis using Cons by auto
  next
    case False
    then have "foldl (\<lambda>v l. case f l of Some y \<Rightarrow> y | None \<Rightarrow> v) w ls = w" for w
      by (induction ls arbitrary: w) auto
    then show ?thesis using Cons.prems False by (cases "f l") auto
  qed
qed simp

lemma ParseListen_address:
  assumes "printable host" and "1 \<le> p" and "p \<le> 65535"
  shows "ParseListen (host @ '':'' @ itoa p) = Some (host, p)"
proof -
  have "CHR '':'' \<notin> set (itoa p)" using assms(2) itoa_digits [of p] digit_not_space by fastforce
  then have "last_index (CHR '':'') (host @ '':'' @ itoa p) = Some (length host)"
    using index_of_last [of "CHR '':''" "itoa p" host] by simp
  moreover have "atoi (itoa p) = Some p" by (rule atoi_itoa) (use assms in auto)
  ultimately show ?thesis using assms address_trim [OF assms(1), of p] by (simp add: ParseListen_def)
qed

text \<open>
  Moving the backend port in the environment file does what it says and nothing else: a file
  that is rewritten reads back as the same host with the new port, however many assignments it had,
  and every other line is still there, in order. (A file with carriage returns loses them, because
  the scanner drops them; it is left out here.)
\<close>
theorem env_listen_round_trip:
  assumes host: "printable host" and port: "1 \<le> port" "port \<le> 65535" and cr: "CHR 13 \<notin> set text"
    and w: "SetEnvListen text host port = Inr text'" and readable: "\<not> snd (scan_lines text')"
  shows "ParseListen (ReadEnvListen text') = Some (host, port) \<and>
    filter (\<lambda>l. listen_value l = None) (fst (scan_lines text')) =
    filter (\<lambda>l. listen_value l = None) (fst (scan_lines text))"
proof -
  let ?ls = "fst (scan_lines text)" and ?line = "listen_line host port"
  let ?new = "map (\<lambda>l. if listen_value l \<noteq> None then ?line else l) ?ls"
  have t: "text' = unlines ?new" and some: "\<exists>l \<in> set ?ls. listen_value l \<noteq> None"
    using w by (auto simp: SetEnvListen_def list_ex_iff split: prod.splits if_splits)
  have val: "listen_value ?line = Some (host @ '':'' @ itoa port)"
    using listen_value_line [OF host] port(1) by simp
  have line: "CHR 10 \<notin> set ?line \<and> CHR 13 \<notin> set ?line"
    using printable_plain [OF host] itoa_digits [of port] digit_not_space port(1)
    by (fastforce simp: listen_line_def listen_key_def)
  have "\<forall>l \<in> set ?ls. CHR 10 \<notin> set l \<and> CHR 13 \<notin> set l"
    using scan_lines_of scan_lines_subset cr by blast
  then have new: "\<forall>l \<in> set ?new. CHR 10 \<notin> set l \<and> CHR 13 \<notin> set l" using line by auto
  then have "map drop_cr ?new = ?new" by (intro map_idI) (blast intro: drop_cr_id)
  moreover have "fst (scan_lines text') = map drop_cr ?new"
    unfolding t unlines_def by (rule unlines_scan) (use readable new in \<open>auto simp: t unlines_def\<close>)
  ultimately have lines: "fst (scan_lines text') = ?new" by simp
  have "ReadEnvListen text' = host @ '':'' @ itoa port"
    unfolding ReadEnvListen_def lines by (rule foldl_only) (use val some in auto)
  then have "ParseListen (ReadEnvListen text') = Some (host, port)"
    using ParseListen_address [OF host port] by simp
  moreover have "filter (\<lambda>l. listen_value l = None) (map (\<lambda>l. if listen_value l \<noteq> None then ?line else l) ls) =
      filter (\<lambda>l. listen_value l = None) ls" for ls
    by (induction ls) (auto simp: val)
  ultimately show ?thesis by (simp add: lines)
qed

definition sample_env_file :: string where
  "sample_env_file = ''# panel'' @ [CHR 10] @ ''SERVIKA_LISTEN = 127.0.0.1:80'' @ [CHR 10] @ ''A=b'' @ [CHR 10]"

theorem env_listen_round_trip_witness:
  "ParseListen (ReadEnvListen (''# panel'' @ [CHR 10] @ ''SERVIKA_LISTEN=127.0.0.1:99'' @ [CHR 10] @ ''A=b'' @ [CHR 10])) =
     Some (''127.0.0.1'', 99)"
proof -
  have "SetEnvListen sample_env_file ''127.0.0.1'' 99 =
      Inr (''# panel'' @ [CHR 10] @ ''SERVIKA_LISTEN=127.0.0.1:99'' @ [CHR 10] @ ''A=b'' @ [CHR 10])"
    by code_simp
  moreover have "printable ''127.0.0.1''" "CHR 13 \<notin> set sample_env_file" by code_simp+
  moreover have "\<not> snd (scan_lines (''# panel'' @ [CHR 10] @ ''SERVIKA_LISTEN=127.0.0.1:99'' @ [CHR 10] @ ''A=b'' @ [CHR 10]))"
    by code_simp
  ultimately show ?thesis using env_listen_round_trip [of "''127.0.0.1''" 99 sample_env_file] by simp
qed

lemma trim_semicolon: "trim_suffix (s @ '';'') '';'' = s"
  by (simp add: trim_suffix_def has_suffix_iff)

lemma indent_blank: "b \<in> set (indent_of line) \<Longrightarrow> ascii_space b"
proof -
  assume "b \<in> set (indent_of line)"
  moreover have "indent_of line = takeWhile (\<lambda>c. c \<in> set [CHR 32, CHR 9]) line"
    unfolding indent_of_def trim_left_def
    by (metis add_diff_cancel_right' append_eq_conv_conj length_append takeWhile_dropWhile_id)
  ultimately show ?thesis by (auto dest!: set_takeWhileD simp: ascii_space_def byte_in_def byte_def)
qed

text \<open>The address field with its port replaced is a field, and its port is the new one.\<close>

definition moved_address :: "int \<Rightarrow> string \<Rightarrow> string" where
  "moved_address port address =
     (case last_index (CHR '':'') address of Some i \<Rightarrow> take (Suc i) address @ itoa port | None \<Rightarrow> itoa port)"

lemma itoa_plain: "0 \<le> p \<Longrightarrow> c \<in> set (itoa p) \<Longrightarrow> byte c < 128 \<and> \<not> ascii_space c"
  using itoa_digits digit_plain by blast

lemma moved_address_word: "word address \<Longrightarrow> 0 \<le> port \<Longrightarrow> word (moved_address port address)"
proof (cases "last_index (CHR '':'') address")
  case None
  assume "0 \<le> port"
  then show ?thesis using None word_plain itoa_plain by (auto simp: moved_address_def)
next
  case (Some i)
  assume w: "word address" and p: "0 \<le> port"
  have "word (take (Suc i) address @ drop (Suc i) address)" using w by simp
  then have "word (take (Suc i) address @ itoa port)"
    by (rule word_extend) (use itoa_plain [OF p] in auto)
  then show ?thesis using Some by (simp add: moved_address_def)
qed

lemma moved_address_port:
  assumes "0 \<le> port"
  shows "(case last_index (CHR '':'') (moved_address port a) of
      Some i \<Rightarrow> drop (Suc i) (moved_address port a) | None \<Rightarrow> moved_address port a) = itoa port"
proof -
  have n: "CHR '':'' \<notin> set (itoa port)" using itoa_digits [OF assms] digit_not_space by blast
  show ?thesis
  proof (cases "last_index (CHR '':'') a")
    case None
    then show ?thesis using last_index_None [OF n] by (simp add: moved_address_def)
  next
    case (Some i)
    then have "take (Suc i) a = take i a @ [CHR '':'']" and "i < length a"
      using last_index_Some by (metis take_Suc_conv_app_nth)+
    then have "moved_address port a = take i a @ CHR '':'' # itoa port" "length (take i a) = i"
      using Some by (simp_all add: moved_address_def)
    then show ?thesis using index_of_last [OF n, of "take i a"] by simp
  qed
qed

text \<open>A line the rewriter writes: what the readers make of it.\<close>

lemma set_listen_line_Some:
  assumes s: "set_listen_line port line = Some out" and p: "0 \<le> port"
  shows "\<exists>body rest. trim_space out = body @ '';'' \<and> has_prefix body ''listen '' \<and>
    listen_fields (trim_space out) = fields body \<and>
    fields body = hd (listen_fields (trim_space line)) # moved_address port (listen_fields (trim_space line) ! 1) # rest \<and>
    rest = drop 2 (listen_fields (trim_space line)) \<and> body = join '' '' (fields body)"
proof -
  let ?fs = "listen_fields (trim_space line)"
  let ?a = "moved_address port (?fs ! 1)" and ?r = "drop 2 ?fs"
  have def: "default_listen (trim_space line)" "\<not> length ?fs < 2"
    and out: "out = indent_of line @ ''listen '' @ ?a @ (if 2 < length ?fs then '' '' @ join '' '' ?r else []) @ '';''"
    using s by (auto simp: set_listen_line_def moved_address_def Let_def split: if_splits)
  have words: "list_all word ?fs" unfolding listen_fields_def by (rule fields_words)
  obtain t where tr: "trim_space line = ''listen '' @ t"
    using def(1) by (auto simp: default_listen_def has_prefix_iff)
  have w: "word ''listen''" by (rule word_plain) (auto simp: byte_def ascii_space_def byte_in_def)
  have "t \<noteq> []"
  proof
    assume "t = []"
    then have "trim_space line = ''listen''  @ '' ''" using tr by simp
    then have "space_suffix_width (trim_space line) = 1" by (simp add: space_suffix_width_def ascii_space_def byte_def)
    then show False using space_suffix_trim_right by (simp add: trim_space_def)
  qed
  obtain x where x: "trim_suffix (trim_space line) '';'' = ''listen'' @ CHR '' '' # x"
  proof (cases "has_suffix (trim_space line) '';''")
    case False
    then show ?thesis using that [of t] tr by (simp add: trim_suffix_def)
  next
    case True
    then obtain u where u: "trim_space line = u @ '';''" by (auto simp: has_suffix_iff)
    with tr \<open>t \<noteq> []\<close> have "t = butlast t @ '';''" by (metis append_butlast_last_id last_appendR last_snoc)
    then have "trim_space line = (''listen '' @ butlast t) @ '';''" using tr by simp
    then have "trim_suffix (trim_space line) '';'' = ''listen '' @ butlast t" by (simp only: trim_semicolon)
    then show ?thesis using that [of "butlast t"] by simp
  qed
  have hd: "hd ?fs = ''listen''"
    unfolding listen_fields_def x fields_def
    using w fields_acc_word(2) [of "''listen''" "[]" x] by (simp add: word_def)
  let ?new = "''listen'' # ?a # ?r"
  let ?body = "join '' '' ?new"
  have nw: "list_all word ?new"
  proof -
    have "word (?fs ! 1)" using words def(2) by (simp add: list_all_length)
    then have "word ?a" by (rule moved_address_word [OF _ p])
    moreover have "list_all word ?r" using words by (auto simp: list_all_iff dest: in_set_dropD)
    ultimately show ?thesis using w by simp
  qed
  have body: "''listen '' @ ?a @ (if 2 < length ?fs then '' '' @ join '' '' ?r else []) = ?body"
    using def(2) by (cases ?r) auto
  have "out = indent_of line @ ?body @ '';''"
    unfolding out body [symmetric] by (simp only: append_assoc)
  then have "trim_space out = trim_space (?body @ '';'')"
    using trim_space_indent [of "indent_of line"] indent_blank by simp
  also have "\<dots> = ?body @ '';''"
    using trim_space_plain_ends [of "CHR ''l''" "CHR '';''" "tl ?body"]
    by (simp add: byte_def ascii_space_def byte_in_def)
  finally have t: "trim_space out = ?body @ '';''" .
  have f: "fields ?body = ?new" by (rule fields_join [OF nw])
  have "listen_fields (trim_space out) = fields ?body"
    unfolding t listen_fields_def using trim_semicolon by metis
  moreover have "has_prefix ?body ''listen ''" by (simp add: has_prefix_def)
  ultimately show ?thesis using t f hd by auto
qed

lemma listen_fields_subset: "f \<in> set (listen_fields (trim_space l)) \<Longrightarrow> c \<in> set f \<Longrightarrow> c \<in> set l"
  using fields_subset set_trim_space trim_suffix_subset unfolding listen_fields_def by blast

lemma set_listen_line_chars:
  assumes s: "set_listen_line port line = Some out" and p: "0 \<le> port" and c: "c \<in> set out"
  shows "c \<in> set line \<or> is_digit c \<or> c \<in> set ''listen ;''"
proof -
  let ?fs = "listen_fields (trim_space line)"
  have len: "1 < length ?fs"
    and out: "out = indent_of line @ ''listen '' @ moved_address port (?fs ! 1) @
      (if 2 < length ?fs then '' '' @ join '' '' (drop 2 ?fs) else []) @ '';''"
    using s by (auto simp: set_listen_line_def moved_address_def Let_def split: if_splits)
  have "c \<in> set line \<or> is_digit c" if "c \<in> set (moved_address port (?fs ! 1))"
    using that listen_fields_subset [OF nth_mem [OF len]] itoa_digits [OF p]
    by (auto simp: moved_address_def dest: in_set_takeD split: option.splits)
  moreover have "c \<in> set line \<or> c \<in> set ''listen ;''" if "c \<in> set (join '' '' (drop 2 ?fs))"
    using join_subset [OF that] listen_fields_subset by (auto dest: in_set_dropD)
  moreover have "c \<in> set line" if "c \<in> set (indent_of line)"
    using that by (auto simp: indent_of_def dest: in_set_takeD)
  ultimately show ?thesis using c unfolding out by (auto split: if_splits)
qed

lemma set_listen_line_port:
  assumes s: "set_listen_line port line = Some out" and p: "1 \<le> port" "port \<le> 65535"
  shows "listenPortOf (trim_space out) = port"
proof -
  have p0: "0 \<le> port" using p by simp
  obtain body rest where "listen_fields (trim_space out) =
      hd (listen_fields (trim_space line)) # moved_address port (listen_fields (trim_space line) ! 1) # rest"
    using set_listen_line_Some [OF s p0] by metis
  moreover have "atoi (itoa port) = Some port" by (rule atoi_itoa) (use p in auto)
  ultimately show ?thesis using p moved_address_port [OF p0, of "listen_fields (trim_space line) ! Suc 0"]
    by (simp add: listenPortOf_def Let_def)
qed

lemma set_listen_line_default:
  assumes s: "set_listen_line port line = Some out" and p: "0 \<le> port"
    and own: "''default_server'' \<in> set (drop 2 (listen_fields (trim_space line)))"
  shows "default_listen (trim_space out)"
proof -
  obtain body rest where t: "trim_space out = body @ '';''" "has_prefix body ''listen ''"
    and f: "fields body = hd (listen_fields (trim_space line)) # moved_address port (listen_fields (trim_space line) ! 1) # rest"
    and r: "rest = drop 2 (listen_fields (trim_space line))" and b: "body = join '' '' (fields body)"
    using set_listen_line_Some [OF s p] by metis
  have "contains ''default_server'' ''default_server''" by (auto simp: contains_iff)
  then have "contains (join '' '' (fields body)) ''default_server''"
    by (intro contains_member [of "''default_server''"]) (use own in \<open>simp_all add: f r\<close>)
  then have "contains (trim_space out) ''default_server''"
    using contains_append [of body _ "[]" "'';''"] b t by simp
  moreover have "has_prefix (trim_space out) ''listen ''" "\<not> has_prefix (trim_space out) ''#''"
    using t by (auto simp: has_prefix_iff)
  ultimately show ?thesis by (simp add: default_listen_def)
qed

lemma first_listen_port_only:
  "\<forall>l \<in> set ls. default_listen (trim_space l) \<longrightarrow> listenPortOf (trim_space l) \<in> {0, p} \<Longrightarrow>
   \<exists>l \<in> set ls. default_listen (trim_space l) \<and> listenPortOf (trim_space l) = p \<Longrightarrow> 0 < p \<Longrightarrow>
   first_listen_port ls = p"
  by (induction ls) auto

text \<open>
  Moving the external port moves every listen line of the panel's vhost, IPv4 and IPv6 alike: in
  the rewritten file no default_server line keeps an old port, all other lines are where they were, and
  a file with such a line reads back as the new port.
\<close>
theorem nginx_listen_round_trip:
  assumes port: "1 \<le> port" "port \<le> 65535" and cr: "CHR 13 \<notin> set text"
    and w: "SetNginxListenPort text port = Inr text'" and readable: "\<not> snd (scan_lines text')"
  shows "(\<forall>l \<in> set (fst (scan_lines text')). default_listen (trim_space l) \<longrightarrow> listenPortOf (trim_space l) \<in> {0, port}) \<and>
    (\<forall>i < length (fst (scan_lines text)). set_listen_line port (fst (scan_lines text) ! i) = None \<longrightarrow>
       fst (scan_lines text') ! i = fst (scan_lines text) ! i) \<and>
    ((\<exists>l \<in> set (fst (scan_lines text)). default_listen (trim_space l) \<and>
        ''default_server'' \<in> set (drop 2 (listen_fields (trim_space l)))) \<longrightarrow> ReadNginxListenPort text' = port)"
proof -
  let ?ls = "fst (scan_lines text)"
  let ?f = "\<lambda>l. case set_listen_line port l of Some x \<Rightarrow> x | None \<Rightarrow> l"
  have p0: "0 \<le> port" using port by simp
  have t: "text' = unlines (map ?f ?ls)"
    using w by (auto simp: SetNginxListenPort_def split: prod.splits if_splits)
  have "\<forall>l \<in> set ?ls. CHR 10 \<notin> set l \<and> CHR 13 \<notin> set l"
    using scan_lines_of scan_lines_subset cr by blast
  moreover have "CHR 10 \<notin> set x \<and> CHR 13 \<notin> set x"
    if "set_listen_line port l = Some x" "CHR 10 \<notin> set l \<and> CHR 13 \<notin> set l" for l x
    using set_listen_line_chars [OF that(1) p0] that(2) by (fastforce simp: is_digit_def byte_in_def byte_def)
  ultimately have new: "\<forall>l \<in> set (map ?f ?ls). CHR 10 \<notin> set l \<and> CHR 13 \<notin> set l"
    by (auto split: option.splits)
  then have "map drop_cr (map ?f ?ls) = map ?f ?ls" by (intro map_idI) (blast intro: drop_cr_id)
  moreover have "fst (scan_lines text') = map drop_cr (map ?f ?ls)"
    unfolding t unlines_def by (rule unlines_scan) (use readable new in \<open>auto simp: t unlines_def\<close>)
  ultimately have lines: "fst (scan_lines text') = map ?f ?ls" by simp
  have old: "listenPortOf (trim_space (?f l)) \<in> {0, port}" if "default_listen (trim_space (?f l))" for l
  proof (cases "set_listen_line port l")
    case None
    with that have "length (listen_fields (trim_space l)) < 2"
      by (auto simp: set_listen_line_def Let_def split: if_splits)
    then show ?thesis using None by (simp add: listenPortOf_def)
  qed (use set_listen_line_port port in simp)
  have read: "ReadNginxListenPort text' = port"
    if l: "l \<in> set ?ls" "default_listen (trim_space l)"
      "''default_server'' \<in> set (drop 2 (listen_fields (trim_space l)))" for l
  proof -
    have "2 < length (listen_fields (trim_space l))" using l(3) by (cases "length (listen_fields (trim_space l)) \<le> 2") auto
    then obtain x where x: "set_listen_line port l = Some x"
      using l(2) by (auto simp: set_listen_line_def Let_def)
    have "default_listen (trim_space (?f l)) \<and> listenPortOf (trim_space (?f l)) = port"
      using set_listen_line_default [OF x p0 l(3)] set_listen_line_port [OF x port] x by simp
    then show ?thesis
      unfolding ReadNginxListenPort_def lines by (intro first_listen_port_only) (use old l(1) port in auto)
  qed
  show ?thesis using old read unfolding lines by (auto simp: nth_map)
qed

definition sample_vhost :: string where
  "sample_vhost = ''server {'' @ [CHR 10, CHR 9] @ ''listen 84 ssl default_server;'' @ [CHR 10] @
     ''  listen [::]:84 ssl default_server;'' @ [CHR 10] @ ''}'' @ [CHR 10]"

theorem nginx_listen_round_trip_witness:
  "ReadNginxListenPort (''server {'' @ [CHR 10, CHR 9] @ ''listen 95 ssl default_server;'' @ [CHR 10] @
     ''  listen [::]:95 ssl default_server;'' @ [CHR 10] @ ''}'' @ [CHR 10]) = 95"
proof -
  let ?new = "''server {'' @ [CHR 10, CHR 9] @ ''listen 95 ssl default_server;'' @ [CHR 10] @
     ''  listen [::]:95 ssl default_server;'' @ [CHR 10] @ ''}'' @ [CHR 10]"
  have w: "SetNginxListenPort sample_vhost 95 = Inr ?new" by code_simp
  have r: "\<not> snd (scan_lines ?new)" "CHR 13 \<notin> set sample_vhost" by code_simp+
  have "list_ex (\<lambda>l. default_listen (trim_space l) \<and>
      ''default_server'' \<in> set (drop 2 (listen_fields (trim_space l)))) (fst (scan_lines sample_vhost))" by code_simp
  then show ?thesis
    using nginx_listen_round_trip [OF _ _ r(2) w r(1)] by (simp add: list_ex_iff)
qed

end
