(* ===== verification/PortChange.thy ===== *)
theory PortChange
  imports PanelPort "HOL-Library.List_Lexorder"
begin

text \<open>
  Moving a port on a running host (internal/panelport/apply.go, host.go, helper.go): the plan of the
  edits, backups and their pruning, the writes, the reloads, the roll back, and the detached helper
  of a backend change. The host is its files, the backup directory, and the configuration nginx last
  loaded; every host operation that can fail does what the environment of the change says. A failed
  write leaves what the environment says in the file. Paths are the three files of \<open>host.go\<close>.
\<close>

section \<open>State\<close>

record ports =
  Backend :: int
  BackendHost :: string
  External :: int

record port_paths =
  env_path :: string
  vhost_path :: string
  domain_path :: string

datatype outcome_state = StateRunning | StateSucceeded | StateRolledBack | StateRollbackFailed

record outcome =
  oc_history :: int
  oc_old :: int
  oc_new :: int
  oc_state :: outcome_state

text \<open>What the generated script does: probe, and the files it copies back (\<open>None\<close> stands for a removal).\<close>

record helper =
  hp_probe :: string
  hp_new :: int
  hp_old :: int
  hp_history :: int
  hp_restore :: "(string \<times> string option) list"

record host =
  h_files :: "string \<rightharpoonup> string"
  h_backups :: "(string \<times> string) list"
  h_loaded :: "string \<rightharpoonup> string"
  h_outcome :: "outcome option"
  h_helper :: "helper option"

record host_env =
  he_unreadable :: "string \<Rightarrow> bool"
  he_backup_fails :: "string \<Rightarrow> bool"
  he_stamp :: "string \<Rightarrow> string"
  he_write_fails :: "string \<Rightarrow> string option"
  he_backup_lost :: "string \<Rightarrow> bool"
  he_restore_fails :: "string \<Rightarrow> string option"
  he_nginx_test :: bool
  he_reload :: bool
  he_reload_again :: bool
  he_new_answers :: bool
  he_old_answers :: bool
  he_outcome_fails :: bool
  he_helper_fails :: bool
  he_helper_starts :: bool

definition read_file :: "host_env \<Rightarrow> host \<Rightarrow> string \<Rightarrow> string option" where
  "read_file env h path = (if he_unreadable env path then None else h_files h path)"

text \<open>The ports the files on disk name, never the panel's own table.\<close>

definition Current :: "port_paths \<Rightarrow> host_env \<Rightarrow> host \<Rightarrow> port_error + ports" where
  "Current pp env h =
     (case read_file env h (env_path pp) of
        None \<Rightarrow> Inl (Refusal ReasonUnreadable)
      | Some envText \<Rightarrow>
          (case ParseListen (ReadEnvListen envText) of
             None \<Rightarrow> Inl (Refusal ReasonNotFound)
           | Some (bhost, port) \<Rightarrow>
               (case read_file env h (vhost_path pp) of
                  None \<Rightarrow> Inl (Refusal ReasonUnreadable)
                | Some vhostText \<Rightarrow>
                    if ReadNginxListenPort vhostText = 0 then Inl (Refusal ReasonNotFound)
                    else Inr \<lparr>Backend = port, BackendHost = bhost, External = ReadNginxListenPort vhostText\<rparr>)))"

section \<open>The plan\<close>

type_synonym plan = "(string \<times> string) list"

definition plan_add :: "string \<Rightarrow> string \<Rightarrow> plan \<Rightarrow> plan" where
  "plan_add path content p =
     (if path \<in> set (map fst p) then map (\<lambda>(q, c). if q = path then (q, content) else (q, c)) p
      else p @ [(path, content)])"

definition addDomain :: "port_paths \<Rightarrow> string option \<Rightarrow> int \<Rightarrow> int \<Rightarrow> plan \<Rightarrow> plan" where
  "addDomain pp domain oldPort newPort p =
     (case domain of
        None \<Rightarrow> p
      | Some text \<Rightarrow>
          (case SetProxyPort text oldPort newPort of
             (moved, count) \<Rightarrow> if 0 < count then plan_add (domain_path pp) moved p else p))"

definition planBackend :: "port_paths \<Rightarrow> host_env \<Rightarrow> host \<Rightarrow> string \<Rightarrow> string option \<Rightarrow> ports \<Rightarrow> int \<Rightarrow> port_error + plan" where
  "planBackend pp env h panelText domain current newPort =
     (case read_file env h (env_path pp) of
        None \<Rightarrow> Inl (Refusal ReasonUnreadable)
      | Some envText \<Rightarrow>
          (case SetEnvListen envText (BackendHost current) newPort of
             Inl e \<Rightarrow> Inl e
           | Inr written \<Rightarrow>
               (case SetProxyPort panelText (Backend current) newPort of
                  (moved, replaced) \<Rightarrow>
                    if replaced = 0 then Inl (Refusal ReasonNotFound)
                    else Inr (addDomain pp domain (Backend current) newPort
                           (plan_add (vhost_path pp) moved (plan_add (env_path pp) written []))))))"

definition planExternal :: "port_paths \<Rightarrow> string \<Rightarrow> string option \<Rightarrow> ports \<Rightarrow> int \<Rightarrow> port_error + plan" where
  "planExternal pp panelText domain current newPort =
     (case SetNginxListenPort panelText newPort of
        Inl e \<Rightarrow> Inl e
      | Inr moved \<Rightarrow> Inr (addDomain pp domain (External current) newPort (plan_add (vhost_path pp) moved [])))"

datatype kind = KindBackend | KindExternal

definition planChange :: "port_paths \<Rightarrow> host_env \<Rightarrow> host \<Rightarrow> kind \<Rightarrow> ports \<Rightarrow> int \<Rightarrow> port_error + plan" where
  "planChange pp env h kind current newPort =
     (case read_file env h (vhost_path pp) of
        None \<Rightarrow> Inl (Refusal ReasonUnreadable)
      | Some panelText \<Rightarrow>
          let domain = read_file env h (domain_path pp);
              (planned, oldPort) = (case kind of
                  KindBackend \<Rightarrow> (planBackend pp env h panelText domain current newPort, Backend current)
                | KindExternal \<Rightarrow> (planExternal pp panelText domain current newPort, External current))
          in (case planned of
                Inl e \<Rightarrow> Inl e
              | Inr p \<Rightarrow> if oldPort = newPort then Inl (Refusal ReasonSamePort) else Inr p))"

section \<open>Backups\<close>

definition keptBackups :: nat where "keptBackups = 5"

definition flat_name :: "string \<Rightarrow> string" where
  "flat_name path = replace_all (trim_prefix path ''/'') ''/'' ''_''"

definition backup_name :: "host_env \<Rightarrow> string \<Rightarrow> string" where
  "backup_name env path = flat_name path @ ''.'' @ he_stamp env path @ ''.bak''"

text \<open>The names are in the order of their bytes; all but the last five of a prefix go.\<close>

definition pruned_names :: "string \<Rightarrow> string list \<Rightarrow> string list" where
  "pruned_names pref names =
     (let own = sort_key (map byte) (filter (\<lambda>n. has_prefix n (pref @ ''.'')) names)
      in take (length own - keptBackups) own)"

definition pruneBackups :: "string \<Rightarrow> (string \<times> string) list \<Rightarrow> (string \<times> string) list" where
  "pruneBackups pref backups =
     filter (\<lambda>(n, c). n \<notin> set (pruned_names pref (map fst backups))) backups"

definition backupOne :: "host_env \<Rightarrow> string \<Rightarrow> host \<Rightarrow> (port_error + string option) \<times> host" where
  "backupOne env path h =
     (case h_files h path of
        None \<Rightarrow> (Inr None, h)
      | Some content \<Rightarrow>
          if he_backup_fails env path then (Inl PlainError, h)
          else let name = backup_name env path in
            if CHR ''/'' \<in> set name then (Inl PlainError, h)
            else (Inr (Some name),
              h\<lparr>h_backups := pruneBackups (flat_name path)
                   ((name, content) # filter (\<lambda>(n, c). n \<noteq> name) (h_backups h))\<rparr>))"

type_synonym changes = "(string \<times> string option) list"

definition knownTarget :: "port_paths \<Rightarrow> string \<Rightarrow> bool" where
  "knownTarget pp path = (path = env_path pp \<or> path = vhost_path pp \<or> path = domain_path pp)"

text \<open>\<open>failure\<close> is what the environment says of this write: \<open>None\<close> when it succeeds, else what it left.\<close>

definition writeFile :: "port_paths \<Rightarrow> string option \<Rightarrow> string \<Rightarrow> string \<Rightarrow> host \<Rightarrow> bool \<times> host" where
  "writeFile pp failure path content h =
     (if \<not> knownTarget pp path then (False, h)
      else (case failure of
          None \<Rightarrow> (True, h\<lparr>h_files := (h_files h)(path \<mapsto> content)\<rparr>)
        | Some partial \<Rightarrow> (False, h\<lparr>h_files := (h_files h)(path \<mapsto> partial)\<rparr>)))"

text \<open>Puts back every file it can; the first result is whether all went well.\<close>

fun restoreAll :: "port_paths \<Rightarrow> host_env \<Rightarrow> changes \<Rightarrow> host \<Rightarrow> bool \<times> host" where
  "restoreAll pp env [] h = (True, h)"
| "restoreAll pp env ((path, None) # cs) h = restoreAll pp env cs h"
| "restoreAll pp env ((path, Some name) # cs) h =
     (case (if he_backup_lost env path then None else map_of (h_backups h) name) of
        None \<Rightarrow> (case restoreAll pp env cs h of (ok, h') \<Rightarrow> (False, h'))
      | Some content \<Rightarrow>
          (case writeFile pp (he_restore_fails env path) path content h of
             (w, h1) \<Rightarrow> (case restoreAll pp env cs h1 of (ok, h') \<Rightarrow> (w \<and> ok, h'))))"

fun writeFiles :: "port_paths \<Rightarrow> host_env \<Rightarrow> changes \<Rightarrow> plan \<Rightarrow> host \<Rightarrow> (port_error + changes) \<times> host" where
  "writeFiles pp env done [] h = (Inr done, h)"
| "writeFiles pp env done ((path, content) # p) h =
     (case backupOne env path h of
        (Inl e, h1) \<Rightarrow> (Inl PlainError, snd (restoreAll pp env done h1))
      | (Inr backup, h1) \<Rightarrow>
          (case writeFile pp (he_write_fails env path) path content h1 of
             (True, h2) \<Rightarrow> writeFiles pp env (done @ [(path, backup)]) p h2
           | (False, h2) \<Rightarrow> (Inl PlainError, snd (restoreAll pp env (done @ [(path, backup)]) h2))))"

definition writePlan :: "port_paths \<Rightarrow> host_env \<Rightarrow> plan \<Rightarrow> host \<Rightarrow> (port_error + changes) \<times> host" where
  "writePlan pp env p h =
     (case writeFiles pp env [] p h of
        (Inl e, h1) \<Rightarrow> (Inl e, h1)
      | (Inr changes, h1) \<Rightarrow>
          if he_nginx_test env then (Inr changes, h1)
          else (Inl (Refusal ReasonVerifyFailed), snd (restoreAll pp env changes h1)))"

section \<open>The two changes\<close>

definition reload :: "bool \<Rightarrow> host \<Rightarrow> host" where
  "reload ok h = (if ok then h\<lparr>h_loaded := h_files h\<rparr> else h)"

definition ApplyExternal :: "port_paths \<Rightarrow> host_env \<Rightarrow> ports \<Rightarrow> int \<Rightarrow> host \<Rightarrow> port_error option \<times> host" where
  "ApplyExternal pp env current newPort h =
     (case planChange pp env h KindExternal current newPort of
        Inl e \<Rightarrow> (Some e, h)
      | Inr p \<Rightarrow>
          (case writePlan pp env p h of
             (Inl e, h1) \<Rightarrow> (Some e, h1)
           | (Inr changes, h1) \<Rightarrow>
               if \<not> he_reload env
               then (Some (Refusal ReasonVerifyFailed),
                     reload (he_reload_again env) (snd (restoreAll pp env changes h1)))
               else let h2 = reload True h1 in
                 if he_new_answers env then (None, h2)
                 else (case restoreAll pp env changes h2 of
                     (False, h3) \<Rightarrow> (Some (Refusal ReasonRollbackFailed), h3)
                   | (True, h3) \<Rightarrow>
                       if \<not> he_reload_again env then (Some (Refusal ReasonRollbackFailed), h3)
                       else if \<not> he_old_answers env then (Some (Refusal ReasonRollbackFailed), reload True h3)
                       else (Some (Refusal ReasonRolledBack), reload True h3))))"

definition plainHost :: "string \<Rightarrow> bool" where
  "plainHost v = (v \<noteq> [] \<and> length v \<le> 253 \<and>
     list_all (\<lambda>c. byte_in 97 122 c \<or> byte_in 65 90 c \<or> byte_in 48 57 c \<or> c \<in> set ''.-:'') v)"

definition plainPath :: "string \<Rightarrow> bool" where
  "plainPath v = (has_prefix v ''/'' \<and> length v \<le> 512 \<and>
     list_all (\<lambda>c. byte_in 97 122 c \<or> byte_in 65 90 c \<or> byte_in 48 57 c \<or> c \<in> set ''/.-_'') v \<and>
     \<not> contains v ''..'')"

definition probe_host :: "string \<Rightarrow> string" where
  "probe_host bhost = (let p = trim bhost ''[]'' in if p = [] \<or> p = ''0.0.0.0'' \<or> p = ''::'' then ''127.0.0.1'' else p)"

text \<open>\<open>backup_dir\<close> is the directory a backup's name is joined to.\<close>

definition writeHelper :: "host_env \<Rightarrow> string \<Rightarrow> changes \<Rightarrow> ports \<Rightarrow> int \<Rightarrow> int \<Rightarrow> host \<Rightarrow> bool \<times> host" where
  "writeHelper env backup_dir changes current newPort historyID h =
     (if \<not> plainHost (probe_host (BackendHost current)) then (False, h)
      else if list_ex (\<lambda>(path, b). case b of None \<Rightarrow> False
          | Some name \<Rightarrow> \<not> plainPath path \<or> \<not> plainPath (backup_dir @ ''/'' @ name)) changes then (False, h)
      else if he_helper_fails env then (False, h)
      else (True, h\<lparr>h_helper := Some \<lparr>hp_probe = probe_host (BackendHost current), hp_new = newPort,
             hp_old = Backend current, hp_history = historyID, hp_restore = changes\<rparr>\<rparr>))"

definition StartBackendChange :: "port_paths \<Rightarrow> host_env \<Rightarrow> string \<Rightarrow> ports \<Rightarrow> int \<Rightarrow> int \<Rightarrow> host \<Rightarrow> port_error option \<times> host" where
  "StartBackendChange pp env backup_dir current newPort historyID h =
     (case planChange pp env h KindBackend current newPort of
        Inl e \<Rightarrow> (Some e, h)
      | Inr p \<Rightarrow>
          (case writePlan pp env p h of
             (Inl e, h1) \<Rightarrow> (Some e, h1)
           | (Inr changes, h1) \<Rightarrow>
               let undo = (\<lambda>h. (snd (restoreAll pp env changes h))) in
               if he_outcome_fails env then (Some PlainError, undo h1)
               else let h2 = h1\<lparr>h_outcome := Some \<lparr>oc_history = historyID, oc_old = Backend current,
                                  oc_new = newPort, oc_state = StateRunning\<rparr>\<rparr> in
                 (case writeHelper env backup_dir changes current newPort historyID h2 of
                    (False, h3) \<Rightarrow> (Some PlainError, (undo h3)\<lparr>h_outcome := None\<rparr>)
                  | (True, h3) \<Rightarrow>
                      if \<not> he_helper_starts env
                      then (Some (Refusal ReasonVerifyFailed), (undo h3)\<lparr>h_outcome := None\<rparr>)
                      else (None, h3))))"

text \<open>
  The script: restart and reload, wait for the new port; when it stays silent, one \<open>cp\<close> (or \<open>rm\<close>) for
  every file, restart and reload, wait for the old port. A \<open>cp\<close> that fails does not stop it.
\<close>

fun helper_restore :: "host_env \<Rightarrow> changes \<Rightarrow> host \<Rightarrow> host" where
  "helper_restore env [] h = h"
| "helper_restore env ((path, None) # cs) h =
     helper_restore env cs (h\<lparr>h_files := (h_files h)(path := None)\<rparr>)"
| "helper_restore env ((path, Some name) # cs) h =
     (case (if he_backup_lost env path then None else map_of (h_backups h) name) of
        None \<Rightarrow> helper_restore env cs h
      | Some content \<Rightarrow>
          helper_restore env cs (h\<lparr>h_files := (h_files h)(path \<mapsto> (case he_restore_fails env path of
              None \<Rightarrow> content | Some partial \<Rightarrow> partial))\<rparr>))"

definition run_helper :: "host_env \<Rightarrow> host \<Rightarrow> host" where
  "run_helper env h =
     (case h_helper h of
        None \<Rightarrow> h
      | Some hp \<Rightarrow>
          let report = (\<lambda>st h. h\<lparr>h_outcome := Some \<lparr>oc_history = hp_history hp, oc_old = hp_old hp,
                                   oc_new = hp_new hp, oc_state = st\<rparr>\<rparr>);
              h1 = reload (he_reload env) h
          in if he_new_answers env then report StateSucceeded h1
          else let h2 = reload (he_reload_again env) (helper_restore env (hp_restore hp) h1)
            in report (if he_old_answers env then StateRolledBack else StateRollbackFailed) h2)"

section \<open>Backups survive the change they are for\<close>

lemma insort_key_newest: "\<forall>y \<in> set ys. f y < f x \<Longrightarrow> insort_key f x ys = ys @ [x]"
  by (induction ys) auto

lemma pruned_names_prefix: "n \<in> set (pruned_names pref names) \<Longrightarrow> has_prefix n (pref @ ''.'')"
  by (auto simp: pruned_names_def Let_def dest!: in_set_takeD)

lemma newest_not_pruned:
  assumes own: "has_prefix name (pref @ ''.'')"
    and newest: "\<forall>n \<in> set names. has_prefix n (pref @ ''.'') \<longrightarrow> map byte n < map byte name"
  shows "name \<notin> set (pruned_names pref (name # names))"
proof -
  let ?ys = "sort_key (map byte) (filter (\<lambda>n. has_prefix n (pref @ ''.'')) names)"
  have "sort_key (map byte) (filter (\<lambda>n. has_prefix n (pref @ ''.'')) (name # names)) = ?ys @ [name]"
    using own newest by (simp add: insort_key_newest)
  then have "set (pruned_names pref (name # names)) \<subseteq> set ?ys"
    using set_take_subset [of _ ?ys] by (auto simp: pruned_names_def Let_def keptBackups_def)
  moreover have "name \<notin> set ?ys" using newest own by auto
  ultimately show ?thesis by blast
qed

text \<open>Every backup of path \<open>q\<close> on disk is older than the one this change would take.\<close>

definition newer :: "host_env \<Rightarrow> host \<Rightarrow> string \<Rightarrow> bool" where
  "newer env h q = (\<forall>n \<in> fst ` set (h_backups h). has_prefix n (flat_name q @ ''.'') \<longrightarrow>
     map byte n < map byte (backup_name env q))"

lemma own_prefix: "has_prefix (backup_name env p) (flat_name p @ ''.'')"
  by (auto simp: backup_name_def has_prefix_iff)

lemma backupOne_Some:
  assumes b: "backupOne env path h = (Inr backup, h')" and f: "h_files h path = Some content"
    and new: "newer env h path"
  shows "backup = Some (backup_name env path) \<and>
    h' = h\<lparr>h_backups := pruneBackups (flat_name path)
       ((backup_name env path, content) # filter (\<lambda>(n, c). n \<noteq> backup_name env path) (h_backups h))\<rparr> \<and>
    map_of (h_backups h') (backup_name env path) = Some content"
proof -
  let ?n = "backup_name env path"
  let ?old = "filter (\<lambda>(n, c). n \<noteq> ?n) (h_backups h)"
  have h': "backup = Some ?n" "h' = h\<lparr>h_backups := pruneBackups (flat_name path) ((?n, content) # ?old)\<rparr>"
    using b f by (auto simp: backupOne_def Let_def split: if_splits)
  have "?n \<notin> set (pruned_names (flat_name path) (?n # map fst ?old))"
    by (rule newest_not_pruned [OF own_prefix]) (use new in \<open>auto simp: newer_def\<close>)
  then show ?thesis using h' by (simp add: pruneBackups_def)
qed

lemma map_of_filter_key:
  "P k \<Longrightarrow> map_of (filter (\<lambda>(n, c). P n) xs) k = map_of xs k"
  by (induction xs) auto

lemma pruneBackups_other:
  "k \<notin> set (pruned_names pref (map fst bs)) \<Longrightarrow> map_of (pruneBackups pref bs) k = map_of bs k"
  by (simp add: pruneBackups_def map_of_filter_key)

lemma backupOne_other:
  assumes "backupOne env path h = (Inr backup, h')" and "\<not> has_prefix k (flat_name path @ ''.'')"
  shows "map_of (h_backups h') k = map_of (h_backups h) k"
proof -
  have k: "k \<noteq> backup_name env path" using assms(2) own_prefix by metis
  have "k \<notin> set (pruned_names (flat_name path) names)" for names
    using assms(2) pruned_names_prefix by blast
  then show ?thesis using assms(1) k
    by (auto simp: backupOne_def Let_def pruneBackups_other map_of_filter_key [of "\<lambda>n. n \<noteq> backup_name env path"]
        split: if_splits option.splits)
qed

lemma backupOne_newer:
  assumes "backupOne env path h = (Inr backup, h')" and "newer env h q"
    and "\<not> has_prefix (backup_name env path) (flat_name q @ ''.'')"
  shows "newer env h' q"
  using assms
  by (auto simp: backupOne_def Let_def newer_def pruneBackups_def split: if_splits option.splits)

lemma backupOne_frame:
  "backupOne env path h = (r, h') \<Longrightarrow> h_files h' = h_files h \<and> h_loaded h' = h_loaded h \<and>
     h_outcome h' = h_outcome h \<and> h_helper h' = h_helper h"
  by (auto simp: backupOne_def Let_def split: if_splits option.splits)

lemma backupOne_failed: "backupOne env path h = (Inl e, h') \<Longrightarrow> h' = h"
  by (auto simp: backupOne_def Let_def split: if_splits option.splits)

section \<open>All or nothing\<close>

text \<open>
  The conditions under which a roll back can be relied on: reading a backup and writing it back
  succeed, and the clock in the names runs forward, so that pruning does not take the new backups
  for old ones; and no file's backups look like another's.
\<close>

definition undo_works :: "port_paths \<Rightarrow> host_env \<Rightarrow> host \<Rightarrow> bool" where
  "undo_works pp env h =
     ((\<forall>p. \<not> he_backup_lost env p \<and> he_restore_fails env p = None) \<and>
      (\<forall>p. knownTarget pp p \<longrightarrow> newer env h p) \<and>
      (\<forall>p q. knownTarget pp p \<longrightarrow> knownTarget pp q \<longrightarrow> p \<noteq> q \<longrightarrow>
         \<not> has_prefix (backup_name env p) (flat_name q @ ''.'')))"

definition restorable :: "port_paths \<Rightarrow> (string \<rightharpoonup> string) \<Rightarrow> changes \<Rightarrow> host \<Rightarrow> bool" where
  "restorable pp f0 cs h =
     (\<forall>(p, b) \<in> set cs. knownTarget pp p \<and>
        (\<exists>n c. b = Some n \<and> map_of (h_backups h) n = Some c \<and> f0 p = Some c))"

lemma restoreAll_restores:
  assumes "\<forall>p. \<not> he_backup_lost env p \<and> he_restore_fails env p = None"
  shows "restorable pp f0 cs h \<Longrightarrow>
    restoreAll pp env cs h = (True, h\<lparr>h_files := (\<lambda>p. if p \<in> fst ` set cs then f0 p else h_files h p)\<rparr>)"
proof (induction cs arbitrary: h)
  case (Cons x cs)
  obtain p n c where x: "x = (p, Some n)" and c: "map_of (h_backups h) n = Some c" "f0 p = Some c"
    and k: "knownTarget pp p" and rest: "restorable pp f0 cs h"
    using Cons.prems by (cases x) (fastforce simp: restorable_def)
  let ?h = "h\<lparr>h_files := (h_files h)(p \<mapsto> c)\<rparr>"
  have "restorable pp f0 cs ?h" using rest by (simp add: restorable_def)
  note ih = Cons.IH [OF this]
  have "(\<lambda>q. if q \<in> fst ` set cs then f0 q else h_files ?h q) =
      (\<lambda>q. if q \<in> fst ` set (x # cs) then f0 q else h_files h q)"
    using x c by auto
  then show ?case using ih x c k assms by (simp add: writeFile_def)
qed simp

lemma restoreAll_undoes:
  assumes "\<forall>p. \<not> he_backup_lost env p \<and> he_restore_fails env p = None" and "restorable pp f0 cs h"
    and "\<forall>p. p \<notin> fst ` set cs \<longrightarrow> h_files h p = f0 p"
  shows "restoreAll pp env cs h = (True, h\<lparr>h_files := f0\<rparr>)"
proof -
  have "(\<lambda>p. if p \<in> fst ` set cs then f0 p else h_files h p) = f0" using assms(3) by auto
  then show ?thesis using restoreAll_restores [OF assms(1,2)] by simp
qed

text \<open>What holds of the host while files are being written.\<close>

definition writing :: "port_paths \<Rightarrow> host_env \<Rightarrow> host \<Rightarrow> changes \<Rightarrow> plan \<Rightarrow> host \<Rightarrow> bool" where
  "writing pp env h0 done p h =
     (restorable pp (h_files h0) done h \<and> (\<forall>q. q \<notin> fst ` set done \<longrightarrow> h_files h q = h_files h0 q) \<and>
      distinct (map fst p) \<and> fst ` set done \<inter> fst ` set p = {} \<and>
      (\<forall>q \<in> fst ` set p. knownTarget pp q \<and> h_files h0 q \<noteq> None \<and> newer env h q) \<and>
      (\<forall>(q, b) \<in> set done. b = Some (backup_name env q)))"

lemma writing_step:
  assumes w: "writing pp env h0 done ((path, content) # p) h" and u: "undo_works pp env h0"
    and b: "backupOne env path h = (Inr backup, h1)"
  shows "writing pp env h0 (done @ [(path, backup)]) p (h1\<lparr>h_files := (h_files h1)(path := v)\<rparr>)"
proof -
  obtain c where c: "h_files h path = Some c" "h_files h0 path = Some c"
    using w by (auto simp: writing_def)
  have new: "newer env h path" and k: "knownTarget pp path" using w by (auto simp: writing_def)
  have sep: "\<not> has_prefix (backup_name env q) (flat_name r @ ''.'')"
    if "knownTarget pp q" "knownTarget pp r" "q \<noteq> r" for q r
    using u that by (auto simp: undo_works_def)
  note s = backupOne_Some [OF b c(1) new]
  have kept: "restorable pp (h_files h0) done (h1\<lparr>h_files := (h_files h1)(path := v)\<rparr>)"
    unfolding restorable_def
  proof (clarify)
    fix q b'
    assume q: "(q, b') \<in> set done"
    have r: "restorable pp (h_files h0) done h" "\<forall>(q, b) \<in> set done. b = Some (backup_name env q)"
      using w unfolding writing_def by blast+
    have b': "b' = Some (backup_name env q)" using bspec [OF r(2) q] by simp
    have kq: "knownTarget pp q" and c: "\<exists>c. map_of (h_backups h) (backup_name env q) = Some c \<and> h_files h0 q = Some c"
      using bspec [OF r(1) [unfolded restorable_def] q] b' by auto
    have "fst ` set done \<inter> fst ` set ((path, content) # p) = {}" using w unfolding writing_def by blast
    moreover have "q \<in> fst ` set done" using q by force
    ultimately have "q \<noteq> path" by auto
    then have "map_of (h_backups h1) (backup_name env q) = map_of (h_backups h) (backup_name env q)"
      by (intro backupOne_other [OF b] sep kq k)
    with c b' kq show "knownTarget pp q \<and> (\<exists>n c. b' = Some n \<and>
        map_of (h_backups (h1\<lparr>h_files := (h_files h1)(path := v)\<rparr>)) n = Some c \<and> h_files h0 q = Some c)"
      by auto
  qed
  have rest: "newer env h1 q" if "q \<in> fst ` set p" for q
  proof -
    have "knownTarget pp q" "newer env h q" "q \<noteq> path" using w that by (auto simp: writing_def)
    then show ?thesis by (intro backupOne_newer [OF b] sep k) auto
  qed
  have "h_files h1 = h_files h" using backupOne_frame [OF b] by simp
  then show ?thesis using w kept s c k rest
    unfolding writing_def by (auto simp: restorable_def newer_def)
qed

lemma writeFile_known:
  "knownTarget pp path \<Longrightarrow> \<exists>v. snd (writeFile pp failure path content h) = h\<lparr>h_files := (h_files h)(path := v)\<rparr> \<and>
     (fst (writeFile pp failure path content h) \<longrightarrow> v = Some content)"
  by (auto simp: writeFile_def split: option.splits)

lemma writeFiles_result:
  "writing pp env h0 done p h \<Longrightarrow> undo_works pp env h0 \<Longrightarrow>
   case writeFiles pp env done p h of
     (Inl e, h') \<Rightarrow> e = PlainError \<and> h_files h' = h_files h0 \<and> h_loaded h' = h_loaded h
   | (Inr cs, h') \<Rightarrow> writing pp env h0 cs [] h' \<and> h_loaded h' = h_loaded h \<and>
       (\<forall>q. h_files h' q = (case map_of p q of Some c \<Rightarrow> Some c | None \<Rightarrow> h_files h q))"
proof (induction pp env "done" p h rule: writeFiles.induct)
  case (1 pp env "done" h)
  then show ?case by simp
next
  case (2 pp env "done" path content p h)
  have lost: "\<forall>p. \<not> he_backup_lost env p \<and> he_restore_fails env p = None"
    using 2(3) by (simp add: undo_works_def)
  have undo: "snd (restoreAll pp env cs k) = k\<lparr>h_files := h_files h0\<rparr>" if "writing pp env h0 cs q k" for cs q k
  proof -
    have "restoreAll pp env cs k = (True, k\<lparr>h_files := h_files h0\<rparr>)"
      by (rule restoreAll_undoes [OF lost]) (use that in \<open>simp_all add: writing_def\<close>)
    then show ?thesis by simp
  qed
  obtain r h1 where b: "backupOne env path h = (r, h1)" by force
  show ?case
  proof (cases r)
    case (Inl e)
    then have "h1 = h" using b backupOne_failed by simp
    then show ?thesis using b Inl undo [OF 2(2)] by simp
  next
    case (Inr backup)
    note b' = b [unfolded Inr]
    have k: "knownTarget pp path" using 2(2) by (simp add: writing_def)
    have frame: "h_files h1 = h_files h" "h_loaded h1 = h_loaded h" using backupOne_frame [OF b] by simp_all
    obtain ok h2 where wr: "writeFile pp (he_write_fails env path) path content h1 = (ok, h2)" by force
    then obtain v where v: "h2 = h1\<lparr>h_files := (h_files h1)(path := v)\<rparr>" "ok \<longrightarrow> v = Some content"
      using writeFile_known [OF k, of "he_write_fails env path" content h1] by auto
    have step: "writing pp env h0 (done @ [(path, backup)]) p h2"
      unfolding v(1) by (rule writing_step [OF 2(2,3) b'])
    show ?thesis
    proof (cases ok)
      case False
      then show ?thesis using b' wr v frame undo [OF step] by simp
    next
      case True
      have "path \<notin> fst ` set p" using 2(2) by (simp add: writing_def)
      then have out: "map_of p path = None" by (simp add: map_of_eq_None_iff)
      have m: "(case map_of p q of Some c \<Rightarrow> Some c | None \<Rightarrow> h_files h2 q) =
          (case map_of ((path, content) # p) q of Some c \<Rightarrow> Some c | None \<Rightarrow> h_files h q)" for q
        using out v True frame by (cases "q = path") (simp_all split: option.splits)
      have same: "h_loaded h2 = h_loaded h" using v(1) frame by simp
      have "ok = True" using True by simp
      note IH = 2(1) [OF b [symmetric] Inr wr [symmetric] this step 2(3), unfolded m same]
      obtain x h3 where w: "writeFiles pp env (done @ [(path, backup)]) p h2 = (x, h3)" by force
      have "writeFiles pp env done ((path, content) # p) h = (x, h3)" using b' wr w True by simp
      then show ?thesis using IH w by simp
    qed
  qed
qed

lemma plan_add_fresh: "path \<notin> fst ` set p \<Longrightarrow> plan_add path c p = p @ [(path, c)]"
  by (simp add: plan_add_def)

lemma plan_add_fst: "map fst (plan_add path c p) = (if path \<in> set (map fst p) then map fst p else map fst p @ [path])"
proof -
  have "map fst (map (\<lambda>(q, c'). if q = path then (q, c) else (q, c')) p) = map fst p"
    by (induction p) auto
  then show ?thesis by (simp add: plan_add_def)
qed

lemma plan_add_paths: "fst ` set (plan_add path c p) = insert path (fst ` set p)"
proof -
  have "fst ` set (plan_add path c p) = set (map fst (plan_add path c p))" by simp
  also have "\<dots> = insert path (set (map fst p))" unfolding plan_add_fst by (simp only: insert_absorb set_append split: if_split) auto
  finally show ?thesis by simp
qed

lemma plan_add_distinct: "distinct (map fst p) \<Longrightarrow> distinct (map fst (plan_add path c p))"
  unfolding plan_add_fst by simp

text \<open>A plan writes each file once, and only files of this panel that are there.\<close>

lemma planChange_files:
  assumes "planChange pp env h kind current newPort = Inr p"
  shows "distinct (map fst p) \<and> (\<forall>q \<in> fst ` set p. knownTarget pp q \<and> h_files h q \<noteq> None)"
proof -
  have there: "read_file env h q = Some t \<Longrightarrow> h_files h q = Some t" for q t
    by (simp add: read_file_def split: if_splits)
  have dom: "distinct (map fst (addDomain pp (read_file env h (domain_path pp)) o1 n1 q)) \<and>
      fst ` set (addDomain pp (read_file env h (domain_path pp)) o1 n1 q) \<subseteq>
        fst ` set q \<union> (if h_files h (domain_path pp) = None then {} else {domain_path pp})"
    if "distinct (map fst q)" for o1 n1 q
  proof (cases "read_file env h (domain_path pp)")
    case (Some body)
    obtain moved count where "SetProxyPort body o1 n1 = (moved, count)" by force
    then show ?thesis using that there [OF Some] Some
      by (cases "0 < count") (simp_all add: addDomain_def plan_add_paths plan_add_distinct subset_insertI)
  next
    case None
    then show ?thesis using that by (simp add: addDomain_def)
  qed
  obtain vhost where vhost: "h_files h (vhost_path pp) = Some vhost"
    using assms there by (auto simp: planChange_def split: option.splits)
  have two: "distinct (map fst (plan_add (vhost_path pp) a (plan_add (env_path pp) b [])))"
    "distinct (map fst (plan_add (vhost_path pp) a []))" for a b
    by (intro plan_add_distinct; simp)+
  show ?thesis
  proof (cases kind)
    case KindExternal
    then obtain moved where p: "p = addDomain pp (read_file env h (domain_path pp)) (External current) newPort
        (plan_add (vhost_path pp) moved [])"
      using assms by (auto simp: planChange_def planExternal_def Let_def split: option.splits sum.splits if_splits)
    show ?thesis using dom [OF two(2), of "External current" newPort moved] vhost
      unfolding p by (auto simp: plan_add_paths knownTarget_def split: if_splits)
  next
    case KindBackend
    then obtain moved written envText where env: "h_files h (env_path pp) = Some envText"
      and p: "p = addDomain pp (read_file env h (domain_path pp)) (Backend current) newPort
        (plan_add (vhost_path pp) moved (plan_add (env_path pp) written []))"
      using assms there
      by (auto simp: planChange_def planBackend_def Let_def split: option.splits sum.splits if_splits prod.splits)
    show ?thesis using dom [OF two(1), of "Backend current" newPort moved written] vhost env
      unfolding p by (auto simp: plan_add_paths knownTarget_def split: if_splits)
  qed
qed

lemma writing_start:
  assumes "planChange pp env h kind current newPort = Inr p" and "undo_works pp env h"
  shows "writing pp env h [] p h"
  using planChange_files [OF assms(1)] assms(2) by (auto simp: writing_def restorable_def undo_works_def)

lemma writing_undone:
  assumes "writing pp env h cs [] h1" and "undo_works pp env h" and "h_files h2 = h_files h1" and "h_backups h2 = h_backups h1"
  shows "restoreAll pp env cs h2 = (True, h2\<lparr>h_files := h_files h\<rparr>)"
proof (rule restoreAll_undoes)
  show "\<forall>p. \<not> he_backup_lost env p \<and> he_restore_fails env p = None" using assms(2) by (simp add: undo_works_def)
  show "restorable pp (h_files h) cs h2" using assms(1,4) by (simp add: writing_def restorable_def)
  show "\<forall>p. p \<notin> fst ` set cs \<longrightarrow> h_files h2 p = h_files h p" using assms(1,3) by (simp add: writing_def)
qed

text \<open>The two ways a written plan ends, and undoing it afterwards.\<close>

lemma writePlan_result:
  assumes plan: "planChange pp env h kind current newPort = Inr p" and u: "undo_works pp env h"
  shows "case writePlan pp env p h of
     (Inl e, h') \<Rightarrow> e \<noteq> Refusal ReasonRolledBack \<and> h_files h' = h_files h \<and> h_loaded h' = h_loaded h
   | (Inr cs, h') \<Rightarrow> writing pp env h cs [] h' \<and> h_loaded h' = h_loaded h \<and>
       (\<forall>q. h_files h' q = (case map_of p q of Some c \<Rightarrow> Some c | None \<Rightarrow> h_files h q))"
proof -
  note r = writeFiles_result [OF writing_start [OF plan u] u]
  obtain x h1 where w: "writeFiles pp env [] p h = (x, h1)" by force
  show ?thesis
  proof (cases x)
    case (Inl e)
    then show ?thesis using r w by (simp add: writePlan_def)
  next
    case (Inr cs)
    show ?thesis
    proof (cases "he_nginx_test env")
      case False
      have "writing pp env h cs [] h1" using r w Inr by simp
      then have "restoreAll pp env cs h1 = (True, h1\<lparr>h_files := h_files h\<rparr>)"
        by (rule writing_undone [OF _ u refl refl])
      then show ?thesis using r w Inr False by (simp add: writePlan_def reason_defs)
    qed (use r w Inr in \<open>simp add: writePlan_def\<close>)
  qed
qed


definition sample_paths :: port_paths where
  "sample_paths = \<lparr>env_path = ''/e'', vhost_path = ''/v'', domain_path = ''/d''\<rparr>"

definition sample_listen :: "string \<Rightarrow> string" where
  "sample_listen port = ''listen '' @ port @ '' default_server;'' @ [CHR 10]"

definition sample_proxy :: "string \<Rightarrow> string" where
  "sample_proxy port = ''proxy_pass http://127.0.0.1:'' @ port @ '';'' @ [CHR 10]"

definition sample_env_line :: "string \<Rightarrow> string" where
  "sample_env_line port = ''SERVIKA_LISTEN=127.0.0.1:'' @ port @ [CHR 10]"

definition sample_files :: "string \<rightharpoonup> string" where
  "sample_files = [''/v'' \<mapsto> sample_listen ''84'' @ sample_proxy ''80'', ''/e'' \<mapsto> sample_env_line ''80'']"

definition sample_host :: host where
  "sample_host = \<lparr>h_files = sample_files, h_backups = [], h_loaded = sample_files, h_outcome = None, h_helper = None\<rparr>"

text \<open>A host where nothing fails but the new port, which stays silent.\<close>

definition sample_silent :: host_env where
  "sample_silent = \<lparr>he_unreadable = (\<lambda>p. False), he_backup_fails = (\<lambda>p. False), he_stamp = (\<lambda>p. ''1''),
     he_write_fails = (\<lambda>p. None), he_backup_lost = (\<lambda>p. False), he_restore_fails = (\<lambda>p. None),
     he_nginx_test = True, he_reload = True, he_reload_again = True, he_new_answers = False,
     he_old_answers = True, he_outcome_fails = False, he_helper_fails = False, he_helper_starts = True\<rparr>"

lemma sample_undo_works: "undo_works sample_paths sample_silent sample_host"
proof -
  have "flat_name ''/e'' = ''e''" "flat_name ''/v'' = ''v''" "flat_name ''/d'' = ''d''"
    by code_simp+
  then show ?thesis
    by (auto simp: undo_works_def newer_def sample_silent_def sample_host_def backup_name_def knownTarget_def
        sample_paths_def has_prefix_def)
qed

definition sample_ports :: ports where
  "sample_ports = \<lparr>Backend = 80, BackendHost = ''127.0.0.1'', External = 84\<rparr>"


section \<open>The detached helper\<close>

lemma helper_restores:
  assumes "\<forall>p. \<not> he_backup_lost env p \<and> he_restore_fails env p = None"
  shows "restorable pp f0 cs h \<Longrightarrow>
    helper_restore env cs h = h\<lparr>h_files := (\<lambda>p. if p \<in> fst ` set cs then f0 p else h_files h p)\<rparr>"
proof (induction cs arbitrary: h)
  case (Cons x cs)
  obtain p n c where x: "x = (p, Some n)" and c: "map_of (h_backups h) n = Some c" "f0 p = Some c"
    and rest: "restorable pp f0 cs h"
    using Cons.prems by (cases x) (fastforce simp: restorable_def)
  let ?h = "h\<lparr>h_files := (h_files h)(p \<mapsto> c)\<rparr>"
  have "restorable pp f0 cs ?h" using rest by (simp add: restorable_def)
  note ih = Cons.IH [OF this]
  have "(\<lambda>q. if q \<in> fst ` set cs then f0 q else h_files ?h q) =
      (\<lambda>q. if q \<in> fst ` set (x # cs) then f0 q else h_files h q)"
    using x c by auto
  then show ?case using ih x c assms by simp
qed simp



section \<open>What a failed restore is reported as\<close>

text \<open>The host above, where nginx refuses the new configuration and the old file cannot be written back.\<close>

definition sample_refused :: host_env where
  "sample_refused = sample_silent\<lparr>he_nginx_test := False, he_restore_fails := (\<lambda>p. Some ''x'')\<rparr>"

text \<open>
  An error of the verification does not say whether the restore behind it worked: when nginx
  refuses the new configuration and writing the old file back fails too, the change reports
  \<open>panel_port_verification_failed\<close>, the same answer as when everything was put back, and leaves a
  damaged file in place.
\<close>
theorem failed_restore_reported_as_verification:
  "case ApplyExternal sample_paths sample_refused sample_ports 85 sample_host of
     (e, h') \<Rightarrow> e = Some (Refusal ReasonVerifyFailed) \<and> h_files h' ''/v'' = Some ''x'' \<and>
       h_files sample_host ''/v'' \<noteq> Some ''x''"
  by code_simp

text \<open>
  The proxied port is found as a substring, so a line that proxies to a longer port is rewritten
  too: moving the backend from 80 to 85 turns the proxy to port 8080 into one to port 8580.
\<close>
theorem proxy_port_prefix_rewritten:
  "SetProxyPort (sample_proxy ''80'' @ sample_proxy ''8080'') 80 85 =
     (sample_proxy ''85'' @ sample_proxy ''8580'', 2)"
  by code_simp

end
