(* ===== verification/Chains.thy ===== *)
theory Chains
  imports GoText "HOL-Library.Multiset"
begin

text \<open>
  The attack-chain correlator (internal/chains/chains.go): the score of a tenant's events, the
  correlation round that turns scores into stored chains and alerts, event recording with its
  duplicate check, and retention. Stages are strings, as in the rows; times are those of the rows.
\<close>

section \<open>The score\<close>

definition windowMin :: int where "windowMin = 15"
definition rededupeMin :: int where "rededupeMin = 30"
definition domainCoolMin :: int where "domainCoolMin = 30"
definition domainMax :: nat where "domainMax = 3"
definition eventLimit :: nat where "eventLimit = 500"
definition retentionDays :: int where "retentionDays = 7"
definition insertDedupeSec :: int where "insertDedupeSec = 30"

definition stageOrder :: "string \<Rightarrow> nat option" where
  "stageOrder s = map_of [(''entry'', 0), (''file_write'', 1), (''execution'', 2), (''c2'', 3), (''persistence'', 4)] s"

definition stageName :: "string \<Rightarrow> string option" where
  "stageName s = map_of [(''entry'', ''Initial Access''), (''file_write'', ''File Write''),
     (''execution'', ''Execution''), (''c2'', ''C2''), (''persistence'', ''Persistence'')] s"

record event =
  Stage :: string
  Level :: string
  Path :: string
  Pid :: int
  Time :: time

record result =
  Confidence :: int
  Stages :: "string list"
  ResultLevel :: string
  Causal :: bool
  Enough :: bool

definition no_result :: result where
  "no_result = \<lparr>Confidence = 0, Stages = [], ResultLevel = [], Causal = False, Enough = False\<rparr>"

definition LevelWarning :: string where "LevelWarning = ''warning''"
definition LevelCritical :: string where "LevelCritical = ''critical''"

definition chainConfidence :: "nat \<Rightarrow> bool \<Rightarrow> bool \<Rightarrow> int" where
  "chainConfidence stages causal ordered =
     (let confidence = 40 + (int stages - 1) * 15;
          confidence = (if causal then confidence + 25 else confidence);
          confidence = (if ordered then confidence + 5 else confidence)
      in if 99 < confidence then 99 else confidence)"

text \<open>\<open>filepath.ToSlash\<close> changes nothing where the separator is the slash.\<close>

definition pathLinked :: "string \<Rightarrow> string \<Rightarrow> bool" where
  "pathLinked a b = (if a = [] \<or> b = [] then False else a = b)"

definition linked :: "event \<Rightarrow> event \<Rightarrow> bool" where
  "linked a b =
     (Stage a \<noteq> Stage b \<and> (0 < Pid a \<and> Pid a = Pid b \<or> pathLinked (Path a) (Path b)))"

fun causalLink :: "event list \<Rightarrow> bool" where
  "causalLink [] = False"
| "causalLink (e # es) = (list_ex (linked e) es \<or> causalLink es)"

text \<open>The map of first occurrences; \<open>None\<close> as soon as an event has no time.\<close>

fun first_times :: "(string \<rightharpoonup> time) \<Rightarrow> event list \<Rightarrow> (string \<rightharpoonup> time) option" where
  "first_times first [] = Some first"
| "first_times first (e # es) =
     (if Time e = zero_time then None
      else first_times
        (case first (Stage e) of
           None \<Rightarrow> first(Stage e \<mapsto> Time e)
         | Some t \<Rightarrow> if Time e < t then first(Stage e \<mapsto> Time e) else first) es)"

definition read_first :: "(string \<rightharpoonup> time) \<Rightarrow> string \<Rightarrow> time" where
  "read_first first s = (case first s of None \<Rightarrow> zero_time | Some t \<Rightarrow> t)"

fun in_order :: "(string \<rightharpoonup> time) \<Rightarrow> string list \<Rightarrow> bool" where
  "in_order first (s # t # ss) = (\<not> read_first first t < read_first first s \<and> in_order first (t # ss))"
| "in_order first ss = True"

definition timeOrdered :: "event list \<Rightarrow> string list \<Rightarrow> bool" where
  "timeOrdered events stages =
     (case first_times Map.empty events of None \<Rightarrow> False | Some first \<Rightarrow> in_order first stages)"

definition rank :: "string \<Rightarrow> nat" where
  "rank s = (case stageOrder s of None \<Rightarrow> 0 | Some n \<Rightarrow> n)"

definition present :: "event list \<Rightarrow> string list" where
  "present events = remdups (filter (\<lambda>s. stageOrder s \<noteq> None) (map Stage events))"

definition ChainScore :: "event list \<Rightarrow> result" where
  "ChainScore events =
     (if length (present events) < 2 then no_result
      else
        let stages = sort_key rank (present events);
            n = length (present events);
            causal = causalLink events;
            ordered = timeOrdered events stages;
            level = (if causal \<or> 3 \<le> n \<and> ordered then LevelCritical else LevelWarning)
        in \<lparr>Confidence = chainConfidence n causal ordered, Stages = stages, ResultLevel = level,
             Causal = causal, Enough = True\<rparr>)"

definition ChainSignature :: "(string \<Rightarrow> string) \<Rightarrow> int \<Rightarrow> string list \<Rightarrow> string" where
  "ChainSignature sha256_hex domainID stages =
     take 32 (sha256_hex (itoa domainID @ ''|'' @ join ''>'' stages))"

definition StageName :: "string \<Rightarrow> string" where
  "StageName stage = (case stageName stage of None \<Rightarrow> stage | Some n \<Rightarrow> n)"

definition arrow :: string where
  "arrow = [CHR 0x20, CHR 0xE2, CHR 0x86, CHR 0x92, CHR 0x20]"

definition StageSummary :: "string list \<Rightarrow> string" where
  "StageSummary stages = join arrow (List.map_filter stageName stages)"

section \<open>The score depends on the set of events\<close>

lemma linked_sym: "linked a b = linked b a"
  by (auto simp: linked_def pathLinked_def)

lemma linked_iff:
  "linked a b \<longleftrightarrow> Stage a \<noteq> Stage b \<and> (0 < Pid a \<and> Pid a = Pid b \<or> Path a \<noteq> [] \<and> Path a = Path b)"
  by (auto simp: linked_def pathLinked_def)

lemma causalLink_iff: "causalLink es = (\<exists>a \<in> set es. \<exists>b \<in> set es. linked a b)"
proof (induction es)
  case (Cons e es)
  have "\<not> linked e e" by (simp add: linked_def)
  then show ?case using Cons linked_sym by (auto simp: list_ex_iff)
qed simp

definition min_opt :: "time option \<Rightarrow> time \<Rightarrow> time option" where
  "min_opt a t = (case a of None \<Rightarrow> Some t | Some s \<Rightarrow> if t < s then Some t else Some s)"

lemma first_times_step:
  "(case first k of None \<Rightarrow> first(k \<mapsto> t) | Some s \<Rightarrow> if t < s then first(k \<mapsto> t) else first) =
   first(k := min_opt (first k) t)"
  by (auto simp: min_opt_def fun_eq_iff split: option.splits)

text \<open>The least time a stage has, over the times seen before and those of the list.\<close>

definition least_of :: "time set \<Rightarrow> time option" where
  "least_of T = (if T = {} then None else Some (Min T))"

lemma min_less_if: "min (a::time) b = (if a < b then a else b)"
  by auto

lemma min_opt_least: "finite A \<Longrightarrow> min_opt (least_of A) t = least_of (insert t A)"
proof (cases "A = {}")
  case False
  assume f: "finite A"
  have "Min (insert t A) = min t (Min A)" by (rule Min_insert [OF f False])
  also have "\<dots> = (if t < Min A then t else Min A)" by (rule min_less_if)
  finally have "Min (insert t A) = (if t < Min A then t else Min A)" .
  then show ?thesis using False unfolding min_opt_def least_of_def by (simp only: if_False insert_not_empty option.case split: if_split) simp
qed (simp add: min_opt_def least_of_def)

lemma first_times_result:
  "(\<And>s. finite (T s) \<and> first s = least_of (T s)) \<Longrightarrow>
   first_times first es =
     (if \<exists>e \<in> set es. Time e = zero_time then None
      else Some (\<lambda>s. least_of (T s \<union> Time ` {e \<in> set es. Stage e = s})))"
proof (induction es arbitrary: first T)
  case Nil
  then show ?case by (auto simp: fun_eq_iff)
next
  case (Cons e es)
  let ?T = "T(Stage e := insert (Time e) (T (Stage e)))"
  have "finite (?T s) \<and> (first(Stage e := min_opt (first (Stage e)) (Time e))) s = least_of (?T s)" for s
    using Cons.prems [of "Stage e"] Cons.prems [of s] min_opt_least [of "T (Stage e)" "Time e"] by simp
  note IH = Cons.IH [of ?T, OF this]
  have "?T s \<union> Time ` {x \<in> set es. Stage x = s} = T s \<union> Time ` {x \<in> set (e # es). Stage x = s}" for s
    by auto
  note IH' = IH [unfolded this]
  show ?case unfolding first_times.simps first_times_step IH' by simp
qed

lemma first_times_set:
  "first_times Map.empty es =
     (if \<exists>e \<in> set es. Time e = zero_time then None
      else Some (\<lambda>s. least_of (Time ` {e \<in> set es. Stage e = s})))"
  using first_times_result [of "\<lambda>s. {}" Map.empty es] by (simp add: least_of_def)

lemma stageOrder_inj: "stageOrder s \<noteq> None \<Longrightarrow> stageOrder t \<noteq> None \<Longrightarrow> rank s = rank t \<Longrightarrow> s = t"
  by (auto simp: stageOrder_def rank_def split: if_splits)

lemma present_known: "s \<in> set (present es) \<Longrightarrow> stageOrder s \<noteq> None"
  by (auto simp: present_def)

lemma sort_key_set:
  assumes "distinct xs" "distinct ys" "set xs = set ys" "inj_on f (set xs)"
  shows "sort_key f xs = sort_key f ys"
proof -
  have "map f (sort_key f xs) = map f (sort_key f ys)"
    by (rule sorted_distinct_set_unique) (use assms in \<open>simp_all add: distinct_map\<close>)
  then show ?thesis
    by (rule map_inj_on) (use assms in \<open>simp_all\<close>)
qed

lemma present_cong: "set es = set es' \<Longrightarrow> set (present es) = set (present es')"
  by (simp add: present_def)

lemma present_length: "length (present es) = card (set (present es))"
  by (simp add: present_def length_remdups_card_conv)

lemma present_inj: "inj_on rank (set (present es))"
  by (rule inj_onI) (meson present_known stageOrder_inj)

text \<open>
  The score of a chain depends on which events there are and not on how often or in what order
  they were recorded: a detector that fires again, or rows read in another order, changes nothing.
\<close>
theorem ChainScore_by_events:
  assumes "set es = set es'"
  shows "ChainScore es = ChainScore es'"
proof -
  have "sort_key rank (present es) = sort_key rank (present es')"
    by (rule sort_key_set) (simp_all add: present_cong [OF assms] present_inj, simp_all add: present_def)
  moreover have "length (present es) = length (present es')"
    unfolding present_length present_cong [OF assms] ..
  moreover have "causalLink es = causalLink es'" by (simp add: causalLink_iff assms)
  moreover have "timeOrdered es ss = timeOrdered es' ss" for ss
    by (simp add: timeOrdered_def first_times_set assms)
  ultimately show ?thesis by (simp add: ChainScore_def)
qed

definition sample_event :: "string \<Rightarrow> string \<Rightarrow> time \<Rightarrow> event" where
  "sample_event stage path t = \<lparr>Stage = stage, Level = LevelWarning, Path = path, Pid = 0, Time = t\<rparr>"

theorem ChainScore_by_events_witness:
  "ChainScore [sample_event ''execution'' ''/b'' 9, sample_event ''file_write'' ''/a'' 5, sample_event ''file_write'' ''/a'' 5] =
   ChainScore [sample_event ''file_write'' ''/a'' 5, sample_event ''execution'' ''/b'' 9]"
  by (rule ChainScore_by_events) auto

section \<open>What a level and a confidence say\<close>

lemma rank_bound: "rank s \<le> 4"
  by (auto simp: rank_def stageOrder_def)

lemma present_bound: "length (present es) \<le> 5"
proof -
  have "card (rank ` set (present es)) \<le> card {..4::nat}"
    by (rule card_mono) (use rank_bound in auto)
  then show ?thesis by (simp add: present_length card_image [OF present_inj])
qed

text \<open>
  Two independent weak signals never become a critical alert: a chain is critical only when two
  events of different stages share a process or a file, or when three or more stages follow each
  other in kill-chain order. Fewer than two stages make no chain, and the confidence of a chain lies
  between 55 and 99.
\<close>
theorem ChainScore_evidence:
  "if card (Stage ` set es \<inter> {s. stageOrder s \<noteq> None}) < 2 then ChainScore es = no_result
   else Enough (ChainScore es) \<and>
     set (Stages (ChainScore es)) = Stage ` set es \<inter> {s. stageOrder s \<noteq> None} \<and>
     sorted (map rank (Stages (ChainScore es))) \<and>
     55 \<le> Confidence (ChainScore es) \<and> Confidence (ChainScore es) \<le> 99 \<and>
     (Causal (ChainScore es) = (\<exists>a \<in> set es. \<exists>b \<in> set es. Stage a \<noteq> Stage b \<and>
        (0 < Pid a \<and> Pid a = Pid b \<or> Path a \<noteq> [] \<and> Path a = Path b))) \<and>
     (ResultLevel (ChainScore es) = LevelCritical) =
       (Causal (ChainScore es) \<or>
        3 \<le> length (Stages (ChainScore es)) \<and> timeOrdered es (Stages (ChainScore es)))"
proof -
  have s: "set (present es) = Stage ` set es \<inter> {s. stageOrder s \<noteq> None}" by (auto simp: present_def)
  have n: "length (present es) = card (Stage ` set es \<inter> {s. stageOrder s \<noteq> None})"
    by (simp add: present_length s)
  have c: "causalLink es = (\<exists>a \<in> set es. \<exists>b \<in> set es. Stage a \<noteq> Stage b \<and>
        (0 < Pid a \<and> Pid a = Pid b \<or> Path a \<noteq> [] \<and> Path a = Path b))"
    unfolding causalLink_iff linked_iff ..
  have b: "2 \<le> d \<Longrightarrow> 55 \<le> chainConfidence d x y \<and> chainConfidence d x y \<le> 99" for d x y
    by (auto simp: chainConfidence_def Let_def)
  show ?thesis
  proof (cases "length (present es) < 2")
    case True
    then show ?thesis using n by (simp add: ChainScore_def)
  next
    case False
    then show ?thesis using n b [of "length (present es)"]
      by (simp add: ChainScore_def Let_def s c [symmetric] LevelCritical_def LevelWarning_def)
  qed
qed

end
