(* ===== verification/ChainRounds.thy ===== *)
theory ChainRounds
  imports Chains Access
begin

text \<open>
  The database side of the attack-chain correlator (internal/chains: chains.go, api.go, handler.go):
  recording events, finding successful brute force in the login log, the correlation round with its
  limits, retention, and the list a caller is shown. Tables are lists of rows in the order they were
  inserted; a statement can fail, and a statement's \<open>NOW()\<close> is a time of its environment.
\<close>

section \<open>State\<close>

record av_row =
  v_domain :: "int option"
  v_actor :: "int option"
  v_source :: string
  v_stage :: string
  v_level :: string
  v_summary :: string
  v_path :: string
  v_pid :: int
  v_ref :: "string \<times> int"
  v_created :: time

record chain_row =
  c_id :: int
  c_domain :: int
  c_stages :: string
  c_confidence :: int
  c_level :: string
  c_count :: nat
  c_signature :: string
  c_created :: time

record alert =
  al_domain :: int
  al_name :: string
  al_summary :: string
  al_confidence :: int
  al_level :: string
  al_ref :: int

record login_row =
  lo_uid :: "int option"
  lo_name :: string
  lo_ip :: "string option"
  lo_action :: string
  lo_ok :: int
  lo_ts :: time

record chains_db =
  av_events :: "av_row list"
  av_chains :: "chain_row list"
  next_chain :: int
  alerts :: "alert list"
  logins :: "login_row list"
  scope :: scope_db
  names :: "int \<rightharpoonup> string"

datatype chain_statement =
  ListDomains | ReadOwners int | ReadEvents int | ReadSignature | ReadCooldown int | InsertChain |
  InsertAlert | ReadName int | DuplicateCheck | InsertEvent | FindBursts | ReadEntry int |
  InsertEntry int | ListChains

text \<open>
  \<open>ce_fails\<close>: the statement fails; \<open>ce_breaks\<close>: its result set ends with an error; \<open>ce_unreadable\<close>:
  rows that cannot be scanned. \<open>ce_read\<close> and \<open>ce_write\<close> are \<open>NOW()\<close> of the reads and of the insert.
\<close>

record chain_env =
  ce_fails :: "chain_statement \<Rightarrow> bool"
  ce_breaks :: "chain_statement \<Rightarrow> bool"
  ce_unreadable :: "av_row \<Rightarrow> bool"
  ce_skipped :: "int \<Rightarrow> bool"
  ce_read :: time
  ce_write :: time

text \<open>SHA-256 in hexadecimal, the collation's equality and the IP parser's verdict.\<close>

record chain_lib =
  cl_sha256 :: "string \<Rightarrow> string"
  cl_collate :: "string \<Rightarrow> string"
  cl_valid_ip :: "string \<Rightarrow> bool"

section \<open>Recording an event\<close>

definition truncate_bytes :: "string \<Rightarrow> nat \<Rightarrow> string" where
  "truncate_bytes s n = (if length s \<le> n then s else take n s)"

definition WriteEvent :: "chain_lib \<Rightarrow> chain_env \<Rightarrow> int \<Rightarrow> string \<Rightarrow> string \<Rightarrow> string \<Rightarrow> string \<Rightarrow> string \<Rightarrow> int \<Rightarrow>
    string \<times> int \<Rightarrow> chains_db \<Rightarrow> chains_db" where
  "WriteEvent lib env domainID source stage level summary path pid ref db =
     (if domainID \<le> 0 then db
      else if \<not> ce_fails env DuplicateCheck \<and>
          list_ex (\<lambda>r. v_domain r = Some domainID \<and> cl_collate lib (v_stage r) = cl_collate lib stage \<and>
            cl_collate lib (v_path r) = cl_collate lib (truncate_bytes path 500) \<and>
            ce_read env - insertDedupeSec * second \<le> v_created r) (av_events db) then db
      else if ce_fails env InsertEvent then db
      else db\<lparr>av_events := av_events db @ [\<lparr>v_domain = Some domainID, v_actor = None, v_source = source,
          v_stage = stage, v_level = level, v_summary = truncate_bytes summary 250, v_path = truncate_bytes path 500,
          v_pid = pid, v_ref = ref, v_created = ce_write env\<rparr>]\<rparr>)"

section \<open>The round\<close>

definition windowedDomains :: "chain_env \<Rightarrow> chains_db \<Rightarrow> int list option" where
  "windowedDomains env db =
     (if ce_fails env ListDomains \<or> ce_breaks env ListDomains then None
      else Some (filter (\<lambda>d. \<not> ce_skipped env d \<and> 0 < d)
        (remdups (List.map_filter v_domain
          (filter (\<lambda>r. ce_read env - windowMin * minute \<le> v_created r) (av_events db))))))"

definition positive_or :: "int option \<Rightarrow> int" where
  "positive_or x = (case x of None \<Rightarrow> -1 | Some n \<Rightarrow> if 0 < n then n else -1)"

definition owner_rows :: "scope_db \<Rightarrow> int \<Rightarrow> customer_row list" where
  "owner_rows s domainID =
     map snd (filter (\<lambda>(d, c). d_customer d = Some (cu_id c) \<and> d_id d = domainID)
       (List.product (domains s) (customers s)))"

definition domainOwners :: "chain_env \<Rightarrow> scope_db \<Rightarrow> int \<Rightarrow> int \<times> int" where
  "domainOwners env s domainID =
     (if ce_fails env (ReadOwners domainID) then (-1, -1)
      else (case owner_rows s domainID of
          [] \<Rightarrow> (-1, -1)
        | c # cs \<Rightarrow> (positive_or (cu_owner c), positive_or (cu_user c))))"

definition entry_of :: "int \<times> int \<Rightarrow> av_row \<Rightarrow> bool" where
  "entry_of owners r =
     (v_domain r = None \<and> v_stage r = ''entry'' \<and>
      (case v_actor r of None \<Rightarrow> False | Some a \<Rightarrow> a = fst owners \<or> a = snd owners))"

definition event_of :: "av_row \<Rightarrow> event" where
  "event_of r = \<lparr>Stage = v_stage r, Level = v_level r, Path = v_path r, Pid = v_pid r, Time = v_created r\<rparr>"

definition domainEvents :: "chain_env \<Rightarrow> int \<Rightarrow> chains_db \<Rightarrow> event list option" where
  "domainEvents env domainID db =
     (if ce_fails env (ReadEvents domainID) \<or> ce_breaks env (ReadEvents domainID) then None
      else let owners = domainOwners env (scope db) domainID;
               rows = filter (\<lambda>r. (v_domain r = Some domainID \<or> entry_of owners r) \<and>
                   ce_read env - windowMin * minute \<le> v_created r) (av_events db)
           in Some (map event_of (filter (\<lambda>r. \<not> ce_unreadable env r)
                (take eventLimit (sort_key v_created rows)))))"

definition reportedRecently :: "chain_env \<Rightarrow> string \<Rightarrow> chains_db \<Rightarrow> bool" where
  "reportedRecently env signature db =
     (if ce_fails env ReadSignature then True
      else 0 < length (filter (\<lambda>c. c_signature c = signature \<and>
        ce_read env - rededupeMin * minute \<le> c_created c) (av_chains db)))"

definition domainSaturated :: "chain_env \<Rightarrow> int \<Rightarrow> chains_db \<Rightarrow> bool" where
  "domainSaturated env domainID db =
     (if ce_fails env (ReadCooldown domainID) then True
      else domainMax \<le> length (filter (\<lambda>c. c_domain c = domainID \<and>
        ce_read env - domainCoolMin * minute \<le> c_created c) (av_chains db)))"

definition domainName :: "chain_env \<Rightarrow> chains_db \<Rightarrow> int \<Rightarrow> string" where
  "domainName env db d =
     (if ce_fails env (ReadName d) then [] else case names db d of None \<Rightarrow> [] | Some n \<Rightarrow> n)"

definition chain_notify :: "chain_env \<Rightarrow> int \<Rightarrow> int \<Rightarrow> result \<Rightarrow> chains_db \<Rightarrow> chains_db" where
  "chain_notify env domainID chainID r db =
     (if ce_fails env InsertAlert then db
      else db\<lparr>alerts := alerts db @ [\<lparr>al_domain = domainID, al_name = domainName env db domainID,
          al_summary = StageSummary (Stages r), al_confidence = Confidence r, al_level = ResultLevel r,
          al_ref = chainID\<rparr>]\<rparr>)"

definition writeChain :: "chain_env \<Rightarrow> int \<Rightarrow> result \<Rightarrow> nat \<Rightarrow> string \<Rightarrow> chains_db \<Rightarrow> chains_db" where
  "writeChain env domainID r eventCount signature db =
     (if ce_fails env InsertChain then db
      else chain_notify env domainID (next_chain db) r
        (db\<lparr>next_chain := next_chain db + 1,
            av_chains := av_chains db @ [\<lparr>c_id = next_chain db, c_domain = domainID,
              c_stages = join ''>'' (Stages r), c_confidence = Confidence r, c_level = ResultLevel r,
              c_count = eventCount, c_signature = signature, c_created = ce_write env\<rparr>]\<rparr>))"

text \<open>The body of the round's loop, for one tenant.\<close>

definition correlate :: "chain_lib \<Rightarrow> chain_env \<Rightarrow> int \<Rightarrow> chains_db \<Rightarrow> chains_db" where
  "correlate lib env domainID db =
     (case domainEvents env domainID db of
        None \<Rightarrow> db
      | Some events \<Rightarrow>
          if length events < 2 then db
          else let r = ChainScore events in
            if \<not> Enough r then db
            else let signature = ChainSignature (cl_sha256 lib) domainID (Stages r) in
              if reportedRecently env signature db \<or> domainSaturated env domainID db then db
              else writeChain env domainID r (length events) signature db)"

text \<open>The statements of one tenant see the environment \<open>envs d\<close>.\<close>

definition Run :: "chain_lib \<Rightarrow> chain_env \<Rightarrow> (int \<Rightarrow> chain_env) \<Rightarrow> chains_db \<Rightarrow> bool \<times> chains_db" where
  "Run lib env envs db =
     (case windowedDomains env db of
        None \<Rightarrow> (False, db)
      | Some ds \<Rightarrow> (True, fold (\<lambda>d. correlate lib (envs d) d) ds db))"

section \<open>Retention\<close>

text \<open>\<open>DELETE ... LIMIT\<close>: the first rows that are old, and how many went.\<close>

fun delete_old :: "nat \<Rightarrow> ('r \<Rightarrow> bool) \<Rightarrow> 'r list \<Rightarrow> 'r list \<times> nat" where
  "delete_old limit old [] = ([], 0)"
| "delete_old 0 old rows = (rows, 0)"
| "delete_old (Suc k) old (r # rows) =
     (if old r then (case delete_old k old rows of (rest, n) \<Rightarrow> (rest, Suc n))
      else (case delete_old (Suc k) old rows of (rest, n) \<Rightarrow> (r # rest, n)))"

fun prune_table :: "nat \<Rightarrow> (nat \<Rightarrow> bool) \<Rightarrow> ('r \<Rightarrow> bool) \<Rightarrow> 'r list \<Rightarrow> 'r list" where
  "prune_table 0 fails old rows = rows"
| "prune_table (Suc batches) fails old rows =
     (if fails batches then rows
      else (case delete_old 5000 old rows of
          (rest, n) \<Rightarrow> if n < 5000 then rest else prune_table batches fails old rest))"

definition day :: duration where "day = 24 * hour"

definition prune :: "(nat \<Rightarrow> bool) \<Rightarrow> (nat \<Rightarrow> bool) \<Rightarrow> time \<Rightarrow> chains_db \<Rightarrow> chains_db" where
  "prune fails1 fails2 now db =
     db\<lparr>av_events := prune_table 20 fails1 (\<lambda>r. v_created r < now - retentionDays * day) (av_events db),
        av_chains := prune_table 20 fails2 (\<lambda>c. c_created c < now - retentionDays * day) (av_chains db)\<rparr>"

section \<open>The entry stage: a brute force that succeeded\<close>

definition entryThreshold :: nat where "entryThreshold = 5"
definition entryRededupMin :: int where "entryRededupMin = 10"

record loginBurst =
  actorUID :: int
  burst_fails :: nat
  burst_ip :: string
  distinct_ips :: nat

definition login_action :: "login_row \<Rightarrow> bool" where
  "login_action r = (lo_action r = ''auth.login'' \<or> lo_action r = ''customer.login'')"

text \<open>The two derived tables of the query: the names with a flood of failures, and the successes.\<close>

definition failed_rows :: "chain_lib \<Rightarrow> time \<Rightarrow> login_row list \<Rightarrow> string \<Rightarrow> login_row list" where
  "failed_rows lib now rows name =
     filter (\<lambda>r. login_action r \<and> lo_ok r = 0 \<and> now - windowMin * minute \<le> lo_ts r \<and>
       cl_collate lib (lo_name r) = name) rows"

definition success_rows :: "chain_lib \<Rightarrow> time \<Rightarrow> login_row list \<Rightarrow> string \<Rightarrow> int \<Rightarrow> login_row list" where
  "success_rows lib now rows name uid =
     filter (\<lambda>r. login_action r \<and> lo_ok r = 1 \<and> lo_uid r = Some uid \<and> 0 < uid \<and>
       now - windowMin * minute \<le> lo_ts r \<and> cl_collate lib (lo_name r) = name) rows"

definition least_time :: "time list \<Rightarrow> time" where "least_time ts = foldr min (tl ts) (hd ts)"
definition greatest_time :: "time list \<Rightarrow> time" where "greatest_time ts = foldr max (tl ts) (hd ts)"

text \<open>The first address of the list \<open>GROUP_CONCAT(ip ORDER BY ts DESC)\<close>, which leaves out \<open>NULL\<close>.\<close>

definition last_ip :: "login_row list \<Rightarrow> string" where
  "last_ip rows = (case List.map_filter lo_ip (rev (sort_key lo_ts rows)) of
     [] \<Rightarrow> [] | ip # ips \<Rightarrow> fst (cut_at CHR '','' ip))"

definition burst_of :: "chain_lib \<Rightarrow> time \<Rightarrow> login_row list \<Rightarrow> string \<times> int \<Rightarrow> loginBurst option" where
  "burst_of lib now rows = (\<lambda>(name, uid).
     let f = failed_rows lib now rows name; s = success_rows lib now rows name uid
     in if length f < entryThreshold \<or> s = [] then None
        else if greatest_time (map lo_ts s) < least_time (map lo_ts f) then None
        else Some \<lparr>actorUID = uid, burst_fails = length f, burst_ip = last_ip f,
               distinct_ips = length (remdups (List.map_filter lo_ip f))\<rparr>)"

definition detectBursts :: "chain_lib \<Rightarrow> chain_env \<Rightarrow> chains_db \<Rightarrow> loginBurst list" where
  "detectBursts lib env db =
     (if ce_fails env FindBursts then []
      else filter (\<lambda>b. \<not> ce_skipped env (actorUID b))
        (List.map_filter (burst_of lib (ce_read env) (logins db))
          (remdups (List.map_filter (\<lambda>r. map_option (Pair (cl_collate lib (lo_name r))) (lo_uid r)) (logins db)))))"

definition safeIP :: "chain_lib \<Rightarrow> string \<Rightarrow> string" where
  "safeIP lib s = (if cl_valid_ip lib s then s else ''unknown'')"

definition entrySummary :: "chain_lib \<Rightarrow> loginBurst \<Rightarrow> string" where
  "entrySummary lib b =
     (let extra = (if 1 < distinct_ips b then '' +'' @ itoa (int (distinct_ips b) - 1) @ '' more IPs'' else [])
      in itoa (int (burst_fails b)) @ '' failed logins then a successful panel login (IP '' @
         safeIP lib (burst_ip b) @ extra @ '')'')"

definition entryRecent :: "chain_env \<Rightarrow> int \<Rightarrow> chains_db \<Rightarrow> bool" where
  "entryRecent env uid db =
     (if ce_fails env (ReadEntry uid) then True
      else 0 < length (filter (\<lambda>r. v_stage r = ''entry'' \<and> v_actor r = Some uid \<and>
        ce_read env - entryRededupMin * minute \<le> v_created r) (av_events db)))"

definition record_burst :: "chain_lib \<Rightarrow> chain_env \<Rightarrow> loginBurst \<Rightarrow> chains_db \<Rightarrow> chains_db" where
  "record_burst lib env b db =
     (if entryRecent env (actorUID b) db \<or> ce_fails env (InsertEntry (actorUID b)) then db
      else db\<lparr>av_events := av_events db @ [\<lparr>v_domain = None, v_actor = Some (actorUID b), v_source = ''api'',
          v_stage = ''entry'', v_level = ''warning'', v_summary = entrySummary lib b, v_path = [], v_pid = 0,
          v_ref = ([], 0), v_created = ce_write env\<rparr>]\<rparr>)"

definition apiScan :: "chain_lib \<Rightarrow> chain_env \<Rightarrow> chains_db \<Rightarrow> chains_db" where
  "apiScan lib env db = fold (record_burst lib env) (detectBursts lib env db) db"

section \<open>The list of chains\<close>

record EventDTO =
  ed_source :: string
  ed_stage :: string
  ed_stage_name :: string
  ed_level :: string
  ed_summary :: string
  ed_time :: time

record ChainDTO =
  cd_id :: int
  cd_domain :: int
  cd_name :: string
  cd_stages :: "string list"
  cd_stage_names :: "string list"
  cd_confidence :: int
  cd_level :: string
  cd_time :: time
  cd_events :: "EventDTO list"

definition chainListLimit :: nat where "chainListLimit = 50"

text \<open>What the condition of \<open>ScopeCondition\<close> says of the domain row joined to a row, if there is one.\<close>

definition cond_holds :: "scope_db \<Rightarrow> string \<times> int list \<Rightarrow> domain_row option \<Rightarrow> bool" where
  "cond_holds s = (\<lambda>(cond, args) d.
     if cond = ''1 = 1'' then True
     else (case d of None \<Rightarrow> False | Some row \<Rightarrow> where_holds ''d'' s ('' WHERE '' @ cond, args) row))"

definition domain_of :: "chains_db \<Rightarrow> int \<Rightarrow> domain_row option" where
  "domain_of db domainID = find (\<lambda>d. d_id d = domainID) (domains (scope db))"

definition namedStages :: "string \<Rightarrow> string list \<times> string list" where
  "namedStages stored = (split_on CHR ''>'' stored, map StageName (split_on CHR ''>'' stored))"

text \<open>The rows up to the first that cannot be scanned are returned; an error at the end returns none.\<close>

definition chainEvents :: "chain_env \<Rightarrow> int \<Rightarrow> time \<Rightarrow> string \<times> int list \<Rightarrow> int \<times> int \<Rightarrow> chains_db \<Rightarrow> EventDTO list" where
  "chainEvents env domID at cond owners db =
     (if ce_fails env (ReadEvents domID) then []
      else let rows = take eventLimit (sort_key v_created (filter (\<lambda>r.
              (v_domain r = Some domID \<and> cond_holds (scope db) cond (domain_of db domID) \<or> entry_of owners r) \<and>
              v_created r \<le> at \<and> at - windowMin * minute \<le> v_created r) (av_events db)));
            readable = takeWhile (\<lambda>r. \<not> ce_unreadable env r) rows
        in if readable = rows \<and> ce_breaks env (ReadEvents domID) then []
           else map (\<lambda>r. \<lparr>ed_source = v_source r, ed_stage = v_stage r, ed_stage_name = StageName (v_stage r),
               ed_level = v_level r, ed_summary = v_summary r, ed_time = v_created r\<rparr>) readable)"

definition timelineOf :: "chain_env \<Rightarrow> int \<Rightarrow> time \<Rightarrow> string \<times> int list \<Rightarrow> bool \<Rightarrow> chains_db \<Rightarrow> EventDTO list" where
  "timelineOf env domID at cond entryVisible db =
     chainEvents env domID at cond (if entryVisible then domainOwners env (scope db) domID else (-1, -1)) db"

definition chain_dto :: "chain_env \<Rightarrow> string \<times> int list \<Rightarrow> bool \<Rightarrow> chains_db \<Rightarrow> chain_row \<Rightarrow> ChainDTO" where
  "chain_dto env cond entryVisible db c =
     \<lparr>cd_id = c_id c, cd_domain = c_domain c,
      cd_name = (case domain_of db (c_domain c) of None \<Rightarrow> [] | Some d \<Rightarrow>
        (case names db (c_domain c) of None \<Rightarrow> [] | Some n \<Rightarrow> n)),
      cd_stages = fst (namedStages (c_stages c)), cd_stage_names = snd (namedStages (c_stages c)),
      cd_confidence = c_confidence c, cd_level = c_level c, cd_time = c_created c,
      cd_events = timelineOf env (c_domain c) (c_created c) cond entryVisible db\<rparr>"

text \<open>\<open>None\<close> is the answer 500.\<close>

definition chains_List :: "chain_env \<Rightarrow> claims option \<Rightarrow> chains_db \<Rightarrow> ChainDTO list option" where
  "chains_List env cl db =
     (let (cond, args, unrestricted) = ScopeCondition cl ''d'';
          entryVisible = (case cl of None \<Rightarrow> False | Some c \<Rightarrow> Role c \<noteq> RoleUser);
          rows = take chainListLimit (rev (sort_key c_created
            (filter (\<lambda>c. cond_holds (scope db) (cond, args) (domain_of db (c_domain c))) (av_chains db))))
      in if ce_fails env ListChains \<or> ce_breaks env ListChains \<or> list_ex (\<lambda>c. ce_skipped env (c_id c)) rows then None
         else Some (map (chain_dto env (cond, args) entryVisible db) rows))"

section \<open>Alerts are limited\<close>

text \<open>Rows that satisfy \<open>p\<close> and were created in the window of length \<open>w\<close> that begins at \<open>T\<close>.\<close>

definition in_span :: "(chain_row \<Rightarrow> bool) \<Rightarrow> duration \<Rightarrow> time \<Rightarrow> chain_row list \<Rightarrow> nat" where
  "in_span p w T cs = length (filter (\<lambda>c. p c \<and> T \<le> c_created c \<and> c_created c \<le> T + w) cs)"

lemma filter_length_le: "(\<And>x. x \<in> set xs \<Longrightarrow> p x \<Longrightarrow> q x) \<Longrightarrow> length (filter p xs) \<le> length (filter q xs)"
  by (induction xs) auto

lemma in_span_append:
  assumes "in_span p w T cs \<le> n"
    and new: "p c \<longrightarrow> length (filter (\<lambda>c. p c \<and> k - w \<le> c_created c) cs) < n" and "k \<le> c_created c"
  shows "in_span p w T (cs @ [c]) \<le> n"
proof (cases "p c \<and> T \<le> c_created c \<and> c_created c \<le> T + w")
  case True
  have "length (filter (\<lambda>c. p c \<and> T \<le> c_created c \<and> c_created c \<le> T + w) cs) \<le>
      length (filter (\<lambda>c. p c \<and> k - w \<le> c_created c) cs)"
    by (rule filter_length_le) (use True assms(3) in auto)
  then show ?thesis using True new by (auto simp: in_span_def)
next
  case False
  then show ?thesis using assms(1) by (auto simp: in_span_def)
qed

definition limited :: "chains_db \<Rightarrow> bool" where
  "limited db = (\<forall>T. (\<forall>d. in_span (\<lambda>c. c_domain c = d) (domainCoolMin * minute) T (av_chains db) \<le> domainMax) \<and>
     (\<forall>s. in_span (\<lambda>c. c_signature c = s) (rededupeMin * minute) T (av_chains db) \<le> 1))"

lemma limited_same: "av_chains db' = av_chains db \<Longrightarrow> limited db' = limited db"
  by (simp add: limited_def)

lemma correlate_chains:
  "correlate lib env d db = db \<or>
   (\<exists>c. av_chains (correlate lib env d db) = av_chains db @ [c] \<and> c_domain c = d \<and> c_created c = ce_write env \<and>
      \<not> reportedRecently env (c_signature c) db \<and> \<not> domainSaturated env d db)"
  by (auto simp: correlate_def writeChain_def chain_notify_def Let_def split: option.splits)

lemma correlate_limited:
  assumes "limited db" and "ce_read env \<le> ce_write env"
  shows "limited (correlate lib env d db)"
proof (cases "correlate lib env d db = db")
  case False
  then obtain c where c: "av_chains (correlate lib env d db) = av_chains db @ [c]" "c_domain c = d"
    "c_created c = ce_write env" "\<not> reportedRecently env (c_signature c) db" "\<not> domainSaturated env d db"
    using correlate_chains [of lib env d db] by blast
  have a: "in_span (\<lambda>c. c_domain c = k) (domainCoolMin * minute) T (av_chains db @ [c]) \<le> domainMax" for k T
    by (rule in_span_append [where k = "ce_read env"])
       (use assms c in \<open>auto simp: limited_def domainSaturated_def split: if_splits\<close>)
  have b: "in_span (\<lambda>c. c_signature c = s) (rededupeMin * minute) T (av_chains db @ [c]) \<le> 1" for s T
    by (rule in_span_append [where k = "ce_read env"])
       (use assms c in \<open>auto simp: limited_def reportedRecently_def split: if_splits\<close>)
  show ?thesis using a b by (simp add: limited_def c(1))
qed (use assms in simp)

lemma Run_limited:
  assumes "limited db" and "\<And>d. ce_read (envs d) \<le> ce_write (envs d)"
  shows "limited (snd (Run lib env envs db))"
proof -
  have "limited (fold (\<lambda>d. correlate lib (envs d) d) ds db)" for ds
    using assms(1) by (induction ds arbitrary: db) (simp_all add: correlate_limited assms(2))
  then show ?thesis using assms(1) by (simp add: Run_def split: option.split)
qed

lemma delete_old_keeps: "length (filter p (fst (delete_old k old rows))) \<le> length (filter p rows)"
  by (induction k old rows rule: delete_old.induct) (auto split: prod.splits)

lemma prune_table_keeps: "length (filter p (prune_table n fails old rows)) \<le> length (filter p rows)"
proof (induction n fails old rows rule: prune_table.induct)
  case (2 n fails old rows)
  obtain rest k where d: "delete_old 5000 old rows = (rest, k)" by force
  have "length (filter p rest) \<le> length (filter p rows)" using delete_old_keeps [of p 5000 old rows] d by simp
  then show ?case using 2 d by (auto intro: order_trans)
qed simp

lemma prune_limited:
  assumes "limited db"
  shows "limited (prune f1 f2 now db)"
proof -
  have k: "in_span p w T (av_chains (prune f1 f2 now db)) \<le> in_span p w T (av_chains db)" for p w T
    unfolding in_span_def prune_def by (simp add: prune_table_keeps)
  show ?thesis using assms k unfolding limited_def by (meson order_trans)
qed

text \<open>
  Everything that can happen to the tables: events recorded, rounds with their own environments,
  retention, and any change of the other tables. No assumption is made about the clock but that a
  tenant's insert does not come before the checks that allowed it.
\<close>

inductive chains_reach :: "chain_lib \<Rightarrow> chains_db \<Rightarrow> bool" for lib where
  init: "av_chains db = [] \<Longrightarrow> chains_reach lib db"
| event: "chains_reach lib db \<Longrightarrow>
    chains_reach lib (WriteEvent lib env d source stage level summary path pid ref db)"
| entry: "chains_reach lib db \<Longrightarrow> chains_reach lib (apiScan lib env db)"
| round: "chains_reach lib db \<Longrightarrow> (\<And>d. ce_read (envs d) \<le> ce_write (envs d)) \<Longrightarrow>
    chains_reach lib (snd (Run lib env envs db))"
| retention: "chains_reach lib db \<Longrightarrow> chains_reach lib (prune fails1 fails2 now db)"
| others: "chains_reach lib db \<Longrightarrow>
    chains_reach lib (db\<lparr>logins := rows, scope := s, names := n, alerts := as\<rparr>)"

lemma apiScan_chains: "av_chains (apiScan lib env db) = av_chains db"
proof -
  have "av_chains (fold (record_burst lib env) bs db) = av_chains db" for bs
    by (induction bs arbitrary: db) (simp_all add: record_burst_def)
  then show ?thesis by (simp add: apiScan_def)
qed

text \<open>
  C15. A tenant's alerts are limited, whatever happens: in any thirty minutes at most three chains of
  a domain are reported, and at most one of a signature; a database error in either check reports
  nothing rather than repeating an alert.
\<close>
theorem chains_limited:
  assumes "chains_reach lib db"
  shows "in_span (\<lambda>c. c_domain c = d) (30 * minute) T (av_chains db) \<le> 3 \<and>
    in_span (\<lambda>c. c_signature c = s) (30 * minute) T (av_chains db) \<le> 1"
proof -
  have "limited db"
    using assms
  proof induction
    case (init db)
    then show ?case by (simp add: limited_def in_span_def domainMax_def)
  next
    case (event db env d source stage level summary path pid ref)
    then show ?case by (simp add: limited_def WriteEvent_def)
  next
    case (entry db env)
    then show ?case by (simp add: limited_def apiScan_chains)
  next
    case (round db envs env)
    then show ?case by (intro Run_limited)
  next
    case (retention db fails1 fails2 now)
    then show ?case by (intro prune_limited)
  next
    case (others db rows s n as)
    then show ?case by (simp add: limited_def)
  qed
  then show ?thesis by (simp add: limited_def domainMax_def domainCoolMin_def rededupeMin_def)
qed

definition quiet :: "time \<Rightarrow> chain_env" where
  "quiet t = \<lparr>ce_fails = (\<lambda>s. False), ce_breaks = (\<lambda>s. False), ce_unreadable = (\<lambda>r. False),
     ce_skipped = (\<lambda>d. False), ce_read = t, ce_write = t\<rparr>"

definition sample_chain_lib :: chain_lib where
  "sample_chain_lib = \<lparr>cl_sha256 = id, cl_collate = id, cl_valid_ip = (\<lambda>s. s \<noteq> [])\<rparr>"

definition sample_chains :: chains_db where
  "sample_chains = \<lparr>av_events = [], av_chains = [], next_chain = 1, alerts = [], logins = [],
     scope = \<lparr>customers = [], domains = []\<rparr>, names = (\<lambda>d. None)\<rparr>"

definition sample_attack :: chains_db where
  "sample_attack =
     WriteEvent sample_chain_lib (quiet 7) 4 ''process'' ''execution'' ''critical'' [] ''/s.php'' 9 ([], 0)
       (WriteEvent sample_chain_lib (quiet 5) 4 ''file'' ''file_write'' ''critical'' [] ''/s.php'' 0 ([], 0) sample_chains)"

theorem chains_limited_witness:
  "let db = snd (Run sample_chain_lib (quiet 8) (\<lambda>d. quiet 8) sample_attack)
   in map c_level (av_chains db) = [''critical''] \<and>
     in_span (\<lambda>c. c_domain c = 4) (30 * minute) 0 (av_chains db) \<le> 3"
proof -
  have r: "chains_reach sample_chain_lib (snd (Run sample_chain_lib (quiet 8) (\<lambda>d. quiet 8) sample_attack))"
    unfolding sample_attack_def
    by (intro chains_reach.round chains_reach.event chains_reach.init)
       (simp_all add: quiet_def sample_chains_def)
  have ev: "av_events sample_attack = [\<lparr>v_domain = Some 4, v_actor = None, v_source = ''file'', v_stage = ''file_write'',
      v_level = ''critical'', v_summary = [], v_path = ''/s.php'', v_pid = 0, v_ref = ([], 0), v_created = 5\<rparr>,
    \<lparr>v_domain = Some 4, v_actor = None, v_source = ''process'', v_stage = ''execution'',
      v_level = ''critical'', v_summary = [], v_path = ''/s.php'', v_pid = 9, v_ref = ([], 0), v_created = 7\<rparr>]"
    by (simp add: sample_attack_def WriteEvent_def quiet_def sample_chains_def sample_chain_lib_def truncate_bytes_def)
  have sc: "av_chains sample_attack = []" by (simp add: sample_attack_def WriteEvent_def sample_chains_def)
  have "windowedDomains (quiet 8) sample_attack = Some [4]"
    by (simp add: windowedDomains_def quiet_def ev time_units windowMin_def map_filter_simps)
  moreover have "domainEvents (quiet 8) 4 sample_attack = Some
      [\<lparr>Stage = ''file_write'', Level = ''critical'', Path = ''/s.php'', Pid = 0, Time = 5\<rparr>,
       \<lparr>Stage = ''execution'', Level = ''critical'', Path = ''/s.php'', Pid = 9, Time = 7\<rparr>]"
    by (simp add: domainEvents_def quiet_def ev time_units windowMin_def eventLimit_def Let_def event_of_def)
  moreover have "Enough (ChainScore
      [\<lparr>Stage = ''file_write'', Level = ''critical'', Path = ''/s.php'', Pid = 0, Time = 5\<rparr>,
       \<lparr>Stage = ''execution'', Level = ''critical'', Path = ''/s.php'', Pid = 9, Time = 7\<rparr>])"
    "ResultLevel (ChainScore
      [\<lparr>Stage = ''file_write'', Level = ''critical'', Path = ''/s.php'', Pid = 0, Time = 5\<rparr>,
       \<lparr>Stage = ''execution'', Level = ''critical'', Path = ''/s.php'', Pid = 9, Time = 7\<rparr>]) = ''critical''"
    by code_simp+
  ultimately have "map c_level (av_chains (snd (Run sample_chain_lib (quiet 8) (\<lambda>d. quiet 8) sample_attack))) = [''critical'']"
    by (simp add: Run_def correlate_def Let_def sc reportedRecently_def domainSaturated_def domainMax_def
        writeChain_def chain_notify_def quiet_def)
  then show ?thesis using chains_limited [OF r, of 4 0] by (simp add: Let_def)
qed

section \<open>What the event limit hides\<close>

lemma sorted_take_least:
  assumes "sorted (map f xs)" and "n \<le> length (filter (\<lambda>x. f x \<le> t) xs)" and "x \<in> set (take n xs)"
  shows "f x \<le> t"
  using assms
proof (induction xs arbitrary: n)
  case (Cons y xs)
  show ?case
  proof (cases n)
    case 0
    then show ?thesis using Cons.prems by simp
  next
    case (Suc m)
    then have y: "f y \<le> t"
    proof (rule_tac ccontr)
      assume "\<not> f y \<le> t"
      then have "filter (\<lambda>x. f x \<le> t) (y # xs) = []"
        using Cons.prems(1) by (auto simp: filter_empty_conv)
      then show False using Cons.prems(2) Suc by simp
    qed
    then have "m \<le> length (filter (\<lambda>x. f x \<le> t) xs)" using Cons.prems(2) Suc by simp
    then show ?thesis using Cons.IH [of m] Cons.prems(1,3) Suc y by auto
  qed
qed simp

lemma filter_sort_length: "length (filter p (sort_key f xs)) = length (filter p xs)"
proof -
  have "mset (filter p (sort_key f xs)) = mset (filter p xs)" by simp
  then show ?thesis by (metis size_mset)
qed

lemma one_stage_no_chain:
  assumes "\<forall>e \<in> set es. Stage e = s"
  shows "ChainScore es = no_result"
proof -
  have "set (present es) \<subseteq> {s}" using assms by (auto simp: present_def)
  then have "card (set (present es)) \<le> card {s}" by (intro card_mono) simp_all
  then have "length (present es) < 2" by (simp add: present_length)
  then show ?thesis by (simp add: ChainScore_def)
qed

text \<open>
  A flood of one stage blinds the correlator: the query keeps the oldest five hundred events of the
  window, so once a tenant has five hundred events of one stage there, nothing that happens
  after them is looked at and no chain is reported, whatever later events share with them.
\<close>
theorem flood_hides_later_stages:
  assumes flood: "500 \<le> length (filter (\<lambda>r. v_domain r = Some d \<and> v_created r \<le> t \<and>
        ce_read env - windowMin * minute \<le> v_created r) (av_events db))"
    and stage: "\<forall>r \<in> set (av_events db). v_created r \<le> t \<longrightarrow> ce_read env - windowMin * minute \<le> v_created r \<longrightarrow>
        v_domain r = Some d \<or> v_domain r = None \<longrightarrow> v_stage r = s"
  shows "correlate lib env d db = db"
proof (cases "domainEvents env d db")
  case (Some es)
  define own where "own = (\<lambda>r. (v_domain r = Some d \<or> entry_of (domainOwners env (scope db) d) r) \<and>
      ce_read env - windowMin * minute \<le> v_created r)"
  let ?rows = "sort_key v_created (filter own (av_events db))"
  have es: "es = map event_of (filter (\<lambda>r. \<not> ce_unreadable env r) (take eventLimit ?rows))"
    using Some by (auto simp: domainEvents_def Let_def own_def split: if_splits)
  have "length (filter (\<lambda>r. v_domain r = Some d \<and> v_created r \<le> t \<and>
        ce_read env - windowMin * minute \<le> v_created r) (av_events db)) \<le>
      length (filter (\<lambda>r. own r \<and> v_created r \<le> t) (av_events db))"
    by (rule filter_length_le) (auto simp: own_def)
  also have "\<dots> = length (filter (\<lambda>r. v_created r \<le> t) ?rows)"
    by (simp add: filter_sort_length conj_commute)
  finally have n: "eventLimit \<le> length (filter (\<lambda>r. v_created r \<le> t) ?rows)"
    using flood by (simp add: eventLimit_def)
  have "v_stage r = s" if r: "r \<in> set (take eventLimit ?rows)" for r
  proof -
    have "v_created r \<le> t" by (rule sorted_take_least [OF _ n r]) simp
    moreover have "r \<in> set (av_events db)" "own r" using in_set_takeD [OF r] by auto
    ultimately show ?thesis using stage by (auto simp: own_def entry_of_def)
  qed
  then have "\<forall>e \<in> set es. Stage e = s" by (auto simp: es event_of_def)
  then have "ChainScore es = no_result" by (rule one_stage_no_chain)
  then show ?thesis using Some by (simp add: correlate_def no_result_def)
qed (simp add: correlate_def)

definition flood_row :: av_row where
  "flood_row = \<lparr>v_domain = Some 4, v_actor = None, v_source = ''file'', v_stage = ''file_write'',
     v_level = ''critical'', v_summary = [], v_path = ''/a'', v_pid = 0, v_ref = ([], 0), v_created = 5\<rparr>"

theorem flood_hides_later_stages_witness:
  "av_chains (correlate sample_chain_lib (quiet 9) 4 (sample_chains\<lparr>av_events := replicate 500 flood_row @
     [flood_row\<lparr>v_stage := ''execution'', v_created := 7\<rparr>]\<rparr>)) = []"
proof -
  let ?db = "sample_chains\<lparr>av_events := replicate 500 flood_row @
     [flood_row\<lparr>v_stage := ''execution'', v_created := 7\<rparr>]\<rparr>"
  have "correlate sample_chain_lib (quiet 9) 4 ?db = ?db"
    by (rule flood_hides_later_stages [where t = 5 and s = "''file_write''"])
       (auto simp: flood_row_def quiet_def windowMin_def time_units)
  then show ?thesis by (simp add: sample_chains_def)
qed

section \<open>Who sees which event\<close>

lemma domain_of_Some: "domain_of db i = Some row \<Longrightarrow> row \<in> set (domains (scope db)) \<and> d_id row = i"
  by (auto simp: domain_of_def find_Some_iff)

lemma cond_holds_owner:
  assumes "cond_holds s (cond, args) d" and "ScopeCondition cl ''d'' = (cond, args, u)"
  shows "\<exists>c. cl = Some c \<and> (Role c = RoleAdmin \<or>
    (\<exists>row. d = Some row \<and> (Role c = RoleReseller \<and> exists_customer (\<lambda>x. cu_owner x = Some (UserID c)) s row \<or>
       Role c = RoleUser \<and> exists_customer (\<lambda>x. cu_user x = Some (UserID c)) s row)))"
  using assms
  by (auto simp: ScopeCondition_def cond_holds_def where_holds_def scope_exists_def
      split: option.splits if_splits)

lemma owner_rows_iff:
  "c \<in> set (owner_rows s i) \<longleftrightarrow> c \<in> set (customers s) \<and> (\<exists>d \<in> set (domains s). d_id d = i \<and> d_customer d = Some (cu_id c))"
  by (force simp: owner_rows_def)

definition dto_of :: "av_row \<Rightarrow> EventDTO" where
  "dto_of r = \<lparr>ed_source = v_source r, ed_stage = v_stage r, ed_stage_name = StageName (v_stage r),
     ed_level = v_level r, ed_summary = v_summary r, ed_time = v_created r\<rparr>"

lemma chainEvents_from:
  assumes "e \<in> set (chainEvents env i at cond owners db)"
  shows "\<exists>r \<in> set (av_events db). e = dto_of r \<and>
    (v_domain r = Some i \<and> cond_holds (scope db) cond (domain_of db i) \<or> entry_of owners r)"
  using assms
  by (auto simp: chainEvents_def dto_of_def Let_def split: if_splits dest!: set_takeWhileD in_set_takeD)

lemma entry_of_nobody: "entry_of (-1, -1) r \<Longrightarrow> \<exists>a. v_actor r = Some a \<and> a = -1"
  by (auto simp: entry_of_def split: option.splits)


definition sample_shop :: chains_db where
  "sample_shop = sample_chains\<lparr>
     scope := \<lparr>customers = [\<lparr>cu_id = 1, cu_owner = Some 7, cu_user = Some 20\<rparr>],
       domains = [\<lparr>d_id = 4, d_customer = Some 1, d_suspended = None\<rparr>]\<rparr>,
     av_events := [\<lparr>v_domain = None, v_actor = Some 7, v_source = ''api'', v_stage = ''entry'', v_level = [],
         v_summary = [], v_path = [], v_pid = 0, v_ref = ([], 0), v_created = 5\<rparr>, flood_row],
     av_chains := [\<lparr>c_id = 1, c_domain = 4, c_stages = ''entry>file_write'', c_confidence = 60,
         c_level = ''warning'', c_count = 2, c_signature = ''x'', c_created = 6\<rparr>]\<rparr>"

lemma sample_shop_list:
  assumes "Role c = RoleReseller \<and> UserID c = 7 \<or> Role c = RoleUser \<and> UserID c = 20"
  shows "\<exists>ch. chains_List (quiet 9) (Some c) sample_shop = Some [ch] \<and> cd_domain ch = 4 \<and>
    map ed_stage (cd_events ch) = (if Role c = RoleUser then [''file_write''] else [''entry'', ''file_write''])"
  using assms
  by (auto simp: chains_List_def Let_def ScopeCondition_def cond_holds_def where_holds_def scope_exists_def
      sample_shop_def sample_chains_def domain_of_def exists_customer_def quiet_def chainListLimit_def
      chain_dto_def timelineOf_def chainEvents_def eventLimit_def entry_of_def domainOwners_def owner_rows_def
      positive_or_def flood_row_def windowMin_def time_units roles)


section \<open>The order of a brute force\<close>

definition login_at :: "time \<Rightarrow> int \<Rightarrow> int \<Rightarrow> login_row" where
  "login_at t uid ok = \<lparr>lo_uid = Some uid, lo_name = ''ana'', lo_ip = Some ''9.9.9.9'',
     lo_action = ''customer.login'', lo_ok = ok, lo_ts = t\<rparr>"

text \<open>
  A success need not follow the flood: one mistyped password, the owner's own successful login and
  four failures after it are recorded as a brute force that succeeded, because the success is
  compared with the first failure only. The second database shows the intended case.
\<close>
theorem success_before_the_flood_counts:
  "map actorUID (detectBursts sample_chain_lib (quiet 9) (sample_chains\<lparr>logins :=
     [login_at 1 0 0, login_at 2 20 1, login_at 3 0 0, login_at 4 0 0, login_at 5 0 0, login_at 6 0 0]\<rparr>)) = [20] \<and>
   detectBursts sample_chain_lib (quiet 9) (sample_chains\<lparr>logins :=
     [login_at 1 20 1, login_at 2 0 0, login_at 3 0 0, login_at 4 0 0, login_at 5 0 0, login_at 6 0 0]\<rparr>) = []"
  by code_simp

end
