(* ===== verification/SlowQuery.thy ===== *)
theory SlowQuery
  imports GoText
begin

text \<open>
  The slow query log (internal/slowquery/scan.go, normalize.go): where its records begin, and the shape
  a statement is stored as. An offset \<open>i\<close> of the source is here the rest of the text from \<open>i\<close>, together
  with the byte before it where the source looks back; a position past the end is the empty rest.
\<close>

section \<open>The scanner's state\<close>

definition quote_sq :: char where "quote_sq = CHR 0x27"
definition quote_dq :: char where "quote_dq = CHR 0x22"
definition backtick :: char where "backtick = CHR 0x60"
definition backslash :: char where "backslash = CHR 0x5C"
definition newline :: char where "newline = CHR 0x0A"

lemmas sql_chars = quote_sq_def quote_dq_def backtick_def backslash_def newline_def

text \<open>\<open>quote\<close> is \<open>None\<close> for the source's 0.\<close>

record sqlState =
  quote :: "char option"
  escaped :: bool
  line :: bool
  block :: bool
  skip :: nat

definition newSQLState :: sqlState where
  "newSQLState = \<lparr>quote = None, escaped = False, line = False, block = False, skip = 0\<rparr>"

definition outsideCode :: "sqlState \<Rightarrow> bool" where
  "outsideCode s = (quote s = None \<and> \<not> line s \<and> \<not> block s)"

definition isQuoteByte :: "char \<Rightarrow> bool" where
  "isQuoteByte c = (c = quote_sq \<or> c = quote_dq \<or> c = backtick)"

definition blank_byte :: "char \<Rightarrow> bool" where
  "blank_byte c = (c = CHR 0x20 \<or> c = CHR 0x09 \<or> c = CHR 0x0A \<or> c = CHR 0x0D)"

text \<open>The steps at the byte \<open>c\<close>, which \<open>rest\<close> follows.\<close>

definition dashCommentStarts :: "char \<Rightarrow> string \<Rightarrow> bool" where
  "dashCommentStarts c rest =
     (if c \<noteq> CHR ''-'' \<or> take 1 rest \<noteq> ''-'' then False
      else (case drop 1 rest of [] \<Rightarrow> True | d # ds \<Rightarrow> blank_byte d))"

definition stepInBlockComment :: "char \<Rightarrow> string \<Rightarrow> sqlState \<Rightarrow> sqlState" where
  "stepInBlockComment c rest s =
     (if c = CHR ''*'' \<and> take 1 rest = ''/'' then s\<lparr>block := False, skip := 1\<rparr> else s)"

definition stepInQuote :: "char \<Rightarrow> string \<Rightarrow> sqlState \<Rightarrow> sqlState" where
  "stepInQuote c rest s =
     (if escaped s then s\<lparr>escaped := False\<rparr>
      else if c = backslash then s\<lparr>escaped := True\<rparr>
      else if quote s = Some c then (if take 1 rest = [c] then s\<lparr>skip := 1\<rparr> else s\<lparr>quote := None\<rparr>)
      else s)"

definition stepInCode :: "char \<Rightarrow> string \<Rightarrow> sqlState \<Rightarrow> sqlState" where
  "stepInCode c rest s =
     (if isQuoteByte c then s\<lparr>quote := Some c\<rparr>
      else if c = CHR ''#'' then s\<lparr>line := True\<rparr>
      else if dashCommentStarts c rest then s\<lparr>line := True, skip := 1\<rparr>
      else if c = CHR ''/'' \<and> take 1 rest = ''*'' then s\<lparr>block := True, skip := 1\<rparr>
      else s)"

definition sql_step :: "char \<Rightarrow> string \<Rightarrow> sqlState \<Rightarrow> sqlState" where
  "sql_step c rest s =
     (if 0 < skip s then s\<lparr>skip := skip s - 1\<rparr>
      else if line s then (if c = newline then s\<lparr>line := False\<rparr> else s)
      else if block s then stepInBlockComment c rest s
      else if quote s \<noteq> None then stepInQuote c rest s
      else stepInCode c rest s)"

section \<open>Where records begin\<close>

definition recordMarker :: string where "recordMarker = ''# User@Host:''"

record markerScan =
  state :: sqlState
  atLineStart :: bool
  lastSignificant :: "char option"
  seenRecord :: bool

definition atMarkerPosition :: "markerScan \<Rightarrow> bool" where
  "atMarkerPosition m = (atLineStart m \<and> outsideCode (state m))"

definition terminated :: "markerScan \<Rightarrow> bool" where
  "terminated m = (lastSignificant m = Some CHR '';'' \<or> \<not> seenRecord m)"

definition restart :: "char option \<Rightarrow> markerScan \<Rightarrow> markerScan" where
  "restart c m = m\<lparr>atLineStart := True, state := newSQLState, lastSignificant := c\<rparr>"

definition readByte :: "char \<Rightarrow> string \<Rightarrow> markerScan \<Rightarrow> markerScan" where
  "readByte c rest m =
     (let s = sql_step c rest (state m)
      in m\<lparr>atLineStart := c = newline, state := s,
           lastSignificant := (if outsideCode (state m) \<and> outsideCode s \<and> \<not> blank_byte c then Some c
                               else lastSignificant m)\<rparr>)"

text \<open>The line a text begins with, and the text from its newline on.\<close>

definition first_line :: "string \<Rightarrow> string" where "first_line t = takeWhile (\<lambda>c. c \<noteq> newline) t"
definition from_newline :: "string \<Rightarrow> string" where "from_newline t = dropWhile (\<lambda>c. c \<noteq> newline) t"

definition isBannerLine :: "string \<Rightarrow> bool" where
  "isBannerLine t =
     (contains (first_line t) '', Version: '' \<and>
      has_suffix (trim_right (first_line t) [CHR 0x0D]) ''started with:'')"

text \<open>How many bytes the banner takes: up to and with the newline before a line that begins with \<open>#\<close>.\<close>

function skipBanner :: "string \<Rightarrow> nat" where
  "skipBanner t =
     (case from_newline t of
        [] \<Rightarrow> length t
      | nl # next \<Rightarrow>
          if next = [] \<or> take 1 next = ''#'' then length t - length next
          else (length t - length next) + skipBanner next)"
  by pat_completeness auto
termination
proof (relation "measure length", goal_cases)
  case (2 t nl "next")
  then have "length (nl # next) \<le> length t"
    unfolding from_newline_def by (metis length_dropWhile_le)
  then show ?case by simp
qed simp

declare skipBanner.simps [simp del]

text \<open>
  A marker at offset \<open>marker\<close> takes in a \<open># Time:\<close> line right above it. \<open>LastIndexByte\<close> is -1 where
  there is no newline.
\<close>

definition recordStart :: "string \<Rightarrow> nat \<Rightarrow> nat" where
  "recordStart text marker =
     (if marker = 0 then 0
      else let before = take (marker - 1) text;
               lineStart = (case last_index newline before of None \<Rightarrow> 0 | Some k \<Rightarrow> k + 1)
           in if has_prefix (drop lineStart text) ''# Time:'' then lineStart else marker)"

text \<open>The loop of \<open>markerOffsets\<close> at offset \<open>i\<close>; every branch moves on.\<close>

function marker_loop :: "string \<Rightarrow> nat \<Rightarrow> markerScan \<Rightarrow> nat list" where
  "marker_loop text i m =
     (if length text \<le> i then []
      else if atMarkerPosition m \<and> isBannerLine (drop i text)
      then marker_loop text (i + max 1 (skipBanner (drop i text))) (restart (Some CHR '';'') m)
      else if atMarkerPosition m \<and> terminated m \<and> has_prefix (drop i text) recordMarker
      then (case from_newline (drop i text) of
          [] \<Rightarrow> [recordStart text i]
        | nl # next \<Rightarrow> recordStart text i #
            marker_loop text (length text - length next) (restart None (m\<lparr>seenRecord := True\<rparr>)))
      else marker_loop text (i + 1) (readByte (text ! i) (drop (i + 1) text) m))"
  by pat_completeness auto
termination
proof (relation "measure (\<lambda>(text, i, m). length text - i)", goal_cases)
  case (3 t i m nl "next")
  then have "length (nl # next) \<le> length (drop i t)"
    unfolding from_newline_def by (metis length_dropWhile_le)
  then have n: "length next < length t - i" by simp
  then have "length t - (length t - length next) < length t - i" by linarith
  then show ?case by (simp only: in_measure prod.case)
next
  case (2 t i m)
  then have "length t - (i + max 1 (skipBanner (drop i t))) < length t - i" by linarith
  then show ?case by (simp only: in_measure prod.case)
next
  case (4 t i m)
  then have "length t - (i + 1) < length t - i" by linarith
  then show ?case by (simp only: in_measure prod.case)
qed simp

declare marker_loop.simps [simp del]

definition markerOffsets :: "string \<Rightarrow> nat list" where
  "markerOffsets text =
     marker_loop text 0 \<lparr>state = newSQLState, atLineStart = True, lastSignificant = None, seenRecord = False\<rparr>"

section \<open>Records\<close>

record log_record =
  Text :: string
  Trusted :: bool

text \<open>The body starts after the first line that no \<open>#\<close> line follows; without one the entry is clean.\<close>

function entry_body :: "string \<Rightarrow> string option" where
  "entry_body t =
     (case from_newline t of
        [] \<Rightarrow> None
      | nl # next \<Rightarrow> if \<not> has_prefix next ''#'' then Some next else entry_body next)"
  by pat_completeness auto
termination
proof (relation "measure length", goal_cases)
  case (2 t nl "next")
  then have "length (nl # next) \<le> length t"
    unfolding from_newline_def by (metis length_dropWhile_le)
  then show ?case by simp
qed simp

declare entry_body.simps [simp del]

definition bodyIsClean :: "string \<Rightarrow> bool" where
  "bodyIsClean entry = (case entry_body entry of
     None \<Rightarrow> True | Some body \<Rightarrow> \<not> contains (newline # body) (newline # recordMarker))"

fun entries_between :: "string \<Rightarrow> nat list \<Rightarrow> log_record list" where
  "entries_between text (a # b # offs) =
     (let entry = take (b - a) (drop a text)
      in \<lparr>Text = entry, Trusted = bodyIsClean entry\<rparr> # entries_between text (b # offs))"
| "entries_between text offs = []"

definition ScanRecords :: "string \<Rightarrow> log_record list \<times> nat" where
  "ScanRecords text =
     (case markerOffsets text of
        [] \<Rightarrow> ([], 0)
      | a # offs \<Rightarrow> (entries_between text (a # offs), List.last (a # offs)))"

section \<open>Records tile the log\<close>

text \<open>An offset at which a line begins.\<close>

definition line_start :: "string \<Rightarrow> nat \<Rightarrow> bool" where
  "line_start t i = (i = 0 \<or> t ! (i - 1) = newline)"

definition marker_at :: "string \<Rightarrow> nat \<Rightarrow> bool" where
  "marker_at t i = (i < length t \<and> line_start t i \<and> has_prefix (drop i t) recordMarker)"

lemma from_newline_drop:
  assumes "from_newline (drop i t) = nl # rest" and "i \<le> length t"
  shows "i < length t - length rest \<and> t ! (length t - length rest - 1) = newline \<and> nl = newline"
proof -
  have d: "dropWhile (\<lambda>c. c \<noteq> newline) (drop i t) = nl # rest" using assms(1) by (simp add: from_newline_def)
  then have nl: "nl = newline" using hd_dropWhile [of "\<lambda>c. c \<noteq> newline" "drop i t"] by simp
  obtain pre where p: "drop i t = pre @ nl # rest"
    using d by (metis takeWhile_dropWhile_id)
  have n: "length t = i + length pre + 1 + length rest"
    using arg_cong [OF p, of length] assms(2) by simp
  have "drop i t ! length pre = nl" by (simp add: p)
  then have "t ! (i + length pre) = nl" using assms(2) by simp
  then show ?thesis using n nl by simp
qed

lemma from_newline_rest: "from_newline t = nl # rest \<Longrightarrow> drop (length t - length rest) t = rest"
proof -
  assume "from_newline t = nl # rest"
  then obtain pre where "t = pre @ nl # rest" unfolding from_newline_def by (metis takeWhile_dropWhile_id)
  then show ?thesis by simp
qed

lemma skipBanner_ends:
  "skipBanner t \<le> length t \<and> (t \<noteq> [] \<longrightarrow> 0 < skipBanner t) \<and>
   (skipBanner t < length t \<longrightarrow> t ! (skipBanner t - 1) = newline)"
proof (induction t rule: skipBanner.induct)
  case (1 t)
  show ?case
  proof (cases "from_newline t")
    case Nil
    then show ?thesis by (simp add: skipBanner.simps [of t])
  next
    case (Cons nl "next")
    note d = from_newline_drop [of 0 t, simplified, OF Cons]
    show ?thesis
    proof (cases "next = [] \<or> take 1 next = ''#''")
      case True
      then show ?thesis using Cons d by (simp add: skipBanner.simps [of t])
    next
      case False
      let ?k = "length t - length next"
      have sb: "skipBanner t = ?k + skipBanner next"
        using Cons False by (simp add: skipBanner.simps [of t])
      note ih = 1 [OF Cons False]
      have len: "length t = ?k + length next" using d by simp
      have nx: "drop ?k t = next" by (rule from_newline_rest [OF Cons])
      have "t ! (skipBanner t - 1) = newline" if "skipBanner t < length t"
      proof -
        have "skipBanner next < length next" "0 < skipBanner next" using that sb len ih False by auto
        then have "next ! (skipBanner next - 1) = newline" using ih by simp
        then have "drop ?k t ! (skipBanner next - 1) = newline" by (simp add: nx)
        moreover have "?k + (skipBanner next - 1) = skipBanner t - 1" using sb \<open>0 < skipBanner next\<close> by simp
        ultimately show ?thesis using len by simp
      qed
      then show ?thesis using sb ih len d by auto
    qed
  qed
qed

text \<open>What the loop returns: the record starts of increasing markers, none before the position.\<close>

lemma marker_loop_markers:
  "(atLineStart m \<longrightarrow> i < length t \<longrightarrow> line_start t i) \<Longrightarrow>
   \<exists>js. marker_loop t i m = map (recordStart t) js \<and> sorted_wrt (<) js \<and> (\<forall>j \<in> set js. i \<le> j \<and> marker_at t j)"
proof (induction t i m rule: marker_loop.induct)
  case (1 t i m)
  note unf = marker_loop.simps [of t i m]
  show ?case
  proof (cases "length t \<le> i")
    case True
    then show ?thesis by (auto simp: unf intro: exI [of _ "[]"])
  next
    case False
    note in_t = False
    show ?thesis
    proof (cases "atMarkerPosition m \<and> isBannerLine (drop i t)")
      case True
      let ?k = "max 1 (skipBanner (drop i t))"
      have k: "?k = skipBanner (drop i t)" using skipBanner_ends [of "drop i t"] in_t by auto
      have "i + ?k < length t \<longrightarrow> line_start t (i + ?k)"
        using skipBanner_ends [of "drop i t"] in_t unfolding k line_start_def by auto
      then obtain js where "marker_loop t (i + ?k) (restart (Some CHR '';'') m) = map (recordStart t) js"
        "sorted_wrt (<) js" "\<forall>j \<in> set js. i + ?k \<le> j \<and> marker_at t j"
        using 1(1) [OF in_t True] by blast
      then show ?thesis using True in_t by (intro exI [of _ js]) (auto simp: unf)
    next
      case False
      note no_banner = False
      show ?thesis
      proof (cases "atMarkerPosition m \<and> terminated m \<and> has_prefix (drop i t) recordMarker")
        case True
        then have here: "marker_at t i" using 1(4) in_t by (simp add: marker_at_def atMarkerPosition_def)
        show ?thesis
        proof (cases "from_newline (drop i t)")
          case Nil
          then show ?thesis using True in_t no_banner here
            by (intro exI [of _ "[i]"]) (simp add: unf)
        next
          case (Cons nl "next")
          let ?j = "length t - length next"
          have d: "i < ?j" "line_start t ?j"
            using from_newline_drop [OF Cons] in_t by (auto simp: line_start_def)
          obtain js where "marker_loop t ?j (restart None (m\<lparr>seenRecord := True\<rparr>)) = map (recordStart t) js"
            "sorted_wrt (<) js" "\<forall>j \<in> set js. ?j \<le> j \<and> marker_at t j"
            using 1(2) [OF in_t no_banner True Cons] d by blast
          then show ?thesis using True in_t no_banner here d Cons
            by (intro exI [of _ "i # js"]) (fastforce simp: unf)
        qed
      next
        case False
        have "atLineStart (readByte (t ! i) (drop (i + 1) t) m) \<longrightarrow> i + 1 < length t \<longrightarrow> line_start t (i + 1)"
          by (simp add: readByte_def Let_def line_start_def)
        then obtain js where "marker_loop t (i + 1) (readByte (t ! i) (drop (i + 1) t) m) = map (recordStart t) js"
          "sorted_wrt (<) js" "\<forall>j \<in> set js. i + 1 \<le> j \<and> marker_at t j"
          using 1(3) [OF in_t no_banner False] by blast
        then show ?thesis using False in_t no_banner by (intro exI [of _ js]) (auto simp: unf)
      qed
    qed
  qed
qed

lemma recordStart_le: "recordStart t i \<le> i"
proof (cases "last_index newline (take (i - 1) t)")
  case (Some k)
  then have "k < i - 1" using last_index_Some [OF Some] by simp
  then show ?thesis using Some by (auto simp: recordStart_def Let_def)
qed (auto simp: recordStart_def Let_def)

lemma last_index_least:
  assumes "last_index d s = Some k" and "i < length s" and "s ! i = d"
  shows "i \<le> k"
proof (rule ccontr)
  assume "\<not> i \<le> k"
  then have k: "Suc k \<le> i" by simp
  then have "drop (Suc k) s ! (i - Suc k) = d" "i - Suc k < length (drop (Suc k) s)"
    using assms(2,3) by simp_all
  then show False using last_index_Some [OF assms(1)] nth_mem by metis
qed

lemma last_index_NoneD: "last_index d s = None \<Longrightarrow> d \<notin> set s"
proof -
  assume "last_index d s = None"
  then have "length (takeWhile (\<lambda>c. c \<noteq> d) (rev s)) = length (rev s)"
    by (auto simp: last_index_def Let_def split: if_splits)
  then have "takeWhile (\<lambda>c. c \<noteq> d) (rev s) = rev s" by (metis takeWhile_eq_take take_all order_refl)
  then show ?thesis by (metis set_rev set_takeWhileD)
qed

lemma recordStart_after:
  assumes i: "marker_at t i" and j: "marker_at t j" and "i < j"
  shows "i < recordStart t j"
proof -
  define before where "before = take (j - 1) t"
  define ls where "ls = (case last_index newline before of None \<Rightarrow> 0 | Some k \<Rightarrow> k + 1)"
  have rs: "recordStart t j = (if has_prefix (drop ls t) ''# Time:'' then ls else j)"
    using \<open>i < j\<close> by (simp add: recordStart_def Let_def before_def ls_def)
  have len: "length before = j - 1" using j by (auto simp: before_def marker_at_def)
  have "i \<le> ls"
  proof (cases "i = 0")
    case False
    have nl: "t ! (i - 1) = newline" using i False by (simp add: marker_at_def line_start_def)
    have b: "i - 1 < length before" "before ! (i - 1) = newline"
      using nl False \<open>i < j\<close> len by (auto simp: before_def)
    then have "newline \<in> set before" by (metis nth_mem)
    then obtain k where k: "last_index newline before = Some k" using last_index_NoneD by fastforce
    show ?thesis using last_index_least [OF k b] k False by (simp add: ls_def)
  qed simp
  moreover have "ls \<noteq> i" if "has_prefix (drop ls t) ''# Time:''"
  proof
    assume "ls = i"
    then have "has_prefix (drop i t) ''# Time:''" "has_prefix (drop i t) recordMarker"
      using that i by (simp_all add: marker_at_def)
    then show False by (auto simp: has_prefix_iff recordMarker_def)
  qed
  ultimately show ?thesis using rs \<open>i < j\<close> by auto
qed

lemma markerOffsets_increasing:
  "sorted_wrt (<) (markerOffsets t) \<and> (\<forall>o1 \<in> set (markerOffsets t). o1 < length t)"
proof -
  obtain js where js: "markerOffsets t = map (recordStart t) js" "sorted_wrt (<) js" "\<forall>j \<in> set js. marker_at t j"
    using marker_loop_markers [of "\<lparr>state = newSQLState, atLineStart = True, lastSignificant = None, seenRecord = False\<rparr>" 0 t]
    by (auto simp: markerOffsets_def line_start_def)
  have "sorted_wrt (\<lambda>i j. recordStart t i < recordStart t j) js"
    by (rule sorted_wrt_mono_rel [OF _ js(2)])
       (use js(3) recordStart_after recordStart_le in \<open>blast intro: le_less_trans\<close>)
  moreover have "recordStart t j < length t" if "j \<in> set js" for j
    using js(3) that recordStart_le [of t j] by (auto simp: marker_at_def)
  ultimately show ?thesis by (auto simp: js(1) sorted_wrt_map)
qed

lemma entries_tile:
  "sorted_wrt (<) (a # offs) \<Longrightarrow> \<forall>x \<in> set (a # offs). x < length t \<Longrightarrow>
   concat (map Text (entries_between t (a # offs))) = take (List.last (a # offs) - a) (drop a t)"
proof (induction offs arbitrary: a)
  case (Cons b offs)
  note ih = Cons.IH [of b]
  have le: "b \<le> List.last (b # offs)"
    using Cons.prems(1) by (cases offs) (auto intro: less_imp_le)
  have ab: "a < b" using Cons.prems(1) by simp
  have "take (List.last (b # offs) - a) (drop a t) =
      take (b - a) (drop a t) @ take (List.last (b # offs) - b) (drop b t)"
  proof -
    have "List.last (b # offs) - a = (b - a) + (List.last (b # offs) - b)" using ab le by simp
    moreover have "drop (b - a) (drop a t) = drop b t" using ab by simp
    ultimately show ?thesis by (simp only: take_add)
  qed
  then show ?case using ih Cons.prems by (simp add: Let_def)
qed simp


end
