(* ===== verification/SlowNormalize.thy ===== *)
theory SlowNormalize
  imports SlowQuery
begin

text \<open>
  The shape of a statement (internal/slowquery/normalize.go): literals, numbers and comments are
  replaced, placeholder lists collapsed, and the result is what is stored. Each \<open>skip\<close> function counts
  the bytes of the run the rest begins with; the builder's content is the argument \<open>b\<close>.
\<close>

section \<open>Runs\<close>

definition sql_digit :: "char \<Rightarrow> bool" where "sql_digit c = byte_in 48 57 c"

definition isHexByte :: "char \<Rightarrow> bool" where
  "isHexByte c = (sql_digit c \<or> byte_in 97 102 c \<or> byte_in 65 70 c)"

definition isIdentByte :: "char \<Rightarrow> bool" where
  "isIdentByte c = (sql_digit c \<or> c = CHR ''_'' \<or> c = CHR ''$'' \<or> byte_in 97 122 c \<or> byte_in 65 90 c \<or> 128 \<le> byte c)"

definition commentStarts :: "string \<Rightarrow> bool" where
  "commentStarts t = (take 1 t = ''#'' \<or> take 2 t = ''--'' \<or> take 2 t = ''/*'')"

text \<open>\<open>prev\<close> is the byte before the rest.\<close>

definition numberStarts :: "char option \<Rightarrow> string \<Rightarrow> bool" where
  "numberStarts prev t =
     (if (case prev of None \<Rightarrow> False | Some p \<Rightarrow> isIdentByte p) then False
      else (case t of
          [] \<Rightarrow> False
        | c # cs \<Rightarrow> sql_digit c \<or> c = CHR ''.'' \<and> (case cs of [] \<Rightarrow> False | d # ds \<Rightarrow> sql_digit d)))"

fun skip_quoted_rest :: "char \<Rightarrow> string \<Rightarrow> nat" where
  "skip_quoted_rest q [] = 0"
| "skip_quoted_rest q (c # cs) =
     (if c = backslash \<and> q \<noteq> backtick then (case cs of [] \<Rightarrow> 1 | d # ds \<Rightarrow> 2 + skip_quoted_rest q ds)
      else if c = q then (case cs of [] \<Rightarrow> 1 | d # ds \<Rightarrow> if d = q then 2 + skip_quoted_rest q ds else 1)
      else 1 + skip_quoted_rest q cs)"

definition skipQuoted :: "string \<Rightarrow> nat" where
  "skipQuoted t = (case t of [] \<Rightarrow> 0 | q # cs \<Rightarrow> 1 + skip_quoted_rest q cs)"

definition skipComment :: "string \<Rightarrow> nat" where
  "skipComment t =
     (if take 1 t = ''/'' then
        (case index_of (drop 2 t) ''*/'' of None \<Rightarrow> length t | Some k \<Rightarrow> 2 + k + 2)
      else length (first_line t))"

definition hexPrefix :: "string \<Rightarrow> bool" where
  "hexPrefix t = (take 2 t = ''0x'' \<or> take 2 t = ''0X'')"

definition exponentFollows :: "string \<Rightarrow> bool" where
  "exponentFollows cs = (case cs of [] \<Rightarrow> False | d # ds \<Rightarrow> sql_digit d \<or> d = CHR ''+'' \<or> d = CHR ''-'')"

fun skip_digits :: "string \<Rightarrow> nat" where
  "skip_digits [] = 0"
| "skip_digits (c # cs) =
     (if sql_digit c \<or> c = CHR ''.'' then 1 + skip_digits cs
      else if c = CHR ''e'' \<or> c = CHR ''E'' then
        (if \<not> exponentFollows cs then 0 else (case cs of [] \<Rightarrow> 1 | d # ds \<Rightarrow> 2 + skip_digits ds))
      else 0)"

definition skipNumber :: "string \<Rightarrow> nat" where
  "skipNumber t = (if hexPrefix t then 2 + length (takeWhile isHexByte (drop 2 t)) else skip_digits t)"

definition writeSpace :: "string \<Rightarrow> string" where
  "writeSpace b = (if b = [] \<or> has_suffix b '' '' then b else b @ '' '')"

text \<open>The builder after the run the rest begins with and the run's length; \<open>None\<close> where no run begins.\<close>

definition writeNormalizedRun :: "char option \<Rightarrow> string \<Rightarrow> string \<Rightarrow> (string \<times> nat) option" where
  "writeNormalizedRun prev b t =
     (if t = [] then None
      else if hd t = quote_sq \<or> hd t = quote_dq then Some (b @ ''?'', skipQuoted t)
      else if hd t = backtick then Some (b @ take (skipQuoted t) t, skipQuoted t)
      else if commentStarts t then Some (writeSpace b, skipComment t)
      else if numberStarts prev t then Some (b @ ''?'', skipNumber t)
      else if blank_byte (hd t) then Some (writeSpace b, 1)
      else None)"

section \<open>The loop\<close>

text \<open>One round: the state, the previous byte, the builder and the rest after it.\<close>

definition norm_step :: "sqlState \<Rightarrow> char option \<Rightarrow> string \<Rightarrow> string \<Rightarrow> sqlState \<times> char option \<times> string \<times> string" where
  "norm_step s prev b t =
     (case (if outsideCode s then writeNormalizedRun prev b t else None) of
        Some (b', n) \<Rightarrow> (s, Some (t ! (max 1 n - 1)), b', drop (max 1 n) t)
      | None \<Rightarrow> (sql_step (hd t) (tl t) s, Some (hd t), b @ [hd t], tl t))"

lemma norm_step_shorter: "t \<noteq> [] \<Longrightarrow> norm_step s prev b t = (s', prev', b', t') \<Longrightarrow> length t' < length t"
  by (auto simp: norm_step_def split: option.splits if_splits)

function norm_loop :: "sqlState \<Rightarrow> char option \<Rightarrow> string \<Rightarrow> string \<Rightarrow> string" where
  "norm_loop s prev b t =
     (if t = [] then b
      else (case norm_step s prev b t of (s', prev', b', t') \<Rightarrow> norm_loop s' prev' b' t'))"
  by pat_completeness auto
termination
proof (relation "measure (\<lambda>(s, prev, b, t). length t)", goal_cases)
  case (2 s prev b t s' y prev' z b' t')
  then have "norm_step s prev b t = (s', prev', b', t')" by simp
  then show ?case using norm_step_shorter [OF 2(1)] by simp
qed simp

declare norm_loop.simps [simp del]

section \<open>Placeholder lists and the result\<close>

text \<open>The rest after \<open>(\<close>: the bytes up to and with \<open>)\<close>, when they are a list of two placeholders or more.\<close>

fun placeholder_rest :: "nat \<Rightarrow> string \<Rightarrow> nat option" where
  "placeholder_rest n [] = None"
| "placeholder_rest n (c # cs) =
     (if c = CHR '' '' \<or> c = CHR '','' then map_option Suc (placeholder_rest n cs)
      else if c = CHR ''?'' then map_option Suc (placeholder_rest (n + 1) cs)
      else if c = CHR '')'' \<and> 2 \<le> n then Some 1 else None)"

definition placeholderList :: "string \<Rightarrow> nat option" where
  "placeholderList cs = placeholder_rest 0 cs"

function collapsePlaceholderLists :: "string \<Rightarrow> string" where
  "collapsePlaceholderLists t =
     (case t of [] \<Rightarrow> []
      | c # cs \<Rightarrow>
          (case (if c = CHR ''('' then placeholderList cs else None) of
             Some n \<Rightarrow> ''(?)'' @ collapsePlaceholderLists (drop n cs)
           | None \<Rightarrow> c # collapsePlaceholderLists cs))"
  by pat_completeness auto
termination
  by (relation "measure length") auto

declare collapsePlaceholderLists.simps [simp del]

definition maxNormalizedLength :: int where "maxNormalizedLength = 4000"

definition Normalize :: "(string \<Rightarrow> string) \<Rightarrow> string \<Rightarrow> string \<times> string" where
  "Normalize sha256_hex sql =
     (let out = collapsePlaceholderLists (trim_space (norm_loop newSQLState None [] sql));
          normalized = (if maxNormalizedLength < int (length out) then take (nat maxNormalizedLength) out else out)
      in (normalized, take 32 (sha256_hex normalized)))"

section \<open>The loop never leaves plain code\<close>

lemma outside_new [simp]: "outsideCode newSQLState"
  by (simp add: outsideCode_def newSQLState_def)

lemma plain_step:
  assumes "writeNormalizedRun prev b (c # cs) = None"
  shows "sql_step c cs newSQLState = newSQLState"
proof -
  have "\<not> isQuoteByte c" "c \<noteq> CHR ''#''" "take 2 (c # cs) \<noteq> ''--''" "take 2 (c # cs) \<noteq> ''/*''"
    using assms by (auto simp: writeNormalizedRun_def isQuoteByte_def commentStarts_def split: if_splits)
  then show ?thesis
    by (auto simp: sql_step_def newSQLState_def stepInCode_def dashCommentStarts_def take_Suc_conv_app_nth
        numeral_2_eq_2 split: list.splits if_splits)
qed

lemma norm_step_state: "t \<noteq> [] \<Longrightarrow> fst (norm_step newSQLState prev b t) = newSQLState"
  by (cases t) (auto simp: norm_step_def plain_step split: option.splits)

text \<open>Every run has a byte, so the guards \<open>max 1\<close> above change nothing.\<close>

lemma run_positive: "writeNormalizedRun prev b t = Some (b', n) \<Longrightarrow> 0 < n"
proof -
  assume r: "writeNormalizedRun prev b t = Some (b', n)"
  obtain c cs where t: "t = c # cs" using r by (cases t) (auto simp: writeNormalizedRun_def)
  have "0 < skipComment (c # cs)" if "commentStarts (c # cs)"
    using that by (auto simp: skipComment_def commentStarts_def first_line_def newline_def split: option.split)
  moreover have "0 < skipNumber (c # cs)" if "numberStarts prev (c # cs)"
    using that by (auto simp: skipNumber_def numberStarts_def split: if_splits)
  ultimately show ?thesis using r by (auto simp: t writeNormalizedRun_def skipQuoted_def split: if_splits)
qed

section \<open>What depends on the text of a literal\<close>

text \<open>The state of the loop when \<open>k\<close> bytes are left, if it stops there.\<close>

function norm_at :: "nat \<Rightarrow> sqlState \<Rightarrow> char option \<Rightarrow> string \<Rightarrow> string \<Rightarrow> (sqlState \<times> char option \<times> string) option" where
  "norm_at k s prev b t =
     (if length t \<le> k then (if length t = k then Some (s, prev, b) else None)
      else (case norm_step s prev b t of (s', prev', b', t') \<Rightarrow> norm_at k s' prev' b' t'))"
  by pat_completeness auto
termination
proof (relation "measure (\<lambda>(k, s, prev, b, t). length t)", goal_cases)
  case (2 k s prev b t s' y prev' z b' t')
  then have "norm_step s prev b t = (s', prev', b', t')" "t \<noteq> []" by auto
  then show ?case using norm_step_shorter by simp
qed simp

declare norm_at.simps [simp del]

lemma norm_step_drop:
  "t \<noteq> [] \<Longrightarrow> norm_step s prev b t = (s', prev', b', t') \<Longrightarrow> \<exists>n. t' = drop n t"
  by (auto simp: norm_step_def split: option.splits intro: exI [of _ 1] exI [of _ "Suc 0"])
     (metis drop_0 drop_Suc list.collapse tl_drop)+

lemma norm_at_loop:
  "norm_at k s prev b t = Some (s', prev', b') \<Longrightarrow>
   norm_loop s prev b t = norm_loop s' prev' b' (drop (length t - k) t)"
proof (induction k s prev b t rule: norm_at.induct)
  case (1 k s prev b t)
  show ?case
  proof (cases "length t \<le> k")
    case True
    then show ?thesis using 1(2) by (simp add: norm_at.simps [of k s prev b t] split: if_splits)
  next
    case False
    obtain s1 p1 b1 t1 where st: "norm_step s prev b t = (s1, p1, b1, t1)" by (metis prod_cases4)
    have ne: "t \<noteq> []" using False by auto
    have at: "norm_at k s1 p1 b1 t1 = Some (s', prev', b')"
      using 1(2) False st by (simp add: norm_at.simps [of k s prev b t])
    have ih: "norm_loop s1 p1 b1 t1 = norm_loop s' prev' b' (drop (length t1 - k) t1)"
      using 1(1) [OF False st [symmetric] refl refl at] by simp
    have k: "k \<le> length t1" using at by (auto simp: norm_at.simps [of k s1 p1 b1 t1] split: if_splits)
    obtain n where n: "t1 = drop n t" using norm_step_drop [OF ne st] by blast
    have "drop (length t1 - k) t1 = drop (length t - k) t"
    proof (cases "n \<le> length t")
      case True
      then have "length t - n - k + n = length t - k" using k n by simp
      then show ?thesis by (simp only: n drop_drop length_drop)
    qed (use k n in simp)
    then show ?thesis using ih ne st by (simp add: norm_loop.simps [of s prev b t])
  qed
qed

lemma takeWhile_local:
  "length (takeWhile P (a @ q # y)) \<le> length a \<Longrightarrow> takeWhile P (a @ q # y') = takeWhile P (a @ q # y)"
  by (induction a) (auto split: if_splits)

lemma index_of_local:
  "index_of (a @ x) p = Some k \<Longrightarrow> k + length p \<le> length a \<Longrightarrow> index_of (a @ x') p = Some k"
proof (induction a arbitrary: k)
  case Nil
  then show ?case by (simp add: index_of.simps [of x'] index_of.simps [of x] has_prefix_def)
next
  case (Cons c a)
  have pre: "has_prefix ((c # a) @ x') p = has_prefix ((c # a) @ x) p"
    using Cons.prems(2) by (simp add: has_prefix_def take_append del: append_Cons)
  show ?case
  proof (cases "has_prefix ((c # a) @ x) p")
    case True
    then show ?thesis using Cons.prems(1) pre
      by (simp add: index_of.simps [of "c # a @ x"] index_of.simps [of "c # a @ x'"])
  next
    case False
    then obtain j where "index_of (a @ x) p = Some j" "k = Suc j"
      using Cons.prems(1) by (auto simp: index_of.simps [of "c # a @ x"])
    then show ?thesis using Cons.IH [of j] Cons.prems(2) False pre
      by (simp add: index_of.simps [of "c # a @ x'"])
  qed
qed

lemma skip_quoted_step:
  "skip_quoted_rest d (c # e # z) =
     (if c = backslash \<and> d \<noteq> backtick \<or> c = d \<and> e = d then 2 + skip_quoted_rest d z
      else if c = d then 1 else 1 + skip_quoted_rest d (e # z))"
  by (auto simp: backslash_def backtick_def)

lemma skip_quoted_pos: "0 < skip_quoted_rest d (c # cs)"
  by (cases cs) auto

lemma skip_quoted_local:
  "skip_quoted_rest d (a @ q # y) \<le> length a \<Longrightarrow> skip_quoted_rest d (a @ q # y') = skip_quoted_rest d (a @ q # y)"
proof (induction a rule: length_induct)
  case (1 a)
  note pos = skip_quoted_pos [of d q]
  show ?case
  proof (cases a)
    case Nil
    then show ?thesis using 1(2) pos [of y] by (simp del: skip_quoted_rest.simps)
  next
    case (Cons c cs)
    show ?thesis
    proof (cases cs)
      case Nil
      have "skip_quoted_rest d (c # q # y) \<le> 1" using 1(2) Cons Nil by (simp del: skip_quoted_rest.simps)
      then have "\<not> (c = backslash \<and> d \<noteq> backtick \<or> c = d \<and> q = d)" "c = d"
        using pos [of y] by (simp_all add: skip_quoted_step del: skip_quoted_rest.simps split: if_splits)
      then show ?thesis using Cons Nil by (simp add: skip_quoted_step del: skip_quoted_rest.simps)
    next
      case (Cons e es)
      have l: "length es < length a" "length (e # es) < length a" using \<open>a = c # cs\<close> Cons by auto
      note ih = 1(1) [rule_format, OF l(1)] 1(1) [rule_format, OF l(2)]
      have a: "a @ q # z = c # e # (es @ q # z)" for z using \<open>a = c # cs\<close> Cons by simp
      have len: "length a = Suc (Suc (length es))" using \<open>a = c # cs\<close> Cons by simp
      consider (two) "c = backslash \<and> d \<noteq> backtick \<or> c = d \<and> e = d"
        | (close) "\<not> (c = backslash \<and> d \<noteq> backtick \<or> c = d \<and> e = d)" "c = d"
        | (one) "\<not> (c = backslash \<and> d \<noteq> backtick \<or> c = d \<and> e = d)" "c \<noteq> d" by blast
      then show ?thesis
      proof cases
        case two
        then show ?thesis using 1(2) ih(1) unfolding a len skip_quoted_step by (simp only: if_True)
      next
        case close
        show ?thesis unfolding a skip_quoted_step if_not_P [OF close(1)] if_P [OF close(2)] by (rule refl)
      next
        case one
        then show ?thesis using 1(2) ih(2) unfolding a len skip_quoted_step
          by (simp only: if_False append_Cons list.size)
      qed
    qed
  qed
qed

lemma skip_digits_local:
  assumes q: "\<not> sql_digit q" "q \<notin> {CHR ''.'', CHR ''e'', CHR ''E'', CHR ''+'', CHR ''-''}"
  shows "skip_digits (a @ q # y) \<le> length a \<Longrightarrow> skip_digits (a @ q # y') = skip_digits (a @ q # y)"
proof (induction a rule: length_induct)
  case (1 a)
  show ?case
  proof (cases a)
    case Nil
    then show ?thesis using q by simp
  next
    case (Cons c cs)
    show ?thesis
    proof (cases cs)
      case Nil
      then show ?thesis using 1(2) Cons q by (simp add: exponentFollows_def)
    next
      case (Cons e es)
      have l: "length es < length a" "length (e # es) < length a" using \<open>a = c # cs\<close> Cons by auto
      note ih = 1(1) [rule_format, OF l(1)] 1(1) [rule_format, OF l(2)]
      show ?thesis
      proof (cases "sql_digit c \<or> c = CHR ''.''")
        case True
        then have "skip_digits (c # z) = 1 + skip_digits z" for z by auto
        then show ?thesis using 1(2) ih(2) unfolding \<open>a = c # cs\<close> Cons by (simp del: skip_digits.simps)
      next
        case False
        then have s: "skip_digits (c # e # z) =
            (if (c = CHR ''e'' \<or> c = CHR ''E'') \<and> exponentFollows [e] then 2 + skip_digits z else 0)" for z
          by (auto simp: exponentFollows_def)
        have a: "a @ q # z = c # e # (es @ q # z)" for z using \<open>a = c # cs\<close> Cons by simp
        have len: "length a = Suc (Suc (length es))" using \<open>a = c # cs\<close> Cons by simp
        show ?thesis using 1(2) ih(1) unfolding a len s
          by (auto simp del: skip_digits.simps)
      qed
    qed
  qed
qed

lemma take_two_local: "a \<noteq> [] \<Longrightarrow> take 2 (a @ q # y) = take 2 (a @ q # y')"
  by (cases a; cases "tl a") auto

lemma skipComment_local:
  assumes "a \<noteq> []" and "commentStarts (a @ q # y)" and "skipComment (a @ q # y) \<le> length a"
  shows "skipComment (a @ q # y') = skipComment (a @ q # y)"
proof -
  obtain c cs where a: "a = c # cs" using assms(1) by (cases a) auto
  show ?thesis
  proof (cases "c = CHR ''/''")
    case True
    show ?thesis
    proof (cases "index_of (drop 2 (a @ q # y)) ''*/''")
      case None
      then show ?thesis using assms(3) True a by (simp add: skipComment_def)
    next
      case (Some k)
      have k: "2 + k + 2 \<le> length a" using assms(3) Some True a by (simp add: skipComment_def)
      have d: "drop 2 (a @ q # z) = drop 2 a @ q # z" for z using k by simp
      have "index_of (drop 2 (a @ q # y')) ''*/'' = Some k"
        unfolding d by (rule index_of_local [OF Some [unfolded d]]) (use k in simp)
      then show ?thesis using Some True a by (simp add: skipComment_def)
    qed
  next
    case False
    then show ?thesis using assms(3) takeWhile_local [of "\<lambda>c. c \<noteq> newline" a q y y'] a
      by (simp add: skipComment_def first_line_def)
  qed
qed

lemma skipNumber_local:
  assumes q: "\<not> sql_digit q" "q \<notin> {CHR ''.'', CHR ''e'', CHR ''E'', CHR ''+'', CHR ''-'', CHR ''x'', CHR ''X''}"
    and "a \<noteq> []" and n: "skipNumber (a @ q # y) \<le> length a"
  shows "skipNumber (a @ q # y') = skipNumber (a @ q # y)"
proof -
  have h: "hexPrefix (a @ q # y') = hexPrefix (a @ q # y)"
    unfolding hexPrefix_def take_two_local [OF assms(3), of q y' y] ..
  show ?thesis
  proof (cases "hexPrefix (a @ q # y)")
    case True
    then have "2 \<le> length a" using n by (simp add: skipNumber_def)
    then have d: "drop 2 (a @ q # z) = drop 2 a @ q # z" for z by simp
    have "length (takeWhile isHexByte (drop 2 a @ q # y)) \<le> length (drop 2 a)"
      using n [unfolded skipNumber_def if_P [OF True] d] by simp
    then show ?thesis using takeWhile_local [of isHexByte "drop 2 a" q y y'] True h d by (simp add: skipNumber_def)
  next
    case False
    then show ?thesis using n h skip_digits_local [of q a y y'] q by (simp add: skipNumber_def)
  qed
qed

lemma skipQuoted_local:
  "a \<noteq> [] \<Longrightarrow> skipQuoted (a @ q # y) \<le> length a \<Longrightarrow> skipQuoted (a @ q # y') = skipQuoted (a @ q # y)"
  using skip_quoted_local [of "hd a" "tl a" q y y']
  by (cases a) (simp_all add: skipQuoted_def del: skip_quoted_rest.simps)

text \<open>A run that ends before a quote byte is found alike whatever follows that byte.\<close>

lemma quote_byte_facts:
  "isQuoteByte q \<Longrightarrow> \<not> sql_digit q \<and>
     q \<notin> {CHR ''.'', CHR ''e'', CHR ''E'', CHR ''+'', CHR ''-'', CHR ''x'', CHR ''X''}"
  by (auto simp: isQuoteByte_def sql_digit_def byte_in_def byte_def sql_chars)

lemma run_local:
  assumes q: "isQuoteByte q" and a: "a \<noteq> []"
  shows "case writeNormalizedRun prev b (a @ q # y) of
      None \<Rightarrow> writeNormalizedRun prev b (a @ q # y') = None
    | Some (b', n) \<Rightarrow> n \<le> length a \<longrightarrow> writeNormalizedRun prev b (a @ q # y') = Some (b', n)"
proof -
  obtain c cs where c: "a = c # cs" using a by (cases a) auto
  have h: "hd (a @ q # z) = c" for z by (simp add: c)
  have ne: "a @ q # z \<noteq> []" for z by simp
  have cm: "commentStarts (a @ q # y') = commentStarts (a @ q # y)"
    unfolding commentStarts_def take_two_local [OF a, of q y' y] by (simp add: c)
  have nb: "numberStarts prev (a @ q # y') = numberStarts prev (a @ q # y)"
    by (cases cs) (simp_all add: numberStarts_def c)
  note facts = quote_byte_facts [OF q]
  show ?thesis
    unfolding writeNormalizedRun_def h cm nb if_not_P [OF ne]
    using skipQuoted_local [OF a, of q y y'] skipComment_local [OF a, of q y y']
      skipNumber_local [OF conjunct1 [OF facts] conjunct2 [OF facts] a, of y y']
    by auto
qed

lemma norm_step_local:
  assumes q: "isQuoteByte q" and a: "a \<noteq> []"
    and st: "norm_step newSQLState prev b (a @ q # y) = (s', prev', b', t')" and t: "length (q # y) \<le> length t'"
  shows "\<exists>a'. t' = a' @ q # y \<and> length a' < length a \<and>
    norm_step newSQLState prev b (a @ q # y') = (s', prev', b', a' @ q # y')"
proof (cases "writeNormalizedRun prev b (a @ q # y)")
  case None
  obtain c cs where c: "a = c # cs" using a by (cases a) auto
  have "writeNormalizedRun prev b (a @ q # y') = None" using run_local [OF q a, where prev = prev and b = b and y = y and y' = y'] None by simp
  then show ?thesis using st None plain_step [of prev b c] by (auto simp: norm_step_def c)
next
  case (Some r)
  obtain b1 n where r: "r = (b1, n)" by force
  have n: "max 1 n = n" using run_positive Some r by fastforce
  have t': "s' = newSQLState" "b' = b1" "prev' = Some ((a @ q # y) ! (n - 1))" "t' = drop n (a @ q # y)"
    using st Some r n by (auto simp: norm_step_def)
  have le: "n \<le> length a" using t t'(4) by auto
  then have "writeNormalizedRun prev b (a @ q # y') = Some (b1, n)"
    using run_local [OF q a, where prev = prev and b = b and y = y and y' = y'] Some r by simp
  moreover have "(a @ q # z) ! (n - 1) = a ! (n - 1)" "drop n (a @ q # z) = drop n a @ q # z" for z
    using le run_positive [OF Some [unfolded r]] by (simp_all add: nth_append_left)
  moreover have "0 < n" by (rule run_positive [OF Some [unfolded r]])
  ultimately show ?thesis using t' n a by (intro exI [of _ "drop n a"]) (simp add: norm_step_def)
qed

lemma norm_at_local:
  assumes q: "isQuoteByte q"
  shows "norm_at (length (q # y)) newSQLState prev b (a @ q # y) = Some r \<Longrightarrow>
    norm_at (length (q # y')) newSQLState prev b (a @ q # y') = Some r"
proof (induction a arbitrary: prev b rule: length_induct)
  case (1 a)
  show ?case
  proof (cases "a = []")
    case True
    then show ?thesis using 1(2) by (simp add: norm_at.simps)
  next
    case False
    obtain s1 p1 b1 t1 where st: "norm_step newSQLState prev b (a @ q # y) = (s1, p1, b1, t1)"
      by (metis prod_cases4)
    have s1: "s1 = newSQLState" using norm_step_state [of "a @ q # y" prev b] st by simp
    have at: "norm_at (length (q # y)) newSQLState p1 b1 t1 = Some r"
      using 1(2) False st s1 by (simp add: norm_at.simps [of _ newSQLState prev b])
    then have "length (q # y) \<le> length t1"
      by (auto simp: norm_at.simps [of _ newSQLState p1 b1 t1] split: if_splits)
    from norm_step_local [OF q False st this, of y'] obtain a' where
      a': "t1 = a' @ q # y" "length a' < length a"
        "norm_step newSQLState prev b (a @ q # y') = (s1, p1, b1, a' @ q # y')" by blast
    have "norm_at (length (q # y')) newSQLState p1 b1 (a' @ q # y') = Some r"
      using 1(1) a'(1,2) at by blast
    then show ?thesis using a'(3) s1 False by (simp add: norm_at.simps [of _ newSQLState prev b])
  qed
qed

text \<open>The text between the quotes \<open>q\<close>: escapes and doubled quotes only as pairs.\<close>

fun literal_text :: "char \<Rightarrow> string \<Rightarrow> bool" where
  "literal_text q [] = True"
| "literal_text q (c # cs) =
     (if c = backslash \<or> c = q then
        (case cs of [] \<Rightarrow> False | d # ds \<Rightarrow> (c = backslash \<or> d = q) \<and> literal_text q ds)
      else literal_text q cs)"

lemma skip_literal:
  assumes "q \<noteq> backtick" "take 1 z \<noteq> [q]" "q \<noteq> backslash"
  shows "literal_text q l \<Longrightarrow> skip_quoted_rest q (l @ q # z) = length l + 1"
  using assms
proof (induction q l rule: literal_text.induct)
  case (1 q)
  then show ?case by (cases z) auto
next
  case (2 q c cs)
  then show ?case by (auto split: list.splits if_splits)
qed

text \<open>
  C17. What a statement compares against does not reach the stored shape: two statements that differ
  only in the text of a string literal, anything of any length that the quotes delimit, have the
  same shape and the same digest, wherever in the statement the literal stands.
\<close>
theorem literal_text_not_stored:
  assumes q: "q = quote_sq \<or> q = quote_dq"
    and lit: "literal_text q l" "literal_text q l'" "take 1 post \<noteq> [q]"
    and starts: "norm_at (length (q # l @ q # post)) newSQLState None [] (pre @ q # l @ q # post) \<noteq> None"
  shows "Normalize sha256_hex (pre @ q # l @ q # post) = Normalize sha256_hex (pre @ q # l' @ q # post)"
proof -
  have qb: "isQuoteByte q" "q \<noteq> backtick" "q \<noteq> backslash"
    using q by (auto simp: isQuoteByte_def sql_chars)
  obtain s p b where at: "norm_at (length (q # l @ q # post)) newSQLState None [] (pre @ q # l @ q # post) = Some (s, p, b)"
    using starts by auto
  note at' = norm_at_local [OF qb(1) at, of "l' @ q # post"]
  have step: "norm_loop s p b (q # k @ q # post) = norm_loop s (Some q) (b @ ''?'') post"
    if "literal_text q k" "s = newSQLState" for k
  proof -
    have "skipQuoted (q # k @ q # post) = length k + 2"
      using skip_literal [OF qb(2) lit(3) qb(3) that(1)] by (simp add: skipQuoted_def)
    then have "writeNormalizedRun p b (q # k @ q # post) = Some (b @ ''?'', length k + 2)"
      using q by (auto simp: writeNormalizedRun_def)
    then show ?thesis using that(2)
      by (simp add: norm_loop.simps [of newSQLState p b "q # k @ q # post"] norm_step_def nth_append)
  qed
  have state: "norm_at k newSQLState pv bb tt = Some (s1, p1, b1) \<Longrightarrow> s1 = newSQLState" for k pv bb tt s1 p1 b1
  proof (induction tt arbitrary: pv bb rule: length_induct)
    case (1 t)
    obtain s2 p2 b2 t2 where st: "norm_step newSQLState pv bb t = (s2, p2, b2, t2)" by (metis prod_cases4)
    show ?case
    proof (cases "length t \<le> k")
      case False
      then have ne: "t \<noteq> []" by auto
      have "s2 = newSQLState" using norm_step_state [OF ne, of pv bb] st by simp
      then have "norm_at k newSQLState p2 b2 t2 = Some (s1, p1, b1)"
        using 1(2) False st by (simp add: norm_at.simps [of k newSQLState pv bb t])
      then show ?thesis using 1(1) norm_step_shorter [OF ne st] by blast
    qed (use 1(2) in \<open>simp add: norm_at.simps [of k newSQLState pv bb t] split: if_splits\<close>)
  qed
  have "norm_loop newSQLState None [] (pre @ q # l @ q # post) = norm_loop newSQLState None [] (pre @ q # l' @ q # post)"
    using norm_at_loop [OF at] norm_at_loop [OF at'] step [OF lit(1)] step [OF lit(2)] state [OF at] by simp
  then show ?thesis by (simp add: Normalize_def)
qed

theorem literal_text_not_stored_witness:
  "Normalize id (''SELECT 1 WHERE a='' @ quote_sq # ''x'' @ quote_sq # '' LIMIT 5'') =
   Normalize id (''SELECT 1 WHERE a='' @ quote_sq # ''secret'' @ quote_sq # '' LIMIT 5'')"
proof (rule literal_text_not_stored)
  show "norm_at (length (quote_sq # ''x'' @ quote_sq # '' LIMIT 5'')) newSQLState None []
      (''SELECT 1 WHERE a='' @ quote_sq # ''x'' @ quote_sq # '' LIMIT 5'') \<noteq> None"
    by code_simp
qed (simp_all add: sql_chars)

section \<open>Where the scanner and the normaliser differ\<close>

text \<open>The scanner's state after a piece of SQL.\<close>

fun sql_run :: "sqlState \<Rightarrow> string \<Rightarrow> sqlState" where
  "sql_run s [] = s"
| "sql_run s (c # cs) = sql_run (sql_step c cs s) cs"

text \<open>
  The two do not agree on where a comment begins or a quoted name ends: two dashes without a blank are
  code to the scanner (and to the server) and a comment to the normaliser, which drops the
  rest of the line from the shape; a backslash before a closing backtick ends the name for the
  normaliser and keeps the scanner inside it.
\<close>
lemma scanner_and_normaliser_differ:
  "fst (Normalize id ''SELECT 5--3 FROM t'') = ''SELECT ?''"
  "outsideCode (sql_run newSQLState ''SELECT 5--3 FROM t'')"
  "skipQuoted (backtick # ''a'' @ [backslash, backtick]) = 4"
  "\<not> outsideCode (sql_run newSQLState (backtick # ''a'' @ [backslash, backtick]))"
  by code_simp+

end
