(* ===== verification/SlowParse.thy ===== *)
theory SlowParse
  imports SlowNormalize
begin

text \<open>
  Reading one record of the slow log (internal/slowquery/parse.go). Go's floating point numbers and
  \<open>time.Parse\<close> are parameters. A panic is a result of its own: \<open>parseUser\<close> takes the first field of a
  text that may have none.
\<close>

section \<open>Values\<close>

text \<open>\<open>sl_ms\<close>: seconds times 1000; \<open>sl_over_day\<close>: more than a day of milliseconds; \<open>sl_round\<close>: \<open>int64(ms + 0.5)\<close>.\<close>

record 'f slow_lib =
  sl_parse_float :: "string \<Rightarrow> 'f option"
  sl_negative :: "'f \<Rightarrow> bool"
  sl_ms :: "'f \<Rightarrow> 'f"
  sl_over_day :: "'f \<Rightarrow> bool"
  sl_round :: "'f \<Rightarrow> int"
  sl_time :: "string \<Rightarrow> string \<Rightarrow> time option"
  sl_sha256 :: "string \<Rightarrow> string"

definition day_ms :: int where "day_ms = 86400000"

definition secondsToMS :: "'f slow_lib \<Rightarrow> string \<Rightarrow> int" where
  "secondsToMS lib value =
     (case sl_parse_float lib value of
        None \<Rightarrow> 0
      | Some seconds \<Rightarrow>
          if sl_negative lib seconds then 0
          else if sl_over_day lib (sl_ms lib seconds) then day_ms
          else sl_round lib (sl_ms lib seconds))"

definition parseCount :: "string \<Rightarrow> int" where
  "parseCount value = (case atoi value of None \<Rightarrow> 0 | Some n \<Rightarrow> if n < 0 then 0 else n)"

definition log_layouts :: "string list" where
  "log_layouts = [''060102 15:04:05'', ''060102  15:04:05'', ''2006-01-02T15:04:05Z07:00'',
     ''2006-01-02T15:04:05.999999Z07:00'']"

fun first_layout :: "'f slow_lib \<Rightarrow> string list \<Rightarrow> string \<Rightarrow> time option" where
  "first_layout lib [] value = None"
| "first_layout lib (l # ls) value =
     (case sl_time lib l value of Some t \<Rightarrow> Some t | None \<Rightarrow> first_layout lib ls value)"

definition parseLogTime :: "'f slow_lib \<Rightarrow> string \<Rightarrow> time option" where
  "parseLogTime lib value = first_layout lib log_layouts value"

section \<open>Names\<close>

definition ident_char :: "char \<Rightarrow> bool" where
  "ident_char c = (byte_in 97 122 c \<or> byte_in 65 90 c \<or> byte_in 48 57 c \<or> c \<in> set ''_-.'')"

text \<open>Every accepted rune is one byte, so the loop over runes accepts what this accepts.\<close>

definition sanitizeIdent :: "string \<Rightarrow> string" where
  "sanitizeIdent value =
     (let v = trim_space value in
      if \<not> list_all ident_char v then [] else if 64 < length v then [] else v)"

datatype 'a outcome_of = Panic | Value 'a

definition byte_index :: "char \<Rightarrow> string \<Rightarrow> nat option" where
  "byte_index c s = (let k = length (takeWhile (\<lambda>x. x \<noteq> c) s) in if k = length s then None else Some k)"

definition parseUser :: "string \<Rightarrow> string outcome_of" where
  "parseUser r =
     (let rest = trim_space r in
      case byte_index CHR ''['' rest of
        None \<Rightarrow> (case GoText.fields (rest @ '' '') of [] \<Rightarrow> Panic | f # fs \<Rightarrow> Value (sanitizeIdent f))
      | Some open \<Rightarrow>
          (case byte_index CHR '']'' (drop open rest) of
             None \<Rightarrow> Value (sanitizeIdent (take open rest))
           | Some close \<Rightarrow>
               let name = take (close - 1) (drop (open + 1) rest)
               in Value (sanitizeIdent (if name = [] then take open rest else name))))"

section \<open>The header\<close>

fun header_pairs :: "(string \<rightharpoonup> string) \<Rightarrow> string list \<Rightarrow> (string \<rightharpoonup> string)" where
  "header_pairs m (p # q # ps) =
     header_pairs
       (if \<not> has_suffix p '':'' then m
        else if trim_suffix p '':'' = [] \<or> has_suffix q '':'' then m
        else m(trim_suffix p '':'' \<mapsto> q)) (q # ps)"
| "header_pairs m ps = m"

definition headerFields :: "string \<Rightarrow> (string \<rightharpoonup> string)" where
  "headerFields ln = header_pairs Map.empty (GoText.fields (trim_prefix ln ''#''))"

record entry =
  At :: time
  DBUser :: string
  Schema :: string
  QueryMS :: int
  LockMS :: int
  RowsSent :: int
  RowsExamined :: int
  FullScan :: bool
  SQL :: string

text \<open>\<open>strings.EqualFold(v, "Yes")\<close>: the long s of U+017F folds to s.\<close>

definition folds_to_yes :: "string \<Rightarrow> bool" where
  "folds_to_yes v = (to_lower v = ''yes'' \<or> to_lower v = ''ye'' @ [CHR 0xC5, CHR 0xBF])"

definition readMeasurements :: "'f slow_lib \<Rightarrow> (string \<rightharpoonup> string) \<Rightarrow> entry \<Rightarrow> entry" where
  "readMeasurements lib m e =
     (let e = (case m ''Schema'' of Some v \<Rightarrow> e\<lparr>Schema := v\<rparr> | None \<Rightarrow> e);
          e = (case m ''Query_time'' of Some v \<Rightarrow> e\<lparr>QueryMS := secondsToMS lib v\<rparr> | None \<Rightarrow> e);
          e = (case m ''Lock_time'' of Some v \<Rightarrow> e\<lparr>LockMS := secondsToMS lib v\<rparr> | None \<Rightarrow> e);
          e = (case m ''Rows_sent'' of Some v \<Rightarrow> e\<lparr>RowsSent := parseCount v\<rparr> | None \<Rightarrow> e);
          e = (case m ''Rows_examined'' of Some v \<Rightarrow> e\<lparr>RowsExamined := parseCount v\<rparr> | None \<Rightarrow> e)
      in (case m ''Full_scan'' of Some v \<Rightarrow> e\<lparr>FullScan := folds_to_yes v\<rparr> | None \<Rightarrow> e))"

definition time_prefix :: string where "time_prefix = ''# Time:''"

definition readHeaderLine :: "'f slow_lib \<Rightarrow> string \<Rightarrow> entry \<Rightarrow> entry outcome_of" where
  "readHeaderLine lib ln e =
     (if has_prefix ln time_prefix then
        Value (case parseLogTime lib (trim_space (drop (length time_prefix) ln)) of
            Some t \<Rightarrow> e\<lparr>At := t\<rparr> | None \<Rightarrow> e)
      else if has_prefix ln recordMarker then
        (case parseUser (drop (length recordMarker) ln) of
           Panic \<Rightarrow> Panic | Value u \<Rightarrow> Value (e\<lparr>DBUser := u\<rparr>))
      else Value (readMeasurements lib (headerFields ln) e))"

text \<open>The header lines applied, and the lines of the body.\<close>

fun read_header :: "'f slow_lib \<Rightarrow> string list \<Rightarrow> entry \<Rightarrow> (entry \<times> string list) outcome_of" where
  "read_header lib [] e = Value (e, [])"
| "read_header lib (l # ls) e =
     (if \<not> has_prefix l ''#'' then Value (e, l # ls)
      else (case readHeaderLine lib l e of Panic \<Rightarrow> Panic | Value e' \<Rightarrow> read_header lib ls e'))"

section \<open>The body\<close>

text \<open>
  \<open>strings.ToUpper\<close> on the ASCII prefixes that are compared; a rune outside ASCII whose upper case is
  ASCII could only make a prefix of a text that is not SQL.
\<close>

function stripTimestampPrologue :: "string \<Rightarrow> string" where
  "stripTimestampPrologue sql =
     (let trimmed = trim_left sql [CHR 0x20, CHR 0x09, CHR 0x0D, CHR 0x0A]; upper = to_upper trimmed;
          cut = (if has_prefix upper ''SET TIMESTAMP'' then 13 else if has_prefix upper ''USE '' then 4 else 0)
      in if cut = 0 then trimmed
         else (case byte_index CHR '';'' (drop cut trimmed) of
             None \<Rightarrow> trimmed
           | Some k \<Rightarrow> stripTimestampPrologue (drop (cut + k + 1) trimmed)))"
  by pat_completeness auto
termination
proof (relation "measure length", goal_cases)
  case (2 sql trimmed upper cut k)
  have "length trimmed \<le> length sql" by (simp add: 2(1) trim_left_def length_dropWhile_le)
  moreover have "k < length (drop cut trimmed)"
    using 2(5) length_takeWhile_le [of "\<lambda>x. x \<noteq> CHR '';''" "drop cut trimmed"]
    by (auto simp: byte_index_def Let_def split: if_splits)
  ultimately show ?case by simp
qed simp

declare stripTimestampPrologue.simps [simp del]

section \<open>A record\<close>

definition Parse_record :: "'f slow_lib \<Rightarrow> log_record \<Rightarrow> time \<Rightarrow> entry option outcome_of" where
  "Parse_record lib r previous =
     (if \<not> Trusted r then Value None
      else (case read_header lib (split_on newline (Text r))
          \<lparr>At = previous, DBUser = [], Schema = [], QueryMS = 0, LockMS = 0, RowsSent = 0, RowsExamined = 0,
           FullScan = False, SQL = []\<rparr> of
          Panic \<Rightarrow> Panic
        | Value (e, body) \<Rightarrow>
            if DBUser e = [] \<or> QueryMS e \<le> 0 then Value None
            else let e = e\<lparr>SQL := stripTimestampPrologue (join [newline] body)\<rparr>
              in if trim_space (SQL e) = [] then Value None else Value (Some e)))"

section \<open>What an accepted record looks like\<close>

definition account_name :: "string \<Rightarrow> bool" where
  "account_name u = (list_all ident_char u \<and> length u \<le> 64)"

lemma sanitizeIdent_name: "account_name (sanitizeIdent v)"
  by (simp add: sanitizeIdent_def account_name_def Let_def)

lemma parseUser_name: "parseUser v = Value u \<Longrightarrow> account_name u"
  by (auto simp: parseUser_def Let_def sanitizeIdent_name split: option.splits list.splits)

text \<open>Conversions of a float that is not over a day stay within a day.\<close>

definition float_conversion :: "'f slow_lib \<Rightarrow> bool" where
  "float_conversion lib = (\<forall>x. \<not> sl_over_day lib x \<longrightarrow> sl_round lib x \<le> day_ms)"

lemma secondsToMS_bound: "float_conversion lib \<Longrightarrow> secondsToMS lib v \<le> day_ms"
  by (auto simp: secondsToMS_def float_conversion_def day_ms_def split: option.split)

lemma parseCount_range: "0 \<le> parseCount v \<and> parseCount v < 2 ^ 63"
proof (cases "atoi v")
  case (Some n)
  then have "n < 2 ^ 63" by (auto simp: atoi_def Let_def split: if_splits prod.splits)
  then show ?thesis using Some by (simp add: parseCount_def)
qed (simp add: parseCount_def)

text \<open>What every header line keeps.\<close>

definition entry_ok :: "entry \<Rightarrow> bool" where
  "entry_ok e = (account_name (DBUser e) \<and> QueryMS e \<le> day_ms \<and> LockMS e \<le> day_ms \<and>
     0 \<le> RowsSent e \<and> RowsSent e < 2 ^ 63 \<and> 0 \<le> RowsExamined e \<and> RowsExamined e < 2 ^ 63)"

lemma readMeasurements_ok: "float_conversion lib \<Longrightarrow> entry_ok e \<Longrightarrow> entry_ok (readMeasurements lib m e)"
  using secondsToMS_bound [of lib] parseCount_range
  by (auto simp: readMeasurements_def entry_ok_def Let_def split: option.split)

lemma entry_ok_fields:
  "entry_ok e \<Longrightarrow> entry_ok (e\<lparr>At := t\<rparr>)"
  "entry_ok e \<Longrightarrow> account_name u \<Longrightarrow> entry_ok (e\<lparr>DBUser := u\<rparr>)"
  by (simp_all add: entry_ok_def)

lemma readHeaderLine_ok:
  "float_conversion lib \<Longrightarrow> entry_ok e \<Longrightarrow> readHeaderLine lib l e = Value e' \<Longrightarrow> entry_ok e'"
  by (auto simp: readHeaderLine_def readMeasurements_ok entry_ok_fields parseUser_name
      split: if_splits outcome_of.splits option.splits)

lemma read_header_ok:
  "float_conversion lib \<Longrightarrow> entry_ok e \<Longrightarrow> read_header lib ls e = Value (e', body) \<Longrightarrow> entry_ok e'"
  by (induction lib ls e rule: read_header.induct)
     (auto intro: readHeaderLine_ok split: if_splits outcome_of.splits)

lemma parsed_entry:
  assumes "float_conversion lib" and "Parse_record lib r previous = Value (Some e)"
  shows "Trusted r \<and> entry_ok e \<and> DBUser e \<noteq> [] \<and> 1 \<le> QueryMS e \<and> QueryMS e \<le> 86400000 \<and> trim_space (SQL e) \<noteq> []"
proof -
  let ?e0 = "\<lparr>At = previous, DBUser = [], Schema = [], QueryMS = 0, LockMS = 0, RowsSent = 0, RowsExamined = 0,
           FullScan = False, SQL = []\<rparr>"
  obtain e1 body where h: "read_header lib (split_on newline (Text r)) ?e0 = Value (e1, body)"
    and e: "e = e1\<lparr>SQL := stripTimestampPrologue (join [newline] body)\<rparr>" and t: "Trusted r"
    and more: "DBUser e1 \<noteq> []" "\<not> QueryMS e1 \<le> 0" "trim_space (SQL e) \<noteq> []"
    using assms(2) by (auto simp: Parse_record_def Let_def split: if_splits outcome_of.splits)
  have "entry_ok ?e0" by (simp add: entry_ok_def account_name_def day_ms_def)
  then have "entry_ok e1" by (rule read_header_ok [OF assms(1) _ h])
  then show ?thesis using e t more by (simp add: entry_ok_def day_ms_def)
qed

text \<open>
  C19. A record that is accepted is well formed whatever text a tenant's query put in the log: it was
  trusted, its account is a name of at most 64 letters, digits, dots, dashes and underscores that
  no SQL text can hide in, its time is between one millisecond and a day, its row counts are
  64-bit numbers that are not negative, and its statement is not blank.
\<close>
theorem Parse_record_well_formed:
  assumes "float_conversion lib" and "Parse_record lib r previous = Value (Some e)"
  shows "Trusted r \<and> account_name (DBUser e) \<and> DBUser e \<noteq> [] \<and> 1 \<le> QueryMS e \<and> QueryMS e \<le> 86400000 \<and>
    RowsSent e \<in> {0..<2 ^ 63} \<and> RowsExamined e \<in> {0..<2 ^ 63} \<and> trim_space (SQL e) \<noteq> []"
  using parsed_entry [OF assms] by (simp add: entry_ok_def)

text \<open>Floats as whole numbers of milliseconds, enough for a concrete run.\<close>

definition sample_slow_lib :: "int slow_lib" where
  "sample_slow_lib = \<lparr>sl_parse_float = atoi, sl_negative = (\<lambda>x. x < 0), sl_ms = (\<lambda>x. x * 1000),
     sl_over_day = (\<lambda>x. day_ms < x), sl_round = (\<lambda>x. x), sl_time = (\<lambda>l v. None), sl_sha256 = id\<rparr>"

definition sample_record :: "string \<Rightarrow> string" where
  "sample_record account = recordMarker @ account @ [newline] @ ''# Query_time: 2'' @ [newline] @ ''x;'' @ [newline]"

theorem Parse_record_well_formed_witness:
  "case Parse_record sample_slow_lib \<lparr>Text = sample_record ''b'', Trusted = True\<rparr> 5 of
     Value (Some e) \<Rightarrow> DBUser e = ''b'' \<and> QueryMS e = 2000 \<and> account_name (DBUser e)
   | _ \<Rightarrow> False"
proof -
  have lib: "float_conversion sample_slow_lib" by (simp add: float_conversion_def sample_slow_lib_def)
  have p: "\<exists>e. Parse_record sample_slow_lib \<lparr>Text = sample_record ''b'', Trusted = True\<rparr> 5 = Value (Some e) \<and>
      DBUser e = ''b'' \<and> QueryMS e = 2000"
  proof -
    have "(case Parse_record sample_slow_lib \<lparr>Text = sample_record ''b'', Trusted = True\<rparr> 5 of
        Value (Some e) \<Rightarrow> DBUser e = ''b'' \<and> QueryMS e = 2000 | _ \<Rightarrow> False)" by code_simp
    then show ?thesis by (auto split: outcome_of.splits option.splits)
  qed
  then show ?thesis using Parse_record_well_formed [OF lib] by fastforce
qed

end
