(* ===== verification/SlowCollect.thy ===== *)
theory SlowCollect
  imports SlowParse
begin

text \<open>
  The slow query collector (internal/slowquery/collect.go): one pass from the cursor over the log to the
  statistics table. The log is the file's content, the tables are maps, the transaction is all or
  nothing; a panic inside a pass is caught by \<open>bgjob.Guard\<close> and ends the pass.
\<close>

section \<open>State\<close>

type_synonym bucketKey = "string \<times> time \<times> string"

record bucket =
  b_schema :: string
  b_normalized :: string
  b_calls :: int
  b_total :: int
  b_max :: int
  b_lock :: int
  b_sent :: int
  b_examined :: int
  b_full :: int

record slow_db =
  slow_enabled :: "int option"
  slow_cursor :: "(int \<times> int) option"
  slow_stats :: "bucketKey \<rightharpoonup> int option \<times> bucket"
  db_accounts :: "string \<rightharpoonup> int"
  slow_last_error :: string

datatype slow_statement = ReadSetting | ReadCursor | ReadLog | StoreRows | WriteError

record slow_env =
  se_fails :: "slow_statement \<Rightarrow> bool"
  se_error :: string
  se_now :: time

definition passByteCap :: int where "passByteCap = 33554432"
definition digestCap :: int where "digestCap = 5000"
definition slow_retention :: duration where "slow_retention = 14 * (24 * hour)"
definition otherDigest :: string where "otherDigest = replicate 32 CHR ''_''"
definition overflow_shape :: string where "overflow_shape = ''(more shapes than one pass can hold)''"

section \<open>Aggregation\<close>

text \<open>An \<open>int64\<close> sum.\<close>

definition wrap64 :: "int \<Rightarrow> int" where
  "wrap64 n = (n + 2 ^ 63) mod 2 ^ 64 - 2 ^ 63"

fun put_row :: "'k \<Rightarrow> 'v \<Rightarrow> ('k \<times> 'v) list \<Rightarrow> ('k \<times> 'v) list" where
  "put_row k v [] = [(k, v)]"
| "put_row k v ((k', v') # rows) = (if k' = k then (k, v) # rows else (k', v') # put_row k v rows)"

definition count_entry :: "entry \<Rightarrow> bucket \<Rightarrow> bucket" where
  "count_entry e row =
     row\<lparr>b_calls := wrap64 (b_calls row + 1),
         b_total := wrap64 (b_total row + QueryMS e),
         b_lock := wrap64 (b_lock row + LockMS e),
         b_sent := wrap64 (b_sent row + RowsSent e),
         b_examined := wrap64 (b_examined row + RowsExamined e),
         b_max := (if b_max row < QueryMS e then QueryMS e else b_max row),
         b_full := (if FullScan e then wrap64 (b_full row + 1) else b_full row)\<rparr>"

definition add_entry :: "'f slow_lib \<Rightarrow> time \<Rightarrow> entry \<Rightarrow> (bucketKey \<times> bucket) list \<Rightarrow> (bucketKey \<times> bucket) list" where
  "add_entry lib now e buckets =
     (let at = (if At e = zero_time then now else At e);
          (normalized, digest) = Normalize (sl_sha256 lib) (SQL e);
          hour_of = at - at mod hour;
          full = (map_of buckets (digest, hour_of, DBUser e) = None \<and> digestCap \<le> int (length buckets));
          key = (if full then otherDigest else digest, hour_of, DBUser e);
          row = (case map_of buckets key of
              Some row \<Rightarrow> row
            | None \<Rightarrow> \<lparr>b_schema = Schema e, b_normalized = (if full then overflow_shape else normalized),
                b_calls = 0, b_total = 0, b_max = 0, b_lock = 0, b_sent = 0, b_examined = 0, b_full = 0\<rparr>)
      in put_row key (count_entry e row) buckets)"

fun aggregate :: "'f slow_lib \<Rightarrow> time \<Rightarrow> log_record list \<Rightarrow> time \<Rightarrow> (bucketKey \<times> bucket) list \<Rightarrow>
    (bucketKey \<times> bucket) list outcome_of" where
  "aggregate lib now [] previous buckets = Value buckets"
| "aggregate lib now (r # rs) previous buckets =
     (case Parse_record lib r previous of
        Panic \<Rightarrow> Panic
      | Value None \<Rightarrow> aggregate lib now rs previous buckets
      | Value (Some e) \<Rightarrow> aggregate lib now rs (At e) (add_entry lib now e buckets))"

section \<open>Storing\<close>

definition merge_row :: "(string \<rightharpoonup> int) \<Rightarrow> bucketKey \<times> bucket \<Rightarrow> (bucketKey \<rightharpoonup> int option \<times> bucket) \<Rightarrow>
    (bucketKey \<rightharpoonup> int option \<times> bucket)" where
  "merge_row accounts = (\<lambda>(key, row) stats.
     stats(key \<mapsto>
       (case stats key of
          None \<Rightarrow> (accounts (snd (snd key)), row)
        | Some (domain, old) \<Rightarrow> (domain, old\<lparr>b_calls := b_calls old + b_calls row,
            b_total := b_total old + b_total row, b_max := max (b_max old) (b_max row),
            b_lock := b_lock old + b_lock row, b_sent := b_sent old + b_sent row,
            b_examined := b_examined old + b_examined row, b_full := b_full old + b_full row\<rparr>))))"

definition storeBuckets :: "slow_env \<Rightarrow> (bucketKey \<times> bucket) list \<Rightarrow> int \<Rightarrow> int \<Rightarrow> slow_db \<Rightarrow> bool \<times> slow_db" where
  "storeBuckets env buckets consumed fsize db =
     (if se_fails env StoreRows then (False, db)
      else let stats = fold (merge_row (db_accounts db)) buckets (slow_stats db)
        in (True, db\<lparr>slow_stats := (\<lambda>k. if fst (snd k) < se_now env - slow_retention then None else stats k),
              slow_cursor := Some (consumed, fsize)\<rparr>))"

section \<open>A pass\<close>

definition readFrom :: "string \<Rightarrow> int \<Rightarrow> int \<Rightarrow> string" where
  "readFrom content offset limit = take (nat limit) (drop (nat offset) content)"

definition collectPass :: "'f slow_lib \<Rightarrow> slow_env \<Rightarrow> string option \<Rightarrow> slow_db \<Rightarrow> (bool \<times> slow_db) outcome_of" where
  "collectPass lib env file db =
     (case file of
        None \<Rightarrow> Value (True, db)
      | Some content \<Rightarrow>
          if se_fails env ReadCursor then Value (False, db)
          else let fsize = int (length content);
                   (offset, previousSize) = (case slow_cursor db of None \<Rightarrow> (0, 0) | Some c \<Rightarrow> c);
                   start = (if fsize < offset \<or> fsize < previousSize then 0 else offset)
            in if fsize \<le> start then Value (True, db)
               else if se_fails env ReadLog then Value (False, db)
               else let data = readFrom content start passByteCap; (records, consumed) = ScanRecords data
                 in if consumed = 0 then
                      (if int (length data) < passByteCap then Value (True, db)
                       else Value (storeBuckets env [] (start + int (length data)) fsize db))
                    else (case aggregate lib (se_now env) records zero_time [] of
                        Panic \<Rightarrow> Panic
                      | Value buckets \<Rightarrow> Value (storeBuckets env buckets (start + int consumed) fsize db)))"

definition recordCollectorError :: "slow_env \<Rightarrow> string \<Rightarrow> slow_db \<Rightarrow> slow_db" where
  "recordCollectorError env message db =
     (if se_fails env WriteError then db
      else db\<lparr>slow_last_error := (if 255 < length message then take 255 message else message)\<rparr>)"

definition collectionEnabled :: "slow_env \<Rightarrow> slow_db \<Rightarrow> bool option" where
  "collectionEnabled env db =
     (if se_fails env ReadSetting then None
      else Some (case slow_enabled db of None \<Rightarrow> False | Some enabled \<Rightarrow> enabled = 1))"

definition CollectOnce :: "'f slow_lib \<Rightarrow> slow_env \<Rightarrow> string option \<Rightarrow> slow_db \<Rightarrow> slow_db" where
  "CollectOnce lib env file db =
     (case collectionEnabled env db of
        None \<Rightarrow> db
      | Some enabled \<Rightarrow>
          if \<not> enabled then db
          else (case collectPass lib env file db of
              Panic \<Rightarrow> db
            | Value (ok, db') \<Rightarrow> recordCollectorError env (if ok then [] else se_error env) db'))"

section \<open>Nothing is lost between the log and the rows\<close>

fun accepted :: "'f slow_lib \<Rightarrow> log_record list \<Rightarrow> time \<Rightarrow> entry list" where
  "accepted lib [] previous = []"
| "accepted lib (r # rs) previous =
     (case Parse_record lib r previous of
        Panic \<Rightarrow> []
      | Value None \<Rightarrow> accepted lib rs previous
      | Value (Some e) \<Rightarrow> e # accepted lib rs (At e))"

lemma wrap64_id: "0 \<le> n \<Longrightarrow> n < 2 ^ 63 \<Longrightarrow> wrap64 n = n"
  by (simp add: wrap64_def)

lemma put_row_sum:
  fixes f :: "'v \<Rightarrow> int"
  shows "sum_list (map (f \<circ> snd) (put_row k v rows)) =
    sum_list (map (f \<circ> snd) rows) + f v - (case map_of rows k of None \<Rightarrow> 0 | Some w \<Rightarrow> f w)"
  by (induction k v rows rule: put_row.induct) auto

lemma put_row_all: "list_all (P \<circ> snd) rows \<Longrightarrow> P v \<Longrightarrow> list_all (P \<circ> snd) (put_row k v rows)"
  by (induction k v rows rule: put_row.induct) auto

lemma sum_list_member: "list_all (\<lambda>x. 0 \<le> f x) xs \<Longrightarrow> x \<in> set xs \<Longrightarrow> f x \<le> (sum_list (map f xs) :: int)"
proof (induction xs)
  case (Cons y xs)
  have "0 \<le> sum_list (map f xs)" using Cons.prems(1) by (auto simp: list_all_iff intro!: sum_list_nonneg)
  then show ?case using Cons by auto
qed simp

definition rows_of :: "(bucketKey \<times> bucket) list \<Rightarrow> int \<Rightarrow> int \<Rightarrow> bool" where
  "rows_of buckets calls ms =
     (list_all ((\<lambda>b. 0 \<le> b_calls b \<and> 0 \<le> b_total b) \<circ> snd) buckets \<and>
      sum_list (map (b_calls \<circ> snd) buckets) = calls \<and> sum_list (map (b_total \<circ> snd) buckets) = ms)"

lemma add_entry_rows:
  assumes r: "rows_of buckets calls ms" and e: "0 \<le> QueryMS e"
    and small: "calls + 1 < 2 ^ 63" "ms + QueryMS e < 2 ^ 63"
  shows "rows_of (add_entry lib now e buckets) (calls + 1) (ms + QueryMS e)"
proof -
  obtain key row0 where a: "add_entry lib now e buckets = put_row key (count_entry e row0) buckets"
    and row0: "(case map_of buckets key of Some row \<Rightarrow> row0 = row | None \<Rightarrow> b_calls row0 = 0 \<and> b_total row0 = 0)"
    by (cases "Normalize (sl_sha256 lib) (SQL e)")
       (auto simp: add_entry_def Let_def split: option.splits)
  have b: "0 \<le> b_calls row0 \<and> b_calls row0 \<le> calls \<and> 0 \<le> b_total row0 \<and> b_total row0 \<le> ms"
  proof (cases "map_of buckets key")
    case None
    have "0 \<le> calls" "0 \<le> ms"
      using r unfolding rows_of_def by (auto simp: list_all_iff intro!: sum_list_nonneg)
    then show ?thesis using None row0 by simp
  next
    case (Some row)
    have m: "(key, row0) \<in> set buckets" using Some row0 by (auto dest: map_of_SomeD)
    have "b_calls row0 \<le> calls" "b_total row0 \<le> ms"
      using r sum_list_member [of "b_calls \<circ> snd" buckets, OF _ m] sum_list_member [of "b_total \<circ> snd" buckets, OF _ m]
      by (auto simp: rows_of_def list_all_iff)
    then show ?thesis using r m by (auto simp: rows_of_def list_all_iff)
  qed
  have c: "b_calls (count_entry e row0) = b_calls row0 + 1" "b_total (count_entry e row0) = b_total row0 + QueryMS e"
    using b e small by (simp_all add: count_entry_def wrap64_id)
  show ?thesis
    unfolding a rows_of_def put_row_sum c
    using r b e row0 c by (auto simp: rows_of_def intro!: put_row_all split: option.splits)
qed

text \<open>
  C20. Aggregation counts every accepted record once: over all rows of a pass the calls add up to the
  number of records the parser accepted and the times to the sum of theirs, also when more shapes
  appear than a pass may hold, as long as the pass has fewer records than make an \<open>int64\<close> overflow.
\<close>
theorem aggregate_conserves:
  assumes "float_conversion lib" and "aggregate lib now rs previous [] = Value buckets"
    and "int (length rs) * 86400000 < 2 ^ 63"
  shows "sum_list (map (b_calls \<circ> snd) buckets) = int (length (accepted lib rs previous)) \<and>
    sum_list (map (b_total \<circ> snd) buckets) = sum_list (map QueryMS (accepted lib rs previous))"
proof -
  have "rows_of b calls ms \<Longrightarrow> aggregate lib now rs previous b = Value buckets \<Longrightarrow>
      0 \<le> calls \<Longrightarrow> calls + int (length rs) < 2 ^ 63 \<Longrightarrow> 0 \<le> ms \<Longrightarrow> ms + int (length rs) * 86400000 < 2 ^ 63 \<Longrightarrow>
      rows_of buckets (calls + int (length (accepted lib rs previous)))
        (ms + sum_list (map QueryMS (accepted lib rs previous)))" for b calls ms
  proof (induction rs arbitrary: b calls ms previous)
    case (Cons r rs)
    show ?case
    proof (cases "Parse_record lib r previous")
      case Panic
      then show ?thesis using Cons.prems by simp
    next
      case (Value x)
      show ?thesis
      proof (cases x)
        case None
        then show ?thesis using Cons.IH [of b calls ms previous] Cons.prems Value by (simp add: algebra_simps)
      next
        case (Some e)
        note p = Value [unfolded Some]
        have e: "1 \<le> QueryMS e" "QueryMS e \<le> 86400000"
          using parsed_entry [OF assms(1) p] by simp_all
        have "rows_of (add_entry lib now e b) (calls + 1) (ms + QueryMS e)"
          by (rule add_entry_rows) (use Cons.prems e in \<open>auto simp: algebra_simps\<close>)
        from Cons.IH [OF this, of "At e"] show ?thesis
          using Cons.prems e p by (simp add: algebra_simps)
      qed
    qed
  qed simp
  from this [of "[]" 0 0] show ?thesis using assms(2,3) by (simp add: rows_of_def)
qed

theorem aggregate_conserves_witness:
  "case aggregate sample_slow_lib 9 [\<lparr>Text = sample_record ''b'', Trusted = True\<rparr>, \<lparr>Text = ''x'', Trusted = False\<rparr>] 5 [] of
     Value rows \<Rightarrow> sum_list (map (b_calls \<circ> snd) rows) = 1
   | Panic \<Rightarrow> False"
proof -
  let ?rs = "[\<lparr>Text = sample_record ''b'', Trusted = True\<rparr>, \<lparr>Text = ''x'', Trusted = False\<rparr>]"
  have lib: "float_conversion sample_slow_lib" by (simp add: float_conversion_def sample_slow_lib_def)
  obtain e where e: "Parse_record sample_slow_lib \<lparr>Text = sample_record ''b'', Trusted = True\<rparr> 5 = Value (Some e)"
  proof -
    have "(case Parse_record sample_slow_lib \<lparr>Text = sample_record ''b'', Trusted = True\<rparr> 5 of
        Value (Some e) \<Rightarrow> True | _ \<Rightarrow> False)" by code_simp
    then show ?thesis using that by (auto split: outcome_of.splits option.splits)
  qed
  have u: "Parse_record sample_slow_lib \<lparr>Text = ''x'', Trusted = False\<rparr> t = Value None" for t
    by (simp add: Parse_record_def)
  obtain rows where rows: "aggregate sample_slow_lib 9 ?rs 5 [] = Value rows" using e u by simp
  show ?thesis using aggregate_conserves [OF lib rows] rows e u by simp
qed

section \<open>A record that stops the collector\<close>

lemma blank_account_panics: "parseUser [] = Panic"
  by code_simp

text \<open>What a query of two statements with such a line between them adds to the record it is logged in.\<close>

definition blank_record :: string where
  "blank_record = recordMarker @ [newline] @ ''y;'' @ [newline]"

text \<open>
  One statement stops the collector. A marker line without an account, which a query can put into
  the log after a statement of its own, makes the parser panic; the pass is abandoned with its cursor
  where it was, so this log is never collected, neither the records before nor those after: every
  pass over it, at any time and with any failures, leaves the statistics and the cursor as they were.
\<close>
theorem blank_account_stops_collection:
  assumes "slow_cursor db = None"
  shows "slow_stats (CollectOnce lib env (Some (sample_record ''b'' @ blank_record @ sample_record ''c'')) db) = slow_stats db \<and>
    slow_cursor (CollectOnce lib env (Some (sample_record ''b'' @ blank_record @ sample_record ''c'')) db) = None"
proof -
  define log where "log = sample_record ''b'' @ blank_record @ sample_record ''c''"
  let ?records = "[\<lparr>Text = sample_record ''b'', Trusted = True\<rparr>, \<lparr>Text = blank_record, Trusted = True\<rparr>]"
  define k where "k = length (sample_record ''b'' @ blank_record)"
  have s: "ScanRecords log = (?records, k)"
    unfolding log_def k_def by code_simp
  have p: "Parse_record lib \<lparr>Text = blank_record, Trusted = True\<rparr> t = Panic" for t
    by (simp add: Parse_record_def blank_record_def recordMarker_def newline_def readHeaderLine_def time_prefix_def
        has_prefix_def blank_account_panics)
  have a: "aggregate lib now ?records t b = Panic" for now t b
    by (simp add: p split: outcome_of.split option.split)
  have len: "int (length log) < passByteCap" "\<not> int (length log) \<le> 0" "k \<noteq> 0"
    by (simp_all add: log_def k_def sample_record_def blank_record_def recordMarker_def passByteCap_def)
  have d: "readFrom log 0 passByteCap = log"
    using len(1) by (simp add: readFrom_def passByteCap_def)
  have "collectPass lib env (Some log) db \<in> {Panic, Value (False, db)}"
    using assms len(2,3) a [of "se_now env" zero_time "[]"]
    by (simp add: collectPass_def Let_def d s del: aggregate.simps)
  then show ?thesis
    using assms unfolding log_def [symmetric] by (auto simp: CollectOnce_def recordCollectorError_def split: option.split)
qed

theorem blank_account_stops_collection_witness:
  "slow_cursor (CollectOnce sample_slow_lib
      \<lparr>se_fails = (\<lambda>s. False), se_error = [], se_now = 9\<rparr>
      (Some (sample_record ''b'' @ blank_record @ sample_record ''c''))
      \<lparr>slow_enabled = Some 1, slow_cursor = None, slow_stats = Map.empty, db_accounts = Map.empty, slow_last_error = []\<rparr>) = None"
  by (rule conjunct2 [OF blank_account_stops_collection]) simp

section \<open>The collector comes to rest\<close>

text \<open>Where a pass starts to read, and a database that a pass over the log leaves as it is.\<close>

definition pass_start :: "string \<Rightarrow> slow_db \<Rightarrow> int" where
  "pass_start content db =
     (case slow_cursor db of None \<Rightarrow> 0
      | Some (offset, previousSize) \<Rightarrow>
          if int (length content) < offset \<or> int (length content) < previousSize then 0 else offset)"

definition at_rest :: "'f slow_lib \<Rightarrow> slow_env \<Rightarrow> string \<Rightarrow> slow_db \<Rightarrow> bool" where
  "at_rest lib env content db = (collectPass lib env (Some content) db \<in> {Panic, Value (True, db)})"

definition collecting :: "slow_env \<Rightarrow> slow_db \<Rightarrow> bool" where
  "collecting env db = ((\<forall>s. \<not> se_fails env s) \<and> slow_enabled db = Some 1 \<and>
     (case slow_cursor db of None \<Rightarrow> True | Some (offset, previousSize) \<Rightarrow> 0 \<le> offset))"

lemma consumed_within:
  assumes "ScanRecords data = (records, consumed)"
  shows "consumed \<le> length data"
proof (cases "markerOffsets data")
  case Nil
  then show ?thesis using assms by (simp add: ScanRecords_def)
next
  case (Cons a offs)
  have "List.last (a # offs) \<in> set (a # offs)" by (rule last_in_set) simp
  then have "List.last (a # offs) < length data" using markerOffsets_increasing [of data] Cons by simp
  then show ?thesis using assms Cons by (simp add: ScanRecords_def)
qed

text \<open>A pass that does not leave the database alone moves the cursor, and not beyond the log.\<close>

lemma pass_advances:
  assumes c: "collecting env db" and r: "\<not> at_rest lib env content db"
  obtains k rows where "collectPass lib env (Some content) db = Value (storeBuckets env rows (pass_start content db + k) (int (length content)) db)"
    "0 < k" "pass_start content db + k \<le> int (length content)"
proof -
  define start where "start = pass_start content db"
  define data where "data = readFrom content start passByteCap"
  obtain records consumed where scan: "ScanRecords data = (records, consumed)" by fastforce
  have run: "collectPass lib env (Some content) db =
      (if int (length content) \<le> start then Value (True, db)
       else if consumed = 0 then
         (if int (length data) < passByteCap then Value (True, db)
          else Value (storeBuckets env [] (start + int (length data)) (int (length content)) db))
       else (case aggregate lib (se_now env) records zero_time [] of
           Panic \<Rightarrow> Panic
         | Value buckets \<Rightarrow> Value (storeBuckets env buckets (start + int consumed) (int (length content)) db)))"
  proof -
    obtain offset prev where o: "(case slow_cursor db of None \<Rightarrow> (0, 0) | Some c \<Rightarrow> c) = (offset, prev)" by fastforce
    then have s: "(if int (length content) < offset \<or> int (length content) < prev then 0 else offset) = start"
      by (auto simp: start_def pass_start_def split: option.splits)
    have e: "\<not> se_fails env s" for s using c by (simp add: collecting_def)
    show ?thesis by (simp only: collectPass_def option.case o prod.case Let_def s e scan data_def [symmetric] if_False)
  qed
  have more_log: "\<not> int (length content) \<le> start" using r run by (auto simp: at_rest_def)
  have "0 \<le> start" using c by (auto simp: start_def pass_start_def collecting_def split: option.splits)
  then have len: "start + int (length data) \<le> int (length content)"
    using more_log by (simp add: data_def readFrom_def min_def) linarith
  show ?thesis
  proof (cases "consumed = 0")
    case True
    then have l: "\<not> int (length data) < passByteCap" using r run more_log by (auto simp: at_rest_def)
    then have "0 < int (length data)" by (simp only: passByteCap_def)
    then show ?thesis using that [of "[]" "int (length data)"] run more_log True len l
      by (simp add: start_def)
  next
    case False
    then obtain buckets where "aggregate lib (se_now env) records zero_time [] = Value buckets"
      using r run more_log by (cases "aggregate lib (se_now env) records zero_time []") (auto simp: at_rest_def)
    then show ?thesis using that [of buckets "int consumed"] run more_log False len consumed_within [OF scan]
      by (simp add: start_def)
  qed
qed

lemma collect_advances:
  assumes "collecting env db" and "\<not> at_rest lib env content db"
  shows "collecting env (CollectOnce lib env (Some content) db) \<and>
    pass_start content db < pass_start content (CollectOnce lib env (Some content) db) \<and>
    pass_start content (CollectOnce lib env (Some content) db) \<le> int (length content)"
proof -
  obtain k rows where p: "collectPass lib env (Some content) db =
      Value (storeBuckets env rows (pass_start content db + k) (int (length content)) db)"
    "0 < k" "pass_start content db + k \<le> int (length content)"
    using pass_advances [OF assms] by blast
  have e: "\<not> se_fails env s" for s using assms(1) by (simp add: collecting_def)
  have "0 \<le> pass_start content db"
    using assms(1) by (auto simp: pass_start_def collecting_def split: option.splits)
  then show ?thesis
    using assms(1) p e
    by (simp add: CollectOnce_def collectionEnabled_def storeBuckets_def recordCollectorError_def collecting_def pass_start_def)
qed

lemma rest_reached:
  "collecting env db \<Longrightarrow> int (length content) - pass_start content db \<le> int k \<Longrightarrow>
   \<exists>n \<le> k. at_rest lib env content ((CollectOnce lib env (Some content) ^^ n) db)"
proof (induction k arbitrary: db)
  case 0
  have "at_rest lib env content db"
    using collect_advances [OF 0(1), of lib content] 0(2) by (cases "at_rest lib env content db") auto
  then show ?case by (intro exI [of _ 0]) simp
next
  case (Suc k)
  show ?case
  proof (cases "at_rest lib env content db")
    case True
    then show ?thesis by (intro exI [of _ 0]) simp
  next
    case False
    note adv = collect_advances [OF Suc.prems(1) False]
    then have "int (length content) - pass_start content (CollectOnce lib env (Some content) db) \<le> int k"
      using Suc.prems(2) by simp
    then obtain n where "n \<le> k" "at_rest lib env content ((CollectOnce lib env (Some content) ^^ n) (CollectOnce lib env (Some content) db))"
      using Suc.IH adv by blast
    then show ?thesis by (intro exI [of _ "Suc n"]) (simp add: funpow_swap1)
  qed
qed



end
