(* ===== verification/Archive.thy ===== *)
theory Archive
  imports GoText "HOL-Library.Word" "HOL-Library.Sublist"
begin

text \<open>
  Extracting a tenant's archive (internal/archivex/archivex.go): the validation scan of every format with
  its limits, and the command an extraction runs. Sizes are 64-bit words, read as signed where the
  source has \<open>int64\<close>. What the readers and listing tools report of an archive is an argument.
\<close>

section \<open>Formats, errors, limits\<close>

datatype archive_error =
  ErrUnsupported | ErrUnsafePath | ErrUnsafeMember | ErrInvalidTenant | ErrRARUnavailable |
  ErrInvalidArchive | ErrArchiveTooLarge | ErrTooManyMembers | ErrStripUnsupported | ErrReading

datatype archive_type =
  TypeUnknown | TypeZIP | TypeTAR | TypeTARGzip | TypeTARBzip2 | TypeTARXz | TypeRAR

record limits =
  MaxTotalBytes :: "64 word"
  MaxMembers :: int

definition exceedsBytes :: "limits \<Rightarrow> 64 word \<Rightarrow> bool" where
  "exceedsBytes l tot = (0 <s MaxTotalBytes l \<and> MaxTotalBytes l <s tot)"

definition exceedsMembers :: "limits \<Rightarrow> int \<Rightarrow> bool" where
  "exceedsMembers l count = (0 < MaxMembers l \<and> MaxMembers l < count)"

text \<open>\<open>strings.ToLower\<close> before a test for an ASCII suffix: the capital I with a dot (U+0130) becomes i.\<close>

definition lower_name :: "string \<Rightarrow> string" where
  "lower_name s = to_lower (replace_all s [CHR 0xC4, CHR 0xB0] ''i'')"

definition DetectType :: "string \<Rightarrow> archive_type" where
  "DetectType name =
     (let lower = lower_name name in
      if has_suffix lower ''.zip'' then TypeZIP
      else if has_suffix lower ''.tar.gz'' \<or> has_suffix lower ''.tgz'' then TypeTARGzip
      else if has_suffix lower ''.tar.bz2'' \<or> has_suffix lower ''.tbz2'' then TypeTARBzip2
      else if has_suffix lower ''.tar.xz'' \<or> has_suffix lower ''.txz'' then TypeTARXz
      else if has_suffix lower ''.tar'' then TypeTAR
      else if has_suffix lower ''.rar'' then TypeRAR
      else TypeUnknown)"

definition slashed :: "string \<Rightarrow> string" where
  "slashed = map (\<lambda>c. if c = CHR 0x5C then CHR ''/'' else c)"

definition unsafeMemberName :: "string \<Rightarrow> bool" where
  "unsafeMemberName name =
     (if has_prefix (slashed name) ''/'' then True
      else ''..'' \<in> set (split_on CHR ''/'' (slashed name)))"

section \<open>Scanning\<close>

text \<open>The members a scan reports, with their sizes, or why it refuses.\<close>

type_synonym scan_result = "archive_error + (string \<times> 64 word) list"

definition report :: "string \<times> 64 word \<Rightarrow> scan_result \<Rightarrow> scan_result" where
  "report m rest = (case rest of Inl e \<Rightarrow> Inl e | Inr ms \<Rightarrow> Inr (m # ms))"

record zip_member =
  zm_name :: string
  zm_symlink :: bool
  zm_special :: bool
  zm_size :: "64 word"

definition MaxInt64 :: "64 word" where "MaxInt64 = 0x7FFFFFFFFFFFFFFF"

definition unsafeZIPMember :: "zip_member \<Rightarrow> archive_error option" where
  "unsafeZIPMember m =
     (if zm_symlink m \<or> zm_special m then Some ErrUnsafeMember
      else if unsafeMemberName (zm_name m) then Some ErrUnsafePath else None)"

text \<open>\<open>cancelled i\<close>: the context has ended when member \<open>i\<close> is reached.\<close>

fun zip_loop :: "(nat \<Rightarrow> bool) \<Rightarrow> limits \<Rightarrow> nat \<Rightarrow> 64 word \<Rightarrow> zip_member list \<Rightarrow> scan_result" where
  "zip_loop cancelled l i tot [] = Inr []"
| "zip_loop cancelled l i tot (m # ms) =
     (if cancelled i then Inl ErrReading
      else case unsafeZIPMember m of
          Some problem \<Rightarrow> Inl problem
        | None \<Rightarrow>
            if MaxInt64 < zm_size m \<or> MaxInt64 - zm_size m <s tot then Inl ErrArchiveTooLarge
            else let tot' = tot + zm_size m in
              if exceedsBytes l tot' then Inl ErrArchiveTooLarge
              else report (zm_name m, zm_size m) (zip_loop cancelled l (i + 1) tot' ms))"

definition scanZIP :: "(nat \<Rightarrow> bool) \<Rightarrow> limits \<Rightarrow> zip_member list option \<Rightarrow> scan_result" where
  "scanZIP cancelled l archive =
     (case archive of
        None \<Rightarrow> Inl ErrReading
      | Some members \<Rightarrow>
          if exceedsMembers l (int (length members)) then Inl ErrTooManyMembers
          else zip_loop cancelled l 0 0 members)"

text \<open>A TAR stream: its headers, and whether it ends well.\<close>

record tar_header =
  th_type :: char
  th_name :: string
  th_size :: "64 word"

text \<open>Hard links, symbolic links, character and block devices, pipes.\<close>

definition tar_special :: "char \<Rightarrow> bool" where
  "tar_special c = (c \<in> set ''12346'')"

fun walkTAR :: "(nat \<Rightarrow> bool) \<Rightarrow> limits \<Rightarrow> nat \<Rightarrow> 64 word \<Rightarrow> tar_header list \<Rightarrow> bool \<Rightarrow> scan_result" where
  "walkTAR cancelled l members tot [] ends =
     (if cancelled members then Inl ErrReading else if ends then Inr [] else Inl ErrReading)"
| "walkTAR cancelled l members tot (h # hs) ends =
     (if cancelled members then Inl ErrReading
      else if tar_special (th_type h) then Inl ErrUnsafeMember
      else if unsafeMemberName (th_name h) then Inl ErrUnsafePath
      else if exceedsMembers l (int members + 1) then Inl ErrTooManyMembers
      else let tot' = tot + th_size h in
        if exceedsBytes l tot' then Inl ErrArchiveTooLarge
        else report (th_name h, th_size h) (walkTAR cancelled l (members + 1) tot' hs ends))"

record lsar_member =
  lm_name :: string
  lm_type :: string
  lm_link :: string
  lm_size :: "64 word"

definition unsafeLSARMember :: "lsar_member \<Rightarrow> archive_error option" where
  "unsafeLSARMember m =
     (if unsafeMemberName (lm_name m) then Some ErrUnsafePath
      else if lm_link m \<noteq> [] \<or> lm_type m \<noteq> ''Regular'' \<and> lm_type m \<noteq> ''Directory'' then Some ErrUnsafeMember
      else None)"

fun lsar_loop :: "limits \<Rightarrow> 64 word \<Rightarrow> lsar_member list \<Rightarrow> scan_result" where
  "lsar_loop l tot [] = Inr []"
| "lsar_loop l tot (m # ms) =
     (case unsafeLSARMember m of
        Some problem \<Rightarrow> Inl problem
      | None \<Rightarrow> let tot' = tot + lm_size m in
          if exceedsBytes l tot' then Inl ErrArchiveTooLarge
          else report (lm_name m, lm_size m) (lsar_loop l tot' ms))"

text \<open>\<open>listing\<close> is what \<open>json.Unmarshal\<close> reads from the tool's output, \<open>None\<close> when it cannot.\<close>

definition validateLSARListing :: "limits \<Rightarrow> lsar_member list option \<Rightarrow> scan_result" where
  "validateLSARListing l listing =
     (case listing of
        None \<Rightarrow> Inl ErrInvalidArchive
      | Some ms \<Rightarrow>
          if ms = [] then Inl ErrInvalidArchive
          else if exceedsMembers l (int (length ms)) then Inl ErrTooManyMembers
          else lsar_loop l 0 ms)"

fun bsdtar_names :: "limits \<Rightarrow> int \<Rightarrow> string list \<Rightarrow> scan_result" where
  "bsdtar_names l members [] = Inr []"
| "bsdtar_names l members (ln # lns) =
     (let name = trim_suffix ln [CHR 0x0D] in
      if name = [] then bsdtar_names l members lns
      else if unsafeMemberName name then Inl ErrUnsafePath
      else if exceedsMembers l (members + 1) then Inl ErrTooManyMembers
      else report (name, 0) (bsdtar_names l (members + 1) lns))"

definition validateBSDTarListings :: "limits \<Rightarrow> string \<Rightarrow> string \<Rightarrow> scan_result" where
  "validateBSDTarListings l namesOutput verboseOutput =
     (case bsdtar_names l 0 (split_on CHR 0x0A namesOutput) of
        Inl e \<Rightarrow> Inl e
      | Inr ms \<Rightarrow>
          if list_ex (\<lambda>ln. let ln = trim_space ln in ln \<noteq> [] \<and> hd ln \<noteq> CHR ''-'' \<and> hd ln \<noteq> CHR ''d'')
               (split_on CHR 0x0A verboseOutput) then Inl ErrUnsafeMember
          else Inr ms)"

datatype rar_tool = BsdTar | Unar

text \<open>What every reader makes of the archive file. \<open>ar_finish\<close>: the external decompressor ended well.\<close>

record archive_view =
  ar_cancelled :: "nat \<Rightarrow> bool"
  ar_zip :: "zip_member list option"
  ar_tar :: "(tar_header list \<times> bool) option"
  ar_finish :: bool
  ar_names :: "string option"
  ar_verbose :: "string option"
  ar_lsar :: "lsar_member list option option"
  ar_tool :: "rar_tool option"
  ar_bsdtar :: bool
  ar_opens :: bool

definition scanTAR :: "archive_view \<Rightarrow> archive_type \<Rightarrow> limits \<Rightarrow> scan_result" where
  "scanTAR a t l =
     (case ar_tar a of
        None \<Rightarrow> Inl ErrReading
      | Some (headers, ends) \<Rightarrow>
          (case walkTAR (ar_cancelled a) l 0 0 headers ends of
             Inl e \<Rightarrow> Inl e
           | Inr ms \<Rightarrow> if t = TypeTARXz \<and> \<not> ar_finish a then Inl ErrReading else Inr ms))"

definition scanRAR :: "archive_view \<Rightarrow> limits \<Rightarrow> scan_result" where
  "scanRAR a l =
     (case ar_tool a of
        None \<Rightarrow> Inl ErrRARUnavailable
      | Some BsdTar \<Rightarrow>
          (case (ar_names a, ar_verbose a) of
             (Some names, Some verbose) \<Rightarrow> validateBSDTarListings l names verbose
           | _ \<Rightarrow> Inl ErrInvalidArchive)
      | Some Unar \<Rightarrow>
          (case ar_lsar a of
             None \<Rightarrow> Inl ErrInvalidArchive
           | Some listing \<Rightarrow> validateLSARListing l listing))"

definition scan :: "archive_view \<Rightarrow> archive_type \<Rightarrow> limits \<Rightarrow> scan_result" where
  "scan a t l =
     (case t of
        TypeZIP \<Rightarrow> scanZIP (ar_cancelled a) l (ar_zip a)
      | TypeTAR \<Rightarrow> scanTAR a t l | TypeTARGzip \<Rightarrow> scanTAR a t l
      | TypeTARBzip2 \<Rightarrow> scanTAR a t l | TypeTARXz \<Rightarrow> scanTAR a t l
      | TypeRAR \<Rightarrow> scanRAR a l
      | TypeUnknown \<Rightarrow> Inl ErrUnsupported)"

definition archive_Count :: "archive_view \<Rightarrow> archive_type \<Rightarrow> limits \<Rightarrow> archive_error + nat" where
  "archive_Count a t l = (case scan a t l of Inl e \<Rightarrow> Inl e | Inr ms \<Rightarrow> Inr (length ms))"

section \<open>Extraction\<close>

definition tenantNameRune :: "char \<Rightarrow> bool" where
  "tenantNameRune c = (c = CHR ''_'' \<or> byte_in 48 57 c \<or> byte_in 65 90 c \<or> byte_in 97 122 c)"

definition managedTenant :: "string \<Rightarrow> bool" where
  "managedTenant u = (has_prefix u ''c_'' \<and> length u \<noteq> 2 \<and> list_all tenantNameRune (drop 2 u))"

record extractRequest =
  archivePath :: string
  archiveType :: archive_type
  destination :: string
  systemUser :: string
  strip :: int
  verbose :: bool

definition stripFlag :: "int \<Rightarrow> string" where
  "stripFlag n = ''--strip-components='' @ itoa n"

definition tenantCommand :: "string \<Rightarrow> string list \<Rightarrow> string list" where
  "tenantCommand u arguments = [''runuser'', ''-u'', u, ''--''] @ arguments"

definition bsdX :: "extractRequest \<Rightarrow> string" where
  "bsdX r = (if verbose r then ''-xv'' else ''-x'')"

definition zipExtractCommand :: "archive_view \<Rightarrow> extractRequest \<Rightarrow> archive_error + string list" where
  "zipExtractCommand a r =
     (if 0 < strip r then
        (if \<not> ar_bsdtar a then Inl ErrStripUnsupported
         else Inr (tenantCommand (systemUser r) [''bsdtar'', bsdX r, stripFlag (strip r), ''-f'', archivePath r, ''-C'', destination r]))
      else if verbose r then Inr (tenantCommand (systemUser r) [''unzip'', ''-o'', archivePath r, ''-d'', destination r])
      else Inr (tenantCommand (systemUser r) [''unzip'', ''-o'', ''-q'', archivePath r, ''-d'', destination r]))"

definition rarExtractCommand :: "archive_view \<Rightarrow> extractRequest \<Rightarrow> archive_error + string list" where
  "rarExtractCommand a r =
     (case ar_tool a of
        None \<Rightarrow> Inl ErrRARUnavailable
      | Some BsdTar \<Rightarrow> Inr (tenantCommand (systemUser r)
          ([''bsdtar'', bsdX r] @ (if 0 < strip r then [stripFlag (strip r)] else []) @
           [''-f'', archivePath r, ''-C'', destination r]))
      | Some Unar \<Rightarrow>
          if 0 < strip r then Inl ErrStripUnsupported
          else Inr (tenantCommand (systemUser r) [''unar'', ''-f'', ''-D'', ''-o'', destination r, archivePath r]))"

definition tarExtractCommand :: "archive_view \<Rightarrow> extractRequest \<Rightarrow> archive_error + string list" where
  "tarExtractCommand a r =
     (if \<not> ar_opens a then Inl ErrReading
      else let flag = (case archiveType r of
              TypeTARGzip \<Rightarrow> ''-xz'' | TypeTARBzip2 \<Rightarrow> ''-xj'' | TypeTARXz \<Rightarrow> ''-xJ'' | _ \<Rightarrow> ''-x'');
            flag = (if verbose r then flag @ ''v'' else flag)
        in Inr (tenantCommand (systemUser r)
          ([''tar'', flag] @ (if 0 < strip r then [stripFlag (strip r)] else []) @ [''-f'', ''-'', ''-C'', destination r])))"

definition extractorCommand :: "archive_view \<Rightarrow> extractRequest \<Rightarrow> archive_error + string list" where
  "extractorCommand a r =
     (case archiveType r of
        TypeZIP \<Rightarrow> zipExtractCommand a r
      | TypeRAR \<Rightarrow> rarExtractCommand a r
      | _ \<Rightarrow> tarExtractCommand a r)"

text \<open>What an extraction runs, and the total it announces first.\<close>

definition extractStrip :: "archive_view \<Rightarrow> extractRequest \<Rightarrow> limits \<Rightarrow> archive_error + nat \<times> string list" where
  "extractStrip a r l =
     (if strip r < 0 then Inl ErrUnsupported
      else if archiveType r = TypeUnknown then Inl ErrUnsupported
      else if \<not> managedTenant (systemUser r) then Inl ErrInvalidTenant
      else (case scan a (archiveType r) l of
          Inl e \<Rightarrow> Inl e
        | Inr ms \<Rightarrow>
            (case extractorCommand a r of Inl e \<Rightarrow> Inl e | Inr argv \<Rightarrow> Inr (length ms, argv))))"

section \<open>Progress\<close>

text \<open>
  The counter that reads an extractor's output: what it keeps for the error message, and how many lines
  it reports for one write.
\<close>

definition progressTailMax :: nat where "progressTailMax = 8192"

definition progressCounter_Write :: "string \<Rightarrow> string \<Rightarrow> string \<times> nat" where
  "progressCounter_Write out_tail b =
     (let t = out_tail @ b
      in (if progressTailMax < length t then drop (length t - progressTailMax) t else t,
          length (filter (\<lambda>c. c = CHR 0x0A) b)))"

fun progress_run :: "string \<Rightarrow> string list \<Rightarrow> string \<times> nat" where
  "progress_run out_tail [] = (out_tail, 0)"
| "progress_run out_tail (b # bs) =
     (case progressCounter_Write out_tail b of (t, n) \<Rightarrow>
        case progress_run t bs of (t', m) \<Rightarrow> (t', n + m))"

text \<open>However the output is cut into writes, every line is reported once and the tail is the end of the whole.\<close>

lemma last_of_tail:
  "drop (length (drop (length x - n) x @ y) - n) (drop (length x - n) x @ y) = drop (length (x @ y) - n) (x @ y)"
  by (cases "n \<le> length x") (simp_all add: add.commute)

lemma progress_run_whole:
  "length out_tail \<le> progressTailMax \<Longrightarrow> progress_run out_tail bs =
     (let all = out_tail @ concat bs in (drop (length all - progressTailMax) all,
       length (filter (\<lambda>c. c = CHR 0x0A) (concat bs))))"
proof (induction bs arbitrary: out_tail)
  case (Cons b bs)
  let ?t = "drop (length (out_tail @ b) - progressTailMax) (out_tail @ b)"
  have w: "fst (progressCounter_Write out_tail b) = ?t"
    by (auto simp: progressCounter_Write_def Let_def)
  have "length ?t \<le> progressTailMax" by simp
  from Cons.IH [OF this] show ?case
    using w last_of_tail [of "out_tail @ b" progressTailMax "concat bs"]
    by (simp add: Let_def progressCounter_Write_def split: prod.split)
qed simp

section \<open>Where members land\<close>

text \<open>Resolving the components of a name below a directory, as the kernel does without links.\<close>

fun resolve :: "string list \<Rightarrow> string list \<Rightarrow> string list" where
  "resolve dir [] = dir"
| "resolve dir (c # cs) =
     (if c = [] \<or> c = ''.'' then resolve dir cs
      else if c = ''..'' then resolve (butlast dir) cs
      else resolve (dir @ [c]) cs)"

lemma resolve_below: "''..'' \<notin> set cs \<Longrightarrow> prefix dir (resolve dir cs)"
proof (induction dir cs rule: resolve.induct)
  case (2 dir c cs)
  then show ?case by (auto intro: prefix_order.trans [of dir "dir @ [c]"])
qed simp

definition backslash_char :: char where "backslash_char = CHR 0x5C"

lemma split_slashed:
  "split_on CHR ''/'' (slashed s) = concat (map (split_on backslash_char) (split_on CHR ''/'' s))"
proof (induction s)
  case Nil
  then show ?case by (simp add: slashed_def)
next
  case (Cons c s)
  obtain f fs where f: "split_on CHR ''/'' s = f # fs" by (cases "split_on CHR ''/'' s") auto
  obtain g gs where g: "split_on backslash_char f = g # gs" by (cases "split_on backslash_char f") auto
  have "split_on CHR ''/'' (slashed s) = (g # gs) @ concat (map (split_on backslash_char) fs)"
    using Cons by (simp add: f g)
  then show ?case using f g by (auto simp: slashed_def backslash_char_def)
qed

lemma dotdot_slashed:
  "''..'' \<in> set (split_on CHR ''/'' s) \<Longrightarrow> ''..'' \<in> set (split_on CHR ''/'' (slashed s))"
proof -
  have "''..'' \<in> set (split_on backslash_char ''..'')" by (simp add: backslash_char_def)
  then show "''..'' \<in> set (split_on CHR ''/'' s) \<Longrightarrow> ''..'' \<in> set (split_on CHR ''/'' (slashed s))"
    unfolding split_slashed by force
qed

definition safe_name :: "string \<Rightarrow> bool" where
  "safe_name name = (\<forall>dir k. prefix dir (resolve dir (drop k (split_on CHR ''/'' name))) \<and>
     prefix dir (resolve dir (drop k (split_on CHR ''/'' (slashed name)))))"

lemma safe_nameI: "\<not> unsafeMemberName name \<Longrightarrow> safe_name name"
  unfolding safe_name_def
proof (intro allI conjI)
  fix dir k
  assume "\<not> unsafeMemberName name"
  then have n: "''..'' \<notin> set (split_on CHR ''/'' (slashed name))" by (auto simp: unsafeMemberName_def split: if_splits)
  then show "prefix dir (resolve dir (drop k (split_on CHR ''/'' (slashed name))))"
    by (intro resolve_below) (auto dest: in_set_dropD)
  show "prefix dir (resolve dir (drop k (split_on CHR ''/'' name)))"
    using n dotdot_slashed [of name] by (intro resolve_below) (auto dest: in_set_dropD)
qed

lemma report_Inr [simp]: "report m r = Inr ms \<longleftrightarrow> (\<exists>rest. r = Inr rest \<and> ms = m # rest)"
  by (auto simp: report_def split: sum.splits)

lemma zip_loop_safe: "zip_loop c l i tot zs = Inr ms \<Longrightarrow> \<forall>(n, s) \<in> set ms. \<not> unsafeMemberName n"
  by (induction c l i tot zs arbitrary: ms rule: zip_loop.induct)
     (fastforce simp: Let_def unsafeZIPMember_def split: if_splits option.splits)+

lemma walkTAR_safe: "walkTAR c l i tot hs ends = Inr ms \<Longrightarrow> \<forall>(n, s) \<in> set ms. \<not> unsafeMemberName n"
  by (induction c l i tot hs ends arbitrary: ms rule: walkTAR.induct)
     (fastforce simp: Let_def split: if_splits)+

lemma lsar_loop_safe: "lsar_loop l tot zs = Inr ms \<Longrightarrow> \<forall>(n, s) \<in> set ms. \<not> unsafeMemberName n"
  by (induction l tot zs arbitrary: ms rule: lsar_loop.induct)
     (fastforce simp: Let_def unsafeLSARMember_def split: if_splits option.splits)+

lemma bsdtar_names_safe: "bsdtar_names l k lns = Inr ms \<Longrightarrow> \<forall>(n, s) \<in> set ms. \<not> unsafeMemberName n"
  by (induction l k lns arbitrary: ms rule: bsdtar_names.induct)
     (fastforce simp: Let_def split: if_splits)+

lemma scan_safe: "scan a t l = Inr ms \<Longrightarrow> (n, s) \<in> set ms \<Longrightarrow> \<not> unsafeMemberName n"
  using zip_loop_safe walkTAR_safe lsar_loop_safe bsdtar_names_safe
  by (fastforce simp: scan_def scanZIP_def scanTAR_def scanRAR_def validateLSARListing_def
      validateBSDTarListings_def split: archive_type.splits option.splits if_splits prod.splits
      sum.splits rar_tool.splits)

lemma extractorCommand_user:
  "extractorCommand a r = Inr argv \<Longrightarrow> \<exists>rest. argv = [''runuser'', ''-u'', systemUser r, ''--''] @ rest"
  by (auto simp: extractorCommand_def zipExtractCommand_def rarExtractCommand_def tarExtractCommand_def
      tenantCommand_def Let_def split: archive_type.splits if_splits option.splits rar_tool.splits)


definition sample_zip :: archive_view where
  "sample_zip = \<lparr>ar_cancelled = (\<lambda>i. False),
     ar_zip = Some [\<lparr>zm_name = ''site/a.php'', zm_symlink = False, zm_special = False, zm_size = 5\<rparr>],
     ar_tar = None, ar_finish = True, ar_names = None, ar_verbose = None, ar_lsar = None, ar_tool = None,
     ar_bsdtar = True, ar_opens = True\<rparr>"

definition sample_request :: extractRequest where
  "sample_request = \<lparr>archivePath = ''/t/a.zip'', archiveType = TypeZIP, destination = ''/h'',
     systemUser = ''c_ann'', strip = 1, verbose = False\<rparr>"

definition sample_limits :: limits where
  "sample_limits = \<lparr>MaxTotalBytes = 100, MaxMembers = 3\<rparr>"


section \<open>Declared sizes\<close>

lemma sint_MaxInt64: "sint MaxInt64 = 2 ^ 63 - 1" and uint_MaxInt64: "uint MaxInt64 = 2 ^ 63 - 1"
  by (simp_all add: MaxInt64_def)

lemma sint_small:
  fixes w :: "64 word"
  assumes "uint w \<le> 2 ^ 63 - 1"
  shows "sint w = uint w"
proof -
  have "signed_take_bit 63 (uint w) = uint w"
    by (rule signed_take_bit_int_eq_self) (use assms uint_ge_0 [of w] in linarith)+
  then show ?thesis by (simp add: sint_uint)
qed

lemma sint_plus_small:
  fixes a b :: "64 word"
  assumes "0 \<le> sint a" "0 \<le> sint b" "sint a + sint b \<le> 2 ^ 63 - 1"
  shows "sint (a + b) = sint a + sint b"
  using assms by (simp add: sint_word_ariths signed_take_bit_int_eq_self)

lemma sint_minus_small:
  fixes a b :: "64 word"
  assumes "0 \<le> sint b" "sint b \<le> sint a"
  shows "sint (a - b) = sint a - sint b"
proof -
  have "sint a < 2 ^ 63" using sint_lt [of a] by simp
  then show ?thesis using assms by (simp add: sint_word_ariths signed_take_bit_int_eq_self)
qed

lemma zip_step_size:
  assumes "0 \<le> sint tot" and "\<not> MaxInt64 < s" and "\<not> MaxInt64 - s <s tot"
  shows "sint (tot + s) = sint tot + uint s"
proof -
  have u: "uint s \<le> 2 ^ 63 - 1" using assms(2) uint_MaxInt64 by (simp add: word_less_def not_less)
  then have s: "sint s = uint s" by (rule sint_small)
  have "sint (MaxInt64 - s) = (2 ^ 63 - 1) - uint s"
    using sint_minus_small [of s MaxInt64] s u sint_MaxInt64 by simp
  then have "sint tot \<le> (2 ^ 63 - 1) - uint s" using assms(3) by (simp add: word_sless_alt not_less)
  then show ?thesis using sint_plus_small [of tot s] s assms(1) by simp
qed

lemma zip_loop_total:
  "zip_loop c l i tot zs = Inr ms \<Longrightarrow> 0 <s MaxTotalBytes l \<Longrightarrow> 0 \<le> sint tot \<Longrightarrow> sint tot \<le> sint (MaxTotalBytes l) \<Longrightarrow>
    sint tot + sum_list (map (uint \<circ> zm_size) zs) \<le> sint (MaxTotalBytes l) \<and> length ms = length zs"
proof (induction c l i tot zs arbitrary: ms rule: zip_loop.induct)
  case (2 c l i tot z zs)
  let ?t = "tot + zm_size z"
  obtain rest where r: "zip_loop c l (i + 1) ?t zs = Inr rest" "ms = (zm_name z, zm_size z) # rest"
    and ok: "\<not> MaxInt64 < zm_size z" "\<not> MaxInt64 - zm_size z <s tot" "\<not> exceedsBytes l ?t"
    and pre: "\<not> c i" "unsafeZIPMember z = None" "\<not> (MaxInt64 < zm_size z \<or> MaxInt64 - zm_size z <s tot)"
    using 2(2) by (auto simp: Let_def report_Inr split: if_splits option.splits)
  have t: "sint ?t = sint tot + uint (zm_size z)" by (rule zip_step_size [OF 2(4) ok(1,2)])
  have "sint ?t \<le> sint (MaxTotalBytes l)"
    using ok(3) 2(3) by (auto simp: exceedsBytes_def word_sless_alt)
  then show ?case using 2(1) [OF pre(1,2,3) refl ok(3) r(1) 2(3)] t 2(4) r(2) by simp
qed simp

text \<open>
  C23. A ZIP archive that passes the scan expands to no more than its limit: the sizes of its members,
  added as whole numbers, are within \<open>MaxTotalBytes\<close>, and their number within \<open>MaxMembers\<close>, whatever
  64-bit sizes the headers declare.
\<close>
theorem zip_within_limits:
  assumes "scanZIP c l (Some zs) = Inr ms" and "0 <s MaxTotalBytes l" and "0 < MaxMembers l"
  shows "sum_list (map (uint \<circ> zm_size) zs) \<le> sint (MaxTotalBytes l) \<and> int (length zs) \<le> MaxMembers l"
proof -
  have z: "zip_loop c l 0 0 zs = Inr ms" "\<not> exceedsMembers l (int (length zs))"
    using assms(1) by (auto simp: scanZIP_def split: if_splits)
  have "0 \<le> sint (MaxTotalBytes l)" using assms(2) by (simp add: word_sless_alt)
  then show ?thesis using zip_loop_total [OF z(1) assms(2)] z(2) assms(3) by (simp add: exceedsMembers_def)
qed

theorem zip_within_limits_witness:
  "sum_list (map (uint \<circ> zm_size) [\<lparr>zm_name = ''a'', zm_symlink = False, zm_special = False, zm_size = 5\<rparr>]) \<le> (100::int)"
proof -
  let ?zs = "[\<lparr>zm_name = ''a'', zm_symlink = False, zm_special = False, zm_size = 5\<rparr>]"
  have "scanZIP (\<lambda>i. False) sample_limits (Some ?zs) = Inr [(''a'', 5)]"
    by (simp add: scanZIP_def sample_limits_def exceedsMembers_def unsafeZIPMember_def unsafeMemberName_def
        slashed_def has_prefix_def MaxInt64_def exceedsBytes_def report_def word_sless_alt)
  from zip_within_limits [OF this] show ?thesis by (simp add: sample_limits_def)
qed

text \<open>
  The other formats add the declared sizes without that guard, and the sum wraps: two members of a
  TAR archive that declare one byte and 2^63 - 1 bytes pass a limit of one hundred bytes, which the
  same two members in a ZIP archive do not.
\<close>
theorem tar_total_wraps:
  "walkTAR (\<lambda>i. False) sample_limits 0 0
     [\<lparr>th_type = CHR ''0'', th_name = ''a'', th_size = 1\<rparr>, \<lparr>th_type = CHR ''S'', th_name = ''b'', th_size = MaxInt64\<rparr>] True
     = Inr [(''a'', 1), (''b'', MaxInt64)] \<and>
   scanZIP (\<lambda>i. False) sample_limits (Some
     [\<lparr>zm_name = ''a'', zm_symlink = False, zm_special = False, zm_size = 1\<rparr>,
      \<lparr>zm_name = ''b'', zm_symlink = False, zm_special = False, zm_size = MaxInt64\<rparr>]) = Inl ErrArchiveTooLarge"
  by (simp add: scanZIP_def sample_limits_def exceedsMembers_def unsafeZIPMember_def unsafeMemberName_def
      slashed_def has_prefix_def MaxInt64_def exceedsBytes_def report_def tar_special_def word_sless_alt)

end
