(* ===== verification/GoPath.thy ===== *)
theory GoPath
  imports GoText
begin

text \<open>
  The part of Go's \<open>path\<close> and \<open>path/filepath\<close> (on Unix the same) that the modelled code calls. A path
  is a byte string; \<open>Clean\<close> works on its components.
\<close>

fun clean_elems :: "bool \<Rightarrow> string list \<Rightarrow> string list \<Rightarrow> string list" where
  "clean_elems rooted out [] = out"
| "clean_elems rooted out (c # cs) =
     (if c = [] \<or> c = ''.'' then clean_elems rooted out cs
      else if c = ''..'' then
        (if out \<noteq> [] \<and> last out \<noteq> ''..'' then clean_elems rooted (butlast out) cs
         else if rooted then clean_elems rooted out cs
         else clean_elems rooted (out @ [c]) cs)
      else clean_elems rooted (out @ [c]) cs)"

definition path_IsAbs :: "string \<Rightarrow> bool" where
  "path_IsAbs p = has_prefix p ''/''"

definition path_Clean :: "string \<Rightarrow> string" where
  "path_Clean p =
     (let r = (if path_IsAbs p then ''/'' else []) @
            join ''/'' (clean_elems (path_IsAbs p) [] (split_on CHR ''/'' p))
      in if r = [] then ''.'' else r)"

text \<open>\<open>path.Split\<close>: the directory part ends with its slash.\<close>

definition path_Split :: "string \<Rightarrow> string \<times> string" where
  "path_Split p = (case last_index CHR ''/'' p of
     None \<Rightarrow> ([], p) | Some i \<Rightarrow> (take (Suc i) p, drop (Suc i) p))"

definition path_Dir :: "string \<Rightarrow> string" where
  "path_Dir p = path_Clean (fst (path_Split p))"

definition path_Base :: "string \<Rightarrow> string" where
  "path_Base p =
     (if p = [] then ''.''
      else let b = snd (path_Split (trim_right p ''/'')) in if b = [] then ''/'' else b)"

lemma path_Split_append [simp]: "fst (path_Split p) @ snd (path_Split p) = p"
  by (simp add: path_Split_def split: option.split)

text \<open>Components that are names of their own go through unchanged.\<close>

definition plain_component :: "string \<Rightarrow> bool" where
  "plain_component c = (c \<noteq> [] \<and> c \<noteq> ''.'' \<and> c \<noteq> ''..'')"

lemma clean_elems_plain:
  "list_all plain_component cs \<Longrightarrow> clean_elems rooted out cs = out @ cs"
  by (induction cs arbitrary: out) (simp_all add: plain_component_def)

text \<open>Without \<open>..\<close>, only the empty components and the dots are dropped.\<close>

lemma clean_elems_no_dotdot:
  "''..'' \<notin> set cs \<Longrightarrow> clean_elems rooted out cs = out @ filter plain_component cs"
  by (induction cs arbitrary: out) (auto simp: plain_component_def)

end
