(* ===== verification/ArchiveSummary.thy ===== *)
theory ArchiveSummary
  imports Archive GoPath "HOL-Library.List_Lexorder" "HOL-Library.Char_ord"
begin

text \<open>
  What an archive holds, established without extracting it (internal/archivex/summary.go): the members,
  the wrapper directory they share, where an application's configuration lies.
\<close>

record Summary =
  Members :: int
  TotalBytes :: "64 word"
  Roots :: "string list"
  ContainerRoot :: string
  Markers :: "string \<rightharpoonup> string list"

record summaryBuilder =
  summary :: Summary
  roots :: "string list"
  wanted :: "string list"
  nested :: bool

definition appendUnique :: "string list \<Rightarrow> string \<Rightarrow> string list" where
  "appendUnique xs v = (if v \<in> set xs then xs else xs @ [v])"

text \<open>The keys of \<open>roots\<close>, the map used as a set, in the order of their first insertion.\<close>

definition clean_member :: "string \<Rightarrow> string" where
  "clean_member name = trim_prefix (trim (slashed name) ''/'') ''./''"

definition summaryBuilder_add :: "summaryBuilder \<Rightarrow> string \<Rightarrow> 64 word \<Rightarrow> summaryBuilder" where
  "summaryBuilder_add b name n =
     (let clean = clean_member name in
      if clean = [] \<or> clean = ''.'' then b
      else case cut_at CHR ''/'' clean of (first, rest, hasSlash) \<Rightarrow>
        let base = path_Base clean;
            d = path_Dir clean;
            dir = (if d = ''.'' then [] else d);
            s = (summary b)\<lparr>Members := Members (summary b) + 1,
                             TotalBytes := TotalBytes (summary b) + n\<rparr>
        in b\<lparr>summary := (if base \<in> set (wanted b)
               then s\<lparr>Markers := (Markers s)(base \<mapsto> appendUnique
                       (case Markers s base of None \<Rightarrow> [] | Some ds \<Rightarrow> ds) dir)\<rparr>
               else s),
             roots := appendUnique (roots b) first,
             nested := (nested b \<or> hasSlash \<and> trim_space rest \<noteq> [])\<rparr>)"

definition new_builder :: "string list \<Rightarrow> summaryBuilder" where
  "new_builder markers =
     \<lparr>summary = \<lparr>Members = 0, TotalBytes = 0, Roots = [], ContainerRoot = [], Markers = Map.empty\<rparr>,
      roots = [], wanted = markers, nested = False\<rparr>"

definition finish_summary :: "summaryBuilder \<Rightarrow> Summary" where
  "finish_summary b =
     (let rs = sort (roots b);
          s = (summary b)\<lparr>Roots := rs\<rparr>
      in if length rs = 1 \<and> nested b then s\<lparr>ContainerRoot := hd rs\<rparr> else s)"

definition Summarize :: "archive_view \<Rightarrow> archive_type \<Rightarrow> limits \<Rightarrow> string list \<Rightarrow> archive_error + Summary" where
  "Summarize a t l markers =
     (case scan a t l of
        Inl e \<Rightarrow> Inl e
      | Inr ms \<Rightarrow> Inr (finish_summary (fold (\<lambda>(name, n) b. summaryBuilder_add b name n) ms (new_builder markers))))"

definition depth :: "string \<Rightarrow> int" where
  "depth p = (if p = [] then 0 else int (length (filter (\<lambda>c. c = CHR ''/'') p)) + 1)"

definition app_candidates :: "(string \<times> string) list" where
  "app_candidates =
     [(''wp-config.php'', ''wordpress''), (''artisan'', ''laravel''), (''configuration.php'', ''joomla''),
      (''settings.php'', ''drupal''), (''.env'', ''laravel'')]"

definition shallowest :: "string \<Rightarrow> string list \<Rightarrow> string" where
  "shallowest p ps = fold (\<lambda>c best. if depth c < depth best then c else best) ps p"

fun app_root :: "(string \<rightharpoonup> string list) \<Rightarrow> (string \<times> string) list \<Rightarrow> string \<times> string" where
  "app_root markers [] = ([], [])"
| "app_root markers ((marker, app) # cs) =
     (case markers marker of
        Some (p # ps) \<Rightarrow> (app, shallowest p ps)
      | _ \<Rightarrow> app_root markers cs)"

definition AppRoot :: "Summary \<Rightarrow> string \<times> string" where
  "AppRoot s = app_root (Markers s) app_candidates"

definition StripSupported :: "archive_view \<Rightarrow> archive_type \<Rightarrow> bool" where
  "StripSupported a t =
     (case t of TypeZIP \<Rightarrow> ar_bsdtar a | TypeRAR \<Rightarrow> ar_bsdtar a
      | TypeTAR \<Rightarrow> True | TypeTARGzip \<Rightarrow> True | TypeTARBzip2 \<Rightarrow> True | TypeTARXz \<Rightarrow> True
      | TypeUnknown \<Rightarrow> False)"

section \<open>What the fold computes\<close>

definition counted :: "string \<times> 64 word \<Rightarrow> bool" where
  "counted m = (clean_member (fst m) \<noteq> [] \<and> clean_member (fst m) \<noteq> ''.'')"

definition root_of :: "string \<times> 64 word \<Rightarrow> string" where
  "root_of m = fst (cut_at CHR ''/'' (clean_member (fst m)))"

definition inside_root :: "string \<times> 64 word \<Rightarrow> bool" where
  "inside_root m = (case cut_at CHR ''/'' (clean_member (fst m)) of (_, rest, found) \<Rightarrow> found \<and> trim_space rest \<noteq> [])"

definition base_of :: "string \<times> 64 word \<Rightarrow> string" where
  "base_of m = path_Base (clean_member (fst m))"

definition dir_of :: "string \<times> 64 word \<Rightarrow> string" where
  "dir_of m = (let d = path_Dir (clean_member (fst m)) in if d = ''.'' then [] else d)"

definition dirs_at :: "(string \<rightharpoonup> string list) \<Rightarrow> string \<Rightarrow> string set" where
  "dirs_at mk base = (case mk base of None \<Rightarrow> {} | Some ds \<Rightarrow> set ds)"

definition add_member :: "string \<times> 64 word \<Rightarrow> summaryBuilder \<Rightarrow> summaryBuilder" where
  "add_member m b = summaryBuilder_add b (fst m) (snd m)"

definition add_members :: "(string \<times> 64 word) list \<Rightarrow> summaryBuilder \<Rightarrow> summaryBuilder" where
  "add_members ms b = fold add_member ms b"

lemma set_appendUnique [simp]: "set (appendUnique xs v) = insert v (set xs)"
  by (auto simp: appendUnique_def)

lemma distinct_appendUnique [simp]: "distinct (appendUnique xs v) \<longleftrightarrow> distinct xs"
  by (auto simp: appendUnique_def)

lemma add_skips: "\<not> counted m \<Longrightarrow> add_member m b = b"
  by (auto simp: add_member_def summaryBuilder_add_def counted_def Let_def)

lemma add_counts:
  assumes "counted m"
  shows "Members (summary (add_member m b)) = Members (summary b) + 1"
    and "TotalBytes (summary (add_member m b)) = TotalBytes (summary b) + snd m"
    and "Markers (summary (add_member m b)) = (if base_of m \<in> set (wanted b)
      then (Markers (summary b))(base_of m \<mapsto> appendUnique
             (case Markers (summary b) (base_of m) of None \<Rightarrow> [] | Some ds \<Rightarrow> ds) (dir_of m))
      else Markers (summary b))"
    and "ContainerRoot (summary (add_member m b)) = ContainerRoot (summary b)"
    and "roots (add_member m b) = appendUnique (roots b) (root_of m)"
    and "wanted (add_member m b) = wanted b"
    and "nested (add_member m b) = (nested b \<or> inside_root m)"
  using assms
  by (simp_all add: add_member_def summaryBuilder_add_def counted_def Let_def base_of_def dir_of_def root_of_def
      inside_root_def split: prod.split)

lemma add_members_Cons: "add_members (m # ms) b = add_members ms (add_member m b)"
  by (simp add: add_members_def)

lemma add_members_counts:
  "Members (summary (add_members ms b)) = Members (summary b) + int (length (filter counted ms)) \<and>
   TotalBytes (summary (add_members ms b)) = TotalBytes (summary b) + sum_list (map snd (filter counted ms)) \<and>
   ContainerRoot (summary (add_members ms b)) = ContainerRoot (summary b) \<and>
   set (roots (add_members ms b)) = set (roots b) \<union> root_of ` set (filter counted ms) \<and>
   distinct (roots (add_members ms b)) = distinct (roots b) \<and>
   wanted (add_members ms b) = wanted b \<and>
   nested (add_members ms b) = (nested b \<or> list_ex inside_root (filter counted ms))"
proof (induction ms arbitrary: b)
  case (Cons m ms)
  then show ?case
    by (cases "counted m") (simp_all add: add_members_Cons add_skips add_counts Cons.IH algebra_simps)
qed (simp add: add_members_def)

lemma add_dirs:
  "counted m \<Longrightarrow> dirs_at (Markers (summary (add_member m b))) base = dirs_at (Markers (summary b)) base \<union>
     (if base = base_of m \<and> base \<in> set (wanted b) then {dir_of m} else {})"
  by (auto simp: add_counts dirs_at_def split: option.split)

lemma new_builder_simps [simp]:
  "wanted (new_builder markers) = markers" "Markers (summary (new_builder markers)) = Map.empty"
  by (simp_all add: new_builder_def)

lemma Markers_finish [simp]: "Markers (finish_summary b) = Markers (summary b)"
  by (simp add: finish_summary_def Let_def)

lemma dirs_at_empty: "dirs_at Map.empty base = {}"
  by (simp add: dirs_at_def)

lemma add_members_dirs:
  "dirs_at (Markers (summary (add_members ms b))) base = dirs_at (Markers (summary b)) base \<union>
     (if base \<in> set (wanted b) then dir_of ` set (filter (\<lambda>m. counted m \<and> base_of m = base) ms) else {})"
proof (induction ms arbitrary: b)
  case (Cons m ms)
  show ?case
  proof (cases "counted m")
    case True
    then show ?thesis
      by (simp add: add_members_Cons Cons.IH add_dirs add_counts(6))
  qed (simp add: add_members_Cons Cons.IH add_skips)
qed (simp add: add_members_def)

lemma Summarize_run:
  "Summarize a t l markers = (case scan a t l of Inl e \<Rightarrow> Inl e
     | Inr ms \<Rightarrow> Inr (finish_summary (add_members ms (new_builder markers))))"
proof -
  have "(\<lambda>(name, n) b. summaryBuilder_add b name n) = add_member"
    by (intro ext) (simp add: add_member_def case_prod_beta)
  then show ?thesis by (simp only: Summarize_def add_members_def)
qed

text \<open>
  A summary describes the archive it is of: it exists exactly when the scan accepts every member,
  counts the members and adds their sizes, lists the first components they have in order and once each,
  and names a container exactly when that component is one and some member lies inside it.
\<close>
theorem Summarize_describes:
  "Summarize a t l markers = (case scan a t l of Inl e \<Rightarrow> Inl e
     | Inr ms \<Rightarrow> let named = filter counted ms; rs = sorted_list_of_set (root_of ` set named) in
         Inr \<lparr>Members = int (length named), TotalBytes = sum_list (map snd named), Roots = rs,
              ContainerRoot = (if length rs = 1 \<and> list_ex inside_root named then hd rs else []),
              Markers = Markers (summary (add_members ms (new_builder markers)))\<rparr>)"
proof (cases "scan a t l")
  case (Inr ms)
  let ?b = "add_members ms (new_builder markers)"
  note d = add_members_counts [of ms "new_builder markers"]
  have "set (roots ?b) = root_of ` set (filter counted ms)" and "distinct (roots ?b)"
    using d by (auto simp: new_builder_def)
  then have "sort (roots ?b) = sorted_list_of_set (root_of ` set (filter counted ms))"
    using sorted_list_of_set_sort_remdups [of "roots ?b"] by (simp add: distinct_remdups_id)
  then show ?thesis using Inr d by (simp add: Summarize_run finish_summary_def Let_def new_builder_def)
qed (simp add: Summarize_run)

lemma shallowest_least:
  "shallowest p ps \<in> insert p (set ps) \<and> (\<forall>q \<in> insert p (set ps). depth (shallowest p ps) \<le> depth q)"
  unfolding shallowest_def
proof (induction ps arbitrary: p)
  case (Cons c ps)
  let ?n = "if depth c < depth p then c else p"
  have "fold (\<lambda>c best. if depth c < depth best then c else best) ps ?n \<in> insert ?n (set ps)"
    and "\<forall>q \<in> insert ?n (set ps). depth (fold (\<lambda>c best. if depth c < depth best then c else best) ps ?n) \<le> depth q"
    using Cons.IH [of ?n] by blast+
  moreover have "depth ?n \<le> depth p \<and> depth ?n \<le> depth c" by simp
  ultimately show ?case by (auto split: if_splits)
qed simp

lemma app_root_found:
  "app_root markers cs = (app, dir) \<Longrightarrow> app \<noteq> [] \<Longrightarrow>
     \<exists>marker. (marker, app) \<in> set cs \<and> dir \<in> dirs_at markers marker \<and>
       (\<forall>d \<in> dirs_at markers marker. depth dir \<le> depth d)"
proof (induction markers cs rule: app_root.induct)
  case (2 markers marker a cs)
  show ?case
  proof (cases "markers marker = None \<or> markers marker = Some []")
    case True
    then show ?thesis using 2 by (cases "markers marker = None") (auto split: option.splits)
  next
    case False
    then obtain p ps where m: "markers marker = Some (p # ps)" by (auto simp: neq_Nil_conv)
    then have "app = a" "dir = shallowest p ps" using 2 by simp_all
    moreover have "dirs_at markers marker = insert p (set ps)" using m by (simp add: dirs_at_def)
    ultimately show ?thesis using shallowest_least [of p ps] by (intro exI [of _ marker]) simp
  qed
qed simp

text \<open>
  The application named is in the archive, and at its shallowest: some accepted member is the
  configuration file of that application, in the directory named, and no member with that file name lies
  in a directory less deep.
\<close>
theorem AppRoot_shallowest:
  assumes "Summarize a t l (map fst app_candidates) = Inr s" and "AppRoot s = (app, dir)" and "app \<noteq> []"
  shows "\<exists>ms marker. scan a t l = Inr ms \<and> (marker, app) \<in> set app_candidates \<and>
    (\<exists>m \<in> set ms. counted m \<and> base_of m = marker \<and> dir_of m = dir) \<and>
    (\<forall>m \<in> set ms. counted m \<and> base_of m = marker \<longrightarrow> depth dir \<le> depth (dir_of m))"
proof -
  let ?ws = "map fst app_candidates"
  obtain ms where ms: "scan a t l = Inr ms" and s: "s = finish_summary (add_members ms (new_builder ?ws))"
    using assms(1) by (auto simp: Summarize_run split: sum.splits)
  obtain marker where m: "(marker, app) \<in> set app_candidates" "dir \<in> dirs_at (Markers s) marker"
      "\<forall>d \<in> dirs_at (Markers s) marker. depth dir \<le> depth d"
    using app_root_found assms(2,3) unfolding AppRoot_def by blast
  have "marker \<in> set ?ws" using m(1) by force
  then have "dirs_at (Markers s) marker = dir_of ` set (filter (\<lambda>m. counted m \<and> base_of m = marker) ms)"
    unfolding s Markers_finish add_members_dirs new_builder_simps dirs_at_empty by simp
  then have "\<exists>m \<in> set ms. counted m \<and> base_of m = marker \<and> dir_of m = dir"
    and "\<forall>m \<in> set ms. counted m \<and> base_of m = marker \<longrightarrow> depth dir \<le> depth (dir_of m)"
    using m(2,3) by auto
  then show ?thesis using m(1) ms by blast
qed

definition sample_backup :: archive_view where
  "sample_backup = \<lparr>ar_cancelled = (\<lambda>i. False),
     ar_zip = Some [\<lparr>zm_name = ''b/p/.env'', zm_symlink = False, zm_special = False, zm_size = 5\<rparr>,
       \<lparr>zm_name = ''b/.env'', zm_symlink = False, zm_special = False, zm_size = 7\<rparr>],
     ar_tar = None, ar_finish = True, ar_names = None, ar_verbose = None, ar_lsar = None, ar_tool = None,
     ar_bsdtar = True, ar_opens = True\<rparr>"

theorem AppRoot_shallowest_witness:
  "\<exists>m \<in> set [(''b/p/.env'', 5 :: 64 word), (''b/.env'', 7)]. base_of m = ''.env'' \<and> dir_of m = ''b''"
proof -
  let ?ms = "[(''b/p/.env'', 5 :: 64 word), (''b/.env'', 7)]"
  let ?l = "\<lparr>MaxTotalBytes = 100, MaxMembers = 3\<rparr>"
  let ?s = "finish_summary (add_members ?ms (new_builder (map fst app_candidates)))"
  have sc: "scan sample_backup TypeZIP ?l = Inr ?ms"
    by (simp add: sample_backup_def scan_def scanZIP_def exceedsMembers_def unsafeZIPMember_def
        unsafeMemberName_def slashed_def has_prefix_def MaxInt64_def exceedsBytes_def report_def word_sless_alt)
  then have run: "Summarize sample_backup TypeZIP ?l (map fst app_candidates) = Inr ?s"
    by (simp add: Summarize_run)
  have n: "clean_member ''b/p/.env'' = ''b/p/.env''" "clean_member ''b/.env'' = ''b/.env''" by code_simp+
  have "path_Base ''b/p/.env'' = ''.env''" "path_Base ''b/.env'' = ''.env''"
    "path_Dir ''b/p/.env'' = ''b/p''" "path_Dir ''b/.env'' = ''b''" by code_simp+
  then have b: "map base_of ?ms = [''.env'', ''.env'']" and d: "map dir_of ?ms = [''b/p'', ''b'']"
    by (simp_all add: base_of_def dir_of_def n)
  have c: "list_all counted ?ms" by (simp add: counted_def n)
  have "depth ''b'' < depth ''b/p''" by (simp add: depth_def)
  then have app: "AppRoot ?s = (''laravel'', ''b'')"
    using b c d by (simp add: AppRoot_def app_candidates_def finish_summary_def Let_def add_members_Cons
        add_counts add_members_def new_builder_def appendUnique_def shallowest_def)
  show ?thesis using AppRoot_shallowest [OF run app] sc b by fastforce
qed

end
