(* ===== verification/IpText.thy ===== *)
theory IpText
  imports GoText "HOL-Library.Word"
begin

text \<open>
  The part of Go's package \<open>net\<close> that the outbound guard calls: an \<open>IP\<close> is a byte slice of 4 or 16
  bytes, with its predicates, its text form (\<open>IP.String\<close>), \<open>ParseIP\<close>, \<open>IPNet.Contains\<close> and
  \<open>SplitHostPort\<close>. Reading a printed address gives the same address back.
\<close>

unbundle bit_operations_syntax

section \<open>Addresses\<close>

type_synonym IP = "8 word list"

definition v4InV6Prefix :: IP where
  "v4InV6Prefix = replicate 10 0 @ [0xFF, 0xFF]"

definition To4 :: "IP \<Rightarrow> IP option" where
  "To4 ip =
     (if length ip = 4 then Some ip
      else if length ip = 16 \<and> take 12 ip = v4InV6Prefix then Some (drop 12 ip)
      else None)"

definition To16 :: "IP \<Rightarrow> IP option" where
  "To16 ip = (if length ip = 4 then Some (v4InV6Prefix @ ip) else if length ip = 16 then Some ip else None)"

definition IP_Equal :: "IP \<Rightarrow> IP \<Rightarrow> bool" where
  "IP_Equal a b =
     (if length a = length b then a = b
      else if length a = 4 \<and> length b = 16 then v4InV6Prefix @ a = b
      else if length a = 16 \<and> length b = 4 then a = v4InV6Prefix @ b
      else False)"

definition IPv4zero :: IP where "IPv4zero = v4InV6Prefix @ [0, 0, 0, 0]"
definition IPv6unspecified :: IP where "IPv6unspecified = replicate 16 0"
definition IPv6loopback :: IP where "IPv6loopback = replicate 15 0 @ [1]"

definition IsUnspecified :: "IP \<Rightarrow> bool" where
  "IsUnspecified ip = (IP_Equal ip IPv4zero \<or> IP_Equal ip IPv6unspecified)"

definition IsLoopback :: "IP \<Rightarrow> bool" where
  "IsLoopback ip = (case To4 ip of Some a \<Rightarrow> a ! 0 = 127 | None \<Rightarrow> IP_Equal ip IPv6loopback)"

definition IsPrivate :: "IP \<Rightarrow> bool" where
  "IsPrivate ip =
     (case To4 ip of
        Some a \<Rightarrow> a ! 0 = 10 \<or> a ! 0 = 172 \<and> a ! 1 AND 0xF0 = 16 \<or> a ! 0 = 192 \<and> a ! 1 = 168
      | None \<Rightarrow> length ip = 16 \<and> ip ! 0 AND 0xFE = 0xFC)"

definition IsMulticast :: "IP \<Rightarrow> bool" where
  "IsMulticast ip =
     (case To4 ip of Some a \<Rightarrow> a ! 0 AND 0xF0 = 0xE0 | None \<Rightarrow> length ip = 16 \<and> ip ! 0 = 0xFF)"

definition IsInterfaceLocalMulticast :: "IP \<Rightarrow> bool" where
  "IsInterfaceLocalMulticast ip = (length ip = 16 \<and> ip ! 0 = 0xFF \<and> ip ! 1 AND 0x0F = 0x01)"

definition IsLinkLocalMulticast :: "IP \<Rightarrow> bool" where
  "IsLinkLocalMulticast ip =
     (case To4 ip of
        Some a \<Rightarrow> a ! 0 = 224 \<and> a ! 1 = 0 \<and> a ! 2 = 0
      | None \<Rightarrow> length ip = 16 \<and> ip ! 0 = 0xFF \<and> ip ! 1 AND 0x0F = 0x02)"

definition IsLinkLocalUnicast :: "IP \<Rightarrow> bool" where
  "IsLinkLocalUnicast ip =
     (case To4 ip of
        Some a \<Rightarrow> a ! 0 = 169 \<and> a ! 1 = 254
      | None \<Rightarrow> length ip = 16 \<and> ip ! 0 = 0xFE \<and> ip ! 1 AND 0xC0 = 0x80)"

section \<open>Networks\<close>

text \<open>The mask of \<open>ones\<close> bits, over a number of bytes.\<close>

fun CIDRMask :: "nat \<Rightarrow> nat \<Rightarrow> 8 word list" where
  "CIDRMask ones 0 = []"
| "CIDRMask ones (Suc n) =
     (if 8 \<le> ones then 0xFF # CIDRMask (ones - 8) n else NOT (drop_bit ones 0xFF) # CIDRMask 0 n)"

type_synonym IPNet = "IP \<times> 8 word list"

definition IPNet_Contains :: "IPNet \<Rightarrow> IP \<Rightarrow> bool" where
  "IPNet_Contains network ip =
     (case network of (nn, m) \<Rightarrow>
        let x = (case To4 ip of Some a \<Rightarrow> a | None \<Rightarrow> ip)
        in length x = length nn \<and> list_all (\<lambda>(b, k, a). b AND k = a AND k) (zip nn (zip m x)))"

section \<open>Printing\<close>

definition hex_digit :: "nat \<Rightarrow> char" where
  "hex_digit n = char_of (if n < 10 then 48 + n else 87 + n)"

fun hex_of :: "nat \<Rightarrow> string" where
  "hex_of n = (if n < 16 then [hex_digit n] else hex_of (n div 16) @ [hex_digit (n mod 16)])"

declare hex_of.simps [simp del]

fun groups_of :: "8 word list \<Rightarrow> nat list" where
  "groups_of (a # b # s) = (256 * unat a + unat b) # groups_of s"
| "groups_of _ = []"

definition bytes_of :: "nat list \<Rightarrow> 8 word list" where
  "bytes_of gs = concat (map (\<lambda>g. [of_nat (g div 256), of_nat (g mod 256)]) gs)"

text \<open>The first longest run of two or more zero groups: its start and its length, 0 for none.\<close>

definition zero_run :: "nat list \<Rightarrow> nat" where
  "zero_run gs = length (takeWhile (\<lambda>g. g = 0) gs)"

definition best_run :: "nat list \<Rightarrow> nat \<times> nat" where
  "best_run gs = fold (\<lambda>i (s, n). let l = zero_run (drop i gs) in if 2 \<le> l \<and> n < l then (i, l) else (s, n))
     [0..<length gs] (0, 0)"

definition groups_text :: "nat list \<Rightarrow> string" where
  "groups_text gs = join '':'' (map hex_of gs)"

definition string6 :: "nat list \<Rightarrow> string" where
  "string6 gs = (case best_run gs of (s, n) \<Rightarrow>
     if n = 0 then groups_text gs
     else groups_text (take s gs) @ ''::'' @ groups_text (drop (s + n) gs))"

definition string4 :: "IP \<Rightarrow> string" where
  "string4 ip = join ''.'' (map (\<lambda>b. digits_of (unat b)) ip)"

text \<open>\<open>IP.String\<close>, for the lengths an address has.\<close>

definition IP_String :: "IP \<Rightarrow> string" where
  "IP_String ip = (case To4 ip of Some a \<Rightarrow> string4 a | None \<Rightarrow> string6 (groups_of ip))"

section \<open>Reading\<close>

definition is_hex :: "char \<Rightarrow> bool" where
  "is_hex c = (byte_in 48 57 c \<or> byte_in 97 102 c \<or> byte_in 65 70 c)"

definition hex_value1 :: "char \<Rightarrow> nat" where
  "hex_value1 c = (if byte_in 48 57 c then byte c - 48 else if byte_in 97 102 c then byte c - 87 else byte c - 55)"

fun hex_value :: "nat \<Rightarrow> string \<Rightarrow> nat" where
  "hex_value acc [] = acc"
| "hex_value acc (c # s) = hex_value (16 * acc + hex_value1 c) s"

definition octet :: "string \<Rightarrow> 8 word option" where
  "octet s =
     (if s \<noteq> [] \<and> all_digits s \<and> (length s = 1 \<or> hd s \<noteq> CHR ''0'') \<and> value_of 0 s \<le> 255
      then Some (of_nat (value_of 0 s)) else None)"

definition parseIPv4Fields :: "string \<Rightarrow> IP option" where
  "parseIPv4Fields s =
     (let fs = map octet (split_on CHR ''.'' s)
      in if length fs = 4 \<and> None \<notin> set fs then Some (map the fs) else None)"

function parse6 :: "string \<Rightarrow> IP \<Rightarrow> nat option \<Rightarrow> (IP \<times> nat option \<times> string) option" where
  "parse6 s ip e =
     (if 16 \<le> length ip then Some (ip, e, s)
      else let ds = takeWhile is_hex s; rest = drop (length ds) s;
               g = hex_value 0 ds; ip' = ip @ [of_nat (g div 256), of_nat (g mod 256)]
        in if ds = [] \<or> 4 < length ds then None
        else if has_prefix rest ''.'' then
          (if e = None \<and> length ip \<noteq> 12 then None
           else if 16 < length ip + 4 then None
           else case parseIPv4Fields s of None \<Rightarrow> None | Some b \<Rightarrow> Some (ip @ b, e, []))
        else if rest = [] then Some (ip', e, [])
        else if hd rest \<noteq> CHR '':'' then None
        else if length rest = 1 then None
        else if has_prefix (tl rest) '':'' then
          (if e \<noteq> None then None
           else if tl (tl rest) = [] then Some (ip', Some (length ip'), [])
           else parse6 (tl (tl rest)) ip' (Some (length ip')))
        else parse6 (tl rest) ip' e)"
  by pat_completeness auto
termination
  by (relation "measure (\<lambda>(s, ip, e). length s)") (auto simp: length_greater_0_conv [symmetric] simp del: length_greater_0_conv)

declare parse6.simps [simp del]

definition expand6 :: "(IP \<times> nat option \<times> string) option \<Rightarrow> IP option" where
  "expand6 r =
     (case r of None \<Rightarrow> None
      | Some (ip, e, rest) \<Rightarrow>
          if rest \<noteq> [] then None
          else if length ip < 16 then
            (case e of None \<Rightarrow> None | Some k \<Rightarrow> Some (take k ip @ replicate (16 - length ip) 0 @ drop k ip))
          else if e \<noteq> None then None else Some ip)"

definition parseIPv6 :: "string \<Rightarrow> IP option" where
  "parseIPv6 s =
     (if CHR ''%'' \<in> set s then None
      else if has_prefix s ''::'' then
        (if length s = 2 then Some IPv6unspecified else expand6 (parse6 (drop 2 s) [] (Some 0)))
      else expand6 (parse6 s [] None))"

text \<open>\<open>ParseIP\<close> answers 16 bytes, and refuses an address with a zone.\<close>

definition ParseIP :: "string \<Rightarrow> IP option" where
  "ParseIP s =
     (case dropWhile (\<lambda>c. c \<notin> set ''.:%'') s of
        [] \<Rightarrow> None
      | c # _ \<Rightarrow>
          if c = CHR ''.'' then map_option (\<lambda>a. v4InV6Prefix @ a) (parseIPv4Fields s)
          else if c = CHR '':'' then parseIPv6 s else None)"

definition index_byte :: "char \<Rightarrow> string \<Rightarrow> nat option" where
  "index_byte d s = (let n = length (takeWhile (\<lambda>c. c \<noteq> d) s) in if n = length s then None else Some n)"

text \<open>\<open>SplitHostPort\<close>: the host and the port, \<open>None\<close> for its errors.\<close>

definition SplitHostPort :: "string \<Rightarrow> (string \<times> string) option" where
  "SplitHostPort hp =
     (case last_index CHR '':'' hp of
        None \<Rightarrow> None
      | Some i \<Rightarrow>
          if hd hp = CHR ''['' then
            (case index_byte CHR '']'' hp of
               None \<Rightarrow> None
             | Some end' \<Rightarrow>
                 if end' + 1 \<noteq> i then None
                 else if CHR ''['' \<in> set (drop 1 hp) \<or> CHR '']'' \<in> set (drop (end' + 1) hp) then None
                 else Some (drop 1 (take end' hp), drop (i + 1) hp))
          else if CHR '':'' \<in> set (take i hp) then None
          else if CHR ''['' \<in> set hp \<or> CHR '']'' \<in> set hp then None
          else Some (take i hp, drop (i + 1) hp))"

section \<open>Reading back what was printed\<close>

lemma byte_char_of [simp]: "n < 256 \<Longrightarrow> byte (char_of n) = n"
  by (simp add: byte_def)

lemma hex_digit_props:
  assumes "n < 16"
  shows "is_hex (hex_digit n)" and "hex_value1 (hex_digit n) = n"
  using assms by (auto simp: is_hex_def hex_digit_def byte_in_def hex_value1_def)

lemma hex_value_snoc: "hex_value acc (s @ [c]) = 16 * hex_value acc s + hex_value1 c"
  by (induction s arbitrary: acc) auto

lemma hex_of_props: "list_all is_hex (hex_of n) \<and> hex_of n \<noteq> [] \<and> hex_value 0 (hex_of n) = n"
proof (induction n rule: hex_of.induct)
  case (1 n)
  then show ?case
    by (cases "n < 16") (simp_all add: hex_of.simps [of n] hex_digit_props hex_value_snoc)
qed

lemma length_hex_of: "n < 16 ^ Suc k \<Longrightarrow> length (hex_of n) \<le> Suc k"
proof (induction k arbitrary: n)
  case 0
  then show ?case by (simp add: hex_of.simps [of n])
next
  case (Suc k)
  have "n div 16 < 16 ^ Suc k" using Suc.prems by (simp add: less_mult_imp_div_less mult.commute)
  then show ?case using Suc.IH by (subst hex_of.simps) simp
qed

definition group_ok :: "nat \<Rightarrow> bool" where "group_ok g = (g < 65536)"

lemma hex_of_group: "group_ok g \<Longrightarrow> length (hex_of g) \<le> 4"
  using length_hex_of [of g 3] by (simp add: group_ok_def)

lemma not_hex_colon [simp]: "\<not> is_hex CHR '':''"
  by (simp add: is_hex_def byte_in_def byte_def)

lemma hex_plain: "is_hex c \<Longrightarrow> c \<notin> set ''.:%''"
  by (auto simp: is_hex_def byte_in_def byte_def)

lemma takeWhile_hex: "list_all is_hex h \<Longrightarrow> takeWhile is_hex (h @ CHR '':'' # s) = h"
  by (simp add: takeWhile_append2 list_all_iff)

lemma takeWhile_hex_end: "list_all is_hex h \<Longrightarrow> takeWhile is_hex h = h"
  by (simp add: takeWhile_eq_all_conv list_all_iff)

text \<open>One turn of the reading loop on a printed group.\<close>

definition group_bytes :: "nat \<Rightarrow> 8 word list" where
  "group_bytes g = [of_nat (g div 256), of_nat (g mod 256)]"

lemma parse6_last:
  assumes "group_ok g" and "length ip < 16"
  shows "parse6 (hex_of g) ip e = Some (ip @ group_bytes g, e, [])"
  using assms hex_of_props [of g] hex_of_group [of g]
  by (subst parse6.simps) (simp add: takeWhile_hex_end Let_def has_prefix_def group_bytes_def)

lemma parse6_next:
  assumes "group_ok g" and "length ip < 16" and "s \<noteq> []" and "hd s \<noteq> CHR '':''"
  shows "parse6 (hex_of g @ CHR '':'' # s) ip e = parse6 s (ip @ group_bytes g) e"
  using assms hex_of_props [of g] hex_of_group [of g]
  by (subst parse6.simps) (cases s; simp add: takeWhile_hex Let_def has_prefix_def group_bytes_def)

lemma parse6_ellipsis:
  assumes "group_ok g" and "length ip < 16"
  shows "parse6 (hex_of g @ ''::'' @ s) ip None =
    (if s = [] then Some (ip @ group_bytes g, Some (length ip + 2), [])
     else parse6 s (ip @ group_bytes g) (Some (length ip + 2)))"
  using assms hex_of_props [of g] hex_of_group [of g]
  by (subst parse6.simps)
     (simp add: takeWhile_hex [of "hex_of g" "CHR '':'' # s"] Let_def has_prefix_def group_bytes_def)

lemma bytes_of_Cons: "bytes_of (g # gs) = group_bytes g @ bytes_of gs"
  by (simp add: bytes_of_def group_bytes_def)

lemma bytes_of_Nil [simp]: "bytes_of [] = []"
  by (simp add: bytes_of_def)

lemma bytes_of_append: "bytes_of (a @ b) = bytes_of a @ bytes_of b"
  by (simp add: bytes_of_def)

lemma length_bytes_of [simp]: "length (bytes_of gs) = 2 * length gs"
  by (induction gs) (simp_all add: bytes_of_Cons group_bytes_def)

lemma groups_text_Cons: "gs \<noteq> [] \<Longrightarrow> groups_text (g # gs) = hex_of g @ CHR '':'' # groups_text gs"
  by (cases gs) (simp_all add: groups_text_def)

lemma groups_text_one: "groups_text [g] = hex_of g"
  by (simp add: groups_text_def)

lemma groups_text_head: "gs \<noteq> [] \<Longrightarrow> groups_text gs \<noteq> [] \<and> is_hex (hd (groups_text gs))"
proof (cases gs)
  case (Cons g hs)
  have "hex_of g \<noteq> [] \<and> is_hex (hd (hex_of g))" using hex_of_props [of g] by (auto simp: list_all_iff)
  then show ?thesis using Cons by (cases "hs = []") (simp_all add: groups_text_one groups_text_Cons)
qed simp

lemma groups_text_not_colon: "gs \<noteq> [] \<Longrightarrow> hd (groups_text gs) \<noteq> CHR '':''"
  using groups_text_head [of gs] by (metis not_hex_colon)

lemma parse6_groups:
  "gs \<noteq> [] \<Longrightarrow> list_all group_ok gs \<Longrightarrow> length ip + 2 * length gs \<le> 16 \<Longrightarrow>
   parse6 (groups_text gs) ip e = Some (ip @ bytes_of gs, e, [])"
proof (induction gs arbitrary: ip)
  case (Cons g gs)
  have g: "group_ok g" "length ip < 16" using Cons.prems by simp_all
  show ?case
  proof (cases "gs = []")
    case True
    then show ?thesis using parse6_last [OF g] by (simp add: groups_text_one bytes_of_Cons)
  next
    case False
    have "length (ip @ group_bytes g) + 2 * length gs \<le> 16"
      using Cons.prems by (simp add: group_bytes_def)
    then show ?thesis
      using Cons.IH [OF False, of "ip @ group_bytes g"] Cons.prems parse6_next [OF g] False
        groups_text_head [OF False] groups_text_not_colon [OF False]
      by (simp add: groups_text_Cons bytes_of_Cons)
  qed
qed simp

lemma parse6_groups_ellipsis:
  "gs \<noteq> [] \<Longrightarrow> list_all group_ok gs \<Longrightarrow> length ip + 2 * length gs \<le> 16 \<Longrightarrow>
   parse6 (groups_text gs @ ''::'' @ s) ip None =
     (if s = [] then Some (ip @ bytes_of gs, Some (length ip + 2 * length gs), [])
      else parse6 s (ip @ bytes_of gs) (Some (length ip + 2 * length gs)))"
proof (induction gs arbitrary: ip)
  case (Cons g gs)
  have g: "group_ok g" "length ip < 16" using Cons.prems by simp_all
  show ?case
  proof (cases "gs = []")
    case True
    then show ?thesis using parse6_ellipsis [OF g, of s] by (simp add: groups_text_one bytes_of_Cons)
  next
    case False
    have "length (ip @ group_bytes g) + 2 * length gs \<le> 16"
      using Cons.prems by (simp add: group_bytes_def)
    then show ?thesis
      using Cons.IH [OF False, of "ip @ group_bytes g"] Cons.prems
        parse6_next [OF g, of "groups_text gs @ ''::'' @ s" None] False
        groups_text_head [OF False] groups_text_not_colon [OF False]
      by (simp add: groups_text_Cons bytes_of_Cons group_bytes_def)
  qed
qed simp

definition run_ok :: "nat list \<Rightarrow> nat \<times> nat \<Rightarrow> bool" where
  "run_ok gs r = (snd r = 0 \<or> 2 \<le> snd r \<and> fst r + snd r \<le> length gs \<and>
     take (snd r) (drop (fst r) gs) = replicate (snd r) 0)"

lemma zero_run_zeros: "take (zero_run gs) gs = replicate (zero_run gs) 0"
proof -
  have "takeWhile (\<lambda>g. g = 0) gs = replicate (zero_run gs) 0"
    unfolding zero_run_def by (rule replicate_length_same [symmetric]) (auto dest: set_takeWhileD)
  then show ?thesis by (simp add: zero_run_def takeWhile_eq_take [symmetric])
qed

lemma zero_run_le: "zero_run gs \<le> length gs"
  by (simp add: zero_run_def length_takeWhile_le)

lemma best_run_ok: "run_ok gs (best_run gs)"
proof -
  have "run_ok gs (fold (\<lambda>i (s, n). let l = zero_run (drop i gs) in if 2 \<le> l \<and> n < l then (i, l) else (s, n))
      is r)" if "run_ok gs r" and "\<forall>i \<in> set is. i < length gs" for "is" r
    using that
  proof (induction "is" arbitrary: r)
    case (Cons i js)
    obtain s n where r: "r = (s, n)" by (cases r)
    have "run_ok gs (i, zero_run (drop i gs))" if "2 \<le> zero_run (drop i gs)"
      using that Cons.prems zero_run_le [of "drop i gs"] zero_run_zeros [of "drop i gs"]
      by (auto simp: run_ok_def)
    then show ?case using Cons r by (simp add: Let_def)
  qed simp
  then show ?thesis by (simp add: best_run_def run_ok_def)
qed

lemma drop_run: "run_ok gs (s, n) \<Longrightarrow> n \<noteq> 0 \<Longrightarrow> gs = take s gs @ replicate n 0 @ drop (s + n) gs"
proof -
  assume "run_ok gs (s, n)" and "n \<noteq> 0"
  then have "take n (drop s gs) = replicate n 0" by (simp add: run_ok_def)
  then have d: "drop s gs = replicate n 0 @ drop (s + n) gs"
    using append_take_drop_id [of n "drop s gs"] by (simp add: add.commute)
  show "gs = take s gs @ replicate n 0 @ drop (s + n) gs"
    using append_take_drop_id [of s gs] unfolding d by (rule sym)
qed

lemma bytes_of_zeros: "bytes_of (replicate n 0) = replicate (2 * n) 0"
  by (induction n) (simp_all add: bytes_of_Cons group_bytes_def)

lemma groups_text_chars: "list_all (\<lambda>c. is_hex c \<or> c = CHR '':'') (groups_text gs)"
proof (induction gs)
  case (Cons g gs)
  then show ?case using hex_of_props [of g]
    by (cases "gs = []") (auto simp: groups_text_one groups_text_Cons list_all_iff)
qed (simp add: groups_text_def)

lemma string6_chars: "list_all (\<lambda>c. is_hex c \<or> c = CHR '':'') (string6 gs)"
  using groups_text_chars by (simp add: string6_def split: prod.split)

lemma string6_no_zone: "CHR ''%'' \<notin> set (string6 gs)"
  using string6_chars [of gs] hex_plain by (auto simp: list_all_iff)

lemma not_leading: "is_hex (hd s) \<Longrightarrow> \<not> has_prefix s (CHR '':'' # t)"
  by (cases s) (auto simp: has_prefix_def)

lemma expand6_gap:
  "length a = k \<Longrightarrow> length a + m + length b = 16 \<Longrightarrow> 0 < m \<Longrightarrow>
     expand6 (Some (a @ b, Some k, [])) = Some (a @ replicate m 0 @ b)"
  by (simp add: expand6_def)

lemma parse_string6:
  assumes "length gs = 8" and ok: "list_all group_ok gs"
  shows "parseIPv6 (string6 gs) = Some (bytes_of gs)"
proof -
  obtain s n where r: "best_run gs = (s, n)" by (cases "best_run gs")
  show ?thesis
  proof (cases "n = 0")
    case True
    then have t: "string6 gs = groups_text gs" by (simp add: string6_def r)
    have "gs \<noteq> []" using assms by auto
    then show ?thesis
      using parse6_groups [of gs "[]" None] assms groups_text_head [of gs] string6_no_zone [of gs]
      by (simp add: parseIPv6_def t not_leading expand6_def)
  next
    case False
    let ?a = "take s gs" and ?b = "drop (s + n) gs"
    note run = best_run_ok [of gs, unfolded r]
    have n: "2 \<le> n" "s + n \<le> 8" using run False assms(1) by (simp_all add: run_ok_def)
    have gs: "bytes_of gs = bytes_of ?a @ replicate (2 * n) 0 @ bytes_of ?b"
      using drop_run [OF run False] by (metis bytes_of_append bytes_of_zeros)
    have t: "string6 gs = groups_text ?a @ ''::'' @ groups_text ?b" using False by (simp add: string6_def r)
    have oka: "list_all group_ok ?a" and okb: "list_all group_ok ?b"
      using ok by (auto simp: list_all_iff dest: in_set_takeD in_set_dropD)
    have la: "length ?a = s" "length ?b = 8 - (s + n)" using assms(1) n by simp_all
    have be: "?b = [] \<longleftrightarrow> groups_text ?b = []"
      using groups_text_head [of ?b] by (auto simp: groups_text_def)
    have tail: "parse6 (groups_text ?b) (bytes_of ?a) (Some (2 * s)) = Some (bytes_of ?a @ bytes_of ?b, Some (2 * s), [])"
      if "?b \<noteq> []"
      using parse6_groups [OF that okb, of "bytes_of ?a" "Some (2 * s)"] la n by simp
    show ?thesis
    proof (cases "s = 0")
      case True
      show ?thesis
      proof (cases "?b = []")
        case True
        then show ?thesis using \<open>s = 0\<close> gs la n be
          by (simp add: parseIPv6_def t groups_text_def has_prefix_def IPv6unspecified_def)
      next
        case nb: False
        then have "expand6 (parse6 (groups_text ?b) [] (Some 0)) = Some (bytes_of gs)"
          using tail \<open>s = 0\<close> la n gs by (simp add: expand6_def)
        moreover have "string6 gs = ''::'' @ groups_text ?b" using \<open>s = 0\<close> unfolding t by (simp add: groups_text_def)
        moreover have "groups_text ?b \<noteq> []" using nb be by blast
        ultimately show ?thesis using string6_no_zone [of gs] \<open>s = 0\<close>
          by (simp add: parseIPv6_def has_prefix_def)
      qed
    next
      case s: False
      then have a: "?a \<noteq> []" using assms(1) by auto
      have "parse6 (groups_text ?a @ ''::'' @ groups_text ?b) [] None =
          (if groups_text ?b = [] then Some (bytes_of ?a, Some (2 * s), [])
           else parse6 (groups_text ?b) (bytes_of ?a) (Some (2 * s)))"
        using parse6_groups_ellipsis [OF a oka, of "[]" "groups_text ?b"] la(1) n by simp
      then have "parse6 (string6 gs) [] None = Some (bytes_of ?a @ bytes_of ?b, Some (2 * s), [])"
        unfolding t using tail be by (cases "?b = []") (simp_all only: if_True if_False bytes_of_Nil append_Nil2 simp_thms True_implies_equals)
      then have "expand6 (parse6 (string6 gs) [] None) = Some (bytes_of gs)"
        using expand6_gap [of "bytes_of ?a" "2 * s" "2 * n" "bytes_of ?b"] la n unfolding gs by simp
      moreover have "is_hex (hd (string6 gs))" using groups_text_head [OF a] unfolding t by simp
      ultimately show ?thesis using string6_no_zone [of gs] by (simp add: parseIPv6_def not_leading)
    qed
  qed
qed

text \<open>Bytes and groups.\<close>

lemma word8_lt: "unat (b :: 8 word) < 256"
  using unsigned_less [of b] by simp

lemma groups_of_bytes:
  "even (length ip) \<Longrightarrow> bytes_of (groups_of ip) = ip \<and> list_all group_ok (groups_of ip) \<and>
     length (groups_of ip) = length ip div 2"
proof (induction ip rule: groups_of.induct)
  case (1 a b s)
  have "unat a < 256" "unat b < 256" by (rule word8_lt)+
  then show ?case using 1 by (auto simp: bytes_of_Cons group_bytes_def group_ok_def)
qed simp_all

text \<open>Dotted decimals.\<close>

lemma digits_of_hd: "0 < n \<Longrightarrow> hd (digits_of n) \<noteq> CHR ''0''"
proof (induction n rule: digits_of.induct)
  case (1 n)
  show ?case
  proof (cases "n < 10")
    case True
    then have "digits_of n = [char_of (48 + n)]" by (subst digits_of.simps) simp
    moreover have "byte (char_of (48 + n)) \<noteq> byte CHR ''0''" using 1 True by (simp add: byte_def)
    ultimately show ?thesis by auto
  next
    case False
    then show ?thesis using 1 digits_of_digits [of "n div 10"] by (subst digits_of.simps) simp
  qed
qed

lemma octet_digits: "octet (digits_of (unat b)) = Some b"
proof -
  have "unat b \<le> 255" using word8_lt [of b] by simp
  moreover have "length (digits_of (unat b)) = 1 \<or> hd (digits_of (unat b)) \<noteq> CHR ''0''"
    using digits_of_hd [of "unat b"] by (cases "unat b = 0") (auto simp: digits_of.simps [of 0])
  ultimately show ?thesis using digits_of_digits [of "unat b"] by (simp add: octet_def)
qed

lemma digits_no_dot: "CHR ''.'' \<notin> set (digits_of n)"
  using digits_of_chars [of "CHR ''.''" n] by (auto simp: is_digit_def byte_in_def byte_def)

lemma parse_string4:
  assumes "length ip = 4"
  shows "parseIPv4Fields (string4 ip) = Some ip"
proof -
  have "split_on CHR ''.'' (string4 ip) = map (\<lambda>b. digits_of (unat b)) ip"
    unfolding string4_def using assms digits_no_dot by (intro split_on_join) auto
  then have "map octet (split_on CHR ''.'' (string4 ip)) = map Some ip"
    by (simp add: octet_digits)
  then show ?thesis using assms by (simp add: parseIPv4Fields_def Let_def image_iff comp_def)
qed

lemma dropWhile_first: "list_all P a \<Longrightarrow> \<not> P c \<Longrightarrow> dropWhile P (a @ c # s) = c # s"
  by (induction a) auto

lemma digit_no_separator: "is_digit c \<Longrightarrow> c \<notin> set ''.:%''"
  by (auto simp: is_digit_def byte_in_def byte_def)

lemma string4_dispatch:
  assumes "length ip = 4"
  shows "\<exists>s. dropWhile (\<lambda>c. c \<notin> set ''.:%'') (string4 ip) = CHR ''.'' # s"
proof -
  obtain a b r where ip: "ip = a # b # r" using assms by (cases ip; cases "tl ip") auto
  have "list_all (\<lambda>c. c \<notin> set ''.:%'') (digits_of (unat a))"
    using digits_of_chars [of _ "unat a"] digit_no_separator by (auto simp: list_all_iff)
  then show ?thesis by (simp add: ip string4_def dropWhile_first)
qed

lemma string6_dispatch:
  assumes "length gs = 8"
  shows "\<exists>s. dropWhile (\<lambda>c. c \<notin> set ''.:%'') (string6 gs) = CHR '':'' # s"
proof -
  have colon: "CHR '':'' \<in> set (string6 gs)"
  proof (cases "snd (best_run gs) = 0")
    case True
    have "\<exists>g h hs. gs = g # h # hs" using assms by (cases gs; cases "tl gs") auto
    then have "CHR '':'' \<in> set (groups_text gs)" by (auto simp: groups_text_def)
    then show ?thesis using True by (cases "best_run gs") (simp add: string6_def)
  next
    case False
    then show ?thesis by (cases "best_run gs") (simp add: string6_def)
  qed
  have "dropWhile (\<lambda>c. c \<notin> set ''.:%'') (string6 gs) \<noteq> []"
  proof
    assume "dropWhile (\<lambda>c. c \<notin> set ''.:%'') (string6 gs) = []"
    then have "\<forall>c \<in> set (string6 gs). c \<notin> set ''.:%''" by (simp only: dropWhile_eq_Nil_conv)
    then have "CHR '':'' \<notin> set ''.:%''" using colon by (rule bspec)
    then show False by simp
  qed
  then obtain c s where d: "dropWhile (\<lambda>c. c \<notin> set ''.:%'') (string6 gs) = c # s"
    by (meson neq_Nil_conv)
  have "hd (c # s) \<in> set ''.:%''"
    using hd_dropWhile [of "\<lambda>c. c \<notin> set ''.:%''" "string6 gs"] unfolding d by blast
  moreover have "c \<in> set (string6 gs)"
    using set_dropWhileD [of c "\<lambda>c. c \<notin> set ''.:%''" "string6 gs"] unfolding d by simp
  then have "is_hex c \<or> c = CHR '':''" using string6_chars [of gs] by (simp add: list_all_iff)
  ultimately have "c = CHR '':''" using hex_plain by auto
  then show ?thesis using d by blast
qed

definition canonical16 :: "IP \<Rightarrow> IP" where
  "canonical16 ip = (case To16 ip of Some v \<Rightarrow> v | None \<Rightarrow> ip)"

text \<open>The printed form of an address reads back as that address, in its 16-byte form.\<close>

lemma ParseIP_String:
  assumes "length ip = 4 \<or> length ip = 16"
  shows "ParseIP (IP_String ip) = Some (canonical16 ip)"
proof (cases "To4 ip")
  case (Some a)
  then have a: "length a = 4" "canonical16 ip = v4InV6Prefix @ a"
    using assms append_take_drop_id [of 12 ip]
    by (auto simp: To4_def canonical16_def To16_def v4InV6Prefix_def simp del: append_take_drop_id split: if_splits)
  then show ?thesis using string4_dispatch [OF a(1)] parse_string4 [OF a(1)] Some
    by (auto simp: ParseIP_def IP_String_def)
next
  case None
  then have l: "length ip = 16" using assms by (auto simp: To4_def split: if_splits)
  then have g: "length (groups_of ip) = 8" "list_all group_ok (groups_of ip)" "bytes_of (groups_of ip) = ip"
    using groups_of_bytes [of ip] by simp_all
  then show ?thesis using string6_dispatch [OF g(1)] parse_string6 [OF g(1,2)] None l
    by (auto simp: ParseIP_def IP_String_def canonical16_def To16_def)
qed

text \<open>An address that was read has 16 bytes.\<close>

lemma mapped_prefix: "v4InV6Prefix = [0, 0, 0, 0, 0, 0, 0, 0, 0, 0, 255, 255]"
  by code_simp

lemma parse4_length: "parseIPv4Fields s = Some ip \<Longrightarrow> length ip = 4"
  by (auto simp: parseIPv4Fields_def Let_def split: if_splits)

lemma parse6_step:
  assumes "parse6 s ip e = Some (ip', e', r)" and "length ip < 16"
  shows "length ip' = length ip + 2 \<or> length ip' = length ip + 4 \<and> length ip + 4 \<le> 16 \<or>
    (\<exists>s2 ip2 e2. length s2 < length s \<and> length ip2 = length ip + 2 \<and> parse6 s2 ip2 e2 = Some (ip', e', r))"
proof -
  let ?ds = "takeWhile is_hex s"
  obtain ds where ds: "?ds = ds" by simp
  obtain rest where rest: "drop (length ds) s = rest" by simp
  have l: "length rest \<le> length s" unfolding rest [symmetric] by simp
  show ?thesis
  proof (cases rest)
    case Nil
    then show ?thesis using assms parse4_length
      by (subst (asm) parse6.simps) (auto simp: Let_def ds rest has_prefix_def split: if_split_asm option.split_asm)
  next
    case (Cons c t)
    show ?thesis
    proof (cases "c = CHR ''.''")
      case True
      then show ?thesis using assms parse4_length Cons
        by (subst (asm) parse6.simps) (auto simp: Let_def ds rest has_prefix_def split: if_split_asm option.split_asm)
    next
      case False
      let ?ip2 = "ip @ [of_nat (hex_value 0 ds div 256), of_nat (hex_value 0 ds mod 256)]"
      have "length ?ip2 = length ip + 2" by simp
      moreover have "ip' = ?ip2 \<or> (\<exists>e2. parse6 t ?ip2 e2 = Some (ip', e', r)) \<or>
          (\<exists>e2. parse6 (tl t) ?ip2 e2 = Some (ip', e', r))"
        using assms Cons False
        by (subst (asm) parse6.simps) (simp add: Let_def ds rest has_prefix_def split: if_split_asm; blast)
      moreover have "length t < length s" "length (tl t) < length s" using l Cons by simp_all
      ultimately show ?thesis by blast
    qed
  qed
qed

lemma parse6_length:
  "parse6 s ip e = Some (ip', e', r) \<Longrightarrow> even (length ip) \<Longrightarrow> length ip \<le> 16 \<Longrightarrow> length ip' \<le> 16"
proof (induction "length s" arbitrary: s ip e rule: less_induct)
  case less
  show ?case
  proof (cases "16 \<le> length ip")
    case True
    then show ?thesis using less.prems by (simp add: parse6.simps [of s ip e])
  next
    case False
    then have "length ip + 2 \<le> 16" "even (length ip + 2)" using less.prems(2) by presburger+
    then show ?thesis using parse6_step [OF less.prems(1)] False less.hyps by fastforce
  qed
qed

lemma ParseIP_length: "ParseIP s = Some ip \<Longrightarrow> length ip = 16"
proof -
  have "expand6 (parse6 s [] e) = Some ip \<Longrightarrow> length ip = 16" for s e
    using parse6_length [of s "[]" e] by (fastforce simp: expand6_def split: option.splits if_splits)
  then show "ParseIP s = Some ip \<Longrightarrow> length ip = 16"
    using parse4_length
    by (fastforce simp: ParseIP_def parseIPv6_def IPv6unspecified_def mapped_prefix split: list.splits if_splits)
qed

lemma list_four: "length ip = 4 \<Longrightarrow> \<exists>a b c d. ip = [a, b, c, d]"
  by (auto simp: numeral_eq_Suc length_Suc_conv)

end
