(* ===== verification/NetGuard.thy ===== *)
theory NetGuard
  imports IpText
begin

text \<open>
  The guard against requests to internal addresses (internal/netguard/netguard.go): which addresses are
  refused, how a host given by a customer is vetted, what a caller is told to connect to. The resolver
  (\<open>net.LookupIP\<close>), \<open>net/url\<close> and the process environment are arguments.
\<close>

datatype guard_error =
  ErrBlockedTarget | ErrEmptyHost | ErrResolve | ErrParseURL | ErrNoHost | ErrGitURL | ErrAddress

record guard_env =
  optOut :: string
  lookupIP :: "string \<Rightarrow> IP list option"
  urlHostname :: "string \<Rightarrow> string option"

definition AllowPrivateTargets :: "guard_env \<Rightarrow> bool" where
  "AllowPrivateTargets e = (trim_space (optOut e) = ''1'')"

section \<open>Addresses\<close>

definition mustCIDR :: "IP \<Rightarrow> nat \<Rightarrow> IPNet" where
  "mustCIDR ip ones = (map2 (\<lambda>b m. b AND m) ip (CIDRMask ones (length ip)), CIDRMask ones (length ip))"

definition nat64Prefix :: IPNet where
  "nat64Prefix = mustCIDR [0x00, 0x64, 0xFF, 0x9B, 0, 0, 0, 0, 0, 0, 0, 0, 0, 0, 0, 0] 96"

definition sixToFourPrefix :: IPNet where
  "sixToFourPrefix = mustCIDR [0x20, 0x02, 0, 0, 0, 0, 0, 0, 0, 0, 0, 0, 0, 0, 0, 0] 16"

definition reservedRanges :: "IPNet list" where
  "reservedRanges =
     [mustCIDR [100, 64, 0, 0] 10,
      mustCIDR [192, 0, 0, 0] 24,
      mustCIDR [198, 18, 0, 0] 15,
      mustCIDR [240, 0, 0, 0] 4,
      mustCIDR [0x01, 0, 0, 0, 0, 0, 0, 0, 0, 0, 0, 0, 0, 0, 0, 0] 64]"

definition unwrapEmbeddedIPv4 :: "IP \<Rightarrow> IP" where
  "unwrapEmbeddedIPv4 ip =
     (case To4 ip of
        Some v4 \<Rightarrow> v4
      | None \<Rightarrow>
          (case To16 ip of
             Some v16 \<Rightarrow>
               if IPNet_Contains nat64Prefix v16 then [v16 ! 12, v16 ! 13, v16 ! 14, v16 ! 15]
               else if IPNet_Contains sixToFourPrefix v16 then [v16 ! 2, v16 ! 3, v16 ! 4, v16 ! 5]
               else ip
           | None \<Rightarrow> ip))"

text \<open>The nil address is the empty slice.\<close>

definition blocked :: "IP \<Rightarrow> bool" where
  "blocked ip =
     (if ip = [] then True
      else let ip = unwrapEmbeddedIPv4 ip in
        if IsLoopback ip \<or> IsUnspecified ip \<or> IsPrivate ip \<or> IsLinkLocalUnicast ip \<or>
           IsLinkLocalMulticast ip \<or> IsInterfaceLocalMulticast ip \<or> IsMulticast ip then True
        else list_ex (\<lambda>network. IPNet_Contains network ip) reservedRanges)"

section \<open>Hosts\<close>

definition CheckHost :: "guard_env \<Rightarrow> string \<Rightarrow> guard_error option" where
  "CheckHost e host =
     (if AllowPrivateTargets e then None
      else let host = trim_space host in
        if host = [] then Some ErrEmptyHost
        else case ParseIP (trim host ''[]'') of
            Some ip \<Rightarrow> if blocked ip then Some ErrBlockedTarget else None
          | None \<Rightarrow>
              (case lookupIP e host of
                 None \<Rightarrow> Some ErrResolve
               | Some ips \<Rightarrow> if list_ex blocked ips then Some ErrBlockedTarget else None))"

definition ResolveAllowed :: "guard_env \<Rightarrow> string \<Rightarrow> guard_error + string" where
  "ResolveAllowed e host =
     (let host = trim_space host in
      if host = [] then Inl ErrEmptyHost
      else if AllowPrivateTargets e then Inr host
      else case ParseIP (trim host ''[]'') of
          Some ip \<Rightarrow> if blocked ip then Inl ErrBlockedTarget else Inr (IP_String ip)
        | None \<Rightarrow>
            (case lookupIP e host of
               None \<Rightarrow> Inl ErrResolve
             | Some ips \<Rightarrow>
                 if list_ex blocked ips then Inl ErrBlockedTarget
                 else if ips = [] then Inl ErrBlockedTarget
                 else Inr (IP_String (hd ips))))"

definition gitHost :: "guard_env \<Rightarrow> string \<Rightarrow> guard_error + string" where
  "gitHost e raw =
     (let raw = trim_space raw in
      if has_prefix raw ''https://'' \<or> has_prefix raw ''ssh://'' then
        (case urlHostname e raw of
           None \<Rightarrow> Inl ErrParseURL
         | Some h \<Rightarrow> if h = [] then Inl ErrNoHost else Inr h)
      else
        let rest = (case last_index CHR ''@'' raw of None \<Rightarrow> raw | Some at \<Rightarrow> drop (at + 1) raw)
        in case index_byte CHR '':'' rest of
            None \<Rightarrow> Inl ErrGitURL
          | Some colon \<Rightarrow> if colon = 0 then Inl ErrGitURL else Inr (take colon rest))"

definition CheckGitURL :: "guard_env \<Rightarrow> string \<Rightarrow> guard_error option" where
  "CheckGitURL e raw =
     (if AllowPrivateTargets e then None
      else case gitHost e raw of Inl err \<Rightarrow> Some err | Inr host \<Rightarrow> CheckHost e host)"

definition DialControl :: "guard_env \<Rightarrow> string \<Rightarrow> guard_error option" where
  "DialControl e address =
     (if AllowPrivateTargets e then None
      else case SplitHostPort address of
          None \<Rightarrow> Some ErrAddress
        | Some (host, port) \<Rightarrow>
            (case ParseIP host of
               None \<Rightarrow> Some ErrBlockedTarget
             | Some ip \<Rightarrow> if blocked ip then Some ErrBlockedTarget else None))"

section \<open>What is refused\<close>

text \<open>A fact about every byte, from its 256 instances.\<close>

lemma every_byte:
  assumes "list_all (\<lambda>i. P (word_of_int i)) [0..255]"
  shows "\<forall>b :: 8 word. P b"
proof
  fix b :: "8 word"
  have "0 \<le> uint b \<and> uint b \<le> 255" using uint_lt2p [of b] by simp
  then have "P (word_of_int (uint b))" using assms by (simp only: list_all_iff set_upto atLeastAtMost_iff Ball_def)
  then show "P b" by simp
qed

lemma every_byte_masks:
  "\<forall>b :: 8 word. b AND 255 = b"
  "\<forall>b :: 8 word. (b AND 0xF0 = 16) = (16 \<le> b \<and> b \<le> 31)"
  "\<forall>b :: 8 word. (b AND 0xF0 = 0xE0) = (224 \<le> b \<and> b \<le> 239)"
  "\<forall>b :: 8 word. (64 = b AND 0xC0) = (64 \<le> b \<and> b \<le> 127)"
  "\<forall>b :: 8 word. (18 = b AND 0xFE) = (18 \<le> b \<and> b \<le> 19)"
  "\<forall>b :: 8 word. (240 = b AND 0xF0) = (240 \<le> b)"
  "\<forall>b :: 8 word. (224 \<le> b \<and> b \<le> 239 \<or> 240 \<le> b) = (224 \<le> b)"
  by (rule every_byte, code_simp)+

lemmas byte_masks = every_byte_masks [THEN spec]

lemma reserved_networks:
  "reservedRanges =
     [([100, 64, 0, 0], [255, 192, 0, 0]), ([192, 0, 0, 0], [255, 255, 255, 0]),
      ([198, 18, 0, 0], [255, 254, 0, 0]), ([240, 0, 0, 0], [240, 0, 0, 0]),
      (1 # replicate 15 0, replicate 8 255 @ replicate 8 0)]"
  by code_simp

lemma nat64_network:
  "nat64Prefix = ([0, 0x64, 0xFF, 0x9B, 0, 0, 0, 0, 0, 0, 0, 0, 0, 0, 0, 0], 
     [255, 255, 255, 255, 255, 255, 255, 255, 255, 255, 255, 255, 0, 0, 0, 0])"
  by code_simp

lemma sixToFour_network: "sixToFourPrefix = ([0x20, 0x02, 0, 0, 0, 0, 0, 0, 0, 0, 0, 0, 0, 0, 0, 0],
     [255, 255, 0, 0, 0, 0, 0, 0, 0, 0, 0, 0, 0, 0, 0, 0])"
  by code_simp

lemma To4_four [simp]: "To4 [a, b, c, d] = Some [a, b, c, d]"
  by (simp add: To4_def)

lemma unspecified6: "IPv6unspecified = [0, 0, 0, 0, 0, 0, 0, 0, 0, 0, 0, 0, 0, 0, 0, 0]"
  by code_simp

lemma unwrap_four: "unwrapEmbeddedIPv4 [a, b, c, d] = [a, b, c, d]"
  by (simp add: unwrapEmbeddedIPv4_def)

lemma unspecified_four: "IsUnspecified [a, b, c, d] \<longleftrightarrow> a = 0 \<and> b = 0 \<and> c = 0 \<and> d = 0"
  by (auto simp: IsUnspecified_def IP_Equal_def IPv4zero_def mapped_prefix unspecified6)

text \<open>
  What the guard refuses among IPv4 addresses is exactly loopback, the unspecified address, the three
  private ranges, link-local, shared address space, the IETF protocol block, benchmarking, and all from
  multicast up: as intervals of bytes, with no address at either end of a range left out.
\<close>
theorem blocked_ranges:
  "blocked [a, b, c, d] \<longleftrightarrow>
     a = 127 \<or> a = 0 \<and> b = 0 \<and> c = 0 \<and> d = 0 \<or>
     a = 10 \<or> a = 172 \<and> 16 \<le> b \<and> b \<le> 31 \<or> a = 192 \<and> b = 168 \<or>
     a = 169 \<and> b = 254 \<or> a = 100 \<and> 64 \<le> b \<and> b \<le> 127 \<or>
     a = 192 \<and> b = 0 \<and> c = 0 \<or> a = 198 \<and> 18 \<le> b \<and> b \<le> 19 \<or> 224 \<le> a"
proof -
  have "blocked [a, b, c, d] \<longleftrightarrow>
      a = 127 \<or> (a = 0 \<and> b = 0 \<and> c = 0 \<and> d = 0) \<or>
      (a = 10 \<or> a = 172 \<and> 16 \<le> b \<and> b \<le> 31 \<or> a = 192 \<and> b = 168) \<or> (a = 169 \<and> b = 254) \<or>
      (a = 224 \<and> b = 0 \<and> c = 0) \<or> (224 \<le> a \<and> a \<le> 239) \<or>
      (a = 100 \<and> 64 \<le> b \<and> b \<le> 127) \<or> (a = 192 \<and> b = 0 \<and> c = 0) \<or>
      (a = 198 \<and> 18 \<le> b \<and> b \<le> 19) \<or> 240 \<le> a"
    unfolding blocked_def Let_def unwrap_four reserved_networks IsLoopback_def unspecified_four IsPrivate_def
        IsLinkLocalUnicast_def IsLinkLocalMulticast_def IsInterfaceLocalMulticast_def IsMulticast_def
        IPNet_Contains_def To4_four
    by (simp add: byte_masks eq_commute [of _ a] eq_commute [of _ b] eq_commute [of _ c]) argo
  moreover have "(a = 224 \<and> b = 0 \<and> c = 0) \<or> (224 \<le> a \<and> a \<le> 239) \<or> 240 \<le> a \<longleftrightarrow> 224 \<le> a"
    using every_byte_masks(7) [THEN spec, of a] by auto
  ultimately show ?thesis by argo
qed

lemma blocked_unwrap:
  "unwrapEmbeddedIPv4 ip = [a, b, c, d] \<Longrightarrow> ip \<noteq> [] \<Longrightarrow> blocked ip = blocked [a, b, c, d]"
  by (simp add: blocked_def unwrap_four)

lemma blocked_mapped: "blocked (v4InV6Prefix @ [a, b, c, d]) = blocked [a, b, c, d]"
  by (rule blocked_unwrap) (simp_all add: unwrapEmbeddedIPv4_def To4_def mapped_prefix)

text \<open>
  An IPv6 address that carries an IPv4 destination is judged as that destination: the mapped form,
  the NAT64 form and the 6to4 form of an address are refused exactly when the address is.
\<close>
theorem embedded_judged_as_destination:
  "blocked ([0, 0, 0, 0, 0, 0, 0, 0, 0, 0, 0xFF, 0xFF, a, b, c, d]) = blocked [a, b, c, d] \<and>
   blocked ([0, 0x64, 0xFF, 0x9B, 0, 0, 0, 0, 0, 0, 0, 0, a, b, c, d]) = blocked [a, b, c, d] \<and>
   blocked ([0x20, 0x02, a, b, c, d, s, s', i1, i2, i3, i4, i5, i6, i7, i8]) = blocked [a, b, c, d]"
proof (intro conjI)
  show "blocked ([0, 0, 0, 0, 0, 0, 0, 0, 0, 0, 0xFF, 0xFF, a, b, c, d]) = blocked [a, b, c, d]"
    using blocked_mapped [of a b c d] by (simp add: mapped_prefix)
  show "blocked ([0, 0x64, 0xFF, 0x9B, 0, 0, 0, 0, 0, 0, 0, 0, a, b, c, d]) = blocked [a, b, c, d]"
    by (rule blocked_unwrap)
       (simp_all add: unwrapEmbeddedIPv4_def To4_def To16_def mapped_prefix IPNet_Contains_def nat64_network byte_masks)
  show "blocked ([0x20, 0x02, a, b, c, d, s, s', i1, i2, i3, i4, i5, i6, i7, i8]) = blocked [a, b, c, d]"
    by (rule blocked_unwrap)
       (simp_all add: unwrapEmbeddedIPv4_def To4_def To16_def mapped_prefix IPNet_Contains_def nat64_network
        sixToFour_network byte_masks)
qed

section \<open>What a caller connects to\<close>

lemma blocked_canonical: "length ip = 4 \<or> length ip = 16 \<Longrightarrow> blocked (canonical16 ip) = blocked ip"
  using list_four [of ip] blocked_mapped by (auto simp: canonical16_def To16_def)

text \<open>The documented contract of the resolver: it answers addresses of 4 or 16 bytes.\<close>

definition lookup_law :: "guard_env \<Rightarrow> bool" where
  "lookup_law e = (\<forall>h ips. lookupIP e h = Some ips \<longrightarrow> list_all (\<lambda>ip. length ip = 4 \<or> length ip = 16) ips)"

lemma ResolveAllowed_address:
  assumes "lookup_law e" and "\<not> AllowPrivateTargets e" and "ResolveAllowed e host = Inr address"
  shows "\<exists>ip. ParseIP address = Some ip \<and> \<not> blocked ip"
proof -
  let ?h = "trim_space host"
  have ne: "?h \<noteq> []" using assms(3) by (auto simp: ResolveAllowed_def Let_def)
  show ?thesis
  proof (cases "ParseIP (trim ?h ''[]'')")
    case (Some ip)
    then have "\<not> blocked ip" "address = IP_String ip" using assms ne
      by (auto simp: ResolveAllowed_def Let_def split: if_splits)
    then show ?thesis using ParseIP_String [of ip] blocked_canonical [of ip] ParseIP_length [OF Some] by auto
  next
    case None
    then obtain ips where l: "lookupIP e ?h = Some ips" "\<not> list_ex blocked ips" "ips \<noteq> []" "address = IP_String (hd ips)"
      using assms ne by (auto simp: ResolveAllowed_def Let_def split: if_splits option.splits)
    then have h: "\<not> blocked (hd ips)" "length (hd ips) = 4 \<or> length (hd ips) = 16"
      using assms(1) by (auto simp: list_ex_iff lookup_law_def list_all_iff)
    then show ?thesis using ParseIP_String [of "hd ips"] blocked_canonical [of "hd ips"] l(4) by auto
  qed
qed

text \<open>
  C24. What a caller is told to connect to is an address the guard has vetted: it is the text of an address,
  reading it back gives an address that is not refused, and when the host was a name the resolver was
  asked for, every one of its answers was acceptable, not only the one handed out.
\<close>
theorem ResolveAllowed_vetted:
  assumes "lookup_law e" and "\<not> AllowPrivateTargets e" and "ResolveAllowed e host = Inr address"
  shows "(\<exists>ip. ParseIP address = Some ip \<and> \<not> blocked ip) \<and> CheckHost e host = None \<and>
    (ParseIP (trim (trim_space host) ''[]'') = None \<longrightarrow>
      (\<exists>ips. lookupIP e (trim_space host) = Some ips \<and> list_all (\<lambda>ip. \<not> blocked ip) ips \<and> address = IP_String (hd ips)))"
proof -
  have "CheckHost e host = None"
    using assms by (auto simp: CheckHost_def ResolveAllowed_def Let_def split: if_splits option.splits)
  moreover have "ParseIP (trim (trim_space host) ''[]'') = None \<longrightarrow>
      (\<exists>ips. lookupIP e (trim_space host) = Some ips \<and> list_all (\<lambda>ip. \<not> blocked ip) ips \<and> address = IP_String (hd ips))"
    using assms by (auto simp: ResolveAllowed_def Let_def list_ex_iff list_all_iff split: if_splits option.splits)
  ultimately show ?thesis using ResolveAllowed_address [OF assms] by blast
qed

definition sample_guard :: guard_env where
  "sample_guard = \<lparr>optOut = [],
     lookupIP = (\<lambda>h. if h = ''a.co'' then Some [[9, 9, 9, 9]] else if h = ''b.co'' then Some [[9, 9, 9, 9], [10, 0, 0, 5]] else None),
     urlHostname = (\<lambda>u. if u = ''https://a.co/x'' then Some ''a.co'' else None)\<rparr>"

lemma sample_guard_law: "lookup_law sample_guard" "\<not> AllowPrivateTargets sample_guard"
proof -
  show "lookup_law sample_guard" by (simp add: lookup_law_def sample_guard_def)
  have "trim_space [] \<noteq> ''1''" by code_simp
  then show "\<not> AllowPrivateTargets sample_guard" by (simp add: AllowPrivateTargets_def sample_guard_def)
qed

lemma sample_guard_hosts:
  "ResolveAllowed sample_guard ''a.co'' = Inr ''9.9.9.9''" "CheckHost sample_guard ''a.co'' = None"
  "CheckHost sample_guard ''b.co'' = Some ErrBlockedTarget"
proof -
  have t: "trim_space ''a.co'' = ''a.co''" "trim_space ''b.co'' = ''b.co''" by code_simp+
  have p: "ParseIP (trim ''a.co'' ''[]'') = None" "ParseIP (trim ''b.co'' ''[]'') = None" by code_simp+
  have b: "\<not> blocked [9, 9, 9, 9]" "blocked [10, 0, 0, 5]" by code_simp+
  have s: "IP_String [9, 9, 9, 9] = ''9.9.9.9''" by code_simp
  have l: "lookupIP sample_guard ''a.co'' = Some [[9, 9, 9, 9]]"
    "lookupIP sample_guard ''b.co'' = Some [[9, 9, 9, 9], [10, 0, 0, 5]]" by (simp_all add: sample_guard_def)
  show "ResolveAllowed sample_guard ''a.co'' = Inr ''9.9.9.9''"
    by (simp add: ResolveAllowed_def Let_def t p l b s sample_guard_law)
  show "CheckHost sample_guard ''a.co'' = None" "CheckHost sample_guard ''b.co'' = Some ErrBlockedTarget"
    by (simp_all add: CheckHost_def Let_def t p l b sample_guard_law)
qed

theorem ResolveAllowed_vetted_witness:
  "\<exists>ip. ParseIP ''9.9.9.9'' = Some ip \<and> \<not> blocked ip"
  using ResolveAllowed_vetted [OF sample_guard_law sample_guard_hosts(1)] by blast

text \<open>
  The host vetted for an scp-like remote is the one behind the last at-sign, wherever that stands:
  a remote whose path holds an at-sign is vetted by what follows it, so the host that the remote names,
  between its user and the first colon, is never looked at.
\<close>
theorem gitHost_behind_last_at:
  assumes "\<not> ascii_space z" and "byte z < 128" and "CHR ''@'' \<notin> set (decoy @ CHR '':'' # q @ [z])"
    and "CHR '':'' \<notin> set decoy" and "decoy \<noteq> []"
  shows "gitHost e (''git@'' @ host @ '':'' @ path @ ''@'' @ decoy @ '':'' @ q @ [z]) = Inr decoy"
proof -
  let ?raw = "''git@'' @ host @ '':'' @ path @ ''@'' @ decoy @ '':'' @ q @ [z]"
  have "trim_space (CHR ''g'' # (''it@'' @ host @ '':'' @ path @ ''@'' @ decoy @ '':'' @ q) @ [z]) =
      CHR ''g'' # (''it@'' @ host @ '':'' @ path @ ''@'' @ decoy @ '':'' @ q) @ [z]"
    by (rule trim_space_plain_ends) (use assms in \<open>simp_all add: byte_def ascii_space_def byte_in_def\<close>)
  then have t: "trim_space ?raw = ?raw" by simp
  let ?a = "''git@'' @ host @ '':'' @ path"
  have "last_index CHR ''@'' (?a @ CHR ''@'' # (decoy @ '':'' @ q @ [z])) = Some (length ?a)"
    by (rule index_of_last) (use assms in simp)
  then have i: "last_index CHR ''@'' ?raw = Some (length ?a)" by simp
  have d: "drop (length ?a + 1) ?raw = decoy @ '':'' @ q @ [z]" by simp
  have c: "takeWhile (\<lambda>c. c \<noteq> CHR '':'') (decoy @ '':'' @ q @ [z]) = decoy"
    using assms(4) by (subst takeWhile_append2) auto
  show ?thesis
    unfolding gitHost_def t Let_def i using d c assms(5)
    by (simp add: has_prefix_def index_byte_def)
qed

theorem gitHost_behind_last_at_witness:
  "gitHost sample_guard ''git@10.0.0.5:r@a.co:x'' = Inr ''a.co'' \<and> CheckGitURL sample_guard ''git@10.0.0.5:r@a.co:x'' = None \<and>
   CheckHost sample_guard ''10.0.0.5'' = Some ErrBlockedTarget"
proof -
  have "gitHost sample_guard ''git@10.0.0.5:r@a.co:x'' = Inr ''a.co''"
    using gitHost_behind_last_at [of "CHR ''x''" "''a.co''" "[]" sample_guard "''10.0.0.5''" "''r''"]
    by (simp add: ascii_space_def byte_in_def byte_def)
  moreover have "CheckHost sample_guard ''10.0.0.5'' = Some ErrBlockedTarget"
  proof -
    have "trim_space ''10.0.0.5'' = ''10.0.0.5''" "map_option blocked (ParseIP (trim ''10.0.0.5'' ''[]'')) = Some True"
      by code_simp+
    then show ?thesis by (auto simp: CheckHost_def Let_def sample_guard_law)
  qed
  moreover have "CheckGitURL sample_guard ''git@10.0.0.5:r@a.co:x'' = CheckHost sample_guard ''a.co''"
    using calculation(1) by (simp add: CheckGitURL_def sample_guard_law)
  ultimately show ?thesis using sample_guard_hosts(2) by simp
qed

end
