(* ===== verification/GitRemote.thy ===== *)
theory GitRemote
  imports NetGuard GoPath
begin

text \<open>
  Fetching a customer's repository (internal/git/git.go): what a remote, a branch and a target directory
  must look like, the address git is pinned to, and the clone, as the commands it runs. \<open>net/url\<close>, the
  file operations below the tenant's home and the git processes are arguments.
\<close>

datatype git_error =
  HostNotPermitted guard_error | InvalidRepoURL | InvalidBranch | InvalidTarget |
  ClearFailed | TargetUnsafe | NoCredentials | GitFailed

section \<open>What a request may name\<close>

definition name_char :: "char \<Rightarrow> bool" where
  "name_char c = (byte_in 65 90 c \<or> byte_in 97 122 c \<or> byte_in 48 57 c \<or> c \<in> set ''_./-'')"

definition targetDirPattern :: "string \<Rightarrow> bool" where
  "targetDirPattern s = (s \<noteq> [] \<and> list_all name_char s)"

definition branchPattern :: "string \<Rightarrow> bool" where
  "branchPattern s = (s \<noteq> [] \<and> list_all name_char s)"

definition validTargetDir :: "string \<Rightarrow> bool" where
  "validTargetDir t =
     (t \<noteq> [] \<and> t = trim_space t \<and> length t \<le> 128 \<and> \<not> path_IsAbs t \<and> path_Clean t \<noteq> ''.'' \<and>
      \<not> contains t ''..'' \<and> targetDirPattern t)"

definition validBranch :: "string \<Rightarrow> bool" where
  "validBranch b =
     (b \<noteq> [] \<and> b = trim_space b \<and> length b \<le> 128 \<and> \<not> has_prefix b ''-'' \<and> \<not> contains b ''..'' \<and> branchPattern b)"

definition forbidden_in_url :: string where
  "forbidden_in_url =
     '' '' @ [CHR 9, CHR 13, CHR 10] @ '';&|`$(){}[]<>'' @ [CHR 0x5C] @ [CHR 0x22] @ [CHR 0x27]"

definition validRepoURL :: "string \<Rightarrow> bool" where
  "validRepoURL u =
     (if u \<noteq> trim_space u \<or> length u = 0 \<or> length u > 2048 then False
      else if \<not> has_prefix u ''https://'' \<and> \<not> has_prefix u ''ssh://'' \<and> \<not> has_prefix u ''git@'' then False
      else list_all (\<lambda>c. c \<notin> set forbidden_in_url) u)"

record connectRequest =
  RepoURL :: string
  Branch :: string
  TargetDir :: string

definition acceptedRepository :: "guard_env \<Rightarrow> connectRequest \<Rightarrow> git_error + connectRequest" where
  "acceptedRepository e req =
     (let req = req\<lparr>RepoURL := trim_space (RepoURL req), Branch := trim_space (Branch req),
                    TargetDir := trim_space (TargetDir req)\<rparr>;
          req = (if Branch req = [] then req\<lparr>Branch := ''main''\<rparr> else req);
          req = (if TargetDir req = [] then req\<lparr>TargetDir := ''public_html''\<rparr> else req)
      in if \<not> validRepoURL (RepoURL req) then Inl InvalidRepoURL
         else case CheckGitURL e (RepoURL req) of
             Some err \<Rightarrow> Inl (HostNotPermitted err)
           | None \<Rightarrow>
               if \<not> validBranch (Branch req) then Inl InvalidBranch
               else if \<not> validTargetDir (TargetDir req) then Inl InvalidTarget
               else Inr req)"

section \<open>The address git connects to\<close>

text \<open>\<open>urlPort\<close> is the port of a URL, empty when it names none.\<close>

definition gitResolveArgs :: "guard_env \<Rightarrow> (string \<Rightarrow> string) \<Rightarrow> string \<Rightarrow> git_error + string list" where
  "gitResolveArgs e urlPort u =
     (case CheckGitURL e u of
        Some err \<Rightarrow> Inl (HostNotPermitted err)
      | None \<Rightarrow>
          if \<not> has_prefix u ''https://'' then Inr []
          else case urlHostname e u of
              None \<Rightarrow> Inl InvalidRepoURL
            | Some h \<Rightarrow>
                if h = [] then Inl InvalidRepoURL
                else if ParseIP h \<noteq> None then Inr []
                else case ResolveAllowed e h of
                    Inl err \<Rightarrow> Inl (HostNotPermitted err)
                  | Inr address \<Rightarrow>
                      let port = (if urlPort u = [] then ''443'' else urlPort u);
                          bracketed = (if contains address '':'' then ''['' @ address @ '']'' else address)
                      in Inr [''-c'', ''http.curloptResolve='' @ h @ '':'' @ port @ '':'' @ bracketed])"

section \<open>Clone and pull\<close>

text \<open>What the machine answers: the file operations, the credentials, the git processes.\<close>

record git_env =
  clears :: "string \<Rightarrow> bool"
  makesDir :: "string \<Rightarrow> bool"
  isDir :: "string \<Rightarrow> bool"
  hasRepo :: "string \<Rightarrow> bool"
  authEnv :: "string list option"
  runGit :: "string list \<Rightarrow> string \<times> bool"

text \<open>The commit, the log and the error of a run, and what it did on the way.\<close>

datatype git_action = Cleared string | MadeDir string | Ran "string list"

type_synonym git_result = "(git_error option \<times> string \<times> string) \<times> git_action list"

definition filepath_Join :: "string \<Rightarrow> string \<Rightarrow> string" where
  "filepath_Join a b = path_Clean (join ''/'' (filter (\<lambda>p. p \<noteq> []) [a, b]))"

definition gitClone :: "guard_env \<Rightarrow> (string \<Rightarrow> string) \<Rightarrow> git_env \<Rightarrow> string \<Rightarrow> string \<Rightarrow> string \<Rightarrow> string \<Rightarrow> git_result" where
  "gitClone e urlPort m systemUser repoURL branch targetDir =
     (let fail = (\<lambda>err log acts. ((Some err, [], log), acts)) in
      if \<not> validRepoURL repoURL then fail InvalidRepoURL [] []
      else case gitResolveArgs e urlPort repoURL of
          Inl err \<Rightarrow> fail err [] []
        | Inr resolveArgs \<Rightarrow>
            if \<not> validBranch branch then fail InvalidBranch [] []
            else if \<not> validTargetDir targetDir then fail InvalidTarget [] []
            else
              let home = ''/home/'' @ systemUser;
                  dst = filepath_Join home targetDir
              in if \<not> clears m dst then fail ClearFailed [] [Cleared dst]
                 else if \<not> makesDir m dst then fail TargetUnsafe [] [Cleared dst, MadeDir dst]
                 else if authEnv m = None then fail NoCredentials [] [Cleared dst, MadeDir dst]
                 else
                   let argv = resolveArgs @ [''clone'', ''--depth'', ''1'', ''--branch'', branch, ''--'', repoURL, dst];
                       acts = [Cleared dst, MadeDir dst, Ran argv]
                   in (case runGit m argv of
                         (out, False) \<Rightarrow> fail GitFailed out acts
                       | (out, True) \<Rightarrow>
                           let rev = [''-C'', dst, ''rev-parse'', ''HEAD'']
                           in ((None, trim_space (fst (runGit m rev)), out), acts @ [Ran rev])))"

definition pullPreconditions :: "guard_env \<Rightarrow> (string \<Rightarrow> string) \<Rightarrow> string \<Rightarrow> string \<Rightarrow> string \<Rightarrow> git_error + string list" where
  "pullPreconditions e urlPort repoURL targetDir branch =
     (if \<not> validTargetDir targetDir then Inl InvalidTarget
      else if \<not> validBranch branch then Inl InvalidBranch
      else if \<not> validRepoURL repoURL then Inl InvalidRepoURL
      else gitResolveArgs e urlPort repoURL)"

definition gitPull :: "guard_env \<Rightarrow> (string \<Rightarrow> string) \<Rightarrow> git_env \<Rightarrow> string \<Rightarrow> string \<Rightarrow> string \<Rightarrow> string \<Rightarrow> git_result" where
  "gitPull e urlPort m systemUser repoURL targetDir branch =
     (let fail = (\<lambda>err log acts. ((Some err, [], log), acts)) in
      case pullPreconditions e urlPort repoURL targetDir branch of
        Inl err \<Rightarrow> fail err [] []
      | Inr resolveArgs \<Rightarrow>
          let home = filepath_Join ''/home'' systemUser;
              dst = filepath_Join home targetDir
          in if \<not> isDir m dst then fail TargetUnsafe [] []
             else if \<not> hasRepo m dst then fail TargetUnsafe [] []
             else if authEnv m = None then fail NoCredentials [] []
             else
               let fetch = [''-C'', dst] @ resolveArgs @ [''fetch'', ''origin'', branch];
                   reset = [''-C'', dst, ''reset'', ''--hard'', ''origin/'' @ branch];
                   rev = [''-C'', dst, ''rev-parse'', ''HEAD'']
               in (case runGit m fetch of
                     (out, False) \<Rightarrow> fail GitFailed out [Ran fetch]
                   | (out, True) \<Rightarrow>
                       (case runGit m reset of
                          (out2, False) \<Rightarrow> fail GitFailed (out @ out2) [Ran fetch, Ran reset]
                        | (out2, True) \<Rightarrow>
                            ((None, trim_space (fst (runGit m rev)), out @ out2), [Ran fetch, Ran reset, Ran rev]))))"

section \<open>Where a repository lands\<close>

definition tenant_user :: "string \<Rightarrow> bool" where
  "tenant_user u = (plain_component u \<and> CHR ''/'' \<notin> set u)"

lemma no_dotdot_component:
  assumes "\<not> contains t ''..''"
  shows "''..'' \<notin> set (split_on CHR ''/'' t)"
proof
  assume "''..'' \<in> set (split_on CHR ''/'' t)"
  then have "contains (join ''/'' (split_on CHR ''/'' t)) ''..''"
    by (rule contains_member) (simp add: contains_iff exI [of _ "[]"])
  then show False using assms by (simp add: join_split_on)
qed

lemma clean_relative:
  assumes "\<not> path_IsAbs t" and "''..'' \<notin> set (split_on CHR ''/'' t)" and "path_Clean t \<noteq> ''.''"
  shows "filter plain_component (split_on CHR ''/'' t) \<noteq> []"
  using assms by (auto simp: path_Clean_def Let_def clean_elems_no_dotdot)

lemma join_slash: "xs \<noteq> [] \<Longrightarrow> join ''/'' (x # xs) = x @ ''/'' @ join ''/'' xs"
  by (cases xs) simp_all

lemma target_below_home:
  assumes "tenant_user u" and "validTargetDir t"
  shows "\<exists>cs. cs \<noteq> [] \<and> list_all plain_component cs \<and>
    filepath_Join (''/home/'' @ u) t = ''/home/'' @ u @ ''/'' @ join ''/'' cs"
proof -
  let ?cs = "filter plain_component (split_on CHR ''/'' t)"
  have t: "t \<noteq> []" "\<not> path_IsAbs t" "path_Clean t \<noteq> ''.''" "''..'' \<notin> set (split_on CHR ''/'' t)"
    using assms(2) no_dotdot_component by (auto simp: validTargetDir_def)
  have u: "plain_component u" "CHR ''/'' \<notin> set u" using assms(1) by (auto simp: tenant_user_def)
  have ne: "?cs \<noteq> []" by (rule clean_relative) (use t in simp_all)
  have p: "join ''/'' (filter (\<lambda>p. p \<noteq> []) [''/home/'' @ u, t]) = ''/home/'' @ u @ CHR ''/'' # t"
    using t(1) by simp
  have split: "split_on CHR ''/'' (''/home/'' @ u @ CHR ''/'' # t) = [[], ''home'', u] @ split_on CHR ''/'' t"
    using split_on_first [of "CHR ''/''" u t] u(2) by simp
  have nd: "''..'' \<notin> set (split_on CHR ''/'' (''/home/'' @ u @ CHR ''/'' # t))"
    unfolding split using t(4) u(1) by (auto simp: plain_component_def)
  have cs: "clean_elems True [] (split_on CHR ''/'' (''/home/'' @ u @ CHR ''/'' # t)) = ''home'' # u # ?cs"
    using clean_elems_no_dotdot [OF nd, of True "[]"] u(1) unfolding split by (simp add: plain_component_def)
  have "path_IsAbs (''/home/'' @ u @ CHR ''/'' # t)" by (simp add: path_IsAbs_def has_prefix_def)
  then have "filepath_Join (''/home/'' @ u) t = ''/'' @ join ''/'' (''home'' # u # ?cs)"
    unfolding filepath_Join_def p path_Clean_def Let_def using cs by simp
  then have "filepath_Join (''/home/'' @ u) t = ''/home/'' @ u @ ''/'' @ join ''/'' ?cs"
    using ne by (simp add: join_slash)
  then show ?thesis using ne by (intro exI [of _ ?cs]) (auto simp: list_all_iff)
qed

lemma gitResolveArgs_head:
  "gitResolveArgs e p u = Inr args \<Longrightarrow> args = [] \<or> (\<exists>pin. args = [''-c'', pin])"
  by (auto simp: gitResolveArgs_def Let_def split: option.splits if_splits sum.splits)


definition sample_machine :: git_env where
  "sample_machine = \<lparr>clears = (\<lambda>d. True), makesDir = (\<lambda>d. True), isDir = (\<lambda>d. True), hasRepo = (\<lambda>d. True),
     authEnv = Some [], runGit = (\<lambda>argv. (''c0ffee'', True))\<rparr>"

lemma sample_scp:
  "validRepoURL ''git@a.co:x''" "validRepoURL ''git@a.co:y''"
  "gitResolveArgs sample_guard p ''git@a.co:x'' = Inr []" "gitResolveArgs sample_guard p ''git@a.co:y'' = Inr []"
proof -
  show "validRepoURL ''git@a.co:x''" "validRepoURL ''git@a.co:y''" by code_simp+
  have h: "gitHost sample_guard ''git@a.co:x'' = Inr ''a.co''" "gitHost sample_guard ''git@a.co:y'' = Inr ''a.co''"
    by code_simp+
  show "gitResolveArgs sample_guard p ''git@a.co:x'' = Inr []" "gitResolveArgs sample_guard p ''git@a.co:y'' = Inr []"
    by (simp_all add: gitResolveArgs_def CheckGitURL_def h sample_guard_law sample_guard_hosts has_prefix_def)
qed

lemma sample_names: "validBranch ''dev''" "validTargetDir ''w/x''" "tenant_user ''c_ann''"
  by code_simp+


section \<open>The pinned address and the fetched remote\<close>

text \<open>
  The pin of an HTTPS remote maps its host to a vetted address and nothing else: git connects to the
  port the URL names, or 443, at an address whose text reads back as one the guard does not refuse.
\<close>
theorem pinned_address_vetted:
  assumes "lookup_law e" and "\<not> AllowPrivateTargets e" and "gitResolveArgs e p u = Inr [flag, pin]"
  shows "\<exists>h address ip. urlHostname e u = Some h \<and> ParseIP h = None \<and> ParseIP address = Some ip \<and> \<not> blocked ip \<and>
    pin = ''http.curloptResolve='' @ h @ '':'' @ (if p u = [] then ''443'' else p u) @ '':'' @
      (if contains address '':'' then ''['' @ address @ '']'' else address)"
proof -
  obtain h address where h: "urlHostname e u = Some h" "ParseIP h = None" "ResolveAllowed e h = Inr address"
    and pin: "pin = ''http.curloptResolve='' @ h @ '':'' @ (if p u = [] then ''443'' else p u) @ '':'' @
      (if contains address '':'' then ''['' @ address @ '']'' else address)"
    using assms(3) by (auto simp: gitResolveArgs_def Let_def split: option.splits if_splits sum.splits)
  then show ?thesis using ResolveAllowed_address [OF assms(1,2) h(3)] by blast
qed

theorem pinned_address_vetted_witness:
  "\<exists>ip. ParseIP ''9.9.9.9'' = Some ip \<and> \<not> blocked ip \<and>
     gitResolveArgs sample_guard (\<lambda>u. []) ''https://a.co/x'' = Inr [''-c'', ''http.curloptResolve=a.co:443:9.9.9.9'']"
proof -
  have h: "gitHost sample_guard ''https://a.co/x'' = Inr ''a.co''"
  proof -
    have "trim_space ''https://a.co/x'' = ''https://a.co/x''" by code_simp
    then show ?thesis by (simp add: gitHost_def has_prefix_def sample_guard_def)
  qed
  have u: "urlHostname sample_guard ''https://a.co/x'' = Some ''a.co''" by (simp add: sample_guard_def)
  have n: "ParseIP ''a.co'' = None" "\<not> contains ''9.9.9.9'' '':''" by code_simp+
  have run: "gitResolveArgs sample_guard (\<lambda>u. []) ''https://a.co/x'' = Inr [''-c'', ''http.curloptResolve=a.co:443:9.9.9.9'']"
    by (simp add: gitResolveArgs_def CheckGitURL_def h u n sample_guard_law sample_guard_hosts has_prefix_def)
  obtain address ip where a: "ParseIP address = Some ip" "\<not> blocked ip"
    and pin: "''http.curloptResolve=a.co:443:9.9.9.9'' = ''http.curloptResolve='' @ ''a.co'' @ '':443:'' @
      (if contains address '':'' then ''['' @ address @ '']'' else address)"
    using pinned_address_vetted [OF sample_guard_law run] u by auto
  have "address = ''9.9.9.9''" using pin by (simp split: if_splits)
  then show ?thesis using a run by blast
qed

text \<open>
  A pull does not fetch the remote it vets: whatever remote the stored row names, as long as it is
  accepted with the same pin, the commands and the result are the same, because git is told to fetch
  \<open>origin\<close> of the working copy, whose configuration the tenant owns.
\<close>
theorem gitPull_fetches_origin:
  assumes "validRepoURL url" and "validRepoURL url'" and "gitResolveArgs e p url = gitResolveArgs e p url'"
  shows "gitPull e p m u url t b = gitPull e p m u url' t b \<and>
    list_all (\<lambda>a. \<forall>argv. a = Ran argv \<longrightarrow> ''origin'' \<in> set argv \<or> ''reset'' \<in> set argv \<or> ''rev-parse'' \<in> set argv)
      (snd (gitPull e p m u url t b))"
proof
  show "gitPull e p m u url t b = gitPull e p m u url' t b"
    using assms by (simp add: gitPull_def pullPreconditions_def)
  show "list_all (\<lambda>a. \<forall>argv. a = Ran argv \<longrightarrow> ''origin'' \<in> set argv \<or> ''reset'' \<in> set argv \<or> ''rev-parse'' \<in> set argv)
      (snd (gitPull e p m u url t b))"
    by (auto simp: gitPull_def Let_def split: sum.split prod.split bool.split)
qed

theorem gitPull_fetches_origin_witness:
  "gitPull sample_guard (\<lambda>u. []) sample_machine ''c_ann'' ''git@a.co:x'' ''w/x'' ''dev'' =
   gitPull sample_guard (\<lambda>u. []) sample_machine ''c_ann'' ''git@a.co:y'' ''w/x'' ''dev''"
proof -
  have "gitResolveArgs sample_guard (\<lambda>u. []) ''git@a.co:x'' = gitResolveArgs sample_guard (\<lambda>u. []) ''git@a.co:y''"
    by (simp add: sample_scp)
  from gitPull_fetches_origin [OF sample_scp(1,2) this] show ?thesis by blast
qed

end
