(* ===== verification/GitWebhook.thy ===== *)
theory GitWebhook
  imports GitRemote Credentials
begin

text \<open>
  The repository connections of the panel and their push webhook (internal/git/git.go,
  internal/git/webhooksecret.go, with the two tables of src/migrations/0009_git.sql, 0060, 0136 and
  0144). The digest functions, the cipher, the database's collation and its choice among several rows
  of a \<open>LIMIT 1\<close> are arguments, as is whether the database runs in strict mode.
\<close>

section \<open>The tables\<close>

record git_row =
  gr_id :: int
  gr_domain :: int
  gr_url :: string
  gr_branch :: string
  gr_target :: string
  gr_key_pub :: string
  gr_secret :: string
  gr_hash :: string
  gr_signing :: string
  gr_status :: string
  gr_commit :: string

record git_db =
  repos :: "git_row list"
  next_id :: int
  deliveries :: "(string \<times> int \<times> time) list"

text \<open>The widths of the columns, which strict mode refuses to exceed and other modes cut to.\<close>

definition row_fits :: "git_row \<Rightarrow> bool" where
  "row_fits r =
     (length (gr_url r) \<le> 512 \<and> length (gr_branch r) \<le> 64 \<and> length (gr_target r) \<le> 255 \<and>
      length (gr_secret r) \<le> 64 \<and> length (gr_hash r) \<le> 64 \<and> length (gr_signing r) \<le> 64)"

definition cut_row :: "git_row \<Rightarrow> git_row" where
  "cut_row r = r\<lparr>gr_url := take 512 (gr_url r), gr_branch := take 64 (gr_branch r), gr_target := take 255 (gr_target r),
     gr_secret := take 64 (gr_secret r), gr_hash := take 64 (gr_hash r), gr_signing := take 64 (gr_signing r)\<rparr>"

text \<open>\<open>INSERT ... ON DUPLICATE KEY UPDATE\<close>: the one unique key besides the id is \<open>webhook_secret\<close>.\<close>

definition insert_repo :: "bool \<Rightarrow> git_row \<Rightarrow> git_db \<Rightarrow> (int \<times> git_db) option" where
  "insert_repo strict row db =
     (if strict \<and> \<not> row_fits row then None
      else let row = cut_row row in
        case find (\<lambda>r. gr_secret r = gr_secret row) (repos db) of
          Some old \<Rightarrow> Some (gr_id old, db\<lparr>repos := map (\<lambda>r. if gr_id r = gr_id old
              then r\<lparr>gr_url := gr_url row, gr_branch := gr_branch row, gr_target := gr_target row, gr_key_pub := gr_key_pub row\<rparr>
              else r) (repos db)\<rparr>)
        | None \<Rightarrow> Some (next_id db, db\<lparr>repos := repos db @ [row\<lparr>gr_id := next_id db\<rparr>], next_id := next_id db + 1\<rparr>))"

section \<open>The environment\<close>

record web_env =
  sha256hex :: "string \<Rightarrow> string"
  hmacHex :: "string \<Rightarrow> string \<Rightarrow> string"
  gcmOf :: "aead option"
  strictMode :: bool
  collate :: "string \<Rightarrow> string"
  pick :: "git_row list \<Rightarrow> git_row option"
  systemUserOf :: "int \<Rightarrow> string option"
  reads :: bool
  writes :: bool
  deployKeyFor :: "string \<Rightarrow> string option"

text \<open>\<open>LIMIT 1\<close> answers one of the rows, whichever, and none only where there is none.\<close>

definition pick_law :: "web_env \<Rightarrow> bool" where
  "pick_law w = (\<forall>rows. (rows = [] \<longrightarrow> pick w rows = None) \<and>
     (rows \<noteq> [] \<longrightarrow> (\<exists>r. pick w rows = Some r \<and> r \<in> set rows)))"

lemma pick_member:
  assumes "pick_law w" and "pick w rows = Some r"
  shows "r \<in> set rows"
  using assms(1) [unfolded pick_law_def, THEN spec, of rows] assms(2) by (cases "rows = []") auto

definition WebhookSecretHash :: "web_env \<Rightarrow> string \<Rightarrow> string" where
  "WebhookSecretHash w token = sha256hex w token"

definition webhookSecretAAD :: "int \<Rightarrow> string" where
  "webhookSecretAAD domainID = ''git-webhook:'' @ itoa domainID"

definition SealWebhookSecret :: "web_env \<Rightarrow> string option \<Rightarrow> string \<Rightarrow> int \<Rightarrow> secret_error + string" where
  "SealWebhookSecret w nonce token domainID = EncryptWith (gcmOf w) nonce token (webhookSecretAAD domainID)"

definition OpenWebhookSecret :: "web_env \<Rightarrow> string \<Rightarrow> int \<Rightarrow> secret_error + string" where
  "OpenWebhookSecret w stored domainID = DecryptWith (gcmOf w) stored (webhookSecretAAD domainID)"

definition StoredWebhookToken :: "web_env \<Rightarrow> git_db \<Rightarrow> int \<Rightarrow> string" where
  "StoredWebhookToken w db domainID =
     (if \<not> reads w then []
      else case pick w (filter (\<lambda>r. gr_domain r = domainID) (repos db)) of
          None \<Rightarrow> []
        | Some r \<Rightarrow>
            if gr_secret r = [] then []
            else case OpenWebhookSecret w (gr_secret r) domainID of Inl e \<Rightarrow> [] | Inr t \<Rightarrow> t)"

section \<open>The webhook\<close>

record delivery_request =
  dq_token :: string
  dq_body :: "string option"
  dq_sig :: string
  dq_event :: string
  dq_delivery :: string

definition validGitHubSignature :: "web_env \<Rightarrow> string \<Rightarrow> string \<Rightarrow> string \<Rightarrow> bool" where
  "validGitHubSignature w key body sig = (sig = ''sha256='' @ hmacHex w key body)"

text \<open>The refusal's status, \<open>None\<close> for a request that is signed. A body that cannot be read is \<open>None\<close>.\<close>

definition signedByTheRemote :: "web_env \<Rightarrow> delivery_request \<Rightarrow> string \<Rightarrow> int option" where
  "signedByTheRemote w q signingKey =
     (if signingKey = [] then Some 503
      else case dq_body q of
          None \<Rightarrow> Some 400
        | Some body \<Rightarrow>
            if dq_sig q = [] then Some 401
            else if \<not> validGitHubSignature w signingKey body (dq_sig q) then Some 401 else None)"

definition replay_window :: duration where "replay_window = 30 * 24 * hour"

definition firstDelivery :: "web_env \<Rightarrow> time \<Rightarrow> string \<Rightarrow> int \<Rightarrow> git_db \<Rightarrow> int option \<times> git_db" where
  "firstDelivery w now delivery gid db =
     (if delivery = [] \<or> 128 < length delivery then (Some 400, db)
      else if \<not> writes w then (Some 500, db)
      else if list_ex (\<lambda>(d, g, t). collate w d = collate w delivery) (deliveries db) then (Some 409, db)
      else (None, db\<lparr>deliveries := filter (\<lambda>(d, g, t). \<not> t < now - replay_window) (deliveries db @ [(delivery, gid, now)])\<rparr>))"

text \<open>What a best-effort \<open>UPDATE git_repos SET last_sync=NOW(), last_commit=?, last_status=? WHERE id=?\<close> does.\<close>

definition set_sync :: "web_env \<Rightarrow> int \<Rightarrow> string \<Rightarrow> string \<Rightarrow> git_db \<Rightarrow> git_db" where
  "set_sync w gid sha status db =
     (if \<not> writes w then db
      else db\<lparr>repos := map (\<lambda>r. if gr_id r = gid then r\<lparr>gr_commit := sha, gr_status := status\<rparr> else r) (repos db)\<rparr>)"

text \<open>A pull is a function of the tenant, the remote, the directory and the branch; \<open>None\<close> is a failure.\<close>

type_synonym pull = "string \<Rightarrow> string \<Rightarrow> string \<Rightarrow> string \<Rightarrow> string option"

definition Webhook :: "web_env \<Rightarrow> pull \<Rightarrow> time \<Rightarrow> delivery_request \<Rightarrow> git_db \<Rightarrow> int \<times> git_db" where
  "Webhook w pull now q db =
     (if length (dq_token q) < 16 then (400, db)
      else if \<not> reads w then (500, db)
      else case pick w (filter (\<lambda>r. gr_hash r = WebhookSecretHash w (dq_token q) \<and> systemUserOf w (gr_domain r) \<noteq> None) (repos db)) of
          None \<Rightarrow> (404, db)
        | Some r \<Rightarrow>
            (case signedByTheRemote w q (gr_signing r) of
               Some refusal \<Rightarrow> (refusal, db)
             | None \<Rightarrow>
                 let event = trim_space (dq_event q); delivery = trim_space (dq_delivery q) in
                 (case firstDelivery w now delivery (gr_id r) db of
                    (Some refusal, db) \<Rightarrow> (refusal, db)
                  | (None, db) \<Rightarrow>
                      if event = ''ping'' then (200, db)
                      else if event \<noteq> ''push'' then (400, db)
                      else (case pull (the (systemUserOf w (gr_domain r))) (gr_url r) (gr_target r) (gr_branch r) of
                          Some sha \<Rightarrow> (200, set_sync w (gr_id r) sha ''successful'' db)
                        | None \<Rightarrow>
                            let db = set_sync w (gr_id r) [] ''error-webhook'' db
                            in (500, db\<lparr>deliveries := filter (\<lambda>(d, g, t). collate w d \<noteq> collate w delivery) (deliveries db)\<rparr>)))))"

section \<open>The other handlers\<close>

text \<open>\<open>scan\<close>: what a row answers over the API. \<open>redact\<close> is \<open>redactURLCredentials\<close>, \<open>net/url\<close> at work.\<close>

definition scan_row :: "web_env \<Rightarrow> (string \<Rightarrow> string) \<Rightarrow> git_row \<Rightarrow> git_row" where
  "scan_row w redact r =
     (let r = r\<lparr>gr_url := redact (gr_url r)\<rparr> in
      case OpenWebhookSecret w (gr_secret r) (gr_domain r) of
        Inr t \<Rightarrow> r\<lparr>gr_secret := t\<rparr> | Inl e \<Rightarrow> r\<lparr>gr_secret := []\<rparr>)"

definition git_Get :: "web_env \<Rightarrow> (string \<Rightarrow> string) \<Rightarrow> int \<Rightarrow> git_db \<Rightarrow> int \<times> git_row option" where
  "git_Get w redact domainID db =
     (if \<not> reads w then (500, None)
      else (200, map_option (scan_row w redact) (pick w (filter (\<lambda>r. gr_domain r = domainID) (repos db)))))"

text \<open>The two runs behind \<open>Clone\<close> and \<open>Pull\<close>.\<close>

definition clone_run :: "guard_env \<Rightarrow> (string \<Rightarrow> string) \<Rightarrow> git_env \<Rightarrow> pull" where
  "clone_run e p m u url t b = (case fst (gitClone e p m u url b t) of (None, sha, log) \<Rightarrow> Some sha | (Some err, _) \<Rightarrow> None)"

definition pull_run :: "guard_env \<Rightarrow> (string \<Rightarrow> string) \<Rightarrow> git_env \<Rightarrow> pull" where
  "pull_run e p m u url t b = (case fst (gitPull e p m u url t b) of (None, sha, log) \<Rightarrow> Some sha | (Some err, _) \<Rightarrow> None)"

text \<open>
  \<open>Connect\<close>: \<open>token\<close> and \<open>signingKey\<close> are what \<open>randomHex\<close> drew, \<open>nonce\<close> what the cipher drew, \<open>body\<close>
  the decoded request.
\<close>

definition git_Connect :: "web_env \<Rightarrow> guard_env \<Rightarrow> (string \<Rightarrow> string) \<Rightarrow> string \<Rightarrow> string \<Rightarrow> string option \<Rightarrow>
    int \<Rightarrow> connectRequest option \<Rightarrow> git_db \<Rightarrow> (int \<times> git_row option) \<times> git_db" where
  "git_Connect w e redact token signingKey nonce domainID body db =
     (if \<not> reads w then ((500, None), db)
      else case systemUserOf w domainID of
          None \<Rightarrow> ((404, None), db)
        | Some systemUser \<Rightarrow>
            (case body of
               None \<Rightarrow> ((400, None), db)
             | Some req \<Rightarrow>
                 (case acceptedRepository e req of
                    Inl err \<Rightarrow> ((400, None), db)
                  | Inr req \<Rightarrow>
                      (case deployKeyFor w systemUser of
                         None \<Rightarrow> ((500, None), db)
                       | Some pub \<Rightarrow>
                           (case SealWebhookSecret w nonce token domainID of
                              Inl err \<Rightarrow> ((500, None), db)
                            | Inr sealed \<Rightarrow>
                                let row = \<lparr>gr_id = 0, gr_domain = domainID, gr_url = RepoURL req, gr_branch = Branch req,
                                      gr_target = TargetDir req, gr_key_pub = pub, gr_secret = sealed,
                                      gr_hash = WebhookSecretHash w token, gr_signing = signingKey,
                                      gr_status = ''pending'', gr_commit = []\<rparr>
                                in if \<not> writes w then ((500, None), db)
                                   else case insert_repo (strictMode w) row db of
                                       None \<Rightarrow> ((500, None), db)
                                     | Some (gid, db') \<Rightarrow>
                                         ((201, map_option (scan_row w redact) (find (\<lambda>r. gr_id r = gid) (repos db'))), db'))))))"

text \<open>\<open>Clone\<close> and \<open>Pull\<close> share their shape; an error other than a missing row leaves the fields empty.\<close>

definition git_sync :: "web_env \<Rightarrow> pull \<Rightarrow> int \<Rightarrow> git_db \<Rightarrow> int \<times> git_db" where
  "git_sync w run domainID db =
     (case systemUserOf w domainID of
        None \<Rightarrow> (403, db)
      | Some systemUser \<Rightarrow>
          if \<not> reads w then (403, db)
          else case pick w (filter (\<lambda>r. gr_domain r = domainID) (repos db)) of
              None \<Rightarrow> (400, db)
            | Some r \<Rightarrow>
                (case run systemUser (gr_url r) (gr_target r) (gr_branch r) of
                   None \<Rightarrow> (500, set_sync w (gr_id r) [] ''error'' db)
                 | Some sha \<Rightarrow> (200, set_sync w (gr_id r) sha ''successful'' db)))"

definition git_Delete :: "web_env \<Rightarrow> int \<Rightarrow> git_db \<Rightarrow> int \<times> git_db" where
  "git_Delete w domainID db =
     (if \<not> writes w then (500, db)
      else (200, db\<lparr>repos := filter (\<lambda>r. gr_domain r \<noteq> domainID) (repos db),
          deliveries := filter (\<lambda>(d, g, t). g \<notin> gr_id ` set (filter (\<lambda>r. gr_domain r = domainID) (repos db))) (deliveries db)\<rparr>))"

section \<open>When a pull runs\<close>

lemma firstDelivery_None:
  assumes "firstDelivery w now d gid db = (None, db')"
  shows "d \<noteq> []" and "length d \<le> 128" and "writes w"
    and "list_all (\<lambda>(d', g, t). collate w d' \<noteq> collate w d) (deliveries db)"
    and "repos db' = repos db" and "next_id db' = next_id db"
    and "deliveries db' = filter (\<lambda>(d, g, t). \<not> t < now - replay_window) (deliveries db @ [(d, gid, now)])"
  using assms by (auto simp: firstDelivery_def list_ex_iff list_all_iff split: if_splits)

lemma firstDelivery_Some: "firstDelivery w now d gid db = (Some c, db') \<Longrightarrow> db' = db \<and> c \<in> {400, 409, 500}"
  by (auto simp: firstDelivery_def split: if_splits)

definition webhook_row :: "web_env \<Rightarrow> delivery_request \<Rightarrow> git_db \<Rightarrow> git_row option" where
  "webhook_row w q db =
     pick w (filter (\<lambda>r. gr_hash r = WebhookSecretHash w (dq_token q) \<and> systemUserOf w (gr_domain r) \<noteq> None) (repos db))"

definition authentic :: "web_env \<Rightarrow> delivery_request \<Rightarrow> git_row \<Rightarrow> bool" where
  "authentic w q r = (gr_signing r \<noteq> [] \<and>
     (\<exists>body. dq_body q = Some body \<and> dq_sig q = ''sha256='' @ hmacHex w (gr_signing r) body))"

lemma signed_authentic: "signedByTheRemote w q (gr_signing r) = None \<Longrightarrow> authentic w q r"
  by (auto simp: signedByTheRemote_def authentic_def validGitHubSignature_def split: if_splits option.splits)

text \<open>A delivery is refused and changes nothing, or passes every check.\<close>

lemma Webhook_cases:
  obtains (refused) c where "Webhook w pull now q db = (c, db)" and "c \<in> {400, 401, 404, 409, 500, 503}"
      and "\<And>pull'. Webhook w pull' now q db = (c, db)"
  | (accepted) r db1 where "webhook_row w q db = Some r" and "authentic w q r"
      and "firstDelivery w now (trim_space (dq_delivery q)) (gr_id r) db = (None, db1)"
      and "\<And>pull'. Webhook w pull' now q db =
        (if trim_space (dq_event q) = ''ping'' then (200, db1)
         else if trim_space (dq_event q) \<noteq> ''push'' then (400, db1)
         else (case pull' (the (systemUserOf w (gr_domain r))) (gr_url r) (gr_target r) (gr_branch r) of
             Some sha \<Rightarrow> (200, set_sync w (gr_id r) sha ''successful'' db1)
           | None \<Rightarrow> let db2 = set_sync w (gr_id r) [] ''error-webhook'' db1 in
               (500, db2\<lparr>deliveries := filter (\<lambda>(d, g, t). collate w d \<noteq> collate w (trim_space (dq_delivery q))) (deliveries db2)\<rparr>)))"
      and "16 \<le> length (dq_token q)" and "reads w" and "signedByTheRemote w q (gr_signing r) = None"
proof (cases "length (dq_token q) < 16 \<or> \<not> reads w")
  case True
  then show ?thesis by (intro refused [of "if length (dq_token q) < 16 then 400 else 500"]) (auto simp: Webhook_def)
next
  case ok: False
  show ?thesis
  proof (cases "webhook_row w q db")
    case None
    then show ?thesis using ok by (intro refused [of 404]) (simp_all add: Webhook_def webhook_row_def)
  next
    case (Some r)
    show ?thesis
    proof (cases "signedByTheRemote w q (gr_signing r)")
      case c: (Some c)
      have "c \<in> {400, 401, 503}"
        using c by (auto simp: signedByTheRemote_def split: if_splits option.splits)
      then show ?thesis using ok Some c by (intro refused [of c]) (auto simp: Webhook_def webhook_row_def)
    next
      case s: None
      obtain a db1 where f: "firstDelivery w now (trim_space (dq_delivery q)) (gr_id r) db = (a, db1)" by fastforce
      show ?thesis
      proof (cases a)
        case (Some c)
        then show ?thesis using ok \<open>webhook_row w q db = Some r\<close> s f firstDelivery_Some [of w now _ _ db c db1]
          by (intro refused [of c]) (auto simp: Webhook_def webhook_row_def Let_def)
      next
        case None
        show ?thesis
        proof (rule accepted [OF \<open>webhook_row w q db = Some r\<close> signed_authentic [OF s] f [unfolded None]])
          show "Webhook w pull' now q db =
            (if trim_space (dq_event q) = ''ping'' then (200, db1)
             else if trim_space (dq_event q) \<noteq> ''push'' then (400, db1)
             else (case pull' (the (systemUserOf w (gr_domain r))) (gr_url r) (gr_target r) (gr_branch r) of
                 Some sha \<Rightarrow> (200, set_sync w (gr_id r) sha ''successful'' db1)
               | None \<Rightarrow> let db2 = set_sync w (gr_id r) [] ''error-webhook'' db1 in
                   (500, db2\<lparr>deliveries := filter (\<lambda>(d, g, t). collate w d \<noteq> collate w (trim_space (dq_delivery q))) (deliveries db2)\<rparr>)))"
            for pull'
            using ok \<open>webhook_row w q db = Some r\<close> s f None by (simp add: Webhook_def webhook_row_def Let_def)
        qed (use ok s in auto)
      qed
    qed
  qed
qed

text \<open>
  C26. A pull runs only for an authentic push: when the outcome of a delivery depends on the pull at all,
  the token names a stored repository with a signing key, the signature is that key's over the body, the
  event is a push and its delivery id is one that is not recorded yet.
\<close>
theorem Webhook_pull_authentic:
  assumes "pick_law w" and "Webhook w pull1 now q db \<noteq> Webhook w pull2 now q db"
  shows "\<exists>r \<in> set (repos db). gr_hash r = sha256hex w (dq_token q) \<and> gr_signing r \<noteq> [] \<and>
    (\<exists>body. dq_body q = Some body \<and> dq_sig q = ''sha256='' @ hmacHex w (gr_signing r) body) \<and>
    trim_space (dq_event q) = ''push'' \<and> trim_space (dq_delivery q) \<noteq> [] \<and>
    list_all (\<lambda>(d, g, t). collate w d \<noteq> collate w (trim_space (dq_delivery q))) (deliveries db)"
proof (cases rule: Webhook_cases [of w pull1 now q db])
  case (refused c)
  then show ?thesis using assms(2) by simp
next
  case (accepted r db1)
  let ?rows = "filter (\<lambda>r. gr_hash r = WebhookSecretHash w (dq_token q) \<and> systemUserOf w (gr_domain r) \<noteq> None) (repos db)"
  have p: "pick w ?rows = Some r" using accepted(1) by (simp add: webhook_row_def)
  then have "r \<in> set ?rows" by (rule pick_member [OF assms(1)])
  then have r: "r \<in> set (repos db)" "gr_hash r = sha256hex w (dq_token q)" by (auto simp: WebhookSecretHash_def)
  have e: "trim_space (dq_event q) = ''push''" using assms(2) accepted(4) by (auto split: if_splits)
  have s: "gr_signing r \<noteq> []" "\<exists>body. dq_body q = Some body \<and> dq_sig q = ''sha256='' @ hmacHex w (gr_signing r) body"
    using accepted(2) by (simp_all add: authentic_def)
  show ?thesis
    by (intro bexI [of _ r] conjI) (rule r s e firstDelivery_None(1,4) [OF accepted(3)])+
qed

section \<open>One pull for each delivery\<close>

text \<open>What can happen to the tables between two deliveries.\<close>

inductive git_step :: "web_env \<Rightarrow> time \<Rightarrow> git_db \<Rightarrow> git_db \<Rightarrow> bool" for w now where
  deliver: "Webhook w pull now q db = (c, db') \<Longrightarrow> git_step w now db db'"
| sync: "git_sync w run domainID db = (c, db') \<Longrightarrow> git_step w now db db'"
| connect: "git_Connect w e redact token key nonce domainID body db = (a, db') \<Longrightarrow> git_step w now db db'"

inductive_cases git_stepE: "git_step w now db db'"

inductive git_run :: "web_env \<Rightarrow> time \<Rightarrow> git_db \<Rightarrow> git_db \<Rightarrow> bool" for w "until" where
  here: "git_run w until db db"
| next_step: "git_run w until db db1 \<Longrightarrow> git_step w now db1 db2 \<Longrightarrow> now \<le> until \<Longrightarrow> git_run w until db db2"

definition recorded :: "web_env \<Rightarrow> string \<Rightarrow> time \<Rightarrow> git_db \<Rightarrow> bool" where
  "recorded w d t db = list_ex (\<lambda>(d', g, t'). collate w d' = collate w d \<and> t' = t) (deliveries db)"

lemma deliveries_set_sync [simp]: "deliveries (set_sync w gid sha st db) = deliveries db"
  by (simp add: set_sync_def)

lemma recorded_blocks:
  assumes "recorded w d t db" and "collate w d2 = collate w d"
  shows "firstDelivery w now d2 gid db \<noteq> (None, db')"
  using assms firstDelivery_None(4) [of w now d2 gid db db']
  by (fastforce simp: recorded_def list_ex_iff list_all_iff)

lemma insert_repo_deliveries: "insert_repo strict row db = Some (gid, db') \<Longrightarrow> deliveries db' = deliveries db"
  by (auto simp: insert_repo_def Let_def split: if_splits option.splits)

lemma recorded_step:
  assumes "git_step w now db db'" and "recorded w d t db" and "now \<le> t + replay_window"
  shows "recorded w d t db'"
  using assms(1)
proof (cases rule: git_step.cases)
  case (deliver pull q c)
  show ?thesis
  proof (cases rule: Webhook_cases [of w pull now q db])
    case (refused c)
    then show ?thesis using deliver assms(2) by simp
  next
    case (accepted r db1)
    let ?d = "trim_space (dq_delivery q)"
    have ne: "collate w ?d \<noteq> collate w d" using recorded_blocks [OF assms(2)] accepted(3) by blast
    have r1: "recorded w d t db1" using assms(2,3) firstDelivery_None(7) [OF accepted(3)]
      by (fastforce simp: recorded_def list_ex_iff)
    then have "recorded w d t (set_sync w (gr_id r) sha st db1)" for sha st by (simp add: recorded_def)
    moreover have "recorded w d t (db2\<lparr>deliveries := filter (\<lambda>(d, g, t). collate w d \<noteq> collate w ?d) (deliveries db1)\<rparr>)"
      for db2
      using r1 ne by (fastforce simp: recorded_def list_ex_iff)
    ultimately show ?thesis using accepted(4) [of pull] deliver r1
      by (auto simp: Let_def split: if_splits option.splits)
  qed
next
  case (sync run domainID c)
  then show ?thesis using assms(2)
    by (auto simp: git_sync_def recorded_def split: option.splits if_splits)
next
  case (connect e redact token key nonce domainID body a)
  then show ?thesis using assms(2) insert_repo_deliveries
    by (auto simp: git_Connect_def Let_def recorded_def split: option.splits if_splits sum.splits)
qed

lemma recorded_run:
  "git_run w until db db' \<Longrightarrow> recorded w d t db \<Longrightarrow> until \<le> t + replay_window \<Longrightarrow> recorded w d t db'"
  by (induction rule: git_run.induct) (auto intro: recorded_step)

lemma accepted_recorded:
  assumes "Webhook w pull now q db = (200, db')"
  shows "recorded w (trim_space (dq_delivery q)) now db'"
proof (cases rule: Webhook_cases [of w pull now q db])
  case (refused c)
  then show ?thesis using assms by auto
next
  case (accepted r db1)
  have "0 \<le> replay_window" by (simp add: replay_window_def time_units)
  then have "recorded w (trim_space (dq_delivery q)) now db1"
    using firstDelivery_None(7) [OF accepted(3)] by (auto simp: recorded_def list_ex_iff)
  then show ?thesis using accepted(4) [of pull] assms
    by (auto simp: Let_def recorded_def split: if_splits option.splits)
qed


definition sample_web :: web_env where
  "sample_web = \<lparr>sha256hex = (\<lambda>s. s), hmacHex = (\<lambda>k b. k @ b), gcmOf = None, strictMode = True, collate = (\<lambda>s. s),
     pick = (\<lambda>rows. case rows of [] \<Rightarrow> None | r # _ \<Rightarrow> Some r), systemUserOf = (\<lambda>d. Some ''c_a''),
     reads = True, writes = True, deployKeyFor = (\<lambda>u. Some ''k'')\<rparr>"

definition sample_row :: git_row where
  "sample_row = \<lparr>gr_id = 4, gr_domain = 7, gr_url = ''git@a.co:x'', gr_branch = ''dev'', gr_target = ''w'', gr_key_pub = [],
     gr_secret = ''s'', gr_hash = ''0123456789abcdef'', gr_signing = ''key'', gr_status = [], gr_commit = []\<rparr>"

definition sample_git :: git_db where
  "sample_git = \<lparr>repos = [sample_row], next_id = 5, deliveries = []\<rparr>"

definition sample_push :: "string \<Rightarrow> delivery_request" where
  "sample_push d = \<lparr>dq_token = ''0123456789abcdef'', dq_body = Some ''b'', dq_sig = ''sha256=keyb'', dq_event = ''push'', dq_delivery = d\<rparr>"

lemma sample_pick_law: "pick_law sample_web"
  by (auto simp: pick_law_def sample_web_def split: list.split)

lemma sample_trim: "trim_space ''push'' = ''push''" "trim_space ''d1'' = ''d1''" "trim_space ''d2'' = ''d2''"
  by code_simp+

lemmas sample_run = Webhook_def sample_web_def sample_git_def sample_row_def sample_push_def WebhookSecretHash_def
  signedByTheRemote_def validGitHubSignature_def firstDelivery_def set_sync_def sample_trim replay_window_def time_units

theorem Webhook_pull_authentic_witness:
  "\<exists>body. dq_sig (sample_push ''d1'') = ''sha256='' @ hmacHex sample_web (gr_signing sample_row) body"
proof -
  have "Webhook sample_web (\<lambda>u url t b. None) 0 (sample_push ''d1'') sample_git \<noteq>
      Webhook sample_web (\<lambda>u url t b. Some ''c'') 0 (sample_push ''d1'') sample_git"
    by (simp add: sample_run Let_def)
  from Webhook_pull_authentic [OF sample_pick_law this] show ?thesis
    by (auto simp: sample_git_def)
qed


text \<open>
  The delivery id is no part of what is signed: a request that was accepted once is accepted again
  and pulls again when it is resent with nothing changed but that id.
\<close>
theorem resent_with_other_id_pulls_again:
  assumes "repos db = [r]" and "pick_law w" and "Webhook w pull t q db = (200, db1)" and "trim_space (dq_event q) = ''push''"
    and "trim_space d \<noteq> []" and "length (trim_space d) \<le> 128"
    and "list_all (\<lambda>(d', g, t'). collate w d' \<noteq> collate w (trim_space d)) (deliveries db1)"
  shows "fst (Webhook w pull t' (q\<lparr>dq_delivery := d\<rparr>) db1) = 200 \<and>
    (\<forall>pull'. pull' (the (systemUserOf w (gr_domain r))) (gr_url r) (gr_target r) (gr_branch r) = None \<longrightarrow>
      fst (Webhook w pull' t' (q\<lparr>dq_delivery := d\<rparr>) db1) = 500)"
proof (cases rule: Webhook_cases [of w pull t q db])
  case (refused c)
  then show ?thesis using assms(3) by auto
next
  case (accepted s db2)
  have s: "s = r" "pick w [r] = Some r"
  proof -
    have "s \<in> set (filter (\<lambda>r. gr_hash r = WebhookSecretHash w (dq_token q) \<and> systemUserOf w (gr_domain r) \<noteq> None) (repos db))"
      using accepted(1) by (intro pick_member [OF assms(2)]) (simp add: webhook_row_def)
    then show "s = r" "pick w [r] = Some r" using accepted(1) assms(1) by (auto simp: webhook_row_def split: if_splits)
  qed
  obtain sha where pull: "pull (the (systemUserOf w (gr_domain r))) (gr_url r) (gr_target r) (gr_branch r) = Some sha"
    and db1: "db1 = set_sync w (gr_id r) sha ''successful'' db2"
    using accepted(4) [of pull] assms(3,4) s(1) by (auto simp: Let_def split: option.splits)
  let ?r = "r\<lparr>gr_commit := sha, gr_status := ''successful''\<rparr>"
  have w: "writes w" "repos db2 = [r]"
    using firstDelivery_None(3,5) [OF accepted(3)] assms(1) by auto
  then have r1: "repos db1 = [?r]" by (simp add: db1 set_sync_def)
  have row: "gr_hash r = WebhookSecretHash w (dq_token q)" "systemUserOf w (gr_domain r) \<noteq> None"
    using accepted(1) assms(1) s pick_member [OF assms(2)] by (fastforce simp: webhook_row_def split: if_splits)+
  have "pick w [?r] = Some ?r" using assms(2) [unfolded pick_law_def, THEN spec, of "[?r]"] by auto
  moreover have "\<not> list_ex (\<lambda>(d', g, t'). collate w d' = collate w (trim_space d)) (deliveries db1)"
    using assms(7) by (fastforce simp: list_ex_iff list_all_iff)
  then obtain db3 where "firstDelivery w t' (trim_space d) (gr_id ?r) db1 = (None, db3)"
    using assms(5,6) w(1) by (simp add: firstDelivery_def)
  moreover have "signedByTheRemote w (q\<lparr>dq_delivery := d\<rparr>) (gr_signing ?r) = None"
    using accepted(7) s(1) by (auto simp: signedByTheRemote_def split: if_splits option.splits)
  ultimately show ?thesis using r1 row accepted(5,6) assms(4) pull
    by (simp add: Webhook_def Let_def)
qed

theorem resent_with_other_id_pulls_again_witness:
  "fst (Webhook sample_web (\<lambda>u url t b. None) 9 (sample_push ''d2'') \<lparr>repos = [sample_row\<lparr>gr_commit := ''c'', gr_status := ''successful''\<rparr>],
     next_id = 5, deliveries = [(''d1'', 4, 0)]\<rparr>) = 500"
proof -
  have first: "Webhook sample_web (\<lambda>u url t b. Some ''c'') 0 (sample_push ''d1'') sample_git =
      (200, \<lparr>repos = [sample_row\<lparr>gr_commit := ''c'', gr_status := ''successful''\<rparr>], next_id = 5, deliveries = [(''d1'', 4, 0)]\<rparr>)"
    by (simp add: sample_run Let_def)
  have "repos sample_git = [sample_row]" by (simp add: sample_git_def)
  from resent_with_other_id_pulls_again [OF this sample_pick_law first, of "''d2''" 9] show ?thesis
    by (simp add: sample_push_def sample_trim sample_web_def)
qed

section \<open>Storing a connection\<close>

lemma length_b64_encode: "length (b64_encode s) = 4 * ((length s + 2) div 3)"
proof (induction s rule: b64_encode.induct)
  case (4 a b c s)
  have "(5 + length s) div 3 = Suc ((length s + 2) div 3)" by presburger
  then show ?case using 4 by simp
qed simp_all

lemma length_sealed:
  assumes "SealWebhookSecret w (Some nonce) token domainID = Inr sealed"
    and "gcmOf w = Some g" and "\<And>a. length (Seal g nonce token a) = length token + 16"
  shows "length sealed = 7 + 4 * ((length nonce + length token + 18) div 3)"
  using assms by (auto simp: SealWebhookSecret_def EncryptWith_def seal_prefix_def length_b64_encode add.assoc)

text \<open>
  No repository can be connected where the database is strict: the sealed form of a forty-character
  token takes 99 characters, the column that stores it holds 64, and so every request ends without a
  row and without success, whatever it asks for. AES-GCM, as documented, adds a nonce of 12 bytes and a
  tag of 16 to the token.
\<close>
theorem Connect_never_fits:
  assumes "strictMode w" and "gcmOf w = Some g" and "\<And>a. length (Seal g nonce token a) = length token + 16"
    and "length nonce = 12" and "length token = 40"
  shows "\<exists>c. git_Connect w e redact token key (Some nonce) domainID body db = ((c, None), db) \<and>
    (c = 500 \<or> c = 404 \<and> systemUserOf w domainID = None \<or>
     c = 400 \<and> (body = None \<or> (\<exists>req err. body = Some req \<and> acceptedRepository e req = Inl err)))"
proof -
  have "\<not> row_fits (row\<lparr>gr_secret := sealed\<rparr>)"
    if "SealWebhookSecret w (Some nonce) token domainID = Inr sealed" for sealed row
    using length_sealed [OF that assms(2,3)] assms(4,5) by (simp add: row_fits_def)
  then have "insert_repo (strictMode w) (row\<lparr>gr_secret := sealed\<rparr>) db = None"
    if "SealWebhookSecret w (Some nonce) token domainID = Inr sealed" for sealed row
    using that assms(1) by (simp add: insert_repo_def)
  then have "insert_repo (strictMode w) \<lparr>gr_id = i, gr_domain = dm, gr_url = u, gr_branch = b, gr_target = t,
      gr_key_pub = p, gr_secret = sealed, gr_hash = h, gr_signing = k, gr_status = st, gr_commit = c\<rparr> db = None"
    if "SealWebhookSecret w (Some nonce) token domainID = Inr sealed" for sealed i dm u b t p h k st c
    using that by (metis git_row.update_convs(7))
  then show ?thesis
    by (auto simp: git_Connect_def Let_def split: option.splits sum.splits)
qed

definition wide_aead :: aead where
  "wide_aead = \<lparr>NonceSize = 12, Seal = (\<lambda>n p a. p @ replicate 16 CHR ''t''),
     Open = (\<lambda>n c a. Some (take (length c - 16) c))\<rparr>"

theorem Connect_never_fits_witness:
  "fst (fst (git_Connect (sample_web\<lparr>gcmOf := Some wide_aead\<rparr>) sample_guard id (replicate 40 CHR ''7'') ''key''
     (Some (replicate 12 CHR ''n'')) 7 (Some \<lparr>RepoURL = ''git@a.co:x'', Branch = ''dev'', TargetDir = ''w/x''\<rparr>) sample_git)) = 500"
proof -
  let ?req = "\<lparr>RepoURL = ''git@a.co:x'', Branch = ''dev'', TargetDir = ''w/x''\<rparr>"
  let ?w = "sample_web\<lparr>gcmOf := Some wide_aead\<rparr>"
  have t: "trim_space ''git@a.co:x'' = ''git@a.co:x''" "trim_space ''dev'' = ''dev''" "trim_space ''w/x'' = ''w/x''" by code_simp+
  have "gitHost sample_guard ''git@a.co:x'' = Inr ''a.co''" by code_simp
  then have "CheckGitURL sample_guard ''git@a.co:x'' = None" by (simp add: CheckGitURL_def sample_guard_hosts)
  then have ok: "acceptedRepository sample_guard ?req = Inr ?req"
    by (simp add: acceptedRepository_def Let_def t sample_scp sample_names)
  have "\<exists>c. git_Connect ?w sample_guard id (replicate 40 CHR ''7'') ''key'' (Some (replicate 12 CHR ''n'')) 7 (Some ?req) sample_git =
      ((c, None), sample_git) \<and>
    (c = 500 \<or> c = 404 \<and> systemUserOf ?w 7 = None \<or>
     c = 400 \<and> (Some ?req = None \<or> (\<exists>req err. Some ?req = Some req \<and> acceptedRepository sample_guard req = Inl err)))"
    by (rule Connect_never_fits [of _ wide_aead]) (simp_all add: sample_web_def wide_aead_def)
  then show ?thesis using ok by (auto simp: sample_web_def)
qed

end
