(* ===== verification/Cron.thy ===== *)
theory Cron
  imports Encoding
begin

text \<open>
  The scheduled tasks of a domain (internal/cron/cron.go): the crontab is the only store of them, so
  every operation reads the tenant's crontab, changes the list of tasks and writes the file again. The
  reporter's path, HMAC-SHA256 and the installed PHP versions are arguments.
\<close>

section \<open>Tasks\<close>

datatype cron_error =
  ErrScheduleMissing | ErrCommandEmpty | ErrCommandLong | ErrScheduleCharacter | ErrCommandBreak | ErrMetaBreak |
  ErrURLEmpty | ErrURLScheme | ErrURLCharacter | ErrScriptEmpty | ErrScriptCharacter | ErrPHPMissing | ErrArgsCharacter

record cron_task =
  t_idx :: int
  t_minute :: string
  t_hour :: string
  t_day :: string
  t_month :: string
  t_week :: string
  t_command :: string
  t_comment :: string
  t_enabled :: bool
  t_type :: string
  t_php :: string
  t_notify :: string

definition maxTasks :: nat where "maxTasks = 100"
definition maxCommandLength :: nat where "maxCommandLength = 1024"
definition runOutputLimit :: nat where "runOutputLimit = 8192"
definition bannerLine :: string where
  "bannerLine = ''# servika cron: this file is managed by the panel; do not edit manually''"
definition metaPrefix :: string where "metaPrefix = ''servika-meta:''"
definition TypeCommand :: string where "TypeCommand = ''command''"
definition TypeURL :: string where "TypeURL = ''url''"
definition TypePHP :: string where "TypePHP = ''php''"
definition NotifyErrors :: string where "NotifyErrors = ''errors''"
definition NotifyAlways :: string where "NotifyAlways = ''always''"

record php_version =
  pv_version :: string
  pv_loaded :: bool
  pv_bin :: string

record cron_env =
  reporterPath :: string
  hmacSHA256 :: "string \<Rightarrow> string \<Rightarrow> string"
  secretKey :: string
  installedVersions :: "php_version list"

section \<open>Reading a crontab\<close>

type_synonym meta_map = "string \<rightharpoonup> string"

definition meta_get :: "meta_map \<Rightarrow> string \<Rightarrow> string" where
  "meta_get m k = (case m k of None \<Rightarrow> [] | Some v \<Rightarrow> v)"

definition index_of_char :: "char \<Rightarrow> string \<Rightarrow> nat option" where
  "index_of_char d s = (let n = length (takeWhile (\<lambda>c. c \<noteq> d) s) in if n = length s then None else Some n)"

definition parse_pair :: "string \<Rightarrow> meta_map \<Rightarrow> meta_map" where
  "parse_pair kv m =
     (case index_of_char CHR ''='' kv of
        Some i \<Rightarrow> if 0 < i then m(take i kv \<mapsto> drop (i + 1) kv) else m
      | None \<Rightarrow> m)"

definition parseMeta :: "string \<Rightarrow> meta_map" where
  "parseMeta s = fold parse_pair (GoText.fields s) Map.empty"

definition schedule_char :: "char \<Rightarrow> bool" where
  "schedule_char c = (byte_in 48 57 c \<or> c \<in> set ''*,-/'')"

definition looksCron :: "string \<Rightarrow> bool" where
  "looksCron s = (let fs = GoText.fields s in if length fs < 6 then False else list_all schedule_char (hd fs))"

definition applyMeta :: "cron_task \<Rightarrow> meta_map \<Rightarrow> cron_task" where
  "applyMeta t m =
     (let t = (if meta_get m ''type'' \<noteq> [] then t\<lparr>t_type := meta_get m ''type''\<rparr> else t);
          t = t\<lparr>t_php := meta_get m ''php_version'', t_notify := meta_get m ''notify''\<rparr>;
          t = (if meta_get m ''enabled'' = ''0'' then t\<lparr>t_enabled := False\<rparr> else t)
      in if meta_get m ''cmd'' \<noteq> [] then
           (case b64_decode (meta_get m ''cmd'') of Some raw \<Rightarrow> t\<lparr>t_command := raw\<rparr> | None \<Rightarrow> t)
         else t)"

record crontabReader =
  cr_out :: "cron_task list"
  cr_comment :: string
  cr_meta :: "meta_map option"
  cr_idx :: int

definition reader_add :: "crontabReader \<Rightarrow> string \<Rightarrow> bool \<Rightarrow> crontabReader" where
  "reader_add c l disabled =
     (let fs = GoText.fields l in
      if length fs < 6 then c
      else
        let t = \<lparr>t_idx = cr_idx c, t_minute = fs ! 0, t_hour = fs ! 1, t_day = fs ! 2, t_month = fs ! 3, t_week = fs ! 4,
                 t_command = join '' '' (drop 5 fs), t_comment = cr_comment c, t_enabled = (\<not> disabled),
                 t_type = TypeCommand, t_php = [], t_notify = []\<rparr>;
            t = (case cr_meta c of Some m \<Rightarrow> applyMeta t m | None \<Rightarrow> t)
        in \<lparr>cr_out = cr_out c @ [t], cr_comment = [], cr_meta = None, cr_idx = cr_idx c + 1\<rparr>)"

definition reader_comment :: "crontabReader \<Rightarrow> string \<Rightarrow> crontabReader" where
  "reader_comment c l =
     (if has_prefix l metaPrefix then c\<lparr>cr_meta := Some (parseMeta (trim_space (drop (length metaPrefix) l)))\<rparr>
      else if looksCron l then reader_add c l True
      else if \<not> has_prefix l ''servika'' then c\<lparr>cr_comment := l\<rparr> else c)"

definition reader_read :: "crontabReader \<Rightarrow> string \<Rightarrow> crontabReader" where
  "reader_read c l =
     (if l = [] then c\<lparr>cr_comment := [], cr_meta := None\<rparr>
      else if \<not> has_prefix l ''#'' then reader_add c l False
      else reader_comment c (trim_space (drop 1 l)))"

definition new_reader :: crontabReader where
  "new_reader = \<lparr>cr_out = [], cr_comment = [], cr_meta = None, cr_idx = 0\<rparr>"

text \<open>The tasks read, and whether the scanner ended with an error.\<close>

definition parseCrontab :: "string \<Rightarrow> cron_task list \<times> bool" where
  "parseCrontab content =
     (case scan_lines content of (ls, err) \<Rightarrow>
        (cr_out (foldl (\<lambda>c l. reader_read c (trim_space l)) new_reader ls), err))"

text \<open>A missing file has no tasks.\<close>

definition cron_read :: "string option \<Rightarrow> cron_task list \<times> bool" where
  "cron_read spool = (case spool of None \<Rightarrow> ([], False) | Some content \<Rightarrow> parseCrontab content)"

section \<open>Writing a crontab\<close>

definition notifies :: "cron_task \<Rightarrow> bool" where
  "notifies t = (t_notify t = NotifyErrors \<or> t_notify t = NotifyAlways)"

definition reportToken :: "cron_env \<Rightarrow> int \<Rightarrow> string" where
  "reportToken e domainID = hmacSHA256 e (secretKey e) (''cron:'' @ itoa domainID)"

definition flat_comment :: "string \<Rightarrow> string" where
  "flat_comment = map (\<lambda>c. if c = CHR 10 \<or> c = CHR 13 then CHR '' '' else c)"

definition taskLine :: "cron_env \<Rightarrow> int \<Rightarrow> cron_task \<Rightarrow> string list \<times> string" where
  "taskLine e domainID t =
     (let meta = (if t_type t \<noteq> [] \<and> t_type t \<noteq> TypeCommand then [''type='' @ t_type t] else []) @
          (if t_php t \<noteq> [] then [''php_version='' @ t_php t] else []) @
          (if notifies t then [''notify='' @ t_notify t] else []) @
          (if \<not> t_enabled t then [''enabled=0''] else []);
          b64 = b64_encode (t_command t)
      in if notifies t then (meta @ [''cmd='' @ b64],
           reporterPath e @ '' '' @ itoa domainID @ '' '' @ t_notify t @ '' '' @ reportToken e domainID @ '' '' @ b64)
         else (meta, t_command t))"

definition cron_line :: "cron_env \<Rightarrow> int \<Rightarrow> cron_task \<Rightarrow> string" where
  "cron_line e domainID t =
     (if t_enabled t then [] else ''#'') @
     t_minute t @ '' '' @ t_hour t @ '' '' @ t_day t @ '' '' @ t_month t @ '' '' @ t_week t @ '' '' @ snd (taskLine e domainID t)"

definition task_lines :: "cron_env \<Rightarrow> int \<Rightarrow> cron_task \<Rightarrow> string list" where
  "task_lines e domainID t =
     (case taskLine e domainID t of (meta, run) \<Rightarrow>
        (if meta \<noteq> [] then [''# '' @ metaPrefix @ '' '' @ join '' '' meta] else []) @
        (if t_comment t \<noteq> [] then [''# '' @ flat_comment (t_comment t)] else []) @
        [cron_line e domainID t])"

definition serializeCrontab :: "cron_env \<Rightarrow> string \<Rightarrow> int \<Rightarrow> cron_task list \<Rightarrow> string" where
  "serializeCrontab e systemUser domainID ts =
     concat (map (\<lambda>l. l @ [CHR 10])
       ([bannerLine, ''# last update: '' @ systemUser, []] @ concat (map (task_lines e domainID) ts)))"

section \<open>Accepting a task\<close>

definition has_break :: "string \<Rightarrow> bool" where
  "has_break s = (CHR 10 \<in> set s \<or> CHR 13 \<in> set s)"

definition schedule_fields :: "cron_task \<Rightarrow> string list" where
  "schedule_fields t = [t_minute t, t_hour t, t_day t, t_month t, t_week t]"

definition schedulePresent :: "cron_task \<Rightarrow> cron_error option" where
  "schedulePresent t = (if [] \<in> set (schedule_fields t) then Some ErrScheduleMissing else None)"

definition commandLength :: "string \<Rightarrow> cron_error option" where
  "commandLength c = (if c = [] then Some ErrCommandEmpty
     else if maxCommandLength < length c then Some ErrCommandLong else None)"

definition scheduleCharacters :: "cron_task \<Rightarrow> cron_error option" where
  "scheduleCharacters t =
     (if list_ex (\<lambda>f. list_ex (\<lambda>c. c \<in> set '';|&`'' \<or> c = CHR 10 \<or> c = CHR 13) f) (schedule_fields t)
      then Some ErrScheduleCharacter else None)"

definition cron_validate :: "cron_task \<Rightarrow> cron_error option" where
  "cron_validate t =
     (case schedulePresent t of
        Some err \<Rightarrow> Some err
      | None \<Rightarrow>
          (case commandLength (t_command t) of
             Some err \<Rightarrow> Some err
           | None \<Rightarrow>
               (case scheduleCharacters t of
                  Some err \<Rightarrow> Some err
                | None \<Rightarrow>
                    if has_break (t_command t) then Some ErrCommandBreak
                    else if list_ex has_break [t_type t, t_php t, t_notify t] then Some ErrMetaBreak
                    else None)))"

record taskInput =
  in_task :: cron_task
  in_url :: string
  in_script :: string
  in_args :: string

definition dangerousMeta :: string where
  "dangerousMeta = [CHR 0x27, CHR 10, CHR 13] @ ''`;|&<>$'' @ [CHR 0x22]"

definition dangerous :: "string \<Rightarrow> bool" where
  "dangerous s = list_ex (\<lambda>c. c \<in> set dangerousMeta) s"

definition phpBinFor :: "cron_env \<Rightarrow> string \<Rightarrow> string option" where
  "phpBinFor e version =
     map_option pv_bin (find (\<lambda>v. pv_version v = version \<and> pv_loaded v \<and> pv_bin v \<noteq> []) (installedVersions e))"

definition urlCommand :: "string \<Rightarrow> cron_error + string" where
  "urlCommand raw =
     (let u = trim_space raw in
      if u = [] then Inl ErrURLEmpty
      else if \<not> has_prefix u ''http://'' \<and> \<not> has_prefix u ''https://'' then Inl ErrURLScheme
      else if dangerous u then Inl ErrURLCharacter
      else Inr (''curl -fsS -o /dev/null --max-time 300 '' @ [CHR 0x27] @ u @ [CHR 0x27]))"

definition phpCommand :: "cron_env \<Rightarrow> taskInput \<Rightarrow> cron_error + string" where
  "phpCommand e i =
     (let s = trim_space (in_script i) in
      if s = [] then Inl ErrScriptEmpty
      else if dangerous s then Inl ErrScriptCharacter
      else case phpBinFor e (t_php (in_task i)) of
          None \<Rightarrow> Inl ErrPHPMissing
        | Some bin \<Rightarrow>
            let command = bin @ '' -q '' @ [CHR 0x27] @ s @ [CHR 0x27];
                args = trim_space (in_args i)
            in if args \<noteq> [] then
                 (if dangerous args then Inl ErrArgsCharacter else Inr (command @ '' '' @ args))
               else Inr command)"

definition buildCommand :: "cron_env \<Rightarrow> taskInput \<Rightarrow> cron_error + string" where
  "buildCommand e i =
     (if t_type (in_task i) = TypeURL then urlCommand (in_url i)
      else if t_type (in_task i) = TypePHP then phpCommand e i
      else Inr (t_command (in_task i)))"

definition prepare_task :: "cron_env \<Rightarrow> taskInput \<Rightarrow> cron_error + cron_task" where
  "prepare_task e i =
     (let t = in_task i;
          t = (if t_type t = [] then t\<lparr>t_type := TypeCommand\<rparr> else t)
      in case buildCommand e i of
           Inl err \<Rightarrow> Inl err
         | Inr command \<Rightarrow>
             let t = t\<lparr>t_command := command\<rparr>
             in (case cron_validate t of Some err \<Rightarrow> Inl err | None \<Rightarrow> Inr t))"

section \<open>The handlers\<close>

text \<open>
  What the request and the machine answer: the domain's user, or the status of the refusal; whether
  the temporary file and its renaming succeed, and the change of owner after it.
\<close>

record cron_call =
  c_lookup :: "int + string \<times> int"
  c_readable :: bool
  c_writes :: bool
  c_chown :: bool

definition cron_lookup :: "string option option \<Rightarrow> int \<Rightarrow> int + string \<times> int" where
  "cron_lookup row domainID =
     (case row of
        None \<Rightarrow> Inl 500
      | Some None \<Rightarrow> Inl 404
      | Some (Some systemUser) \<Rightarrow> if has_prefix systemUser ''c_'' then Inr (systemUser, domainID) else Inl 400)"

definition cron_tasks :: "cron_call \<Rightarrow> string option \<Rightarrow> cron_task list option" where
  "cron_tasks c spool =
     (if \<not> c_readable c then None
      else case cron_read spool of (ts, err) \<Rightarrow> if err then None else Some ts)"

definition cron_write :: "cron_env \<Rightarrow> cron_call \<Rightarrow> string \<Rightarrow> int \<Rightarrow> cron_task list \<Rightarrow> string option \<Rightarrow> bool \<times> string option" where
  "cron_write e c systemUser domainID ts spool =
     (if \<not> c_writes c then (False, spool)
      else (c_chown c, Some (serializeCrontab e systemUser domainID ts)))"

definition cron_Create :: "cron_env \<Rightarrow> cron_call \<Rightarrow> taskInput option \<Rightarrow> string option \<Rightarrow> int \<times> string option" where
  "cron_Create e c body spool =
     (case c_lookup c of
        Inl status \<Rightarrow> (status, spool)
      | Inr (systemUser, domainID) \<Rightarrow>
          (case body of
             None \<Rightarrow> (400, spool)
           | Some i \<Rightarrow>
               (case prepare_task e i of
                  Inl err \<Rightarrow> (400, spool)
                | Inr t \<Rightarrow>
                    (case cron_tasks c spool of
                       None \<Rightarrow> (500, spool)
                     | Some ts \<Rightarrow>
                         if maxTasks \<le> length ts then (400, spool)
                         else (case cron_write e c systemUser domainID (ts @ [t]) spool of
                             (ok, spool') \<Rightarrow> (if ok then 201 else 500, spool'))))))"

definition cron_Update :: "cron_env \<Rightarrow> cron_call \<Rightarrow> string \<Rightarrow> taskInput option \<Rightarrow> string option \<Rightarrow> int \<times> string option" where
  "cron_Update e c idx_param body spool =
     (case c_lookup c of
        Inl status \<Rightarrow> (status, spool)
      | Inr (systemUser, domainID) \<Rightarrow>
          (case body of
             None \<Rightarrow> (400, spool)
           | Some i \<Rightarrow>
               (case prepare_task e i of
                  Inl err \<Rightarrow> (400, spool)
                | Inr t \<Rightarrow>
                    (case cron_tasks c spool of
                       None \<Rightarrow> (500, spool)
                     | Some ts \<Rightarrow>
                         let idx = parse_int_lossy idx_param in
                         if idx < 0 \<or> int (length ts) \<le> idx then (404, spool)
                         else (case cron_write e c systemUser domainID (ts[nat idx := t]) spool of
                             (ok, spool') \<Rightarrow> (if ok then 200 else 500, spool'))))))"

definition cron_Delete :: "cron_env \<Rightarrow> cron_call \<Rightarrow> string \<Rightarrow> string option \<Rightarrow> int \<times> string option" where
  "cron_Delete e c idx_param spool =
     (case c_lookup c of
        Inl status \<Rightarrow> (status, spool)
      | Inr (systemUser, domainID) \<Rightarrow>
          (case cron_tasks c spool of
             None \<Rightarrow> (500, spool)
           | Some ts \<Rightarrow>
               let idx = parse_int_lossy idx_param in
               if idx < 0 \<or> int (length ts) \<le> idx then (404, spool)
               else (case cron_write e c systemUser domainID (take (nat idx) ts @ drop (nat idx + 1) ts) spool of
                   (ok, spool') \<Rightarrow> (if ok then 200 else 500, spool'))))"

definition cron_List :: "cron_env \<Rightarrow> cron_call \<Rightarrow> string option \<Rightarrow> int \<times> (cron_task list \<times> string list) option" where
  "cron_List e c spool =
     (case c_lookup c of
        Inl status \<Rightarrow> (status, None)
      | Inr _ \<Rightarrow>
          (case cron_tasks c spool of
             None \<Rightarrow> (500, None)
           | Some ts \<Rightarrow> (200, Some (ts, rev (remdups (rev (map pv_version (filter pv_loaded (installedVersions e)))))))))"

text \<open>A run by hand: what the shell answers is an argument.\<close>

definition cron_Run :: "cron_call \<Rightarrow> (string \<Rightarrow> string list \<Rightarrow> string \<times> bool) \<Rightarrow> string \<Rightarrow> string option \<Rightarrow> int \<times> (bool \<times> string \<times> string) option" where
  "cron_Run c shell idx_param spool =
     (case c_lookup c of
        Inl status \<Rightarrow> (status, None)
      | Inr (systemUser, domainID) \<Rightarrow>
          (case cron_tasks c spool of
             None \<Rightarrow> (500, None)
           | Some ts \<Rightarrow>
               let idx = parse_int_lossy idx_param in
               if idx < 0 \<or> int (length ts) \<le> idx then (404, None)
               else
                 let command = t_command (ts ! nat idx);
                     (out, ok) = shell ''runuser'' [''-u'', systemUser, ''--'', ''/bin/sh'', ''-c'', command];
                     out = (if runOutputLimit < length out
                       then ''...(truncated)'' @ [CHR 10] @ drop (length out - runOutputLimit) out else out)
                 in (200, Some (ok, out, command))))"

definition commandSnippet :: "string \<Rightarrow> string" where
  "commandSnippet command =
     (let command = trim_space command in if 80 < length command then take 80 command @ ''...'' else command)"

record cron_event =
  ev_key :: string
  ev_warning :: bool
  ev_message :: string
  ev_domain :: int

text \<open>\<open>Report\<close>: \<open>domain\<close> is the domain's name, \<open>None\<close> when the query fails.\<close>

definition cron_Report :: "cron_env \<Rightarrow> string \<Rightarrow> string \<Rightarrow> string \<Rightarrow> string \<Rightarrow> (int \<Rightarrow> string option option) \<Rightarrow> int \<times> cron_event option" where
  "cron_Report e domain_id token exit_code cmd domain =
     (let domainID = parse_int_lossy domain_id in
      if domainID \<le> 0 \<or> token \<noteq> reportToken e domainID then (403, None)
      else case domain domainID of
          None \<Rightarrow> (500, None)
        | Some None \<Rightarrow> (404, None)
        | Some (Some name) \<Rightarrow>
            let exit_status = parse_int_lossy exit_code; snippet = commandSnippet cmd in
            (200, Some (if exit_status \<noteq> 0
               then \<lparr>ev_key = ''cron.failed'', ev_warning = True,
                 ev_message = ''Scheduled task failed on '' @ name @ '' (exit '' @ itoa exit_status @ ''): '' @ snippet, ev_domain = domainID\<rparr>
               else \<lparr>ev_key = ''cron.ran'', ev_warning = False,
                 ev_message = ''Scheduled task ran on '' @ name @ '': '' @ snippet, ev_domain = domainID\<rparr>)))"

end
