(* ===== verification/CronStore.thy ===== *)
theory CronStore
  imports Cron
begin

text \<open>
  The crontab as the store of the tasks: what is written is read back, so the handlers act on the list of
  tasks, for the tasks that survive the line format; and what the line format does to the others.
\<close>

section \<open>Plain text\<close>

definition plain_char :: "char \<Rightarrow> bool" where "plain_char c = byte_in 33 126 c"

definition plain_word :: "string \<Rightarrow> bool" where
  "plain_word w = (w \<noteq> [] \<and> list_all plain_char w)"

definition plain_line :: "string \<Rightarrow> bool" where
  "plain_line s = (s \<noteq> [] \<and> plain_char (hd s) \<and> plain_char (last s) \<and> list_all (byte_in 32 126) s)"

lemma plain_char_facts: "plain_char c \<Longrightarrow> byte c < 128 \<and> \<not> ascii_space c \<and> c \<noteq> CHR 10 \<and> c \<noteq> CHR 13 \<and> c \<noteq> CHR '' ''"
  by (auto simp: plain_char_def byte_in_def ascii_space_def byte_def)

lemma plain_word_word: "plain_word w \<Longrightarrow> word w"
  by (rule word_plain) (auto simp: plain_word_def list_all_iff dest: plain_char_facts)

lemma plain_word_line: "plain_word w \<Longrightarrow> plain_line w"
proof -
  assume w: "plain_word w"
  then have "list_all (byte_in 32 126) w"
    by (auto simp: plain_word_def list_all_iff plain_char_def byte_in_def)
  then show ?thesis using w by (auto simp: plain_word_def plain_line_def list_all_iff)
qed

lemma trim_plain:
  assumes "plain_line s"
  shows "trim_space s = s"
proof -
  have h: "byte (hd s) < 128 \<and> \<not> ascii_space (hd s)" "byte (last s) < 128 \<and> \<not> ascii_space (last s)"
    using assms plain_char_facts by (auto simp: plain_line_def)
  obtain c r where s: "s = c # r" using assms by (cases s) (auto simp: plain_line_def)
  show ?thesis
  proof (cases "r = []")
    case True
    then show ?thesis using h space_width_plain [of c "[]"] space_suffix_plain [of c "[]"]
      by (simp add: s trim_space_def trim_space_left_keep trim_space_right.simps)
  next
    case False
    then have "s = c # butlast r @ [last r]" by (simp add: s)
    then show ?thesis using trim_space_plain_ends [of c "last r" "butlast r"] h False by (simp add: s)
  qed
qed

lemma plain_line_no_break: "plain_line s \<Longrightarrow> CHR 10 \<notin> set s \<and> CHR 13 \<notin> set s"
  by (auto simp: plain_line_def list_all_iff byte_in_def byte_def)

lemma plain_line_append: "plain_line a \<Longrightarrow> plain_line b \<Longrightarrow> plain_line (a @ '' '' @ b)"
  by (auto simp: plain_line_def byte_in_def byte_def)

lemma plain_line_adjoin: "plain_line a \<Longrightarrow> plain_line b \<Longrightarrow> plain_line (a @ b)"
  by (auto simp: plain_line_def)

lemma plain_line_join: "ws \<noteq> [] \<Longrightarrow> list_all plain_word ws \<Longrightarrow> plain_line (join '' '' ws)"
proof (induction "'' ''" ws rule: join.induct)
  case (2 x)
  then show ?case by (simp add: plain_word_line)
next
  case (3 x y xs)
  then show ?case using plain_line_append [OF plain_word_line [of x]] by simp
qed simp

lemma fields_plain: "list_all plain_word ws \<Longrightarrow> GoText.fields (join '' '' ws) = ws"
  by (rule fields_join) (auto simp: list_all_iff plain_word_word)

lemma join_words: "ws \<noteq> [] \<Longrightarrow> join '' '' (x # ws) = x @ '' '' @ join '' '' ws"
  by (cases ws) simp_all

section \<open>Tasks the format carries\<close>

text \<open>
  A crontab line is words between single spaces. A command that runs through the reporter rides in
  base64 and may be any; one that stands on the line itself must be such words.
\<close>

definition plain_command :: "string \<Rightarrow> bool" where
  "plain_command c = (GoText.fields c \<noteq> [] \<and> list_all plain_word (GoText.fields c) \<and> join '' '' (GoText.fields c) = c)"

definition storable :: "cron_task \<Rightarrow> bool" where
  "storable t =
     (list_all plain_word (schedule_fields t) \<and> hd (t_minute t) \<noteq> CHR ''#'' \<and>
      (t_enabled t \<or> list_all schedule_char (t_minute t)) \<and>
      plain_word (t_type t) \<and> (t_php t = [] \<or> plain_word (t_php t)) \<and>

      (if notifies t then t_command t \<noteq> [] else plain_command (t_command t)) \<and>
      (t_comment t = [] \<or> plain_line (t_comment t) \<and> \<not> has_prefix (t_comment t) ''servika'' \<and> \<not> looksCron (t_comment t)))"

definition env_ok :: "cron_env \<Rightarrow> int \<Rightarrow> bool" where
  "env_ok e domainID = (plain_word (reporterPath e) \<and> plain_word (reportToken e domainID) \<and> 0 \<le> domainID)"

lemma digits_plain: "plain_word (digits_of n)"
  using digits_of_digits [of n]
  by (auto simp: plain_word_def all_digits_def list_all_iff is_digit_def plain_char_def byte_in_def)

lemma itoa_plain_word: "0 \<le> i \<Longrightarrow> plain_word (itoa i)"
  by (simp add: itoa_def digits_plain)

lemma b64_digit_char: "n < 64 \<Longrightarrow> plain_char (b64_alphabet ! n)"
proof -
  have "list_all plain_char b64_alphabet" by code_simp
  moreover have "length b64_alphabet = 64" by code_simp
  ultimately show "n < 64 \<Longrightarrow> plain_char (b64_alphabet ! n)" by (auto simp: list_all_length)
qed

lemma sextet_bounds:
  fixes x y :: nat
  assumes "x < 256" "y < 256"
  shows "x div 4 < 64" "x mod 4 * 16 < 64" "x mod 16 * 4 < 64" "x mod 4 * 16 + y div 16 < 64" "x mod 16 * 4 + y div 64 < 64"
proof -
  have m: "x mod 4 \<le> 3" "x mod 16 \<le> 15" using mod_less_divisor [of 4 x] mod_less_divisor [of 16 x] by linarith+
  have d: "x div 4 < 64" "y div 16 < 16" "y div 64 < 4" using assms by (simp_all add: less_mult_imp_div_less)
  show "x div 4 < 64" by (rule d)
  show "x mod 4 * 16 < 64" "x mod 16 * 4 < 64" "x mod 4 * 16 + y div 16 < 64" "x mod 16 * 4 + y div 64 < 64"
    using m d by linarith+
qed

lemma b64_plain: "list_all plain_char (b64_encode s)"
proof -
  have lt: "byte c div 4 < 64" "byte c mod 4 * 16 < 64" "byte c mod 64 < 64" "byte c mod 16 * 4 < 64"
    "byte c mod 4 * 16 + byte d div 16 < 64" "byte c mod 16 * 4 + byte d div 64 < 64" for c d
    using byte_less [of c] byte_less [of d] by (simp_all add: sextet_bounds less_mult_imp_div_less)
  have p: "plain_char pad_char" by code_simp
  show ?thesis
    by (induction s rule: b64_encode.induct) (simp_all add: b64_digit_char lt p)
qed

lemma b64_plain_word: "s \<noteq> [] \<Longrightarrow> plain_word (b64_encode s)"
  using b64_plain [of s] by (cases s rule: b64_encode.cases) (auto simp: plain_word_def)

section \<open>Reading back what was written\<close>

lemma trim_blank_plain:
  assumes "plain_line s"
  shows "trim_space (CHR '' '' # s) = s"
proof -
  have "space_width (CHR '' '' # s) = 1" by (simp add: space_width_def ascii_space_def byte_def)
  then have "trim_space_left (CHR '' '' # s) = trim_space_left s"
    by (simp add: trim_space_left.simps [of "CHR '' '' # s"])
  then show ?thesis using trim_plain [OF assms] by (simp add: trim_space_def)
qed

lemma taskLine_run:
  "snd (taskLine e d t) =
     (if notifies t then reporterPath e @ '' '' @ itoa d @ '' '' @ t_notify t @ '' '' @ reportToken e d @ '' '' @ b64_encode (t_command t)
      else t_command t)"
  by (simp add: taskLine_def Let_def)

lemma taskLine_meta:
  "fst (taskLine e d t) =
     (if t_type t \<noteq> [] \<and> t_type t \<noteq> TypeCommand then [''type='' @ t_type t] else []) @
     (if t_php t \<noteq> [] then [''php_version='' @ t_php t] else []) @
     (if notifies t then [''notify='' @ t_notify t] else []) @
     (if \<not> t_enabled t then [''enabled=0''] else []) @
     (if notifies t then [''cmd='' @ b64_encode (t_command t)] else [])"
  by (simp add: taskLine_def Let_def)

lemma comment_line_read:
  assumes "plain_line s"
  shows "reader_read c (trim_space (CHR ''#'' # CHR '' '' # s)) = reader_comment c s"
proof -
  have "plain_line (CHR ''#'' # CHR '' '' # s)"
    using assms by (auto simp: plain_line_def plain_char_def byte_in_def byte_def)
  from trim_plain [OF this] show ?thesis
    using trim_blank_plain [OF assms] by (simp add: reader_read_def has_prefix_def)
qed

lemma plain_command_of_words: "ws \<noteq> [] \<Longrightarrow> list_all plain_word ws \<Longrightarrow> plain_command (join '' '' ws)"
  by (simp add: plain_command_def fields_plain)

lemma reporter_line_plain:
  assumes "env_ok e d" "plain_word n" "plain_word b"
  shows "plain_command (reporterPath e @ '' '' @ itoa d @ '' '' @ n @ '' '' @ reportToken e d @ '' '' @ b)"
  using plain_command_of_words [of "[reporterPath e, itoa d, n, reportToken e d, b]"] assms
  by (simp add: env_ok_def itoa_plain_word)

lemma run_plain:
  assumes "storable t" "env_ok e d"
  shows "plain_command (snd (taskLine e d t))"
proof (cases "notifies t")
  case True
  then have "plain_word (t_notify t)"
    by (auto simp: notifies_def plain_word_def plain_char_def byte_in_def byte_def NotifyErrors_def NotifyAlways_def)
  moreover have "plain_word (b64_encode (t_command t))"
    using assms(1) True b64_plain_word by (simp add: storable_def)
  ultimately show ?thesis
    using True reporter_line_plain [OF assms(2)] by (simp add: taskLine_run)
qed (use assms in \<open>simp add: storable_def taskLine_run\<close>)

text \<open>The metadata words, and what reading them gives.\<close>

lemma parse_pair_fixed:
  "parse_pair (''type='' @ v) m = m(''type'' \<mapsto> v)"
  "parse_pair (''php_version='' @ v) m = m(''php_version'' \<mapsto> v)"
  "parse_pair (''notify='' @ v) m = m(''notify'' \<mapsto> v)"
  "parse_pair (''cmd='' @ v) m = m(''cmd'' \<mapsto> v)"
  "parse_pair ''enabled=0'' m = m(''enabled'' \<mapsto> ''0'')"
  by (simp_all add: parse_pair_def index_of_char_def)

lemma plain_word_prefixed: "list_all plain_char a \<Longrightarrow> a \<noteq> [] \<Longrightarrow> list_all plain_char b \<Longrightarrow> plain_word (a @ b)"
  by (simp add: plain_word_def)

lemma meta_words_plain:
  assumes "storable t"
  shows "list_all plain_word (fst (taskLine e d t))"
proof -
  have w: "list_all plain_char (t_type t)" "list_all plain_char (t_php t)" "notifies t \<Longrightarrow> list_all plain_char (t_notify t)"
    using assms by (auto simp: storable_def plain_word_def notifies_def plain_char_def byte_in_def byte_def NotifyErrors_def NotifyAlways_def)
  have k: "list_all plain_char ''type=''" "list_all plain_char ''php_version=''" "list_all plain_char ''notify=''"
    "list_all plain_char ''cmd=''" "list_all plain_char ''enabled=0''" by code_simp+
  show ?thesis
    using w k b64_plain [of "t_command t"] by (simp add: taskLine_meta plain_word_def)
qed

lemma meta_read:
  assumes "storable t"
  shows "parseMeta (join '' '' (fst (taskLine e d t))) =
     (\<lambda>k. if k = ''cmd'' \<and> notifies t then Some (b64_encode (t_command t))
          else if k = ''enabled'' \<and> \<not> t_enabled t then Some ''0''
          else if k = ''notify'' \<and> notifies t then Some (t_notify t)
          else if k = ''php_version'' \<and> t_php t \<noteq> [] then Some (t_php t)
          else if k = ''type'' \<and> t_type t \<noteq> TypeCommand then Some (t_type t) else None)"
proof -
  have "t_type t \<noteq> []" using assms by (simp add: storable_def plain_word_def)
  then show ?thesis
    using fields_plain [OF meta_words_plain [OF assms]]
    by (simp add: parseMeta_def) (simp add: taskLine_meta parse_pair_fixed [simplified] fun_eq_iff)
qed

text \<open>What reading keeps of a task: all of it, except a notification preference that asks for nothing.\<close>

definition stored :: "cron_task \<Rightarrow> int \<Rightarrow> cron_task" where
  "stored t i = t\<lparr>t_idx := i, t_notify := (if notifies t then t_notify t else [])\<rparr>"

definition line_task :: "cron_env \<Rightarrow> int \<Rightarrow> cron_task \<Rightarrow> int \<Rightarrow> cron_task" where
  "line_task e d t i = \<lparr>t_idx = i, t_minute = t_minute t, t_hour = t_hour t, t_day = t_day t, t_month = t_month t,
     t_week = t_week t, t_command = snd (taskLine e d t), t_comment = t_comment t, t_enabled = t_enabled t,
     t_type = TypeCommand, t_php = [], t_notify = []\<rparr>"

lemma apply_meta_read:
  assumes "storable t"
  shows "applyMeta (line_task e d t i) (parseMeta (join '' '' (fst (taskLine e d t)))) = stored t i"
proof -
  have p: "t_type t \<noteq> []" "notifies t \<Longrightarrow> b64_encode (t_command t) \<noteq> []"
    using assms b64_plain_word [of "t_command t"] by (auto simp: storable_def plain_word_def)
  show ?thesis
    unfolding meta_read [OF assms]
    using p by (cases "notifies t") (simp_all add: applyMeta_def meta_get_def line_task_def stored_def taskLine_run Let_def)
qed

lemma no_meta_stored:
  assumes "storable t" "fst (taskLine e d t) = []"
  shows "line_task e d t i = stored t i"
proof -
  have "t_type t \<noteq> []" using assms by (simp add: storable_def plain_word_def)
  then have "t_type t = TypeCommand" "t_php t = []" "\<not> notifies t" "t_enabled t"
    using assms(2) by (auto simp: taskLine_meta split: if_splits)
  then show ?thesis by (simp add: line_task_def stored_def taskLine_run)
qed

section \<open>One task\<close>

lemma schedule_char_plain: "schedule_char c \<Longrightarrow> plain_char c \<and> c \<noteq> CHR ''#'' \<and> c \<noteq> CHR ''s''"
  by (auto simp: schedule_char_def plain_char_def byte_in_def byte_def)

lemma cron_line_fields:
  assumes "storable t" "env_ok e d"
  shows "GoText.fields (t_minute t @ '' '' @ t_hour t @ '' '' @ t_day t @ '' '' @ t_month t @ '' '' @ t_week t @ '' '' @ snd (taskLine e d t)) =
     schedule_fields t @ GoText.fields (snd (taskLine e d t))"
    and "plain_line (t_minute t @ '' '' @ t_hour t @ '' '' @ t_day t @ '' '' @ t_month t @ '' '' @ t_week t @ '' '' @ snd (taskLine e d t))"
proof -
  define ws where "ws = GoText.fields (snd (taskLine e d t))"
  have ws: "ws \<noteq> []" "list_all plain_word ws" "join '' '' ws = snd (taskLine e d t)"
    using run_plain [OF assms] by (simp_all add: plain_command_def ws_def)
  have all: "list_all plain_word (schedule_fields t @ ws)" "schedule_fields t @ ws \<noteq> []"
    using assms(1) ws by (simp_all add: storable_def)
  have j: "join '' '' (schedule_fields t @ ws) =
      t_minute t @ '' '' @ t_hour t @ '' '' @ t_day t @ '' '' @ t_month t @ '' '' @ t_week t @ '' '' @ snd (taskLine e d t)"
    using ws(1) by (simp add: schedule_fields_def join_words ws(3))
  show "GoText.fields (t_minute t @ '' '' @ t_hour t @ '' '' @ t_day t @ '' '' @ t_month t @ '' '' @ t_week t @ '' '' @ snd (taskLine e d t)) =
     schedule_fields t @ GoText.fields (snd (taskLine e d t))"
    using fields_plain [OF all(1)] unfolding j ws_def [symmetric] .
  show "plain_line (t_minute t @ '' '' @ t_hour t @ '' '' @ t_day t @ '' '' @ t_month t @ '' '' @ t_week t @ '' '' @ snd (taskLine e d t))"
    using plain_line_join [OF all(2,1)] unfolding j .
qed

lemma add_line:
  assumes "GoText.fields l = schedule_fields t @ GoText.fields (snd (taskLine e d t))"
    and "plain_command (snd (taskLine e d t))" "cr_comment c = t_comment t"
  shows "reader_add c l (\<not> t_enabled t) =
    \<lparr>cr_out = cr_out c @ [case cr_meta c of Some m \<Rightarrow> applyMeta (line_task e d t (cr_idx c)) m | None \<Rightarrow> line_task e d t (cr_idx c)],
     cr_comment = [], cr_meta = None, cr_idx = cr_idx c + 1\<rparr>"
proof -
  have "GoText.fields (snd (taskLine e d t)) \<noteq> []" "join '' '' (GoText.fields (snd (taskLine e d t))) = snd (taskLine e d t)"
    using assms(2) by (simp_all add: plain_command_def)
  moreover then have "length (GoText.fields l) \<ge> 6"
    using assms(1) by (cases "GoText.fields (snd (taskLine e d t))") (simp_all add: schedule_fields_def)
  ultimately show ?thesis
    using assms(1,3) by (simp add: reader_add_def Let_def line_task_def schedule_fields_def split: option.split)
qed

lemma read_cron_line:
  assumes "storable t" "env_ok e d" "cr_comment c = t_comment t"
  shows "reader_read c (trim_space (cron_line e d t)) =
    \<lparr>cr_out = cr_out c @ [case cr_meta c of Some m \<Rightarrow> applyMeta (line_task e d t (cr_idx c)) m | None \<Rightarrow> line_task e d t (cr_idx c)],
     cr_comment = [], cr_meta = None, cr_idx = cr_idx c + 1\<rparr>"
proof -
  define l where "l = t_minute t @ '' '' @ t_hour t @ '' '' @ t_day t @ '' '' @ t_month t @ '' '' @ t_week t @ '' '' @ snd (taskLine e d t)"
  note fs = cron_line_fields [OF assms(1,2), folded l_def]
  note added = add_line [OF fs(1) run_plain [OF assms(1,2)] assms(3)]
  have m: "t_minute t \<noteq> []" "hd l = hd (t_minute t)" "l \<noteq> []" "hd (t_minute t) \<noteq> CHR ''#''"
    using assms(1) by (auto simp: l_def storable_def schedule_fields_def plain_word_def)
  show ?thesis
  proof (cases "t_enabled t")
    case True
    then have "cron_line e d t = l" by (simp add: cron_line_def l_def)
    moreover have "\<not> has_prefix l ''#''" using m by (cases l) (auto simp: has_prefix_def)
    ultimately show ?thesis using trim_plain [OF fs(2)] added m True by (simp add: reader_read_def)
  next
    case False
    then have sched: "list_all schedule_char (t_minute t)" using assms(1) by (simp add: storable_def)
    have line: "cron_line e d t = ''#'' @ l" using False by (simp add: cron_line_def l_def)
    have plain: "plain_line (''#'' @ l)"
      using fs(2) by (auto simp: plain_line_def plain_char_def byte_in_def byte_def)
    have "hd l \<noteq> CHR ''s''" using sched m schedule_char_plain by (cases "t_minute t") (auto simp: list_all_iff)
    then have "\<not> has_prefix l metaPrefix" using m by (cases l) (auto simp: has_prefix_def metaPrefix_def)
    moreover have "looksCron l"
      using sched fs(1) run_plain [OF assms(1,2)]
      by (cases "GoText.fields (snd (taskLine e d t))") (auto simp: looksCron_def Let_def schedule_fields_def plain_command_def)
    ultimately have "reader_comment c l = reader_add c l True" by (simp add: reader_comment_def)
    then show ?thesis
      using trim_plain [OF plain] trim_plain [OF fs(2)] added False by (simp add: line reader_read_def has_prefix_def)
  qed
qed

lemma read_task:
  assumes s: "storable t" and e: "env_ok e d" and c: "cr_comment c = []" "cr_meta c = None"
  shows "foldl (\<lambda>c l. reader_read c (trim_space l)) c (task_lines e d t) =
    \<lparr>cr_out = cr_out c @ [stored t (cr_idx c)], cr_comment = [], cr_meta = None, cr_idx = cr_idx c + 1\<rparr>"
proof -
  define meta where "meta = fst (taskLine e d t)"
  define m where "m = (if meta = [] then None else Some (parseMeta (join '' '' meta)))"
  have flat: "t_comment t \<noteq> [] \<Longrightarrow> flat_comment (t_comment t) = t_comment t \<and> plain_line (t_comment t) \<and>
      \<not> has_prefix (t_comment t) ''servika'' \<and> \<not> looksCron (t_comment t)"
    using s plain_line_no_break [of "t_comment t"]
    by (auto simp: storable_def flat_comment_def intro!: map_idI)
  have meta_line: "reader_read c (trim_space (''# '' @ metaPrefix @ '' '' @ join '' '' meta)) = c\<lparr>cr_meta := m\<rparr>" if "meta \<noteq> []"
  proof -
    have p: "plain_line (join '' '' meta)" using that meta_words_plain [OF s] by (simp add: meta_def plain_line_join)
    have "plain_word metaPrefix" by code_simp
    then have "plain_line (metaPrefix @ '' '' @ join '' '' meta)" by (rule plain_line_append [OF plain_word_line p])
    then show ?thesis
      using trim_blank_plain [OF p] that by (simp add: comment_line_read reader_comment_def has_prefix_def m_def)
  qed
  have comment_line: "reader_read c' (trim_space (''# '' @ flat_comment (t_comment t))) = c'\<lparr>cr_comment := t_comment t\<rparr>"
    if "t_comment t \<noteq> []" for c'
  proof -
    have "\<not> has_prefix (t_comment t) metaPrefix"
      using flat [OF that] by (auto simp: has_prefix_iff metaPrefix_def)
    then show ?thesis using flat [OF that] by (simp add: comment_line_read reader_comment_def)
  qed
  have last: "reader_read c' (trim_space (cron_line e d t)) =
      \<lparr>cr_out = cr_out c @ [stored t (cr_idx c)], cr_comment = [], cr_meta = None, cr_idx = cr_idx c + 1\<rparr>"
    if "c' = c\<lparr>cr_meta := m, cr_comment := t_comment t\<rparr>" for c'
    using read_cron_line [OF s e, of c'] that no_meta_stored [OF s, of e d] apply_meta_read [OF s]
    by (simp add: m_def meta_def)
  define pre where "pre = (if meta \<noteq> [] then [''# '' @ metaPrefix @ '' '' @ join '' '' meta] else []) @
       (if t_comment t \<noteq> [] then [''# '' @ flat_comment (t_comment t)] else [])"
  have "foldl (\<lambda>c l. reader_read c (trim_space l)) c pre = c\<lparr>cr_meta := m, cr_comment := t_comment t\<rparr>"
    using meta_line comment_line c m_def unfolding pre_def by (cases c) simp
  moreover have "task_lines e d t = pre @ [cron_line e d t]"
    unfolding task_lines_def case_prod_unfold meta_def [symmetric] pre_def by simp
  ultimately show ?thesis using last [OF refl] by simp
qed

section \<open>The whole file\<close>

lemma read_tasks:
  assumes "list_all storable ts" "env_ok e d" "cr_comment c = []" "cr_meta c = None"
  shows "foldl (\<lambda>c l. reader_read c (trim_space l)) c (concat (map (task_lines e d) ts)) =
    \<lparr>cr_out = cr_out c @ map (\<lambda>(i, t). stored t (cr_idx c + int i)) (enumerate 0 ts), cr_comment = [], cr_meta = None,
     cr_idx = cr_idx c + int (length ts)\<rparr>"
  using assms
proof (induction ts arbitrary: c)
  case Nil
  then show ?case by (cases c) simp
next
  case (Cons t ts)
  have shift: "enumerate (Suc 0) ts = map (\<lambda>(i, t). (Suc i, t)) (enumerate 0 ts)"
    by (rule nth_equalityI) (simp_all add: nth_enumerate_eq)
  show ?case
    using Cons.prems read_task [of t e d c] by (simp add: Cons.IH shift case_prod_unfold ac_simps)
qed

lemma header_read:
  assumes "plain_word u"
  shows "foldl (\<lambda>c l. reader_read c (trim_space l)) new_reader [bannerLine, ''# last update: '' @ u, []] = new_reader"
proof -
  have banner: "reader_read new_reader (trim_space bannerLine) = new_reader"
  proof -
    have "trim_space bannerLine = bannerLine" by (rule trim_plain) code_simp
    moreover have "trim_space (drop 1 bannerLine) = drop 2 bannerLine"
      using trim_blank_plain [of "drop 2 bannerLine"] by (simp add: bannerLine_def plain_line_def plain_char_def byte_in_def byte_def)
    moreover have "reader_comment new_reader (drop 2 bannerLine) = new_reader"
    proof -
      have "\<not> has_prefix (drop 2 bannerLine) metaPrefix" "\<not> looksCron (drop 2 bannerLine)" "has_prefix (drop 2 bannerLine) ''servika''"
        by code_simp+
      then show ?thesis by (simp add: reader_comment_def)
    qed
    ultimately show ?thesis by (simp add: reader_read_def has_prefix_def bannerLine_def)
  qed
  have update: "reader_read new_reader (trim_space (''# last update: '' @ u)) = new_reader\<lparr>cr_comment := ''last update: '' @ u\<rparr>"
  proof -
    have ws: "list_all plain_word [''last'', ''update:'', u]" using assms by (simp add: plain_word_def plain_char_def byte_in_def byte_def)
    from plain_line_join [OF _ this] have "plain_line (''last update: '' @ u)" by simp
    moreover have "\<not> looksCron (''last update: '' @ u)" using fields_plain [OF ws] by (simp add: looksCron_def)
    moreover have "\<not> has_prefix (''last update: '' @ u) metaPrefix" "\<not> has_prefix (''last update: '' @ u) ''servika''"
      by (simp_all add: has_prefix_def metaPrefix_def)
    ultimately show ?thesis using comment_line_read [of "''last update: '' @ u" new_reader] by (simp add: reader_comment_def)
  qed
  have "trim_space [] = []" by code_simp
  then show ?thesis using banner update by (simp add: reader_read_def new_reader_def)
qed

section \<open>Line breaks\<close>

definition unbroken :: "cron_task \<Rightarrow> bool" where
  "unbroken t = (\<not> list_ex has_break (schedule_fields t) \<and> (notifies t \<or> \<not> has_break (t_command t)) \<and>
     \<not> has_break (t_type t) \<and> \<not> has_break (t_php t))"

lemma validated_unbroken: "cron_validate t = None \<Longrightarrow> unbroken t"
  by (auto simp: cron_validate_def unbroken_def has_break_def scheduleCharacters_def list_ex_iff split: option.splits if_splits)

lemma plain_word_unbroken: "plain_word w \<Longrightarrow> \<not> has_break w"
  using plain_line_no_break [OF plain_word_line] by (simp add: has_break_def)

lemma storable_unbroken: "storable t \<Longrightarrow> unbroken t"
proof -
  assume s: "storable t"
  have "\<not> has_break (t_command t)" if "\<not> notifies t"
    using s that plain_line_no_break [OF plain_line_join, of "GoText.fields (t_command t)"]
    by (simp add: storable_def plain_command_def has_break_def)
  moreover have "\<not> has_break []" by (simp add: has_break_def)
  ultimately show ?thesis
    using s by (auto simp: storable_def unbroken_def list_ex_iff list_all_iff dest: plain_word_unbroken)
qed

lemma has_break_append [simp]: "has_break (a @ b) = (has_break a \<or> has_break b)"
  by (auto simp: has_break_def)

lemma has_break_cons [simp]: "has_break (c # b) = (c = CHR 10 \<or> c = CHR 13 \<or> has_break b)"
  by (auto simp: has_break_def)

lemma has_break_nil [simp]: "\<not> has_break []"
  by (simp add: has_break_def)

lemma join_unbroken: "list_all (\<lambda>w. \<not> has_break w) ws \<Longrightarrow> \<not> has_break (join '' '' ws)"
  by (induction "'' ''" ws rule: join.induct) simp_all

lemma flat_comment_unbroken: "\<not> has_break (flat_comment s)"
  by (auto simp: has_break_def flat_comment_def)

lemma b64_unbroken: "\<not> has_break (b64_encode s)"
  using b64_encode_plain by (auto simp: has_break_def)

lemma task_lines_unbroken:
  assumes t: "unbroken t" and e: "env_ok e d"
  shows "list_all (\<lambda>l. \<not> has_break l) (task_lines e d t)"
proof -
  have env: "\<not> has_break (reporterPath e)" "\<not> has_break (itoa d)" "\<not> has_break (reportToken e d)"
    using e by (auto simp: env_ok_def dest: plain_word_unbroken itoa_plain_word)
  have n: "notifies t \<Longrightarrow> \<not> has_break (t_notify t)"
    by (auto simp: notifies_def NotifyErrors_def NotifyAlways_def)
  have run: "\<not> has_break (snd (taskLine e d t))"
    using t env n b64_unbroken by (auto simp: taskLine_run unbroken_def)
  have "list_all (\<lambda>w. \<not> has_break w) (fst (taskLine e d t))"
    using t n b64_unbroken by (auto simp: taskLine_meta unbroken_def)
  note meta = join_unbroken [OF this]
  have line: "\<not> has_break (cron_line e d t)"
    using t run by (simp add: cron_line_def unbroken_def schedule_fields_def)
  have p: "\<not> has_break metaPrefix" by (simp add: metaPrefix_def)
  show ?thesis
    unfolding task_lines_def case_prod_unfold using meta line flat_comment_unbroken p by simp
qed

section \<open>The round trip\<close>

definition cron_header :: "string \<Rightarrow> string list" where
  "cron_header u = [bannerLine, ''# last update: '' @ u, []]"

lemma serialize_lines:
  "serializeCrontab e u d ts = concat (map (\<lambda>l. l @ [CHR 10]) (cron_header u @ concat (map (task_lines e d) ts)))"
  by (simp add: serializeCrontab_def cron_header_def)

lemma header_unbroken: "plain_word u \<Longrightarrow> list_all (\<lambda>l. \<not> has_break l) (cron_header u)"
  using plain_word_unbroken [of u] by (simp add: cron_header_def bannerLine_def)

lemma lines_unbroken:
  "list_all unbroken ts \<Longrightarrow> env_ok e d \<Longrightarrow> plain_word u \<Longrightarrow>
   list_all (\<lambda>l. \<not> has_break l) (cron_header u @ concat (map (task_lines e d) ts))"
  using task_lines_unbroken header_unbroken by (auto simp: list_all_iff)

text \<open>A task the file carries: it survives the line format, and its lines fit the scanner.\<close>

definition carried :: "cron_env \<Rightarrow> int \<Rightarrow> cron_task \<Rightarrow> bool" where
  "carried e d t = (storable t \<and> list_all line_fits (task_lines e d t))"

definition account_ok :: "cron_env \<Rightarrow> string \<Rightarrow> int \<Rightarrow> bool" where
  "account_ok e u d = (env_ok e d \<and> plain_word u \<and> list_all line_fits (cron_header u))"

definition renumber :: "cron_task list \<Rightarrow> cron_task list" where
  "renumber ts = map (\<lambda>(i, t). stored t (int i)) (enumerate 0 ts)"

lemma parse_serialize:
  assumes "list_all (carried e d) ts" "account_ok e u d"
  shows "parseCrontab (serializeCrontab e u d ts) = (renumber ts, False)"
proof -
  let ?ls = "cron_header u @ concat (map (task_lines e d) ts)"
  have s: "list_all storable ts" "env_ok e d" "plain_word u" "list_all line_fits ?ls"
    using assms by (auto simp: carried_def account_ok_def list_all_iff)
  have nb: "list_all (\<lambda>l. \<not> has_break l) ?ls"
  proof (rule lines_unbroken [OF _ s(2,3)])
    show "list_all unbroken ts" using s(1) storable_unbroken by (simp add: list_all_iff)
  qed
  then have "scan_lines (serializeCrontab e u d ts) = (map drop_cr ?ls, False)"
    unfolding serialize_lines using s(4) by (intro scan_lines_written) (auto simp: list_all_iff has_break_def)
  also have "map drop_cr ?ls = ?ls"
    using nb by (intro map_idI drop_cr_id) (auto simp: list_all_iff has_break_def)
  finally show ?thesis
    using header_read [OF s(3), folded cron_header_def] read_tasks [OF s(1,2), of new_reader]
    by (simp add: parseCrontab_def renumber_def new_reader_def)
qed

lemma stored_same [simp]:
  "notifies (stored t i) = notifies t"
  "fst (taskLine e d (stored t i)) = fst (taskLine e d t)"
  "task_lines e d (stored t i) = task_lines e d t"
  "storable (stored t i) = storable t"
  "stored (stored t i) j = stored t j"
  by (cases "notifies t"; simp add: stored_def notifies_def task_lines_def taskLine_def cron_line_def storable_def
      schedule_fields_def NotifyErrors_def NotifyAlways_def)+

lemma carried_stored [simp]: "carried e d (stored t i) = carried e d t"
  by (simp add: carried_def)

lemma length_renumber [simp]: "length (renumber ts) = length ts"
  by (simp add: renumber_def)

lemma nth_renumber [simp]: "i < length ts \<Longrightarrow> renumber ts ! i = stored (ts ! i) (int i)"
  by (simp add: renumber_def nth_enumerate_eq)

lemma serialize_same:
  assumes "length ts = length us" "\<And>i. i < length ts \<Longrightarrow> task_lines e d (ts ! i) = task_lines e d (us ! i)"
  shows "serializeCrontab e u d ts = serializeCrontab e u d us"
proof -
  have "map (task_lines e d) ts = map (task_lines e d) us" using assms by (intro nth_equalityI) simp_all
  then show ?thesis by (simp add: serializeCrontab_def)
qed

lemma serialize_renumber [simp]: "serializeCrontab e u d (renumber ts) = serializeCrontab e u d ts"
  by (rule serialize_same) simp_all

lemma carried_renumber [simp]: "list_all (carried e d) (renumber ts) = list_all (carried e d) ts"
  by (simp add: list_all_length)

lemma renumber_idem [simp]: "renumber (renumber ts) = renumber ts"
  by (rule nth_equalityI) simp_all

section \<open>The operations on the list of tasks\<close>

text \<open>The tasks a crontab holds, and a crontab that the panel wrote.\<close>

definition tasks_of :: "string option \<Rightarrow> cron_task list" where
  "tasks_of spool = fst (cron_read spool)"

definition panel_file :: "cron_env \<Rightarrow> string \<Rightarrow> int \<Rightarrow> string option \<Rightarrow> bool" where
  "panel_file e u d spool =
     (spool = None \<or> (\<exists>ts. spool = Some (serializeCrontab e u d ts) \<and> list_all (carried e d) ts))"

lemma panel_file_tasks:
  assumes "account_ok e u d" "panel_file e u d spool"
  obtains ts where "cron_read spool = (renumber ts, False)" "list_all (carried e d) ts"
proof (cases spool)
  case None
  then show ?thesis using that [of "[]"] by (simp add: cron_read_def renumber_def)
next
  case (Some s)
  then obtain ts where "s = serializeCrontab e u d ts" "list_all (carried e d) ts" using assms(2) by (auto simp: panel_file_def)
  then show ?thesis using that parse_serialize [OF _ assms(1)] Some by (simp add: cron_read_def)
qed

lemma written_tasks:
  assumes "account_ok e u d" "list_all (carried e d) ts"
  shows "tasks_of (Some (serializeCrontab e u d ts)) = renumber ts" and "panel_file e u d (Some (serializeCrontab e u d ts))"
  using parse_serialize [OF assms(2,1)] assms(2) by (auto simp: tasks_of_def cron_read_def panel_file_def)

definition answered :: "cron_call \<Rightarrow> string \<Rightarrow> int \<Rightarrow> bool" where
  "answered c u d = (c_lookup c = Inr (u, d) \<and> c_readable c \<and> c_writes c \<and> c_chown c)"

lemma cron_tasks_panel:
  assumes "account_ok e u d" "panel_file e u d spool" "answered c u d"
  shows "cron_tasks c spool = Some (tasks_of spool)" and "list_all (carried e d) (tasks_of spool)"
proof -
  obtain ts where ts: "cron_read spool = (renumber ts, False)" "list_all (carried e d) ts"
    using panel_file_tasks [OF assms(1,2)] .
  show "cron_tasks c spool = Some (tasks_of spool)"
    using assms(3) by (simp add: cron_tasks_def tasks_of_def ts(1) answered_def)
  show "list_all (carried e d) (tasks_of spool)"
    using ts by (simp add: tasks_of_def)
qed

lemma write_acts:
  assumes "account_ok e u d" "answered c u d" "list_all (carried e d) ts" "cron_write e c u d ts spool = (ok, spool')"
  shows "ok \<and> panel_file e u d spool' \<and> tasks_of spool' = renumber ts"
proof -
  have "ok" "spool' = Some (serializeCrontab e u d ts)" using assms(2,4) by (simp_all add: cron_write_def answered_def)
  then show ?thesis using written_tasks [OF assms(1,3)] by simp
qed

lemma create_acts:
  assumes "account_ok e u d" "panel_file e u d spool" "answered c u d" "prepare_task e i = Inr t" "carried e d t"
  shows "case cron_Create e c (Some i) spool of (status, spool') \<Rightarrow> panel_file e u d spool' \<and>
    (status, tasks_of spool') = (if maxTasks \<le> length (tasks_of spool) then (400, tasks_of spool)
       else (201, renumber (tasks_of spool @ [t])))"
proof -
  note ts = cron_tasks_panel [OF assms(1,2,3)]
  obtain ok spool' where w: "cron_write e c u d (tasks_of spool @ [t]) spool = (ok, spool')" by fastforce
  have "ok \<and> panel_file e u d spool' \<and> tasks_of spool' = renumber (tasks_of spool @ [t])"
    using write_acts [OF assms(1,3) _ w] ts(2) assms(5) by simp
  then show ?thesis
    using assms(2,3,4) ts(1) w by (simp add: cron_Create_def answered_def)
qed

lemma list_all_update: "list_all P xs \<Longrightarrow> P x \<Longrightarrow> list_all P (xs[i := x])"
  by (auto simp: list_all_iff dest: set_update_subset_insert [THEN subsetD])

lemma update_acts:
  assumes "account_ok e u d" "panel_file e u d spool" "answered c u d" "prepare_task e i = Inr t" "carried e d t"
  shows "case cron_Update e c p (Some i) spool of (status, spool') \<Rightarrow> panel_file e u d spool' \<and>
    (status, tasks_of spool') =
      (if parse_int_lossy p < 0 \<or> int (length (tasks_of spool)) \<le> parse_int_lossy p then (404, tasks_of spool)
       else (200, renumber ((tasks_of spool)[nat (parse_int_lossy p) := t])))"
proof -
  note ts = cron_tasks_panel [OF assms(1,2,3)]
  let ?us = "(tasks_of spool)[nat (parse_int_lossy p) := t]"
  obtain ok spool' where w: "cron_write e c u d ?us spool = (ok, spool')" by fastforce
  have "ok \<and> panel_file e u d spool' \<and> tasks_of spool' = renumber ?us"
    using write_acts [OF assms(1,3) _ w] list_all_update [OF ts(2) assms(5)] by simp
  then show ?thesis
    using assms(2,3,4) ts(1) w by (simp add: cron_Update_def answered_def Let_def)
qed

lemma delete_acts:
  assumes "account_ok e u d" "panel_file e u d spool" "answered c u d"
  shows "case cron_Delete e c p spool of (status, spool') \<Rightarrow> panel_file e u d spool' \<and>
    (status, tasks_of spool') =
      (if parse_int_lossy p < 0 \<or> int (length (tasks_of spool)) \<le> parse_int_lossy p then (404, tasks_of spool)
       else (200, renumber (take (nat (parse_int_lossy p)) (tasks_of spool) @ drop (nat (parse_int_lossy p) + 1) (tasks_of spool))))"
proof -
  note ts = cron_tasks_panel [OF assms(1,2,3)]
  let ?us = "take (nat (parse_int_lossy p)) (tasks_of spool) @ drop (nat (parse_int_lossy p) + 1) (tasks_of spool)"
  obtain ok spool' where w: "cron_write e c u d ?us spool = (ok, spool')" by fastforce
  have "list_all (carried e d) ?us" using ts(2) by (auto simp: list_all_iff dest: in_set_takeD in_set_dropD)
  then have "ok \<and> panel_file e u d spool' \<and> tasks_of spool' = renumber ?us"
    using write_acts [OF assms(1,3) _ w] by simp
  then show ?thesis
    using assms(2,3) ts(1) w by (simp add: cron_Delete_def answered_def Let_def)
qed

section \<open>What reaches crond\<close>

text \<open>The lines crond sees: it ends one at either kind of break, and skips blank ones and comments.\<close>

definition cut_lines :: "string \<Rightarrow> string list" where
  "cut_lines s = split_on (CHR 10) (map (\<lambda>c. if c = CHR 13 then CHR 10 else c) s)"

definition acted_line :: "string \<Rightarrow> bool" where
  "acted_line l = (l \<noteq> [] \<and> hd l \<noteq> CHR ''#'')"

lemma cut_lines_written:
  assumes "list_all (\<lambda>l. \<not> has_break l) ls"
  shows "cut_lines (concat (map (\<lambda>l. l @ [CHR 10]) ls)) = ls @ [[]]"
proof -
  have "map (\<lambda>c. if c = CHR 13 then CHR 10 else c) l = l" if "\<not> has_break l" for l
    using that by (intro map_idI) (auto simp: has_break_def)
  then have "map (\<lambda>c. if c = CHR 13 then CHR 10 else c) (concat (map (\<lambda>l. l @ [CHR 10]) ls)) =
      concat (map (\<lambda>l. l @ [CHR 10]) ls)"
    using assms by (induction ls) simp_all
  then show ?thesis
    unfolding cut_lines_def using assms by (simp add: split_on_lines list_all_iff has_break_def)
qed

lemma acted_task_lines:
  assumes "t_minute t \<noteq> []"
  shows "filter acted_line (task_lines e d t) = (if t_enabled t \<and> hd (t_minute t) \<noteq> CHR ''#'' then [cron_line e d t] else [])"
proof -
  have "acted_line (cron_line e d t) = (t_enabled t \<and> hd (t_minute t) \<noteq> CHR ''#'')"
    using assms by (simp add: acted_line_def cron_line_def)
  then show ?thesis by (simp add: task_lines_def case_prod_unfold acted_line_def)
qed

lemma acted_tasks_lines:
  "list_all (\<lambda>t. t_minute t \<noteq> []) ts \<Longrightarrow>
   filter acted_line (concat (map (task_lines e d) ts)) =
     map (cron_line e d) (filter (\<lambda>t. t_enabled t \<and> hd (t_minute t) \<noteq> CHR ''#'') ts)"
  by (induction ts) (simp_all add: acted_task_lines)

lemma validated_present: "cron_validate t = None \<Longrightarrow> t_minute t \<noteq> []"
  by (auto simp: cron_validate_def schedulePresent_def schedule_fields_def split: option.splits if_splits)

text \<open>
  C29. Accepted tasks put no line of their own into the crontab: whatever the fields and the comment of
  the tasks that \<open>validate\<close> lets through hold, the file cut at line feeds and carriage returns is the
  header followed by the lines written for each task, and the lines crond acts on are exactly the ones of
  the enabled tasks, in order.
\<close>

theorem accepted_tasks_inject_no_line:
  assumes "list_all (\<lambda>t. cron_validate t = None) ts" "env_ok e d" "plain_word u"
  shows "cut_lines (serializeCrontab e u d ts) = cron_header u @ concat (map (task_lines e d) ts) @ [[]] \<and>
    filter acted_line (cut_lines (serializeCrontab e u d ts)) =
      map (cron_line e d) (filter (\<lambda>t. t_enabled t \<and> hd (t_minute t) \<noteq> CHR ''#'') ts)"
proof -
  have t: "list_all unbroken ts" "list_all (\<lambda>t. t_minute t \<noteq> []) ts"
    using assms(1) validated_unbroken validated_present by (simp_all add: list_all_iff)
  have cut: "cut_lines (serializeCrontab e u d ts) = (cron_header u @ concat (map (task_lines e d) ts)) @ [[]]"
    unfolding serialize_lines by (rule cut_lines_written [OF lines_unbroken [OF t(1) assms(2,3)]])
  have "filter acted_line (cron_header u) = []" by (simp add: cron_header_def acted_line_def bannerLine_def)
  then show ?thesis using cut acted_tasks_lines [OF t(2)] by (simp add: acted_line_def)
qed

definition cron_env0 :: cron_env where
  "cron_env0 = \<lparr>reporterPath = ''/opt/servika/bin/servika-cron-report'', hmacSHA256 = (\<lambda>k m. ''5f'' @ m), secretKey = ''k'',
     installedVersions = [\<lparr>pv_version = ''8.3'', pv_loaded = True, pv_bin = ''/opt/remi/php83/root/usr/bin/php''\<rparr>]\<rparr>"

definition nightly :: cron_task where
  "nightly = \<lparr>t_idx = 0, t_minute = ''0'', t_hour = ''3'', t_day = ''*'', t_month = ''*'', t_week = ''*'',
     t_command = ''php artisan backup'', t_comment = ''nightly copy'', t_enabled = True, t_type = TypeCommand, t_php = [], t_notify = NotifyErrors\<rparr>"

definition paused :: cron_task where
  "paused = nightly\<lparr>t_idx := 1, t_minute := ''*/5'', t_command := ''curl -fsS http://example.com/ping'', t_comment := [], t_enabled := False,
     t_notify := []\<rparr>"

theorem accepted_tasks_inject_no_line_witness:
  "map (take 9) (filter acted_line (cut_lines (serializeCrontab cron_env0 ''c_demo'' 7
     [nightly\<lparr>t_comment := ''a'' @ [CHR 10] @ ''* * * * * reboot''\<rparr>, paused]))) = [''0 3 * * *'']"
proof -
  have v: "list_all (\<lambda>t. cron_validate t = None) [nightly\<lparr>t_comment := ''a'' @ [CHR 10] @ ''* * * * * reboot''\<rparr>, paused]"
    by code_simp
  have e: "env_ok cron_env0 7" "plain_word ''c_demo''" by code_simp+
  have "map (take 9) (map (cron_line cron_env0 7) (filter (\<lambda>t. t_enabled t \<and> hd (t_minute t) \<noteq> CHR ''#'')
      [nightly\<lparr>t_comment := ''a'' @ [CHR 10] @ ''* * * * * reboot''\<rparr>, paused])) = [''0 3 * * *'']"
    by code_simp
  from trans [OF arg_cong [OF accepted_tasks_inject_no_line [OF v e, THEN conjunct2], of "map (take 9)"] this] show ?thesis .
qed

text \<open>
  C28. The crontab as a store: on a file the panel wrote, with tasks the line format carries, \<open>Create\<close>,
  \<open>Update\<close> and \<open>Delete\<close> act on the tasks read from it as append, replacement and removal on a list act,
  with the positions counted anew, up to the bound of a hundred tasks and the range of the index; and the
  file stays such a file.
\<close>

theorem handlers_act_on_list:
  assumes "account_ok e u d" "panel_file e u d spool" "answered c u d" "prepare_task e i = Inr t" "carried e d t"
  shows "(case cron_Create e c (Some i) spool of (status, spool') \<Rightarrow> panel_file e u d spool' \<and>
      (status, tasks_of spool') = (if maxTasks \<le> length (tasks_of spool) then (400, tasks_of spool)
         else (201, renumber (tasks_of spool @ [t])))) \<and>
    (case cron_Update e c p (Some i) spool of (status, spool') \<Rightarrow> panel_file e u d spool' \<and>
      (status, tasks_of spool') =
        (if parse_int_lossy p < 0 \<or> int (length (tasks_of spool)) \<le> parse_int_lossy p then (404, tasks_of spool)
         else (200, renumber ((tasks_of spool)[nat (parse_int_lossy p) := t])))) \<and>
    (case cron_Delete e c p spool of (status, spool') \<Rightarrow> panel_file e u d spool' \<and>
      (status, tasks_of spool') =
        (if parse_int_lossy p < 0 \<or> int (length (tasks_of spool)) \<le> parse_int_lossy p then (404, tasks_of spool)
         else (200, renumber (take (nat (parse_int_lossy p)) (tasks_of spool) @ drop (nat (parse_int_lossy p) + 1) (tasks_of spool)))))"
  using create_acts [OF assms] update_acts [OF assms] delete_acts [OF assms(1-3)] by (intro conjI)

definition cron_call0 :: cron_call where
  "cron_call0 = \<lparr>c_lookup = Inr (''c_demo'', 7), c_readable = True, c_writes = True, c_chown = True\<rparr>"

definition ping_input :: taskInput where
  "ping_input = \<lparr>in_task = paused\<lparr>t_type := TypeURL, t_enabled := True, t_notify := ''none''\<rparr>, in_url = '' https://example.com/run ?x'',
     in_script = [], in_args = []\<rparr>"

theorem handlers_act_on_list_witness:
  "\<exists>spool t. map t_notify (tasks_of spool) = [''errors'', []] \<and>
    map t_command (tasks_of (snd (cron_Create cron_env0 cron_call0 (Some ping_input) spool))) =
      [''php artisan backup'', ''curl -fsS http://example.com/ping'',
       ''curl -fsS -o /dev/null --max-time 300 '' @ [CHR 0x27] @ ''https://example.com/run ?x'' @ [CHR 0x27]] \<and>
    tasks_of (snd (cron_Update cron_env0 cron_call0 ''1'' (Some ping_input) spool)) = renumber [nightly, t] \<and>
    tasks_of (snd (cron_Delete cron_env0 cron_call0 ''0'' spool)) = renumber [paused]"
proof -
  define spool where "spool = Some (serializeCrontab cron_env0 ''c_demo'' 7 [nightly, paused])"
  obtain t where t: "prepare_task cron_env0 ping_input = Inr t" "carried cron_env0 7 t"
    "t_command t = ''curl -fsS -o /dev/null --max-time 300 '' @ [CHR 0x27] @ ''https://example.com/run ?x'' @ [CHR 0x27]"
  proof
    show "prepare_task cron_env0 ping_input = Inr (case prepare_task cron_env0 ping_input of Inr t \<Rightarrow> t | Inl _ \<Rightarrow> paused)"
      "carried cron_env0 7 (case prepare_task cron_env0 ping_input of Inr t \<Rightarrow> t | Inl _ \<Rightarrow> paused)"
      "t_command (case prepare_task cron_env0 ping_input of Inr t \<Rightarrow> t | Inl _ \<Rightarrow> paused) =
        ''curl -fsS -o /dev/null --max-time 300 '' @ [CHR 0x27] @ ''https://example.com/run ?x'' @ [CHR 0x27]"
      by code_simp+
  qed
  have a: "account_ok cron_env0 ''c_demo'' 7" "answered cron_call0 ''c_demo'' 7" by code_simp+
  have ts: "list_all (carried cron_env0 7) [nightly, paused]" by code_simp
  note w = written_tasks [OF a(1) ts, folded spool_def]
  have first: "tasks_of spool = [nightly\<lparr>t_idx := 0\<rparr>, paused\<lparr>t_idx := 1\<rparr>]"
    unfolding w(1) by code_simp
  have p: "parse_int_lossy ''1'' = 1" "parse_int_lossy ''0'' = 0" "parse_int_lossy ''0'' = 0" by code_simp+
  note acts = handlers_act_on_list [OF a(1) w(2) a(2) t(1,2)]
  have cr: "tasks_of (snd (cron_Create cron_env0 cron_call0 (Some ping_input) spool)) = renumber (tasks_of spool @ [t])"
    using acts [THEN conjunct1] by (simp add: case_prod_unfold first maxTasks_def)
  have up: "tasks_of (snd (cron_Update cron_env0 cron_call0 ''1'' (Some ping_input) spool)) = renumber ((tasks_of spool)[1 := t])"
    using acts [of "''1''", THEN conjunct2, THEN conjunct1] by (simp add: case_prod_unfold first p)
  have de: "tasks_of (snd (cron_Delete cron_env0 cron_call0 ''0'' spool)) = renumber (drop 1 (tasks_of spool))"
    using acts [of "''0''", THEN conjunct2, THEN conjunct2] by (simp add: case_prod_unfold first p)
  show ?thesis
  proof (intro exI [of _ spool] exI [of _ t] conjI)
    show "map t_notify (tasks_of spool) = [''errors'', []]" unfolding first by code_simp
    show "map t_command (tasks_of (snd (cron_Create cron_env0 cron_call0 (Some ping_input) spool))) =
      [''php artisan backup'', ''curl -fsS http://example.com/ping'',
       ''curl -fsS -o /dev/null --max-time 300 '' @ [CHR 0x27] @ ''https://example.com/run ?x'' @ [CHR 0x27]]"
      unfolding cr first by (simp add: renumber_def stored_def nightly_def paused_def t(3))
    show "tasks_of (snd (cron_Update cron_env0 cron_call0 ''1'' (Some ping_input) spool)) = renumber [nightly, t]"
      unfolding up first by (simp add: renumber_def stored_def notifies_def)
    show "tasks_of (snd (cron_Delete cron_env0 cron_call0 ''0'' spool)) = renumber [paused]"
      unfolding de first by (simp add: renumber_def stored_def notifies_def)
  qed
qed

section \<open>What the format does to other tasks\<close>

lemma written_too_long:
  assumes "list_all unbroken ts" "env_ok e d" "plain_word u" "t \<in> set ts" "l \<in> set (task_lines e d t)" "\<not> line_fits l"
  shows "snd (parseCrontab (serializeCrontab e u d ts))"
proof (rule ccontr)
  let ?ls = "cron_header u @ concat (map (task_lines e d) ts)"
  assume "\<not> snd (parseCrontab (serializeCrontab e u d ts))"
  then have ok: "\<not> snd (scan_lines (concat (map (\<lambda>l. l @ [CHR 10]) ?ls)))"
    by (simp add: parseCrontab_def serialize_lines case_prod_unfold del: map_append concat_append)
  have nb: "\<forall>l \<in> set ?ls. \<not> has_break l" using lines_unbroken [OF assms(1-3)] by (simp add: list_all_iff)
  then have "fst (scan_lines (concat (map (\<lambda>l. l @ [CHR 10]) ?ls))) = map drop_cr ?ls"
    by (intro unlines_scan [OF ok]) (auto simp: has_break_def)
  also have "\<dots> = ?ls" using nb by (intro map_idI drop_cr_id) (auto simp: has_break_def)
  finally have "l \<in> set (fst (scan_lines (concat (map (\<lambda>l. l @ [CHR 10]) ?ls))))" using assms(4,5) by auto
  then have "line_fits l" by (rule scan_lines_of [THEN conjunct2])
  then show False using assms(6) by contradiction
qed

lemma unreadable_refused:
  assumes "snd (parseCrontab s)" "answered c u d" "prepare_task e i = Inr t"
  shows "fst (cron_List e c (Some s)) = 500" "cron_Create e c (Some i) (Some s) = (500, Some s)"
    "cron_Update e c p (Some i) (Some s) = (500, Some s)" "cron_Delete e c p (Some s) = (500, Some s)"
  using assms by (simp_all add: cron_List_def cron_Create_def cron_Update_def cron_Delete_def cron_tasks_def cron_read_def answered_def
    case_prod_unfold)

text \<open>
  The comment has no bound of its own: a task whose comment no longer fits the scanner's line is
  accepted and written like any other, and from then on the crontab cannot be read, so listing, creating,
  replacing and deleting all answer 500 and leave the file as it is; the handlers offer no way back.
\<close>

theorem long_comment_locks_crontab:
  assumes "account_ok e u d" "panel_file e u d spool" "answered c u d" "prepare_task e i = Inr t"
    and "length (tasks_of spool) < maxTasks" "max_scan_token \<le> int (length (t_comment t)) + 2"
  shows "case cron_Create e c (Some i) spool of (status, spool') \<Rightarrow>
    status = 201 \<and> fst (cron_List e c spool') = 500 \<and> cron_Create e c (Some i) spool' = (500, spool') \<and>
    cron_Update e c p (Some i) spool' = (500, spool') \<and> cron_Delete e c p spool' = (500, spool')"
proof -
  note ts = cron_tasks_panel [OF assms(1,2,3)]
  let ?s = "serializeCrontab e u d (tasks_of spool @ [t])"
  have created: "cron_Create e c (Some i) spool = (201, Some ?s)"
    using assms(3,4,5) ts(1) by (simp add: cron_Create_def answered_def cron_write_def)
  have "cron_validate t = None"
    using assms(4) by (auto simp: prepare_task_def Let_def split: sum.splits option.splits)
  then have un: "list_all unbroken (tasks_of spool @ [t])"
    using ts(2) storable_unbroken validated_unbroken by (simp add: list_all_iff carried_def)
  have "t_comment t \<noteq> []" using assms(6) by (auto simp: max_scan_token_def)
  then have "''# '' @ flat_comment (t_comment t) \<in> set (task_lines e d t)"
    by (simp add: task_lines_def case_prod_unfold)
  moreover have "\<not> line_fits (''# '' @ flat_comment (t_comment t))"
    using assms(6) by (simp add: line_fits_def flat_comment_def)
  moreover have "env_ok e d" "plain_word u" using assms(1) by (simp_all add: account_ok_def)
  ultimately have bad: "snd (parseCrontab ?s)" using written_too_long [OF un, of e d u t] by simp
  show ?thesis using unreadable_refused [OF bad assms(3,4)] by (simp add: created)
qed

lemma validate_comment: "cron_validate (t\<lparr>t_comment := c\<rparr>) = cron_validate t"
proof -
  have "schedule_fields (t\<lparr>t_comment := c\<rparr>) = schedule_fields t" by (simp add: schedule_fields_def)
  then show ?thesis by (simp add: cron_validate_def schedulePresent_def scheduleCharacters_def cong: option.case_cong)
qed

lemma build_comment: "buildCommand e (i\<lparr>in_task := (in_task i)\<lparr>t_comment := c\<rparr>\<rparr>) = buildCommand e i"
  by (cases i) (simp add: buildCommand_def phpCommand_def Let_def cong: option.case_cong)

lemma prepare_comment:
  assumes "prepare_task e i = Inr t"
  shows "prepare_task e (i\<lparr>in_task := (in_task i)\<lparr>t_comment := c\<rparr>\<rparr>) = Inr (t\<lparr>t_comment := c\<rparr>)"
proof -
  obtain command where b: "buildCommand e i = Inr command"
    using assms by (cases "buildCommand e i") (simp_all add: prepare_task_def)
  define t0 where "t0 = (if t_type (in_task i) = [] then (in_task i)\<lparr>t_type := TypeCommand\<rparr> else in_task i)\<lparr>t_command := command\<rparr>"
  have t: "cron_validate t0 = None" "t0 = t"
    using assms b by (simp_all add: prepare_task_def t0_def Let_def split: option.splits if_splits)
  have "t0\<lparr>t_comment := c\<rparr> =
      (if t_type (in_task i) = [] then (in_task i)\<lparr>t_comment := c, t_type := TypeCommand\<rparr> else (in_task i)\<lparr>t_comment := c\<rparr>)\<lparr>t_command := command\<rparr>"
    by (simp add: t0_def)
  then show ?thesis
    unfolding t(2) [symmetric] using validate_comment [where t = t0 and c = c] t(1) b by (simp add: prepare_task_def build_comment Let_def)
qed

theorem long_comment_locks_crontab_witness:
  "\<exists>c. fst (cron_Create cron_env0 cron_call0 (Some (ping_input\<lparr>in_task := (in_task ping_input)\<lparr>t_comment := c\<rparr>\<rparr>)) None) = 201 \<and>
     fst (cron_List cron_env0 cron_call0
       (snd (cron_Create cron_env0 cron_call0 (Some (ping_input\<lparr>in_task := (in_task ping_input)\<lparr>t_comment := c\<rparr>\<rparr>)) None))) = 500"
proof -
  define c where "c = replicate (nat max_scan_token) (CHR ''a'')"
  have len: "max_scan_token \<le> int (length c) + 2" by (simp add: c_def max_scan_token_def)
  obtain t where t: "prepare_task cron_env0 ping_input = Inr t"
  proof
    show "prepare_task cron_env0 ping_input = Inr (case prepare_task cron_env0 ping_input of Inr t \<Rightarrow> t | Inl _ \<Rightarrow> paused)"
      by code_simp
  qed
  have a: "account_ok cron_env0 ''c_demo'' 7" "answered cron_call0 ''c_demo'' 7" by code_simp+
  have "panel_file cron_env0 ''c_demo'' 7 None" "length (tasks_of None) < maxTasks"
    by (simp_all add: panel_file_def tasks_of_def cron_read_def maxTasks_def)
  from long_comment_locks_crontab [OF a(1) this(1) a(2) _ this(2),
      of "ping_input\<lparr>in_task := (in_task ping_input)\<lparr>t_comment := c\<rparr>\<rparr>" "t\<lparr>t_comment := c\<rparr>"] len t
  show ?thesis by (auto simp: prepare_comment [OF t] case_prod_unfold)
qed

text \<open>An index that is not a number selects the first task: \<open>strconv.Atoi\<close>'s error is dropped.\<close>

theorem unparsable_index_deletes_first:
  assumes "account_ok e u d" "panel_file e u d spool" "answered c u d" "tasks_of spool \<noteq> []"
  shows "tasks_of (snd (cron_Delete e c ''last'' spool)) = renumber (tl (tasks_of spool))"
proof -
  have p: "parse_int_lossy ''last'' = 0" by code_simp
  show ?thesis
    using delete_acts [OF assms(1-3), of "''last''"] assms(4)
    by (cases "tasks_of spool") (simp_all add: case_prod_unfold p)
qed

text \<open>Writing the file again joins the words of every other task's command by single blanks.\<close>

definition spaced_task :: cron_task where
  "spaced_task = nightly\<lparr>t_command := ''printf (a  b)'', t_notify := []\<rparr>"

theorem other_commands_rewritten:
  "cron_validate spaced_task = None \<and>
   map t_command (tasks_of (Some (serializeCrontab cron_env0 ''c_demo'' 7 [spaced_task]))) = [''printf (a b)'']"
  by code_simp

text \<open>
  A blank inside a schedule field passes \<open>validate\<close>: the words after the fifth are the command that runs,
  outside the bound on its length, and the task read back is another one.
\<close>

definition smuggled_task :: cron_task where
  "smuggled_task = nightly\<lparr>t_minute := ''* * * * * make all #'', t_notify := []\<rparr>"

theorem schedule_field_carries_command:
  "cron_validate smuggled_task = None \<and>
   map t_command (tasks_of (Some (serializeCrontab cron_env0 ''c_demo'' 7 [smuggled_task]))) =
     [''make all # 3 * * * php artisan backup'']"
  by code_simp

text \<open>
  The sign crond turns into the end of the command is written as it stands: an address with an escaped
  character makes an accepted task whose line holds it.
\<close>

theorem percent_sign_unescaped:
  "\<exists>t. prepare_task cron_env0 (ping_input\<lparr>in_url := ''https://example.com/a%20b''\<rparr>) = Inr t \<and>
     contains (cron_line cron_env0 7 t) ''a%20b''"
proof -
  let ?i = "ping_input\<lparr>in_url := ''https://example.com/a%20b''\<rparr>"
  let ?t = "case prepare_task cron_env0 ?i of Inr t \<Rightarrow> t | Inl _ \<Rightarrow> paused"
  have "prepare_task cron_env0 ?i = Inr ?t" "contains (cron_line cron_env0 7 ?t) ''a%20b''" by code_simp+
  then show ?thesis by blast
qed

end
