(* ===== verification/DomainBlock.thy ===== *)
theory DomainBlock
  imports GoText "HOL-Library.AList"
begin

text \<open>
  The operator's list of host names that may not be added (internal/domainblock): matching, the cached
  read, the refusal every creation path asks for, and the two handlers that write the list. The table is an
  association list by name. Which statements fail, and the clock, are arguments.
\<close>

section \<open>Matching\<close>

record Rule =
  r_domain :: string
  r_description :: string
  r_match :: bool

definition cacheTTL :: duration where "cacheTTL = 60 * second"
definition maxEntriesPerRequest :: nat where "maxEntriesPerRequest = 500"

definition NormalizeHost :: "string \<Rightarrow> string" where
  "NormalizeHost hostname =
     (let h = go_lower (trim_space hostname) in if has_suffix h ''.'' then butlast h else h)"

definition Matches :: "Rule \<Rightarrow> string \<Rightarrow> bool" where
  "Matches rule hostname =
     (let name = NormalizeHost (r_domain rule) in
      if name = [] then False
      else if hostname = name then True
      else r_match rule \<and> has_suffix hostname (''.'' @ name))"

section \<open>The list and its cache\<close>

type_synonym block_row = "string \<times> bool \<times> int option"

record block_state =
  banned_domains :: "(string \<times> block_row) list"
  cached :: "Rule list"
  cachedAt :: time

definition rule_of :: "string \<times> block_row \<Rightarrow> Rule" where
  "rule_of = (\<lambda>(d, description, m, _). \<lparr>r_domain = d, r_description = description, r_match = m\<rparr>)"

definition block_Invalidate :: "block_state \<Rightarrow> block_state" where
  "block_Invalidate st = st\<lparr>cached := [], cachedAt := zero_time\<rparr>"

text \<open>\<open>None\<close> for a table that cannot be read.\<close>

definition store_rules :: "Rule list \<Rightarrow> time \<Rightarrow> block_state \<Rightarrow> block_state" where
  "store_rules rules now st = st\<lparr>cached := rules, cachedAt := now\<rparr>"

definition block_List :: "bool \<Rightarrow> time \<Rightarrow> block_state \<Rightarrow> Rule list option \<times> block_state" where
  "block_List readable now st =
     (if now - cacheTTL < cachedAt st then (Some (cached st), st)
      else if \<not> readable then (None, st)
      else let rules = map rule_of (banned_domains st)
        in (Some rules, store_rules rules now st))"

datatype block_answer = Unreadable | NotBlocked | BlockedBy Rule

definition Blocked :: "bool \<Rightarrow> time \<Rightarrow> string \<Rightarrow> block_state \<Rightarrow> block_answer \<times> block_state" where
  "Blocked readable now hostname st =
     (let name = NormalizeHost hostname in
      if name = [] then (NotBlocked, st)
      else case block_List readable now st of
          (None, st') \<Rightarrow> (Unreadable, st')
        | (Some rules, st') \<Rightarrow>
            (case find (\<lambda>rule. Matches rule name) rules of
               Some rule \<Rightarrow> (BlockedBy rule, st')
             | None \<Rightarrow> (NotBlocked, st')))"

text \<open>The status and code a creation is answered with, \<open>None\<close> when it may go on.\<close>

definition RefuseIfBlocked :: "bool \<Rightarrow> time \<Rightarrow> string \<Rightarrow> block_state \<Rightarrow> (int \<times> string) option \<times> block_state" where
  "RefuseIfBlocked readable now hostname st =
     (case Blocked readable now hostname st of
        (Unreadable, st') \<Rightarrow> (Some (500, ''domain_block_list_unreadable''), st')
      | (BlockedBy rule, st') \<Rightarrow> (Some (403, ''domain_name_is_blocked''), st')
      | (NotBlocked, st') \<Rightarrow> (None, st'))"

section \<open>Writing the list\<close>

definition entry_separator :: "char \<Rightarrow> bool" where
  "entry_separator c = (c \<in> set '',; '' \<or> c = CHR 10 \<or> c = CHR 13 \<or> c = CHR 9)"

fun fields_func :: "(char \<Rightarrow> bool) \<Rightarrow> string \<Rightarrow> string \<Rightarrow> string list" where
  "fields_func sep cur [] = (if cur = [] then [] else [cur])"
| "fields_func sep cur (c # s) =
     (if sep c then (if cur = [] then fields_func sep [] s else cur # fields_func sep [] s)
      else fields_func sep (cur @ [c]) s)"

fun unseen_names :: "string list \<Rightarrow> string list \<Rightarrow> string list" where
  "unseen_names [] seen = []"
| "unseen_names (f # fs) seen =
     (let name = NormalizeHost f in
      if name = [] \<or> name \<in> set seen then unseen_names fs seen else name # unseen_names fs (name # seen))"

definition parseEntries :: "string \<Rightarrow> string list" where
  "parseEntries blob = unseen_names (fields_func entry_separator [] blob) []"

record writeReq =
  w_domains :: string
  w_description :: string
  w_match :: "bool option"

definition requestedEntries :: "string \<Rightarrow> (int \<times> string) + string list" where
  "requestedEntries blob =
     (let entries = parseEntries blob in
      if entries = [] then Inl (400, ''no domain name was given'')
      else if maxEntriesPerRequest < length entries then Inl (400, ''too many domain names in one request'')
      else Inr entries)"

definition storedRule :: "writeReq \<Rightarrow> bool \<times> string" where
  "storedRule req =
     (w_match req \<noteq> Some False,
      let description = trim_space (w_description req) in
      if 255 < length description then take 255 description else description)"

text \<open>\<open>provisioner.ValidateDomain\<close> and its pattern: a letter or digit, 1 to 251 of letters, digits, dots and dashes, a dot, 2 to 24 letters.\<close>

definition host_alnum :: "char \<Rightarrow> bool" where "host_alnum c = (byte_in 97 122 c \<or> byte_in 48 57 c)"

definition domainNamePattern :: "string \<Rightarrow> bool" where
  "domainNamePattern d =
     (case last_index CHR ''.'' d of
        None \<Rightarrow> False
      | Some k \<Rightarrow>
          2 \<le> length d - (k + 1) \<and> length d - (k + 1) \<le> 24 \<and> list_all (byte_in 97 122) (drop (k + 1) d) \<and>
          2 \<le> k \<and> k \<le> 252 \<and> host_alnum (hd d) \<and>
          list_all (\<lambda>c. host_alnum c \<or> c = CHR ''.'' \<or> c = CHR ''-'') (drop 1 (take k d)))"

definition ValidateDomain :: "string \<Rightarrow> bool" where
  "ValidateDomain d =
     (let d = go_lower (trim_space d) in d \<noteq> [] \<and> length d \<le> 253 \<and> domainNamePattern d)"

record writeResult =
  Applied :: nat
  Skipped :: nat
  Rejected :: "string list"

text \<open>
  The row an insert leaves: a name already listed keeps who created it. MariaDB counts no row where
  nothing changes.
\<close>

definition banned_row :: "string \<Rightarrow> bool \<Rightarrow> int option \<Rightarrow> block_row option \<Rightarrow> block_row" where
  "banned_row description m createdBy old =
     (case old of None \<Rightarrow> (description, m, createdBy) | Some (_, _, creator) \<Rightarrow> (description, m, creator))"

fun writeEntries :: "(string \<Rightarrow> bool) \<Rightarrow> string \<Rightarrow> bool \<Rightarrow> int option \<Rightarrow> string list \<Rightarrow> writeResult \<Rightarrow> (string \<times> block_row) list \<Rightarrow>
    (writeResult \<times> bool) \<times> (string \<times> block_row) list" where
  "writeEntries fails description m createdBy [] result rows = ((result, True), rows)"
| "writeEntries fails description m createdBy (name # entries) result rows =
     (if \<not> ValidateDomain name then
        writeEntries fails description m createdBy entries (result\<lparr>Rejected := Rejected result @ [name]\<rparr>) rows
      else if fails name then ((result, False), rows)
      else let row = banned_row description m createdBy (map_of rows name);
               result = (if map_of rows name = Some row then result\<lparr>Skipped := Skipped result + 1\<rparr>
                         else result\<lparr>Applied := Applied result + 1\<rparr>)
        in writeEntries fails description m createdBy entries result (AList.update name row rows))"

definition no_write :: writeResult where
  "no_write = \<lparr>Applied = 0, Skipped = 0, Rejected = []\<rparr>"

definition block_Add :: "(string \<Rightarrow> bool) \<Rightarrow> int option \<Rightarrow> writeReq option \<Rightarrow> block_state \<Rightarrow> (int \<times> writeResult option) \<times> block_state" where
  "block_Add fails userID body st =
     (case body of
        None \<Rightarrow> ((400, None), st)
      | Some req \<Rightarrow>
          (case requestedEntries (w_domains req) of
             Inl (status, _) \<Rightarrow> ((status, None), st)
           | Inr entries \<Rightarrow>
               (case storedRule req of (m, description) \<Rightarrow>
                  (case writeEntries fails description m (case userID of Some u \<Rightarrow> if 0 < u then Some u else None | None \<Rightarrow> None)
                      entries no_write (banned_domains st) of
                     ((result, ok), rows) \<Rightarrow>
                       if \<not> ok then ((500, None), st\<lparr>banned_domains := rows\<rparr>)
                       else ((200, Some result), block_Invalidate (st\<lparr>banned_domains := rows\<rparr>))))))"

fun removeEntries :: "(string \<Rightarrow> bool) \<Rightarrow> (string \<Rightarrow> bool) \<Rightarrow> string list \<Rightarrow> writeResult \<Rightarrow> (string \<times> block_row) list \<Rightarrow>
    (writeResult \<times> bool) \<times> (string \<times> block_row) list" where
  "removeEntries fails uncounted [] result rows = ((result, True), rows)"
| "removeEntries fails uncounted (name # entries) result rows =
     (if fails name then ((result, False), rows)
      else if uncounted name then ((result, False), AList.delete name rows)
      else removeEntries fails uncounted entries
        (if map_of rows name = None then result\<lparr>Skipped := Skipped result + 1\<rparr> else result\<lparr>Applied := Applied result + 1\<rparr>)
        (AList.delete name rows))"

definition block_Remove :: "(string \<Rightarrow> bool) \<Rightarrow> (string \<Rightarrow> bool) \<Rightarrow> string option \<Rightarrow> block_state \<Rightarrow> (int \<times> writeResult option) \<times> block_state" where
  "block_Remove fails uncounted body st =
     (case body of
        None \<Rightarrow> ((400, None), st)
      | Some blob \<Rightarrow>
          (case requestedEntries blob of
             Inl (status, _) \<Rightarrow> ((status, None), st)
           | Inr entries \<Rightarrow>
               (case removeEntries fails uncounted entries no_write (banned_domains st) of
                  ((result, ok), rows) \<Rightarrow>
                    if \<not> ok then ((500, None), st\<lparr>banned_domains := rows\<rparr>)
                    else ((200, Some result), block_Invalidate (st\<lparr>banned_domains := rows\<rparr>)))))"

section \<open>Matching by labels\<close>

definition labels :: "string \<Rightarrow> string list" where "labels = split_on CHR ''.''"

lemma split_on_between: "split_on d (a @ d # b) = split_on d a @ split_on d b"
  by (induction a) (auto split: list.splits)

lemma join_append: "xs \<noteq> [] \<Longrightarrow> ys \<noteq> [] \<Longrightarrow> join sep (xs @ ys) = join sep xs @ sep @ join sep ys"
proof (induction sep xs rule: join.induct)
  case (2 sep x)
  then show ?case by (cases ys) simp_all
qed simp_all

lemma suffix_labels:
  "has_suffix h (CHR ''.'' # name) \<longleftrightarrow> (\<exists>pre. pre \<noteq> [] \<and> labels h = pre @ labels name)"
proof
  assume "has_suffix h (CHR ''.'' # name)"
  then obtain t where "h = t @ CHR ''.'' # name" by (auto simp: has_suffix_iff)
  then show "\<exists>pre. pre \<noteq> [] \<and> labels h = pre @ labels name"
    by (intro exI [of _ "labels t"]) (simp add: labels_def split_on_between)
next
  assume "\<exists>pre. pre \<noteq> [] \<and> labels h = pre @ labels name"
  then obtain pre where p: "pre \<noteq> []" "labels h = pre @ labels name" by blast
  have "h = join ''.'' (labels h)" by (simp add: labels_def join_split_on)
  also have "\<dots> = join ''.'' pre @ ''.'' @ name"
    using join_append [OF p(1), of "labels name" "''.''"] unfolding p(2) by (simp add: labels_def join_split_on)
  finally show "has_suffix h (CHR ''.'' # name)" by (auto simp: has_suffix_iff)
qed

text \<open>
  A rule refuses a host name by whole labels: the name itself, and with its subdomain mark the names that
  have its labels at their end and at least one before them, never a name that merely ends with the same
  characters; a rule without a name refuses nothing.
\<close>

theorem Matches_labels:
  "Matches rule h \<longleftrightarrow> NormalizeHost (r_domain rule) \<noteq> [] \<and>
     (labels h = labels (NormalizeHost (r_domain rule)) \<or>
      r_match rule \<and> (\<exists>pre. pre \<noteq> [] \<and> labels h = pre @ labels (NormalizeHost (r_domain rule))))"
proof -
  have "labels a = labels b \<longleftrightarrow> a = b" for a b using join_split_on unfolding labels_def by metis
  then show ?thesis by (auto simp: Matches_def Let_def suffix_labels)
qed

section \<open>Names the list stores\<close>

lemma domain_chars:
  assumes "domainNamePattern d"
  shows "list_all (\<lambda>c. host_alnum c \<or> c = CHR ''.'' \<or> c = CHR ''-'') d" and "d \<noteq> []" and "byte_in 97 122 (last d)" and "host_alnum (hd d)"
proof -
  obtain k where k: "last_index CHR ''.'' d = Some k" "2 \<le> length d - (k + 1)" "list_all (byte_in 97 122) (drop (k + 1) d)"
    "2 \<le> k" "host_alnum (hd d)" "list_all (\<lambda>c. host_alnum c \<or> c = CHR ''.'' \<or> c = CHR ''-'') (drop 1 (take k d))"
    using assms by (auto simp: domainNamePattern_def split: option.splits)
  have at: "k < length d" "d ! k = CHR ''.''" using last_index_Some [OF k(1)] by simp_all
  have "d = take k d @ d ! k # drop (k + 1) d" using id_take_nth_drop [OF at(1)] by simp
  moreover have "take k d = hd d # drop 1 (take k d)" using k(4) at by (cases d) (auto simp: take_Cons')
  ultimately have d: "d = (hd d # drop 1 (take k d)) @ CHR ''.'' # drop (k + 1) d" using at by simp
  have tld: "list_all (\<lambda>c. host_alnum c \<or> c = CHR ''.'' \<or> c = CHR ''-'') (drop (k + 1) d)"
    using k(3) by (auto simp: list_all_iff host_alnum_def)
  show "list_all (\<lambda>c. host_alnum c \<or> c = CHR ''.'' \<or> c = CHR ''-'') d"
    by (subst d) (use k(5,6) tld in simp)
  show "d \<noteq> []" using at by auto
  show "host_alnum (hd d)" by (rule k(5))
  have "drop (k + 1) d \<noteq> []" using k(2) by auto
  then have "last d \<in> set (drop (k + 1) d)" using last_in_set [of "drop (k + 1) d"] by (simp add: last_drop)
  then show "byte_in 97 122 (last d)" using k(3) by (simp add: list_all_iff)
qed

lemma domain_name_plain:
  assumes "domainNamePattern d"
  shows "go_lower d = d" and "trim_space d = d" and "NormalizeHost d = d"
proof -
  note c = domain_chars [OF assms]
  have b: "c \<noteq> CHR 0xC4 \<and> c \<noteq> CHR 0xE2 \<and> lower_char c = c \<and> byte c < 128 \<and> \<not> ascii_space c" if "c \<in> set d" for c
    using c(1) that by (auto simp: list_all_iff host_alnum_def byte_in_def byte_def lower_char_def ascii_space_def)
  have "to_lower d = d" using b by (auto simp: to_lower_def intro!: map_idI)
  moreover have "CHR 0xC4 \<notin> set d" "CHR 0xE2 \<notin> set d" using b by blast+
  ultimately show l: "go_lower d = d" by (simp add: go_lower_def replace_all_absent)
  show t: "trim_space d = d"
  proof -
    have "length d \<ge> 2" using assms by (auto simp: domainNamePattern_def split: option.splits)
    then have d: "d = hd d # butlast (tl d) @ [last d]" by (cases d; cases "tl d") simp_all
    have "hd d \<in> set d" "last d \<in> set d" using c(2) by simp_all
    then have "trim_space (hd d # butlast (tl d) @ [last d]) = hd d # butlast (tl d) @ [last d]"
      using b by (intro trim_space_plain_ends) blast+
    then show ?thesis unfolding d [symmetric] .
  qed
  have "last d \<noteq> CHR ''.''" using c(3) by (auto simp: byte_in_def byte_def)
  then have "\<not> has_suffix d ''.''" using c(2) by (auto simp: has_suffix_iff)
  then show "NormalizeHost d = d" by (simp add: NormalizeHost_def l t)
qed

section \<open>An acknowledged ban holds\<close>

lemma pattern_valid: "domainNamePattern d \<Longrightarrow> length d \<le> 253 \<Longrightarrow> ValidateDomain d"
  using domain_name_plain domain_chars(2) by (simp add: ValidateDomain_def)

lemma map_of_update: "map_of (AList.update k v al) k' = (if k' = k then Some v else map_of al k')"
  by (simp add: update_conv)

lemma map_of_delete: "map_of (AList.delete k al) k' = (if k' = k then None else map_of al k')"
  by (simp add: delete_conv)

text \<open>What a bulk write leaves under a name.\<close>

lemma writeEntries_other:
  "n \<notin> set entries \<Longrightarrow> map_of (snd (writeEntries fails d m cr entries r rows)) n = map_of rows n"
  by (induction fails d m cr entries r rows rule: writeEntries.induct) (auto simp: map_of_update Let_def)

lemma banned_row_form: "\<exists>c. banned_row d m cr old = (d, m, c)"
  by (auto simp: banned_row_def split: option.splits)

lemma writeEntries_named:
  "snd (fst (writeEntries fails d m cr entries r rows)) \<Longrightarrow> ValidateDomain n \<Longrightarrow>
   n \<in> set entries \<or> (\<exists>c. map_of rows n = Some (d, m, c)) \<Longrightarrow>
   \<exists>c. map_of (snd (writeEntries fails d m cr entries r rows)) n = Some (d, m, c)"
proof (induction fails d m cr entries r rows rule: writeEntries.induct)
  case (2 fails d m cr name entries r rows)
  show ?case
  proof (cases "ValidateDomain name \<and> \<not> fails name")
    case True
    have "n \<in> set entries \<or> (\<exists>c. map_of (AList.update name (banned_row d m cr (map_of rows name)) rows) n = Some (d, m, c))"
      using 2(5) banned_row_form [of d m cr "map_of rows name"] by (auto simp: map_of_update)
    note ih = 2(2) [OF _ _ refl refl _ 2(4) this]
    show ?thesis using ih True 2(3) by (simp add: Let_def split: if_splits)
  next
    case False
    then show ?thesis using 2 by (auto split: if_splits)
  qed
qed simp

lemma removeEntries_other:
  "n \<notin> set entries \<Longrightarrow> map_of (snd (removeEntries fails unc entries r rows)) n = map_of rows n"
  by (induction fails unc entries r rows rule: removeEntries.induct) (auto simp: map_of_delete)

text \<open>A rule is in force: it is a row of the table, and of the cache wherever that holds anything.\<close>

definition in_force :: "string \<Rightarrow> bool \<Rightarrow> block_state \<Rightarrow> bool" where
  "in_force name m st =
     (\<exists>description creator. map_of (banned_domains st) name = Some (description, m, creator) \<and>
        (0 < cachedAt st \<longrightarrow> \<lparr>r_domain = name, r_description = description, r_match = m\<rparr> \<in> set (cached st)))"

datatype block_op =
    OpAdd "string \<Rightarrow> bool" "int option" "writeReq option"
  | OpRemove "string \<Rightarrow> bool" "string \<Rightarrow> bool" "string option"
  | OpAsk bool time string

fun block_run :: "block_op \<Rightarrow> block_state \<Rightarrow> block_state" where
  "block_run (OpAdd fails userID body) st = snd (block_Add fails userID body st)"
| "block_run (OpRemove fails uncounted body) st = snd (block_Remove fails uncounted body st)"
| "block_run (OpAsk readable now hostname) st = snd (RefuseIfBlocked readable now hostname st)"

fun op_names :: "block_op \<Rightarrow> string list" where
  "op_names (OpAdd fails userID (Some req)) = parseEntries (w_domains req)"
| "op_names (OpRemove fails uncounted (Some blob)) = parseEntries blob"
| "op_names op = []"

lemma ask_state: "snd (RefuseIfBlocked readable now h st) \<in> {st, store_rules (map rule_of (banned_domains st)) now st}"
  by (auto simp: RefuseIfBlocked_def Blocked_def block_List_def Let_def split: option.splits)

lemma in_force_rows:
  "in_force name m st \<Longrightarrow> map_of rows name = map_of (banned_domains st) name \<Longrightarrow> in_force name m (st\<lparr>banned_domains := rows\<rparr>)"
  "in_force name m st \<Longrightarrow> map_of rows name = map_of (banned_domains st) name \<Longrightarrow> in_force name m (block_Invalidate (st\<lparr>banned_domains := rows\<rparr>))"
  by (auto simp: in_force_def block_Invalidate_def zero_time_def)

lemma requested_names: "requestedEntries blob = Inr entries \<Longrightarrow> entries = parseEntries blob"
  by (auto simp: requestedEntries_def Let_def split: if_splits)

lemma in_force_op:
  assumes f: "in_force name m st" and n: "name \<notin> set (op_names op)"
  shows "in_force name m (block_run op st)"
proof (cases op)
  case (OpAdd fails userID body)
  then show ?thesis
    using f n in_force_rows [OF f writeEntries_other]
    by (auto simp: block_Add_def split: option.splits sum.splits prod.splits if_splits dest!: requested_names)
       (metis snd_conv)+
next
  case (OpRemove fails uncounted body)
  then show ?thesis
    using f n in_force_rows [OF f removeEntries_other]
    by (auto simp: block_Remove_def split: option.splits sum.splits prod.splits if_splits dest!: requested_names)
       (metis snd_conv)+
next
  case (OpAsk readable now h)
  have "in_force name m (store_rules (map rule_of (banned_domains st)) now st)"
    using f by (force simp: in_force_def store_rules_def rule_of_def dest: map_of_SomeD)
  then show ?thesis using ask_state [of readable now h st] f OpAsk by auto
qed

lemma in_force_ops:
  "in_force name m st \<Longrightarrow> list_all (\<lambda>op. name \<notin> set (op_names op)) ops \<Longrightarrow> in_force name m (foldl (\<lambda>s op. block_run op s) st ops)"
  by (induction ops arbitrary: st) (simp_all add: in_force_op)

lemma added_in_force:
  assumes "block_Add fails userID (Some req) st = ((200, Some result), st1)"
    and "name \<in> set (parseEntries (w_domains req))" "ValidateDomain name"
  shows "in_force name (w_match req \<noteq> Some False) st1"
proof -
  obtain entries where e: "requestedEntries (w_domains req) = Inr entries"
    using assms(1) by (auto simp: block_Add_def split: sum.splits prod.splits if_splits)
  define cr where "cr = (case userID of Some u \<Rightarrow> if 0 < u then Some u else None | None \<Rightarrow> None)"
  obtain m d where md: "storedRule req = (m, d)" by fastforce
  obtain r ok rows where w: "writeEntries fails d m cr entries no_write (banned_domains st) = ((r, ok), rows)"
    by (metis prod.exhaust)
  have run: "ok \<and> st1 = block_Invalidate (st\<lparr>banned_domains := rows\<rparr>)"
    using assms(1) e md w by (auto simp: block_Add_def cr_def [symmetric] split: if_splits)
  have "\<exists>c. map_of rows name = Some (d, m, c)"
    using writeEntries_named [of fails d m cr entries no_write "banned_domains st" name] w run assms(2,3) requested_names [OF e]
    by auto
  moreover have "m = (w_match req \<noteq> Some False)" using md by (simp add: storedRule_def)
  ultimately show ?thesis using run by (auto simp: in_force_def block_Invalidate_def zero_time_def)
qed

lemma refused_in_force:
  assumes f: "in_force name m st" and name: "domainNamePattern name" and now: "cacheTTL \<le> now"
    and h: "NormalizeHost h = name \<or> m \<and> has_suffix (NormalizeHost h) (CHR ''.'' # name)"
  shows "fst (RefuseIfBlocked readable now h st) \<noteq> None"
proof -
  obtain d c where row: "map_of (banned_domains st) name = Some (d, m, c)"
    and cache: "0 < cachedAt st \<longrightarrow> \<lparr>r_domain = name, r_description = d, r_match = m\<rparr> \<in> set (cached st)"
    using f by (auto simp: in_force_def)
  let ?rule = "\<lparr>r_domain = name, r_description = d, r_match = m\<rparr>"
  have hn: "NormalizeHost h \<noteq> []" using h domain_chars(2) [OF name] by (auto simp: has_suffix_iff)
  have match: "Matches ?rule (NormalizeHost h)"
    using h domain_name_plain(3) [OF name] domain_chars(2) [OF name] by (auto simp: Matches_def)
  have table: "?rule \<in> set (map rule_of (banned_domains st))"
    using map_of_SomeD [OF row] by (force simp: rule_of_def)
  have found: "find (\<lambda>rule. Matches rule (NormalizeHost h)) rules \<noteq> None" if "?rule \<in> set rules" for rules
    using that match by (auto simp: find_None_iff)
  show ?thesis
  proof (cases "now - cacheTTL < cachedAt st")
    case True
    then have "find (\<lambda>rule. Matches rule (NormalizeHost h)) (cached st) \<noteq> None" using cache now by (intro found) simp
    then show ?thesis using hn True by (auto simp: RefuseIfBlocked_def Blocked_def block_List_def)
  next
    case False
    obtain x where "find (\<lambda>rule. Matches rule (NormalizeHost h)) (map rule_of (banned_domains st)) = Some x"
      using found [OF table] by blast
    then show ?thesis using hn False by (simp add: RefuseIfBlocked_def Blocked_def block_List_def Let_def)
  qed
qed


definition bank_req :: writeReq where
  "bank_req = \<lparr>w_domains = ''Example-Bank.com, not valid'', w_description = '' phishing '', w_match = None\<rparr>"

definition empty_list :: block_state where
  "empty_list = \<lparr>banned_domains = [], cached = [], cachedAt = 0\<rparr>"


section \<open>Bans that are not seen\<close>

lemma not_refused_cached:
  assumes "now - cacheTTL < cachedAt st" "find (\<lambda>rule. Matches rule (NormalizeHost h)) (cached st) = None"
  shows "fst (RefuseIfBlocked readable now h st) = None"
  using assms by (simp add: RefuseIfBlocked_def Blocked_def block_List_def Let_def)

text \<open>
  A request whose later name could not be written answers 500 and returns before the cache is dropped:
  the names already written are in the table, and creations of them go on as long as the cache is fresh.
\<close>

theorem failed_write_not_seen:
  assumes "block_Add fails userID (Some req) st = ((500, None), st1)"
    and "now - cacheTTL < cachedAt st" "find (\<lambda>rule. Matches rule (NormalizeHost h)) (cached st) = None"
  shows "fst (RefuseIfBlocked readable now h st1) = None"
proof -
  have "cached st1 = cached st" "cachedAt st1 = cachedAt st"
    using assms(1) by (auto simp: block_Add_def split: sum.splits prod.splits if_splits dest: sym)
  then show ?thesis using assms(2,3) by (intro not_refused_cached) simp_all
qed

definition two_banks :: writeReq where
  "two_banks = bank_req\<lparr>w_domains := ''first-bank.com second-bank.com''\<rparr>"

theorem failed_write_not_seen_witness:
  "\<exists>st1. block_Add (\<lambda>n. n = ''second-bank.com'') (Some 1) (Some two_banks) (empty_list\<lparr>cachedAt := 2 * cacheTTL\<rparr>) = ((500, None), st1) \<and>
     map_of (banned_domains st1) ''first-bank.com'' \<noteq> None \<and>
     fst (RefuseIfBlocked True (2 * cacheTTL + second) ''first-bank.com'' st1) = None"
proof -
  let ?st = "empty_list\<lparr>cachedAt := 2 * cacheTTL\<rparr>"
  let ?a = "block_Add (\<lambda>n. n = ''second-bank.com'') (Some 1) (Some two_banks) ?st"
  have run: "?a = ((500, None), snd ?a)" "map_of (banned_domains (snd ?a)) ''first-bank.com'' \<noteq> None"
    by (subst prod_eq_iff, simp, code_simp) code_simp
  have "fst (RefuseIfBlocked True (2 * cacheTTL + second) ''first-bank.com'' (snd ?a)) = None"
    by (rule failed_write_not_seen [OF run(1)]) (simp_all add: empty_list_def cacheTTL_def second_def)
  then show ?thesis using run by blast
qed

text \<open>
  A read that is under way when a ban is acknowledged hides it: the rows read before are stored into
  the cache after it was dropped, and for a minute from then the name is not refused although it is in the table.
\<close>

theorem overtaken_read_hides_ban:
  assumes "block_Add fails userID (Some req) st = ((200, Some result), st1)"
    and "name \<in> set (parseEntries (w_domains req))" "ValidateDomain name"
    and "find (\<lambda>rule. Matches rule (NormalizeHost h)) (map rule_of (banned_domains st)) = None"
    and "later < stored_at + cacheTTL"
  shows "map_of (banned_domains (store_rules (map rule_of (banned_domains st)) stored_at st1)) name \<noteq> None \<and>
    fst (RefuseIfBlocked readable later h (store_rules (map rule_of (banned_domains st)) stored_at st1)) = None"
proof
  show "map_of (banned_domains (store_rules (map rule_of (banned_domains st)) stored_at st1)) name \<noteq> None"
    using added_in_force [OF assms(1-3)] by (auto simp: in_force_def store_rules_def)
  show "fst (RefuseIfBlocked readable later h (store_rules (map rule_of (banned_domains st)) stored_at st1)) = None"
    using assms(4,5) by (intro not_refused_cached) (simp_all add: store_rules_def)
qed

theorem overtaken_read_hides_ban_witness:
  "\<exists>st1. block_Add (\<lambda>n. False) (Some 1) (Some bank_req) empty_list = ((200, Some \<lparr>Applied = 1, Skipped = 0, Rejected = [''not'', ''valid'']\<rparr>), st1) \<and>
     fst (RefuseIfBlocked True (2 * cacheTTL + second) ''example-bank.com'' (store_rules [] (2 * cacheTTL) st1)) = None"
proof -
  let ?a = "block_Add (\<lambda>n. False) (Some 1) (Some bank_req) empty_list"
  have run: "?a = ((200, Some \<lparr>Applied = 1, Skipped = 0, Rejected = [''not'', ''valid'']\<rparr>), snd ?a)"
    by (subst prod_eq_iff) (simp, code_simp)
  have n: "''example-bank.com'' \<in> set (parseEntries (w_domains bank_req))" "ValidateDomain ''example-bank.com''" by code_simp+
  from overtaken_read_hides_ban [OF run n, of "''example-bank.com''" "2 * cacheTTL + second" "2 * cacheTTL" True] run
  show ?thesis by (auto simp: empty_list_def cacheTTL_def second_def)
qed

end
