(* ===== verification/MtaSts.thy ===== *)
theory MtaSts
  imports GoText
begin

text \<open>
  The publication of a domain's MTA-STS policy (internal/mtasts): the sequence of modes, the handlers, the
  heal that advances it, the policy file senders fetch, and the records of the zone. One domain is modelled,
  the domains are independent. Times are seconds of the database's clock. Which statements fail, whether the
  host name resolves, what certificates cover and the fresh policy id are arguments.
\<close>

section \<open>Modes and the policy file\<close>

datatype mta_mode = ModeOff | ModePendingDNS | ModePendingCert | ModeTesting | ModeEnforce | ModeWithdrawing

fun mode_text :: "mta_mode \<Rightarrow> string" where
  "mode_text ModeOff = ''off''"
| "mode_text ModePendingDNS = ''pending_dns''"
| "mode_text ModePendingCert = ''pending_cert''"
| "mode_text ModeTesting = ''testing''"
| "mode_text ModeEnforce = ''enforce''"
| "mode_text ModeWithdrawing = ''withdrawing''"

definition MaxAgeTesting :: int where "MaxAgeTesting = 86400"
definition MaxAgeEnforce :: int where "MaxAgeEnforce = 604800"
definition TestingSoakDays :: int where "TestingSoakDays = 7"

definition ValidMode :: "string \<Rightarrow> bool" where
  "ValidMode s = (s = mode_text ModeTesting \<or> s = mode_text ModeEnforce)"

fun Published :: "mta_mode \<Rightarrow> bool" where
  "Published ModeTesting = True"
| "Published ModeEnforce = True"
| "Published ModeWithdrawing = True"
| "Published _ = False"

datatype policy_error = ErrNotPublished | ErrNoMXHost

definition crlf :: string where "crlf = [CHR 13, CHR 10]"

definition PolicyFile :: "mta_mode \<Rightarrow> string list \<Rightarrow> policy_error + string" where
  "PolicyFile mode mxHosts =
     (if \<not> Published mode then Inl ErrNotPublished
      else let published = (if mode = ModeWithdrawing then ''none'' else mode_text mode);
               maxAge = (if mode = ModeEnforce then MaxAgeEnforce else MaxAgeTesting)
        in if published \<noteq> ''none'' \<and> mxHosts = [] then Inl ErrNoMXHost
           else Inr (''version: STSv1'' @ crlf @ ''mode: '' @ published @ crlf @
             concat (map (\<lambda>host. ''mx: '' @ host @ crlf) mxHosts) @ ''max_age: '' @ itoa maxAge @ crlf))"

definition PolicyTXT :: "string \<Rightarrow> string" where "PolicyTXT i = ''v=STSv1; id='' @ i"
definition ReportTXT :: "string \<Rightarrow> string" where "ReportTXT address = ''v=TLSRPTv1; rua=mailto:'' @ address"

section \<open>State\<close>

record dns_row =
  d_name :: string
  d_type :: string
  d_value :: string

text \<open>
  The row of \<open>mail_domains\<close> with the domain's name, the values of its enabled MX records in the order of
  the query, its other records, and the records of the zone as last written.
\<close>

record mta_state =
  m_name :: string
  m_active :: bool
  m_mode :: mta_mode
  m_id :: string
  m_changed :: "int option"
  m_mx :: "string list"
  m_rows :: "dns_row list"
  m_zone :: "dns_row list"

datatype mta_statement = LoadDomain | ReadMX | ReadSoak | NewID | WriteMode | ReadID | RecordTx | ZoneWrite | RespondState

record mta_env =
  e_fails :: "mta_statement \<Rightarrow> bool"
  e_now :: int
  e_id :: string
  e_resolves :: bool
  e_cert :: bool
  e_mxcert :: "string \<Rightarrow> bool"
  e_ipv4 :: string

definition mx_host :: "string \<Rightarrow> string option" where
  "mx_host value =
     (let host = trim_suffix (trim_space value) ''.'' in
      if host \<noteq> [] \<and> \<not> list_ex (\<lambda>c. c \<in> set [CHR '' '', CHR 9, CHR 13, CHR 10]) host then Some host else None)"

definition MXHosts :: "mta_env \<Rightarrow> mta_state \<Rightarrow> string list option" where
  "MXHosts e m = (if e_fails e ReadMX then None else Some (List.map_filter mx_host (m_mx m)))"

datatype lock_reason = ReasonNotTesting | ReasonSoak | ReasonMXCertUnset

definition soaked :: "mta_env \<Rightarrow> mta_state \<Rightarrow> bool" where
  "soaked e m = (case m_changed m of None \<Rightarrow> False | Some t \<Rightarrow> t \<le> e_now e - TestingSoakDays * 86400)"

text \<open>\<open>None\<close> when enforce may be selected.\<close>

definition enforceLock :: "mta_env \<Rightarrow> mta_state \<Rightarrow> string list \<Rightarrow> lock_reason option" where
  "enforceLock e m hosts =
     (if m_mode m \<noteq> ModeTesting \<and> m_mode m \<noteq> ModeEnforce then Some ReasonNotTesting
      else if hosts = [] then Some ReasonMXCertUnset
      else if \<not> list_all (e_mxcert e) hosts then Some ReasonMXCertUnset
      else if m_mode m = ModeEnforce then None
      else if e_fails e ReadSoak then Some ReasonSoak
      else if \<not> soaked e m then Some ReasonSoak
      else None)"

definition setMode :: "mta_env \<Rightarrow> mta_mode \<Rightarrow> bool \<Rightarrow> mta_state \<Rightarrow> bool \<times> mta_state" where
  "setMode e mode newID m =
     (if newID then
        (if e_fails e NewID \<or> e_fails e WriteMode then (False, m)
         else (True, m\<lparr>m_mode := mode, m_id := e_id e, m_changed := Some (e_now e)\<rparr>))
      else if e_fails e WriteMode then (False, m)
      else (True, m\<lparr>m_mode := mode, m_changed := Some (e_now e)\<rparr>))"

section \<open>Records\<close>

definition labelPolicyHost :: string where "labelPolicyHost = ''mta-sts''"
definition labelPolicyTXT :: string where "labelPolicyTXT = ''_mta-sts''"
definition labelReportTXT :: string where "labelReportTXT = ''_smtp._tls''"

definition is_record :: "string \<Rightarrow> string \<Rightarrow> dns_row \<Rightarrow> bool" where
  "is_record name type r = (d_name r = name \<and> d_type r = type)"

text \<open>Rows that are replaced, or one that is added; the number of rows changed only decides between asking for the rows and not.\<close>

definition upsertRecord :: "string \<Rightarrow> string \<Rightarrow> string \<Rightarrow> dns_row list \<Rightarrow> dns_row list" where
  "upsertRecord name type val rows =
     (let updated = map (\<lambda>r. if is_record name type r then r\<lparr>d_value := val\<rparr> else r) rows in
      if updated \<noteq> rows then updated
      else if list_ex (is_record name type) rows then rows
      else rows @ [\<lparr>d_name = name, d_type = type, d_value = val\<rparr>])"

definition deleteRecord :: "string \<Rightarrow> string \<Rightarrow> dns_row list \<Rightarrow> dns_row list" where
  "deleteRecord name type rows = filter (\<lambda>r. \<not> is_record name type r) rows"

text \<open>A transaction that changes the rows, then the zone.\<close>

definition record_tx :: "mta_env \<Rightarrow> (dns_row list \<Rightarrow> dns_row list) \<Rightarrow> mta_state \<Rightarrow> bool \<times> mta_state" where
  "record_tx e change m =
     (if e_fails e RecordTx then (False, m)
      else let m = m\<lparr>m_rows := change (m_rows m)\<rparr> in
        if e_fails e ZoneWrite then (False, m) else (True, m\<lparr>m_zone := m_rows m\<rparr>))"

definition reportAddress :: "string \<Rightarrow> string" where "reportAddress name = ''postmaster@'' @ name"

definition WriteEnableRecords :: "mta_env \<Rightarrow> mta_state \<Rightarrow> bool \<times> mta_state" where
  "WriteEnableRecords e m =
     (if trim_space (e_ipv4 e) = [] then (False, m)
      else record_tx e (\<lambda>rows. upsertRecord labelReportTXT ''TXT'' (ReportTXT (reportAddress (m_name m)))
                                 (upsertRecord labelPolicyHost ''A'' (e_ipv4 e) rows)) m)"

definition WritePolicyTXT :: "mta_env \<Rightarrow> string \<Rightarrow> mta_state \<Rightarrow> bool \<times> mta_state" where
  "WritePolicyTXT e i m = record_tx e (upsertRecord labelPolicyTXT ''TXT'' (PolicyTXT i)) m"

definition RemoveRecords :: "mta_env \<Rightarrow> mta_state \<Rightarrow> bool \<times> mta_state" where
  "RemoveRecords e m =
     record_tx e (\<lambda>rows. deleteRecord labelPolicyHost ''A'' (deleteRecord labelPolicyTXT ''TXT'' rows)) m"

section \<open>Handlers\<close>

definition respondState :: "mta_env \<Rightarrow> mta_state \<Rightarrow> int \<times> mta_state" where
  "respondState e m = (if e_fails e RespondState then (500, m) else (200, m))"

definition republish :: "mta_env \<Rightarrow> mta_state \<Rightarrow> bool \<times> mta_state" where
  "republish e m = (if e_fails e ReadID then (False, m) else WritePolicyTXT e (m_id m) m)"

definition mta_enforce :: "mta_env \<Rightarrow> mta_state \<Rightarrow> int \<times> mta_state" where
  "mta_enforce e m =
     (case MXHosts e m of
        None \<Rightarrow> (500, m)
      | Some hosts \<Rightarrow>
          (case enforceLock e m hosts of
             Some reason \<Rightarrow> (403, m)
           | None \<Rightarrow>
               (case setMode e ModeEnforce True m of
                  (False, m) \<Rightarrow> (500, m)
                | (True, m) \<Rightarrow>
                    (case republish e m of
                       (False, m) \<Rightarrow> (500, m)
                     | (True, m) \<Rightarrow> respondState e m))))"

definition startTesting :: "mta_env \<Rightarrow> mta_state \<Rightarrow> int \<times> mta_state" where
  "startTesting e m =
     (if Published (m_mode m) then (409, m)
      else case WriteEnableRecords e m of
          (False, m) \<Rightarrow> (500, m)
        | (True, m) \<Rightarrow>
            (case setMode e ModePendingDNS False m of
               (False, m) \<Rightarrow> (500, m)
             | (True, m) \<Rightarrow> respondState e m))"

text \<open>\<open>loadDomain\<close>: the domain's row only while its mail is active.\<close>

definition with_domain :: "mta_env \<Rightarrow> (mta_state \<Rightarrow> int \<times> mta_state) \<Rightarrow> mta_state \<Rightarrow> int \<times> mta_state" where
  "with_domain e act m =
     (if e_fails e LoadDomain then (500, m) else if \<not> m_active m then (404, m) else act m)"

definition mta_Post :: "mta_env \<Rightarrow> string option \<Rightarrow> mta_state \<Rightarrow> int \<times> mta_state" where
  "mta_Post e body m =
     (case body of
        None \<Rightarrow> (400, m)
      | Some s \<Rightarrow>
          let requested = go_lower (trim_space s) in
          if \<not> ValidMode requested then (400, m)
          else with_domain e (if requested = mode_text ModeEnforce then mta_enforce e else startTesting e) m)"

definition mta_Delete :: "mta_env \<Rightarrow> mta_state \<Rightarrow> int \<times> mta_state" where
  "mta_Delete e m =
     with_domain e (\<lambda>m.
       if m_mode m = ModeOff then (409, m)
       else if \<not> Published (m_mode m) then
         (case RemoveRecords e m of
            (False, m) \<Rightarrow> (500, m)
          | (True, m) \<Rightarrow>
              (case setMode e ModeOff False m of
                 (False, m) \<Rightarrow> (500, m)
               | (True, m) \<Rightarrow> respondState e m))
       else
         (case setMode e ModeWithdrawing True m of
            (False, m) \<Rightarrow> (500, m)
          | (True, m) \<Rightarrow>
              (case republish e m of
                 (False, m) \<Rightarrow> (500, m)
               | (True, m) \<Rightarrow> respondState e m))) m"

text \<open>\<open>policyHostDomain\<close>: the domain a host name fetches the policy of, empty for none.\<close>

definition policyHostDomain :: "string \<Rightarrow> string" where
  "policyHostDomain host =
     (let host = go_lower (trim_space host);
          host = (case last_index CHR '':'' host of
              Some i \<Rightarrow> if CHR '']'' \<in> set (drop i host) then host else take i host
            | None \<Rightarrow> host);
          host = trim host ''.''
      in if \<not> has_prefix host ''mta-sts.'' then []
         else let rest = drop 8 host in
           if rest = [] \<or> CHR ''.'' \<notin> set rest then []
           else if list_ex (\<lambda>c. c \<in> set [CHR '' '', CHR 9, CHR 13, CHR 10, CHR 0x00, CHR ''/'', CHR 0x5C]) rest then []
           else rest)"

text \<open>The policy file as a sender fetches it; the status for every other answer.\<close>

definition mta_Policy :: "mta_env \<Rightarrow> string \<Rightarrow> mta_state \<Rightarrow> int + string" where
  "mta_Policy e host m =
     (let domain = policyHostDomain host in
      if domain = [] then Inl 404
      else if e_fails e LoadDomain then Inl 503
      else if domain \<noteq> m_name m \<or> \<not> m_active m then Inl 404
      else if \<not> Published (m_mode m) then Inl 404
      else case MXHosts e m of
          None \<Rightarrow> Inl 503
        | Some hosts \<Rightarrow> (case PolicyFile (m_mode m) hosts of Inl err \<Rightarrow> Inl 404 | Inr body \<Rightarrow> Inr body))"

section \<open>The heal\<close>

text \<open>A row of a pass: the mode read, and for how long it has been the mode. A pass reads all rows before it acts on any.\<close>

type_synonym pendingDomain = "mta_mode \<times> int"

definition heal_read :: "int \<Rightarrow> mta_state \<Rightarrow> pendingDomain option" where
  "heal_read now m =
     (if m_active m \<and> m_mode m \<in> {ModePendingDNS, ModePendingCert, ModeWithdrawing}
      then Some (m_mode m, case m_changed m of None \<Rightarrow> -1 | Some t \<Rightarrow> now - t) else None)"

definition mta_advance :: "mta_env \<Rightarrow> pendingDomain \<Rightarrow> mta_state \<Rightarrow> bool \<times> mta_state" where
  "mta_advance e row m =
     (case row of (mode, withdrawnFor) \<Rightarrow>
        (case mode of
           ModePendingDNS \<Rightarrow> if \<not> e_resolves e then (True, m) else setMode e ModePendingCert False m
         | ModePendingCert \<Rightarrow>
             if \<not> e_cert e then (True, m)
             else (case setMode e ModeTesting True m of
                 (False, m) \<Rightarrow> (False, m)
               | (True, m) \<Rightarrow> WritePolicyTXT e (m_id m) m)
         | ModeWithdrawing \<Rightarrow>
             if withdrawnFor < 0 \<or> withdrawnFor < MaxAgeEnforce then (True, m)
             else (case RemoveRecords e m of
                 (False, m) \<Rightarrow> (False, m)
               | (True, m) \<Rightarrow> setMode e ModeOff False m)
         | _ \<Rightarrow> (True, m)))"

definition mta_Heal :: "mta_env \<Rightarrow> mta_state \<Rightarrow> mta_state" where
  "mta_Heal e m = (case heal_read (e_now e) m of None \<Rightarrow> m | Some row \<Rightarrow> snd (mta_advance e row m))"

end
