(* ===== verification/MtaStsSafety.thy ===== *)
theory MtaStsSafety
  imports MtaSts
begin

text \<open>
  What the publication sequence guarantees: a sender's cached policy has expired before the records go,
  enforcement is reached only after the soak, the sequence completes, and where it does not keep what it
  promises.
\<close>

section \<open>Runs\<close>

text \<open>
  The domain, the clock, the row a heal pass has read and not yet acted on, and the policies senders fetched
  with the time and the mode they were served in.
\<close>

record mta_world =
  w_state :: mta_state
  w_now :: int
  w_heal :: "pendingDomain option"
  w_fetched :: "(int \<times> mta_mode) list"

definition same_publication :: "mta_state \<Rightarrow> mta_state \<Rightarrow> bool" where
  "same_publication m m' = (m_mode m' = m_mode m \<and> m_id m' = m_id m \<and> m_changed m' = m_changed m \<and> m_name m' = m_name m)"

text \<open>
  Requests act at once; a heal pass reads and acts in two steps, with anything in between. The domain's
  other settings (its MX records, its zone, whether its mail is active) change at any time.
\<close>

inductive mta_step :: "mta_world \<Rightarrow> mta_world \<Rightarrow> bool" where
  Elapse: "0 \<le> d \<Longrightarrow> mta_step w (w\<lparr>w_now := w_now w + d\<rparr>)"
| Posted: "e_now e = w_now w \<Longrightarrow> mta_step w (w\<lparr>w_state := snd (mta_Post e body (w_state w))\<rparr>)"
| Deleted: "e_now e = w_now w \<Longrightarrow> mta_step w (w\<lparr>w_state := snd (mta_Delete e (w_state w))\<rparr>)"
| HealRead: "w_heal w = None \<Longrightarrow> mta_step w (w\<lparr>w_heal := heal_read (w_now w) (w_state w)\<rparr>)"
| HealAct: "w_heal w = Some row \<Longrightarrow> e_now e = w_now w \<Longrightarrow>
    mta_step w (w\<lparr>w_state := snd (mta_advance e row (w_state w)), w_heal := None\<rparr>)"
| Fetched: "mta_Policy e host (w_state w) = Inr body \<Longrightarrow>
    mta_step w (w\<lparr>w_fetched := (w_now w, m_mode (w_state w)) # w_fetched w\<rparr>)"
| Edited: "same_publication (w_state w) m \<Longrightarrow> mta_step w (w\<lparr>w_state := m\<rparr>)"

definition mta_start :: "mta_world \<Rightarrow> bool" where
  "mta_start w = (m_mode (w_state w) = ModeOff \<and> w_heal w = None \<and> w_fetched w = [])"

definition mta_reachable :: "mta_world \<Rightarrow> bool" where
  "mta_reachable w = (\<exists>w0. mta_start w0 \<and> mta_step\<^sup>*\<^sup>* w0 w)"

section \<open>The modes an operation leads to\<close>

text \<open>The mode with its time, and how the operations are put together: on a failure they stop with what was done.\<close>

definition mode_at :: "mta_state \<Rightarrow> mta_mode \<times> int option" where "mode_at m = (m_mode m, m_changed m)"

lemma mode_at_then [simp]:
  "mode_at (snd (case r of (False, m1) \<Rightarrow> (s, m1) | (True, m1) \<Rightarrow> f m1)) =
     (if fst r then mode_at (snd (f (snd r))) else mode_at (snd r))"
  by (cases r; cases "fst r") auto

lemma mode_at_setMode [simp]:
  "mode_at (snd (setMode e mode b m)) = (if fst (setMode e mode b m) then (mode, Some (e_now e)) else mode_at m)"
  by (simp add: setMode_def mode_at_def)

lemma mode_at_record_tx [simp]: "mode_at (snd (record_tx e change m)) = mode_at m"
  by (simp add: record_tx_def mode_at_def Let_def)

lemma mode_at_writers [simp]:
  "mode_at (snd (WritePolicyTXT e i m)) = mode_at m"
  "mode_at (snd (RemoveRecords e m)) = mode_at m"
  "mode_at (snd (WriteEnableRecords e m)) = mode_at m"
  "mode_at (snd (respondState e m)) = mode_at m"
  by (simp_all add: WritePolicyTXT_def RemoveRecords_def WriteEnableRecords_def respondState_def)

lemma mode_at_republish [simp]: "mode_at (snd (republish e m)) = mode_at m"
  by (simp add: republish_def)

lemma enforce_modes:
  "mode_at (snd (mta_enforce e m)) = mode_at m \<or>
   m_mode m \<in> {ModeTesting, ModeEnforce} \<and> mode_at (snd (mta_enforce e m)) = (ModeEnforce, Some (e_now e))"
  by (simp add: mta_enforce_def enforceLock_def split: option.split)

lemma start_modes:
  "mode_at (snd (startTesting e m)) = mode_at m \<or>
   \<not> Published (m_mode m) \<and> mode_at (snd (startTesting e m)) = (ModePendingDNS, Some (e_now e))"
  by (simp add: startTesting_def)

lemma post_modes:
  "mode_at (snd (mta_Post e body m)) = mode_at m \<or>
   \<not> Published (m_mode m) \<and> mode_at (snd (mta_Post e body m)) = (ModePendingDNS, Some (e_now e)) \<or>
   m_mode m \<in> {ModeTesting, ModeEnforce} \<and> mode_at (snd (mta_Post e body m)) = (ModeEnforce, Some (e_now e))"
  using enforce_modes [of e m] start_modes [of e m] by (cases body) (auto simp: mta_Post_def with_domain_def Let_def)

lemma delete_modes:
  "mode_at (snd (mta_Delete e m)) = mode_at m \<or>
   \<not> Published (m_mode m) \<and> mode_at (snd (mta_Delete e m)) = (ModeOff, Some (e_now e)) \<or>
   Published (m_mode m) \<and> mode_at (snd (mta_Delete e m)) = (ModeWithdrawing, Some (e_now e))"
  by (simp add: mta_Delete_def with_domain_def)

lemma advance_modes:
  "mode_at (snd (mta_advance e (mode, n) m)) = mode_at m \<or>
   mode = ModePendingDNS \<and> mode_at (snd (mta_advance e (mode, n) m)) = (ModePendingCert, Some (e_now e)) \<or>
   mode = ModePendingCert \<and> mode_at (snd (mta_advance e (mode, n) m)) = (ModeTesting, Some (e_now e)) \<or>
   mode = ModeWithdrawing \<and> MaxAgeEnforce \<le> n \<and> mode_at (snd (mta_advance e (mode, n) m)) = (ModeOff, Some (e_now e))"
  by (cases mode) (simp_all add: mta_advance_def)

section \<open>What senders hold\<close>

text \<open>Every policy fetched in testing or enforce mode was fetched at the given time or before.\<close>

definition held_until :: "mta_world \<Rightarrow> int \<Rightarrow> bool" where
  "held_until w c = list_all (\<lambda>(t, k). k \<in> {ModeTesting, ModeEnforce} \<longrightarrow> t \<le> c) (w_fetched w)"

definition mta_inv :: "mta_world \<Rightarrow> bool" where
  "mta_inv w =
     (held_until w (w_now w) \<and>
      (\<not> Published (m_mode (w_state w)) \<longrightarrow> held_until w (w_now w - MaxAgeEnforce)) \<and>
      (m_mode (w_state w) = ModeWithdrawing \<longrightarrow> (\<exists>c. m_changed (w_state w) = Some c \<and> held_until w c)) \<and>
      (case w_heal w of None \<Rightarrow> True
       | Some (k, n) \<Rightarrow>
           if k = ModeWithdrawing then
             m_mode (w_state w) = ModeWithdrawing \<and> (MaxAgeEnforce \<le> n \<longrightarrow> held_until w (w_now w - MaxAgeEnforce))
           else k \<in> {ModePendingDNS, ModePendingCert} \<and> \<not> Published (m_mode (w_state w))))"

lemma held_until_mono: "held_until w c \<Longrightarrow> c \<le> c' \<Longrightarrow> held_until w c'"
  by (force simp: held_until_def list_all_iff)

lemma held_until_same [simp]:
  "held_until (w\<lparr>w_now := n\<rparr>) c = held_until w c" "held_until (w\<lparr>w_state := m\<rparr>) c = held_until w c"
  "held_until (w\<lparr>w_heal := h\<rparr>) c = held_until w c"
  by (simp_all add: held_until_def)

lemma mode_at_eq: "mode_at m = mode_at m' \<longleftrightarrow> m_mode m = m_mode m' \<and> m_changed m = m_changed m'"
  "mode_at m = (k, c) \<longleftrightarrow> m_mode m = k \<and> m_changed m = c"
  by (auto simp: mode_at_def)

lemma published_cases: "Published k \<longleftrightarrow> k \<in> {ModeTesting, ModeEnforce, ModeWithdrawing}"
  by (cases k) simp_all

text \<open>A request, which leaves the clock, the read row and the fetched policies alone.\<close>

lemma inv_request:
  assumes i: "mta_inv w"
    and m: "mode_at m = mode_at (w_state w) \<or>
      \<not> Published (m_mode (w_state w)) \<and> m_mode m \<in> {ModeOff, ModePendingDNS} \<or>
      m_mode (w_state w) \<in> {ModeTesting, ModeEnforce} \<and> m_mode m = ModeEnforce \<or>
      Published (m_mode (w_state w)) \<and> mode_at m = (ModeWithdrawing, Some (w_now w))"
  shows "mta_inv (w\<lparr>w_state := m\<rparr>)"
  using m
proof (elim disjE conjE)
  assume "mode_at m = mode_at (w_state w)"
  then show ?thesis using i by (auto simp: mta_inv_def mode_at_eq split: option.splits if_splits)
next
  assume "\<not> Published (m_mode (w_state w))" "m_mode m \<in> {ModeOff, ModePendingDNS}"
  then show ?thesis using i by (auto simp: mta_inv_def split: option.splits if_splits)
next
  assume "m_mode (w_state w) \<in> {ModeTesting, ModeEnforce}" "m_mode m = ModeEnforce"
  then show ?thesis using i by (auto simp: mta_inv_def split: option.splits if_splits)
next
  assume "Published (m_mode (w_state w))" "mode_at m = (ModeWithdrawing, Some (w_now w))"
  then show ?thesis using i by (auto simp: mta_inv_def mode_at_eq split: option.splits if_splits)
qed

lemma inv_heal_read:
  assumes i: "mta_inv w"
  shows "mta_inv (w\<lparr>w_heal := heal_read (w_now w) (w_state w)\<rparr>)"
proof (cases "heal_read (w_now w) (w_state w)")
  case None
  then show ?thesis using i by (simp add: mta_inv_def)
next
  case (Some row)
  then obtain n where row: "row = (m_mode (w_state w), n)" "m_mode (w_state w) \<in> {ModePendingDNS, ModePendingCert, ModeWithdrawing}"
    "n = (case m_changed (w_state w) of None \<Rightarrow> -1 | Some t \<Rightarrow> w_now w - t)"
    by (auto simp: heal_read_def split: if_splits)
  have "held_until w (w_now w - MaxAgeEnforce)" if a: "m_mode (w_state w) = ModeWithdrawing" "MaxAgeEnforce \<le> n"
  proof -
    obtain c where "m_changed (w_state w) = Some c" "held_until w c"
      using i a(1) unfolding mta_inv_def by blast
    then show ?thesis using a(2) row(3) by (auto intro: held_until_mono)
  qed
  then show ?thesis using i Some row by (auto simp: mta_inv_def published_cases)
qed

lemma inv_heal_act:
  assumes i: "mta_inv w" and row: "w_heal w = Some (k, n)"
    and m: "mode_at m = mode_at (w_state w) \<or>
      k = ModePendingDNS \<and> m_mode m = ModePendingCert \<or> k = ModePendingCert \<and> m_mode m = ModeTesting \<or>
      k = ModeWithdrawing \<and> MaxAgeEnforce \<le> n \<and> m_mode m = ModeOff"
  shows "mta_inv (w\<lparr>w_state := m, w_heal := None\<rparr>)"
  using m
proof (elim disjE conjE)
  assume "mode_at m = mode_at (w_state w)"
  then show ?thesis using i by (simp add: mta_inv_def mode_at_eq)
qed (use i row in \<open>auto simp: mta_inv_def\<close>)

lemma inv_step: "mta_step w w' \<Longrightarrow> mta_inv w \<Longrightarrow> mta_inv w'"
proof (induction rule: mta_step.induct)
  case (Elapse d w)
  have mono: "held_until w (w_now w) \<Longrightarrow> held_until w (w_now w + d)"
    "held_until w (w_now w - MaxAgeEnforce) \<Longrightarrow> held_until w (w_now w + d - MaxAgeEnforce)"
    using Elapse(1) by (auto intro: held_until_mono)
  then show ?case using Elapse(2) by (auto simp: mta_inv_def split: option.splits)
next
  case (Posted e w body)
  show ?case by (rule inv_request) (use Posted post_modes [of e body "w_state w"] in \<open>auto simp: mode_at_eq\<close>)
next
  case (Deleted e w)
  show ?case by (rule inv_request) (use Deleted delete_modes [of e "w_state w"] in \<open>auto simp: mode_at_eq\<close>)
next
  case (HealRead w)
  then show ?case by (intro inv_heal_read)
next
  case (HealAct w row e)
  obtain k n where row: "row = (k, n)" by (cases row)
  show ?case
    by (rule inv_heal_act [of w k n]) (use HealAct row advance_modes [of e k n "w_state w"] in \<open>auto simp: mode_at_eq\<close>)
next
  case (Fetched e host w body)
  then have "Published (m_mode (w_state w))" by (auto simp: mta_Policy_def Let_def split: if_splits)
  then show ?case using Fetched(2)
    by (auto simp: mta_inv_def held_until_def published_cases split: option.splits if_splits)
next
  case (Edited w m)
  show ?case by (rule inv_request) (use Edited in \<open>auto simp: same_publication_def mode_at_eq\<close>)
qed

lemma inv_reachable: "mta_reachable w \<Longrightarrow> mta_inv w"
proof -
  assume "mta_reachable w"
  then obtain w0 where w0: "mta_start w0" and run: "mta_step\<^sup>*\<^sup>* w0 w" by (auto simp: mta_reachable_def)
  have "mta_inv w0" using w0 by (simp add: mta_inv_def mta_start_def held_until_def)
  with run show ?thesis by (induction rule: rtranclp_induct) (simp_all add: inv_step)
qed


text \<open>Runs that can be evaluated: an event that cannot happen changes nothing.\<close>

datatype mta_event =
    EvWait int | EvPost mta_env "string option" | EvDelete mta_env | EvHealRead | EvHealAct mta_env | EvFetch mta_env string

fun mta_event_step :: "mta_world \<Rightarrow> mta_event \<Rightarrow> mta_world" where
  "mta_event_step w (EvWait d) = (if 0 \<le> d then w\<lparr>w_now := w_now w + d\<rparr> else w)"
| "mta_event_step w (EvPost e body) = w\<lparr>w_state := snd (mta_Post (e\<lparr>e_now := w_now w\<rparr>) body (w_state w))\<rparr>"
| "mta_event_step w (EvDelete e) = w\<lparr>w_state := snd (mta_Delete (e\<lparr>e_now := w_now w\<rparr>) (w_state w))\<rparr>"
| "mta_event_step w EvHealRead = (if w_heal w = None then w\<lparr>w_heal := heal_read (w_now w) (w_state w)\<rparr> else w)"
| "mta_event_step w (EvHealAct e) =
     (case w_heal w of None \<Rightarrow> w
      | Some row \<Rightarrow> w\<lparr>w_state := snd (mta_advance (e\<lparr>e_now := w_now w\<rparr>) row (w_state w)), w_heal := None\<rparr>)"
| "mta_event_step w (EvFetch e host) =
     (case mta_Policy e host (w_state w) of Inl status \<Rightarrow> w
      | Inr body \<Rightarrow> w\<lparr>w_fetched := (w_now w, m_mode (w_state w)) # w_fetched w\<rparr>)"

lemma mta_event_reachable: "mta_reachable w \<Longrightarrow> mta_reachable (mta_event_step w ev)"
proof -
  assume r: "mta_reachable w"
  have "mta_step\<^sup>*\<^sup>* w (mta_event_step w ev)"
    by (cases ev) (auto split: option.split sum.split intro!: r_into_rtranclp intro: mta_step.intros)
  then show ?thesis using r unfolding mta_reachable_def by (meson rtranclp_trans)
qed

lemma mta_events_reachable: "mta_reachable w \<Longrightarrow> mta_reachable (foldl mta_event_step w evs)"
  by (induction evs arbitrary: w) (simp_all add: mta_event_reachable)

definition fine_env :: mta_env where
  "fine_env = \<lparr>e_fails = (\<lambda>s. False), e_now = 0, e_id = ''5a'', e_resolves = True, e_cert = True, e_mxcert = (\<lambda>h. True), e_ipv4 = ''192.0.2.7''\<rparr>"

definition world0 :: mta_world where
  "world0 = \<lparr>w_state = \<lparr>m_name = ''example.com'', m_active = True, m_mode = ModeOff, m_id = [], m_changed = None,
     m_mx = [''mail.example.com.''], m_rows = [], m_zone = []\<rparr>, w_now = 1000, w_heal = None, w_fetched = []\<rparr>"

lemma world0_reachable: "mta_reachable world0"
  unfolding mta_reachable_def by (rule exI [of _ world0]) (simp add: mta_start_def world0_def)

definition published_state :: "mta_mode \<Rightarrow> int \<Rightarrow> mta_state" where
  "published_state k t =
     (let rows = [\<lparr>d_name = ''mta-sts'', d_type = ''A'', d_value = ''192.0.2.7''\<rparr>,
          \<lparr>d_name = ''_smtp._tls'', d_type = ''TXT'', d_value = ''v=TLSRPTv1; rua=mailto:postmaster@example.com''\<rparr>,
          \<lparr>d_name = ''_mta-sts'', d_type = ''TXT'', d_value = ''v=STSv1; id=5a''\<rparr>]
      in \<lparr>m_name = ''example.com'', m_active = True, m_mode = k, m_id = ''5a'', m_changed = Some t,
          m_mx = [''mail.example.com.''], m_rows = rows, m_zone = rows\<rparr>)"

lemma publication_run:
  "foldl mta_event_step world0 [EvPost fine_env (Some ''testing''), EvHealRead, EvHealAct fine_env, EvHealRead, EvHealAct fine_env] =
     world0\<lparr>w_state := published_state ModeTesting 1000\<rparr>"
  by code_simp

lemma fetch_published:
  "Published k \<Longrightarrow> mta_event_step (w\<lparr>w_state := published_state k t\<rparr>) (EvFetch fine_env ''mta-sts.example.com:443'') =
     w\<lparr>w_state := published_state k t, w_fetched := (w_now w, k) # w_fetched w\<rparr>"
proof -
  assume k: "Published k"
  have "policyHostDomain ''mta-sts.example.com:443'' = ''example.com''" "MXHosts fine_env (published_state k t) = Some [''mail.example.com'']"
    by (code_simp, simp add: MXHosts_def fine_env_def published_state_def Let_def) code_simp
  then show ?thesis using k by (simp add: mta_Policy_def PolicyFile_def Let_def) (simp add: fine_env_def published_state_def Let_def)
qed

lemma withdrawal_run:
  "foldl mta_event_step (world0\<lparr>w_state := published_state ModeTesting 1000, w_fetched := fs\<rparr>)
     [EvDelete fine_env, EvWait 604800, EvHealRead, EvHealAct fine_env] =
   world0\<lparr>w_state := (published_state ModeOff 605800)\<lparr>m_rows := [\<lparr>d_name = ''_smtp._tls'', d_type = ''TXT'', d_value = ''v=TLSRPTv1; rua=mailto:postmaster@example.com''\<rparr>],
       m_zone := [\<lparr>d_name = ''_smtp._tls'', d_type = ''TXT'', d_value = ''v=TLSRPTv1; rua=mailto:postmaster@example.com''\<rparr>]\<rparr>,
     w_now := 605800, w_fetched := fs\<rparr>"
  by code_simp


section \<open>Reaching enforcement\<close>

lemma mode_then:
  "m_mode (snd (case r of (False, m1) \<Rightarrow> (s, m1) | (True, m1) \<Rightarrow> f m1)) =
     (if fst r then m_mode (snd (f (snd r))) else m_mode (snd r))"
  by (cases r; cases "fst r") auto

lemma mode_answers: "m_mode (snd (respondState e m)) = m_mode m" "m_mode (snd (republish e m)) = m_mode m"
  using mode_at_writers(4) [of e m] mode_at_republish [of e m] unfolding mode_at_eq(1) by blast+

lemma enforce_selected:
  "m_mode m \<noteq> ModeEnforce \<and> m_mode (snd (mta_Post e body m)) = ModeEnforce \<longleftrightarrow>
     (\<exists>s hosts t. body = Some s \<and> go_lower (trim_space s) = ''enforce'' \<and> \<not> e_fails e LoadDomain \<and> m_active m \<and>
        m_mode m = ModeTesting \<and> MXHosts e m = Some hosts \<and> hosts \<noteq> [] \<and> list_all (e_mxcert e) hosts \<and>
        m_changed m = Some t \<and> t + 7 * 86400 \<le> e_now e \<and>
        \<not> e_fails e ReadSoak \<and> \<not> e_fails e NewID \<and> \<not> e_fails e WriteMode)"
proof -
  have start: "\<not> (m_mode m \<noteq> ModeEnforce \<and> m_mode (snd (startTesting e m)) = ModeEnforce)"
    using start_modes [of e m] by (auto simp: mode_at_eq)
  have enf: "m_mode m \<noteq> ModeEnforce \<and> m_mode (snd (mta_enforce e m)) = ModeEnforce \<longleftrightarrow>
     (\<exists>hosts t. m_mode m = ModeTesting \<and> MXHosts e m = Some hosts \<and> hosts \<noteq> [] \<and> list_all (e_mxcert e) hosts \<and>
        m_changed m = Some t \<and> t + 7 * 86400 \<le> e_now e \<and>
        \<not> e_fails e ReadSoak \<and> \<not> e_fails e NewID \<and> \<not> e_fails e WriteMode)"
    by (cases "MXHosts e m"; cases "m_changed m")
       (auto simp: mta_enforce_def mode_then mode_answers enforceLock_def soaked_def TestingSoakDays_def setMode_def)
  show ?thesis
    using start enf by (cases body) (auto simp: mta_Post_def with_domain_def Let_def ValidMode_def)
qed

text \<open>
  Enforcement is selected only on proof. A domain that does not enforce comes to enforce exactly by a
  request that asks for it on an active domain in testing, whose mode was set at least seven days ago, with
  an MX host and a certificate for every MX host the policy names, and with every statement answering;
  neither withdrawing nor the heal leads there.
\<close>

theorem enforce_selected_iff:
  "(m_mode m \<noteq> ModeEnforce \<and> m_mode (snd (mta_Post e body m)) = ModeEnforce \<longleftrightarrow>
     (\<exists>s hosts t. body = Some s \<and> go_lower (trim_space s) = ''enforce'' \<and> \<not> e_fails e LoadDomain \<and> m_active m \<and>
        m_mode m = ModeTesting \<and> MXHosts e m = Some hosts \<and> hosts \<noteq> [] \<and> list_all (e_mxcert e) hosts \<and>
        m_changed m = Some t \<and> t + 7 * 86400 \<le> e_now e \<and>
        \<not> e_fails e ReadSoak \<and> \<not> e_fails e NewID \<and> \<not> e_fails e WriteMode)) \<and>
   \<not> (m_mode m \<noteq> ModeEnforce \<and> m_mode (snd (mta_Delete e m)) = ModeEnforce) \<and>
   \<not> (m_mode m \<noteq> ModeEnforce \<and> m_mode (snd (mta_advance e (k, n) m)) = ModeEnforce)"
  using enforce_selected [of m e body] delete_modes [of e m] advance_modes [of e k n m] by (auto simp: mode_at_eq)

section \<open>The sequence completes\<close>

definition all_answer :: "mta_env \<Rightarrow> bool" where "all_answer e = (\<forall>s. \<not> e_fails e s)"

lemma upsert_holds:
  "filter (is_record name type) (upsertRecord name type v rows) \<noteq> [] \<and>
   list_all (\<lambda>r. d_value r = v) (filter (is_record name type) (upsertRecord name type v rows))"
proof (cases "list_ex (is_record name type) rows")
  case True
  have keep: "is_record name type (r\<lparr>d_value := v\<rparr>) = is_record name type r" for r by (simp add: is_record_def)
  define updated where "updated = map (\<lambda>r. if is_record name type r then r\<lparr>d_value := v\<rparr> else r) rows"
  have "upsertRecord name type v rows = updated"
    using True by (auto simp: upsertRecord_def Let_def updated_def)
  moreover have "list_all (\<lambda>r. d_value r = v) (filter (is_record name type) updated)"
    by (auto simp: updated_def list_all_iff keep)
  moreover have "filter (is_record name type) updated \<noteq> []"
  proof -
    obtain r where "r \<in> set rows" "is_record name type r" using True by (auto simp: list_ex_iff)
    then have "r\<lparr>d_value := v\<rparr> \<in> set (filter (is_record name type) updated)"
      by (auto simp: updated_def keep intro: rev_image_eqI)
    then show ?thesis by force
  qed
  ultimately show ?thesis by simp
next
  case False
  then have "map (\<lambda>r. if is_record name type r then r\<lparr>d_value := v\<rparr> else r) rows = rows" "filter (is_record name type) rows = []"
    by (auto simp: list_ex_iff filter_empty_conv intro!: map_idI)
  then show ?thesis using False by (simp add: upsertRecord_def Let_def) (simp add: is_record_def)
qed

lemma answered_writers:
  "all_answer e \<Longrightarrow> setMode e k b m = (True, m\<lparr>m_mode := k, m_id := (if b then e_id e else m_id m), m_changed := Some (e_now e)\<rparr>)"
  "all_answer e \<Longrightarrow> record_tx e change m = (True, m\<lparr>m_rows := change (m_rows m), m_zone := change (m_rows m)\<rparr>)"
  "all_answer e \<Longrightarrow> respondState e m = (200, m)"
  by (simp_all add: all_answer_def setMode_def record_tx_def respondState_def)

text \<open>
  The sequence completes. While everything answers, a request for testing on an active domain without a
  policy, a heal pass once the name resolves and one once the certificate covers it publish a testing
  policy with a fresh id, and the zone announces exactly that id; a withdrawal and a heal pass a week later
  take the domain back to no policy, and the zone announces none.
\<close>

theorem sequence_completes:
  assumes "all_answer e1" "all_answer e2" "all_answer e3" "all_answer e4" "all_answer e5"
    and "m_active m" "\<not> Published (m_mode m)" "trim_space (e_ipv4 e1) \<noteq> []" "e_resolves e2" "e_cert e3"
    and "e_now e4 + MaxAgeEnforce \<le> e_now e5"
    and "m3 = mta_Heal e3 (mta_Heal e2 (snd (mta_Post e1 (Some ''testing'') m)))"
    and "m5 = mta_Heal e5 (snd (mta_Delete e4 m3))"
  shows "m_mode m3 = ModeTesting \<and> m_id m3 = e_id e3 \<and>
    filter (is_record labelPolicyTXT ''TXT'') (m_zone m3) \<noteq> [] \<and>
    list_all (\<lambda>r. d_value r = PolicyTXT (e_id e3)) (filter (is_record labelPolicyTXT ''TXT'') (m_zone m3)) \<and>
    m_mode m5 = ModeOff \<and> filter (is_record labelPolicyTXT ''TXT'') (m_zone m5) = []"
proof -
  have p: "go_lower (trim_space ''testing'') = ''testing''" by code_simp
  define m1 where "m1 = snd (mta_Post e1 (Some ''testing'') m)"
  have m1: "m_mode m1 = ModePendingDNS \<and> m_active m1"
    using assms(1,6,7,8) unfolding m1_def
    by (simp add: mta_Post_def p ValidMode_def with_domain_def startTesting_def WriteEnableRecords_def answered_writers)
       (simp add: all_answer_def)
  define m2 where "m2 = mta_Heal e2 m1"
  have m2: "m_mode m2 = ModePendingCert \<and> m_active m2"
    using m1 assms(2,9) by (simp add: m2_def mta_Heal_def heal_read_def mta_advance_def answered_writers)
  have m3_def: "m3 = mta_Heal e3 m2" using assms(12) by (simp add: m1_def m2_def)
  have m3: "m_mode m3 = ModeTesting \<and> m_active m3 \<and> m_id m3 = e_id e3 \<and>
      m_zone m3 = upsertRecord labelPolicyTXT ''TXT'' (PolicyTXT (e_id e3)) (m_rows m2)"
    using m2 assms(3,10) by (simp add: m3_def mta_Heal_def heal_read_def mta_advance_def WritePolicyTXT_def answered_writers)
  define m4 where "m4 = snd (mta_Delete e4 m3)"
  have m4: "m_mode m4 = ModeWithdrawing \<and> m_active m4 \<and> m_changed m4 = Some (e_now e4)"
    using m3 assms(4) by (simp add: m4_def mta_Delete_def with_domain_def republish_def WritePolicyTXT_def answered_writers)
      (simp add: all_answer_def WritePolicyTXT_def answered_writers)
  have "m_mode m5 = ModeOff \<and> filter (is_record labelPolicyTXT ''TXT'') (m_zone m5) = []"
    using m4 assms(5,11,13) by (simp add: m4_def [symmetric] mta_Heal_def heal_read_def mta_advance_def RemoveRecords_def
        answered_writers MaxAgeEnforce_def) (auto simp: deleteRecord_def filter_empty_conv)
  then show ?thesis using m3 upsert_holds [of labelPolicyTXT "''TXT''" "PolicyTXT (e_id e3)" "m_rows m2"] by simp
qed

theorem sequence_completes_witness:
  "\<exists>m3 m5. m_mode m3 = ModeTesting \<and> m_id m3 = ''5a'' \<and> m_mode m5 = ModeOff \<and>
     m5 = mta_Heal (fine_env\<lparr>e_now := 604800\<rparr>) (snd (mta_Delete fine_env m3))"
proof -
  let ?m3 = "mta_Heal fine_env (mta_Heal fine_env (snd (mta_Post fine_env (Some ''testing'') (w_state world0))))"
  let ?m5 = "mta_Heal (fine_env\<lparr>e_now := 604800\<rparr>) (snd (mta_Delete fine_env ?m3))"
  have a: "all_answer fine_env" "all_answer (fine_env\<lparr>e_now := 604800\<rparr>)" by (simp_all add: all_answer_def fine_env_def)
  have s: "m_active (w_state world0)" "\<not> Published (m_mode (w_state world0))" "trim_space (e_ipv4 fine_env) \<noteq> []"
    "e_resolves fine_env" "e_cert fine_env" "e_now fine_env + MaxAgeEnforce \<le> e_now (fine_env\<lparr>e_now := 604800\<rparr>)"
    by code_simp+
  note fin = sequence_completes [OF a(1) a(1) a(1) a(1) a(2) s refl refl]
  have id: "e_id fine_env = ''5a''" by (simp add: fine_env_def)
  show ?thesis using fin unfolding id by blast
qed

section \<open>What the sequence does not keep\<close>

text \<open>
  A soak that nobody saw. When the record write of the heal's last step fails, the domain is in testing without
  a record that announces the policy; no later pass looks at it again, and seven days on a request for
  enforcement is accepted although no sender could have known of the testing policy.
\<close>

theorem soak_without_record:
  assumes "m_mode m = ModePendingCert" "m_active m" "e_cert e" "\<not> e_fails e NewID" "\<not> e_fails e WriteMode" "e_fails e RecordTx"
    and "all_answer e2" "e_now e + 7 * 86400 \<le> e_now e2" "MXHosts e2 m = Some hosts" "hosts \<noteq> []" "list_all (e_mxcert e2) hosts"
  shows "m_mode (mta_Heal e m) = ModeTesting \<and> m_zone (mta_Heal e m) = m_zone m \<and> m_rows (mta_Heal e m) = m_rows m \<and>
    mta_Heal e1 (mta_Heal e m) = mta_Heal e m \<and>
    m_mode (snd (mta_Post e2 (Some ''enforce'') (mta_Heal e m))) = ModeEnforce"
proof -
  define m1 where "m1 = mta_Heal e m"
  have m1: "m1 = m\<lparr>m_mode := ModeTesting, m_id := e_id e, m_changed := Some (e_now e)\<rparr>"
    using assms(1-6) by (simp add: m1_def mta_Heal_def heal_read_def mta_advance_def setMode_def WritePolicyTXT_def record_tx_def)
  have "go_lower (trim_space ''enforce'') = ''enforce''" by code_simp
  moreover have "MXHosts e2 m1 = Some hosts" using assms(9) by (simp add: MXHosts_def m1 split: if_splits)
  ultimately have "m_mode m1 \<noteq> ModeEnforce \<and> m_mode (snd (mta_Post e2 (Some ''enforce'') m1)) = ModeEnforce"
    unfolding enforce_selected using assms(2,7,8,10,11) by (auto simp: m1 all_answer_def)
  then show ?thesis by (simp add: m1_def [symmetric]) (simp add: m1 mta_Heal_def heal_read_def)
qed

theorem soak_without_record_witness:
  "\<exists>m :: mta_state. m_zone m = [] \<and> m_mode (mta_Heal (fine_env\<lparr>e_fails := (\<lambda>s. s = RecordTx)\<rparr>) m) = ModeTesting \<and>
     m_mode (snd (mta_Post (fine_env\<lparr>e_now := 604800\<rparr>) (Some ''enforce'') (mta_Heal (fine_env\<lparr>e_fails := (\<lambda>s. s = RecordTx)\<rparr>) m))) = ModeEnforce"
proof -
  let ?m = "(w_state world0)\<lparr>m_mode := ModePendingCert\<rparr>"
  have h: "MXHosts (fine_env\<lparr>e_now := 604800\<rparr>) ?m = Some [''mail.example.com'']" by code_simp
  have z: "m_zone ?m = []" by (simp add: world0_def)
  have "m_mode (mta_Heal (fine_env\<lparr>e_fails := (\<lambda>s. s = RecordTx)\<rparr>) ?m) = ModeTesting \<and>
      m_mode (snd (mta_Post (fine_env\<lparr>e_now := 604800\<rparr>) (Some ''enforce'') (mta_Heal (fine_env\<lparr>e_fails := (\<lambda>s. s = RecordTx)\<rparr>) ?m))) = ModeEnforce"
    using soak_without_record [of ?m "fine_env\<lparr>e_fails := (\<lambda>s. s = RecordTx)\<rparr>" "fine_env\<lparr>e_now := 604800\<rparr>" "[''mail.example.com'']", OF _ _ _ _ _ _ _ _ h]
    by (simp add: fine_env_def all_answer_def world0_def)
  then show ?thesis using z by blast
qed

text \<open>
  A withdrawn domain is published again. When a heal pass has read the domain as waiting for its
  certificate and its owner withdraws it before the pass acts, the request answers 200 and takes the domain to no
  policy, and the pass then publishes a testing policy for it.
\<close>

theorem withdrawn_domain_republished:
  assumes "m_mode m = ModePendingCert" "m_active m" "all_answer e1" "all_answer e2" "e_cert e2"
    and "heal_read now m = Some row"
  shows "fst (mta_Delete e1 m) = 200 \<and> m_mode (snd (mta_Delete e1 m)) = ModeOff \<and>
    m_mode (snd (mta_advance e2 row (snd (mta_Delete e1 m)))) = ModeTesting \<and>
    filter (is_record labelPolicyTXT ''TXT'') (m_zone (snd (mta_advance e2 row (snd (mta_Delete e1 m))))) \<noteq> []"
proof -
  obtain n where row: "row = (ModePendingCert, n)" using assms(1,6) by (auto simp: heal_read_def split: if_splits)
  define m1 where "m1 = snd (mta_Delete e1 m)"
  have d: "fst (mta_Delete e1 m) = 200 \<and> m_mode m1 = ModeOff"
    using assms(1-3) by (simp add: m1_def mta_Delete_def with_domain_def RemoveRecords_def answered_writers) (simp add: all_answer_def)
  have "m_mode (snd (mta_advance e2 row m1)) = ModeTesting \<and>
      m_zone (snd (mta_advance e2 row m1)) = upsertRecord labelPolicyTXT ''TXT'' (PolicyTXT (e_id e2)) (m_rows m1)"
    using assms(4,5) by (simp add: row mta_advance_def WritePolicyTXT_def answered_writers)
  then show ?thesis using d upsert_holds by (simp add: m1_def)
qed

theorem withdrawn_domain_republished_witness:
  "\<exists>m row. heal_read 0 m = Some row \<and> fst (mta_Delete fine_env m) = 200 \<and>
     m_mode (snd (mta_advance fine_env row (snd (mta_Delete fine_env m)))) = ModeTesting"
proof -
  let ?m = "(w_state world0)\<lparr>m_mode := ModePendingCert\<rparr>"
  have r: "heal_read 0 ?m = Some (ModePendingCert, -1)" by code_simp
  have a: "all_answer fine_env" "e_cert fine_env" "m_mode ?m = ModePendingCert" "m_active ?m"
    by (simp_all add: all_answer_def fine_env_def world0_def)
  show ?thesis using withdrawn_domain_republished [OF a(3,4,1,1,2) r] r by blast
qed

section \<open>The policy a sender reads\<close>

lemma mx_host_plain: "mx_host v = Some h \<Longrightarrow> h \<noteq> [] \<and> CHR 10 \<notin> set h \<and> CHR 13 \<notin> set h"
  by (auto simp: mx_host_def Let_def list_ex_iff split: if_splits)

lemma hosts_plain:
  assumes "MXHosts e m = Some hosts"
  shows "list_all (\<lambda>h. CHR 10 \<notin> set h \<and> CHR 13 \<notin> set h) hosts"
proof -
  have "hosts = List.map_filter mx_host (m_mx m)" using assms by (simp add: MXHosts_def split: if_splits)
  then show ?thesis using mx_host_plain by (auto simp: list_all_iff List.map_filter_def)
qed

text \<open>The lines of a text whose lines end in CR LF.\<close>

definition crlf_lines :: "string \<Rightarrow> string list" where
  "crlf_lines s = map drop_cr (split_on (CHR 10) s)"

lemma crlf_lines_written:
  assumes "list_all (\<lambda>l. CHR 10 \<notin> set l) ls"
  shows "crlf_lines (concat (map (\<lambda>l. l @ crlf) ls)) = ls @ [[]]"
proof -
  have "concat (map (\<lambda>l. l @ crlf) ls) = concat (map (\<lambda>l. l @ [CHR 10]) (map (\<lambda>l. l @ [CHR 13]) ls))"
    by (simp add: crlf_def comp_def)
  moreover have "split_on (CHR 10) (concat (map (\<lambda>l. l @ [CHR 10]) (map (\<lambda>l. l @ [CHR 13]) ls))) = map (\<lambda>l. l @ [CHR 13]) ls @ [[]]"
    using assms by (intro split_on_lines) (auto simp: list_all_iff)
  ultimately have "crlf_lines (concat (map (\<lambda>l. l @ crlf) ls)) = map drop_cr (map (\<lambda>l. l @ [CHR 13]) ls @ [[]])"
    by (simp only: crlf_lines_def)
  then show ?thesis by (simp add: drop_cr_def comp_def)
qed

lemma itoa_one_line: "0 \<le> n \<Longrightarrow> CHR 10 \<notin> set (itoa n)"
  using digits_of_digits [of "nat n"] by (auto simp: itoa_def all_digits_def list_all_iff is_digit_def byte_in_def byte_def)

text \<open>
  The file a sender fetches says what the domain publishes and nothing else: the version, the
  mode, one line for each host of the domain's own MX records in their order, and the lifetime that
  belongs to the mode; whatever the MX values hold, they add no line.
\<close>

theorem policy_served_exactly:
  assumes "mta_Policy e host m = Inr body"
  shows "\<exists>hosts. MXHosts e m = Some hosts \<and> Published (m_mode m) \<and>
    crlf_lines body = [''version: STSv1'', ''mode: '' @ (if m_mode m = ModeWithdrawing then ''none'' else mode_text (m_mode m))] @
      map (\<lambda>h. ''mx: '' @ h) hosts @ [''max_age: '' @ itoa (if m_mode m = ModeEnforce then 604800 else 86400), []]"
proof -
  obtain hosts where h: "MXHosts e m = Some hosts" "PolicyFile (m_mode m) hosts = Inr body" "Published (m_mode m)"
    using assms by (auto simp: mta_Policy_def Let_def split: if_splits option.splits sum.splits)
  let ?ls = "[''version: STSv1'', ''mode: '' @ (if m_mode m = ModeWithdrawing then ''none'' else mode_text (m_mode m))] @
      map (\<lambda>h. ''mx: '' @ h) hosts @ [''max_age: '' @ itoa (if m_mode m = ModeEnforce then 604800 else 86400)]"
  have body: "body = concat (map (\<lambda>l. l @ crlf) ?ls)"
    using h(2,3) by (auto simp: PolicyFile_def Let_def MaxAgeEnforce_def MaxAgeTesting_def comp_def split: if_splits)
  have "list_all (\<lambda>l. CHR 10 \<notin> set l) ?ls"
    using hosts_plain [OF h(1)] itoa_one_line by (cases "m_mode m") (auto simp: list_all_iff)
  then have "crlf_lines body = ?ls @ [[]]" unfolding body by (rule crlf_lines_written)
  then show ?thesis using h(1,3) by (intro exI [of _ hosts]) (simp only: append_assoc append_Cons append_Nil simp_thms)
qed

end
