(* ===== verification/DbMigrate.thy ===== *)
theory DbMigrate
  imports GoText "HOL-Library.List_Lexorder" "HOL-Library.Char_ord" "HOL-Library.Word"
begin

text \<open>
  The migration runner (internal/dbmigrate): which files it trusts, how a file becomes statements, and how
  a file that stopped part way is resumed. What the directory holds, SHA-256 and the result of every
  statement are arguments; the statements that took effect are recorded beside the two tables.
\<close>

unbundle bit_operations_syntax

section \<open>Trusted files\<close>

record file_info =
  fi_perm :: "32 word"
  fi_uid :: "nat option"

definition trustedMode :: "nat \<Rightarrow> file_info \<Rightarrow> bool" where
  "trustedMode euid info =
     (if fi_perm info AND 0x12 \<noteq> 0 then False
      else case fi_uid info of None \<Rightarrow> False | Some uid \<Rightarrow> uid = euid)"

text \<open>An entry of the directory: its name, what kind of file it is, and what \<open>Info\<close> answers.\<close>

record dir_entry =
  de_name :: string
  de_dir :: bool
  de_symlink :: bool
  de_regular :: bool
  de_info :: "file_info option"

definition trustedFile :: "nat \<Rightarrow> dir_entry \<Rightarrow> bool" where
  "trustedFile euid entry =
     (if de_symlink entry \<or> \<not> de_regular entry then False
      else case de_info entry of None \<Rightarrow> False | Some info \<Rightarrow> trustedMode euid info)"

record dir_info =
  dir_symlink :: bool
  dir_is_dir :: bool
  dir_mode :: file_info

definition trustedDir :: "nat \<Rightarrow> dir_info option \<Rightarrow> bool" where
  "trustedDir euid dir =
     (case dir of
        None \<Rightarrow> False
      | Some info \<Rightarrow> if dir_symlink info \<or> \<not> dir_is_dir info then False else trustedMode euid (dir_mode info))"

definition migrationNames :: "nat \<Rightarrow> dir_entry list \<Rightarrow> string list" where
  "migrationNames euid entries =
     sort (map de_name (filter (\<lambda>e. \<not> (de_dir e \<or> \<not> has_suffix (de_name e) ''.sql'') \<and> trustedFile euid e) entries))"

section \<open>Statements\<close>

text \<open>Whether the reader is inside a string literal, and which character opened it.\<close>

record literalScanner =
  lit_quote :: "string option"
  lit_escaped :: bool

definition new_scanner :: literalScanner where
  "new_scanner = \<lparr>lit_quote = None, lit_escaped = False\<rparr>"

definition inLiteral :: "string \<Rightarrow> literalScanner \<Rightarrow> literalScanner" where
  "inLiteral c s =
     (if c = [CHR 0x5C] \<and> lit_quote s \<noteq> Some ''`'' then s\<lparr>lit_escaped := True\<rparr>
      else if Some c = lit_quote s then s\<lparr>lit_quote := None\<rparr> else s)"

definition scan_terminator :: "string \<Rightarrow> literalScanner \<Rightarrow> bool \<times> literalScanner" where
  "scan_terminator c s =
     (if lit_escaped s then (False, s\<lparr>lit_escaped := False\<rparr>)
      else if lit_quote s \<noteq> None then (False, inLiteral c s)
      else if c = [CHR 0x27] \<or> c = [CHR 0x22] \<or> c = ''`'' then (False, s\<lparr>lit_quote := Some c\<rparr>)
      else if c = '';'' then (True, s)
      else (False, s))"

definition appendStatement :: "string list \<Rightarrow> string \<Rightarrow> string list" where
  "appendStatement statements stmt =
     (let s = trim_space stmt in if s \<noteq> [] then statements @ [s] else statements)"

text \<open>The loop over the runes, with the statement being read.\<close>

fun split_loop :: "string list \<Rightarrow> literalScanner \<Rightarrow> string \<Rightarrow> string list \<Rightarrow> string list" where
  "split_loop [] scanner current statements = appendStatement statements current"
| "split_loop (c # cs) scanner current statements =
     (let current = current @ write_rune c; (found, scanner) = scan_terminator c scanner in
      if \<not> found then split_loop cs scanner current statements
      else split_loop cs scanner [] (appendStatement statements (butlast current)))"

definition splitOnUnquotedSemicolons :: "string \<Rightarrow> string list" where
  "splitOnUnquotedSemicolons sql = split_loop (runes sql) new_scanner [] []"

definition splitStatements :: "string \<Rightarrow> string list" where
  "splitStatements body =
     splitOnUnquotedSemicolons (join [CHR 10]
       (filter (\<lambda>line. \<not> (trim_space line = [] \<or> has_prefix (trim_space line) ''--'')) (split_on (CHR 10) body)))"

section \<open>The tables\<close>

record mig_db =
  schema_migrations :: "string \<rightharpoonup> string"
  migration_progress :: "string \<rightharpoonup> string \<times> nat"
  took_effect :: "(string \<times> string) list"

datatype exec_result = Succeeds | FailsToRun | ProcessEnds

datatype mig_error =
  ErrTables | ErrReadApplied | ErrReadFile | ErrBackfill | ErrContentsChanged | ErrReadProgress | ErrResumeRefused |
  ErrStatement nat | ErrRecord | ErrClear | ErrProcessEnded

text \<open>
  What one start of the panel meets: the directory, the files, and which of the runner's own statements
  fail. A migration's statement either takes effect, or fails without effect, or is the last thing the
  process does.
\<close>

record mig_env =
  x_euid :: nat
  x_dir :: "dir_info option"
  x_entries :: "dir_entry list option"
  x_file :: "string \<Rightarrow> string option"
  x_tables :: bool
  x_applied :: bool
  x_backfill :: "string \<Rightarrow> bool"
  x_progress :: "string \<Rightarrow> bool"
  x_exec :: "string \<Rightarrow> nat \<Rightarrow> exec_result"
  x_record :: "string \<Rightarrow> bool"
  x_insert :: "string \<Rightarrow> bool"
  x_clear :: "string \<Rightarrow> bool"

definition prefixChecksum :: "(string \<Rightarrow> string) \<Rightarrow> string list \<Rightarrow> string" where
  "prefixChecksum sha256 applied = sha256 (join ('';'' @ [CHR 10]) applied)"

definition resumePoint :: "(string \<Rightarrow> string) \<Rightarrow> mig_env \<Rightarrow> string \<Rightarrow> string list \<Rightarrow> mig_db \<Rightarrow> mig_error + nat" where
  "resumePoint sha256 x name statements db =
     (if \<not> x_progress x name then Inl ErrReadProgress
      else case migration_progress db name of
          None \<Rightarrow> Inr 0
        | Some (stored, finished) \<Rightarrow>
            if length statements < finished \<or> stored \<noteq> prefixChecksum sha256 (take finished statements)
            then Inl ErrResumeRefused else Inr finished)"

definition recordProgress :: "mig_env \<Rightarrow> string \<Rightarrow> string \<Rightarrow> nat \<Rightarrow> mig_db \<Rightarrow> mig_db" where
  "recordProgress x name checksum finished db =
     (if \<not> x_record x name then db
      else db\<lparr>migration_progress := (migration_progress db)(name \<mapsto> (checksum, finished))\<rparr>)"

definition mig_finish :: "mig_env \<Rightarrow> string \<Rightarrow> string \<Rightarrow> mig_db \<Rightarrow> mig_error option \<times> mig_db" where
  "mig_finish x name checksum db =
     (if \<not> x_insert x name then (Some ErrRecord, db)
      else let db = db\<lparr>schema_migrations := (schema_migrations db)(name \<mapsto> checksum)\<rparr> in
        if \<not> x_clear x name then (Some ErrClear, db)
        else (None, db\<lparr>migration_progress := (migration_progress db)(name := None)\<rparr>))"

fun exec_from :: "(string \<Rightarrow> string) \<Rightarrow> mig_env \<Rightarrow> string \<Rightarrow> string \<Rightarrow> string list \<Rightarrow> string list \<Rightarrow> nat \<Rightarrow> mig_db \<Rightarrow>
    mig_error option \<times> mig_db" where
  "exec_from sha256 x name checksum statements [] i db = mig_finish x name checksum db"
| "exec_from sha256 x name checksum statements (s # rest) i db =
     (case x_exec x name i of
        FailsToRun \<Rightarrow> (Some (ErrStatement (i + 1)), recordProgress x name (prefixChecksum sha256 (take i statements)) i db)
      | ProcessEnds \<Rightarrow> (Some ErrProcessEnded, db\<lparr>took_effect := took_effect db @ [(name, s)]\<rparr>)
      | Succeeds \<Rightarrow> exec_from sha256 x name checksum statements rest (i + 1) (db\<lparr>took_effect := took_effect db @ [(name, s)]\<rparr>))"

definition applyFile :: "(string \<Rightarrow> string) \<Rightarrow> mig_env \<Rightarrow> string \<Rightarrow> string \<Rightarrow> string \<Rightarrow> mig_db \<Rightarrow> mig_error option \<times> mig_db" where
  "applyFile sha256 x name body checksum db =
     (let statements = splitStatements body in
      case resumePoint sha256 x name statements db of
        Inl err \<Rightarrow> (Some err, db)
      | Inr start \<Rightarrow> exec_from sha256 x name checksum statements (drop start statements) start db)"

text \<open>\<open>Some True\<close> for a file already applied; the map read before the loop decides.\<close>

definition reconcileApplied :: "mig_env \<Rightarrow> string \<Rightarrow> string \<Rightarrow> (string \<rightharpoonup> string) \<Rightarrow> mig_db \<Rightarrow> (mig_error + bool) \<times> mig_db" where
  "reconcileApplied x name checksum applied db =
     (case applied name of
        None \<Rightarrow> (Inr False, db)
      | Some prev \<Rightarrow>
          if prev = [] then
            (if \<not> x_backfill x name then (Inl ErrBackfill, db)
             else (Inr True, db\<lparr>schema_migrations :=
               (\<lambda>n. if n = name then map_option (\<lambda>_. checksum) (schema_migrations db n) else schema_migrations db n)\<rparr>))
          else if prev \<noteq> checksum then (Inl ErrContentsChanged, db)
          else (Inr True, db))"

definition applyNamed :: "(string \<Rightarrow> string) \<Rightarrow> mig_env \<Rightarrow> string \<Rightarrow> (string \<rightharpoonup> string) \<Rightarrow> mig_db \<Rightarrow> mig_error option \<times> mig_db" where
  "applyNamed sha256 x name applied db =
     (case x_file x name of
        None \<Rightarrow> (Some ErrReadFile, db)
      | Some body \<Rightarrow>
          let checksum = sha256 body in
          (case reconcileApplied x name checksum applied db of
             (Inl err, db) \<Rightarrow> (Some err, db)
           | (Inr True, db) \<Rightarrow> (None, db)
           | (Inr False, db) \<Rightarrow> applyFile sha256 x name body checksum db))"

fun apply_names :: "(string \<Rightarrow> string) \<Rightarrow> mig_env \<Rightarrow> string list \<Rightarrow> (string \<rightharpoonup> string) \<Rightarrow> mig_db \<Rightarrow> mig_error option \<times> mig_db" where
  "apply_names sha256 x [] applied db = (None, db)"
| "apply_names sha256 x (name # names) applied db =
     (case applyNamed sha256 x name applied db of
        (Some err, db) \<Rightarrow> (Some err, db)
      | (None, db) \<Rightarrow> apply_names sha256 x names applied db)"

definition mig_Run :: "(string \<Rightarrow> string) \<Rightarrow> mig_env \<Rightarrow> mig_db \<Rightarrow> mig_error option \<times> mig_db" where
  "mig_Run sha256 x db =
     (if \<not> trustedDir (x_euid x) (x_dir x) then (None, db)
      else case x_entries x of
          None \<Rightarrow> (None, db)
        | Some entries \<Rightarrow>
            if \<not> x_tables x then (Some ErrTables, db)
            else if \<not> x_applied x then (Some ErrReadApplied, db)
            else apply_names sha256 x (migrationNames (x_euid x) entries) (schema_migrations db) db)"

end
