(* ===== verification/DbMigrateSafety.thy ===== *)
theory DbMigrateSafety
  imports DbMigrate
begin

text \<open>
  The migration runner keeps its history: every statement of a file takes effect once, in order, through any
  sequence of failing starts and repairs of the file; and the two ways in which it does not.
\<close>

section \<open>Scanning a statement\<close>

text \<open>The literal scanner over the bytes of a text; \<open>None\<close> where it meets a terminator.\<close>

fun scan_bytes :: "literalScanner \<Rightarrow> string \<Rightarrow> literalScanner option" where
  "scan_bytes st [] = Some st"
| "scan_bytes st (c # cs) = (case scan_terminator [c] st of (True, _) \<Rightarrow> None | (False, st') \<Rightarrow> scan_bytes st' cs)"

lemma scan_bytes_append: "scan_bytes st (a @ b) = (case scan_bytes st a of None \<Rightarrow> None | Some st' \<Rightarrow> scan_bytes st' b)"
  by (induction st a rule: scan_bytes.induct) (auto split: prod.split bool.split)

definition scanner_ok :: "literalScanner \<Rightarrow> bool" where
  "scanner_ok st = (lit_quote st \<in> {None, Some [CHR 0x27], Some [CHR 0x22], Some ''`''} \<and> (lit_escaped st \<longrightarrow> lit_quote st \<noteq> None))"

definition neutral :: "char \<Rightarrow> bool" where
  "neutral c = (c \<notin> {CHR 0x27, CHR 0x22, CHR ''`'', CHR 0x5C, CHR '';''})"

lemma scanner_ok_step: "scanner_ok st \<Longrightarrow> scanner_ok (snd (scan_terminator c st))"
  by (cases st) (auto simp: scanner_ok_def scan_terminator_def inLiteral_def split: if_splits)

lemma neutral_in_literal: "scanner_ok st \<Longrightarrow> neutral c \<Longrightarrow> inLiteral [c] st = st"
  unfolding inLiteral_def scanner_ok_def neutral_def by auto

lemma neutral_step:
  assumes "scanner_ok st" "neutral c"
  shows "scan_terminator [c] st = (False, st\<lparr>lit_escaped := False\<rparr>)"
proof -
  have "\<not> ([c] = [CHR 0x27] \<or> [c] = [CHR 0x22] \<or> [c] = ''`'')" "[c] \<noteq> '';''" using assms(2) by (auto simp: neutral_def)
  moreover have "\<not> lit_escaped st \<Longrightarrow> st\<lparr>lit_escaped := False\<rparr> = st" by simp
  ultimately show ?thesis using neutral_in_literal [OF assms] by (simp add: scan_terminator_def)
qed

lemma scanner_ok_unescape: "scanner_ok st \<Longrightarrow> scanner_ok (st\<lparr>lit_escaped := False\<rparr>)"
  by (simp add: scanner_ok_def)

lemma scan_neutral:
  "scanner_ok st \<Longrightarrow> list_all neutral w \<Longrightarrow> scan_bytes st w = Some (if w = [] then st else st\<lparr>lit_escaped := False\<rparr>)"
  by (induction w arbitrary: st) (simp_all add: neutral_step scanner_ok_unescape)

lemma scan_bytes_ok: "scanner_ok st \<Longrightarrow> scan_bytes st s = Some st' \<Longrightarrow> scanner_ok st'"
proof (induction st s rule: scan_bytes.induct)
  case (2 st c cs)
  then show ?case using scanner_ok_step [of st "[c]"] by (auto split: prod.splits bool.splits)
qed simp

lemma new_scanner_ok: "scanner_ok new_scanner"
  by (simp add: scanner_ok_def new_scanner_def)

section \<open>Blank bytes\<close>

lemma neutral_blank: "ascii_space c \<or> 128 \<le> byte c \<Longrightarrow> neutral c"
  unfolding neutral_def ascii_space_def byte_in_def by (auto simp: byte_def)

lemma space_width_neutral: "list_all neutral (take (space_width s) s)"
proof -
  have "list_all (\<lambda>c. ascii_space c \<or> 128 \<le> byte c) (take (space_width s) s)"
    unfolding space_width_def byte_in_def by (auto split: list.split simp: numeral_2_eq_2 numeral_3_eq_3)
  then show ?thesis using neutral_blank by (simp add: list_all_iff)
qed

lemma trim_left_split: "\<exists>w. s = w @ trim_space_left s \<and> list_all neutral w"
proof (induction s rule: trim_space_left.induct)
  case (1 s)
  show ?case
  proof (cases "space_width s = 0")
    case True
    then show ?thesis by (intro exI [of _ "[]"]) (simp add: trim_space_left.simps [of s])
  next
    case False
    then obtain w where "drop (space_width s) s = w @ trim_space_left (drop (space_width s) s)" "list_all neutral w"
      using 1 by blast
    moreover have "trim_space_left s = trim_space_left (drop (space_width s) s)" using False by (simp add: trim_space_left.simps [of s])
    ultimately show ?thesis
      using space_width_neutral [of s] append_take_drop_id [of "space_width s" s]
      by (intro exI [of _ "take (space_width s) s @ w"]) simp
  qed
qed

lemma space_suffix_neutral: "list_all neutral (drop (length s - space_suffix_width s) s)"
proof -
  have two: "list_all neutral t" if "space_width t = length t" for t using space_width_neutral [of t] that by simp
  have "s = [] \<or> s \<noteq> [] \<and> ascii_space (last s) \<and> space_suffix_width s = 1 \<or>
      space_suffix_width s = 2 \<and> 2 \<le> length s \<and> space_width (drop (length s - 2) s) = 2 \<or>
      space_suffix_width s = 3 \<and> 3 \<le> length s \<and> space_width (drop (length s - 3) s) = 3 \<or> space_suffix_width s = 0"
    by (simp add: space_suffix_width_def)
  then show ?thesis
  proof (elim disjE conjE)
    assume "s \<noteq> []" "ascii_space (last s)" "space_suffix_width s = 1"
    moreover from this have "drop (length s - 1) s = [last s]" by (cases s rule: rev_cases) simp_all
    ultimately show ?thesis using neutral_blank by simp
  qed (auto intro!: two)
qed

lemma trim_right_split: "\<exists>w. s = trim_space_right s @ w \<and> list_all neutral w"
proof (induction s rule: trim_space_right.induct)
  case (1 s)
  let ?n = "length s - space_suffix_width s"
  show ?case
  proof (cases "space_suffix_width s = 0")
    case True
    then show ?thesis by (intro exI [of _ "[]"]) (simp add: trim_space_right.simps [of s])
  next
    case False
    then obtain w where "take ?n s = trim_space_right (take ?n s) @ w" "list_all neutral w" using 1 by blast
    moreover have "trim_space_right s = trim_space_right (take ?n s)" using False by (simp add: trim_space_right.simps [of s])
    ultimately show ?thesis
      using space_suffix_neutral [of s] append_take_drop_id [of ?n s]
      by (intro exI [of _ "w @ drop ?n s"]) (metis append.assoc list_all_append)
  qed
qed

lemma trim_split: "\<exists>w w'. s = w @ trim_space s @ w' \<and> list_all neutral w \<and> list_all neutral w'"
proof -
  obtain w where "s = w @ trim_space_left s" "list_all neutral w" using trim_left_split by blast
  moreover obtain w' where "trim_space_left s = trim_space_right (trim_space_left s) @ w'" "list_all neutral w'"
    using trim_right_split by blast
  ultimately show ?thesis unfolding trim_space_def by metis
qed

section \<open>Closed statements\<close>

definition closed :: "string \<Rightarrow> bool" where "closed s = (scan_bytes new_scanner s = Some new_scanner)"

lemma closed_trim:
  assumes "closed s"
  shows "closed (trim_space s)"
proof -
  obtain w w' where s: "s = w @ trim_space s @ w'" and n: "list_all neutral w" "list_all neutral w'" using trim_split by blast
  have w: "scan_bytes new_scanner w = Some new_scanner"
    using scan_neutral [OF new_scanner_ok n(1)] by (simp add: new_scanner_def)
  have "scan_bytes new_scanner (trim_space s @ w') = Some new_scanner"
    using assms w unfolding closed_def by (subst (asm) s) (simp add: scan_bytes_append)
  then obtain st where st: "scan_bytes new_scanner (trim_space s) = Some st" "scan_bytes st w' = Some new_scanner"
    by (auto simp: scan_bytes_append split: option.splits)
  have ok: "scanner_ok st" using scan_bytes_ok [OF new_scanner_ok st(1)] .
  have "st = new_scanner"
  proof (cases "w' = []")
    case True
    then show ?thesis using st(2) by simp
  next
    case False
    then have "st\<lparr>lit_escaped := False\<rparr> = new_scanner" using scan_neutral [OF ok n(2)] st(2) by simp
    then show ?thesis using ok by (cases st) (auto simp: scanner_ok_def new_scanner_def)
  qed
  then show ?thesis using st(1) by (simp add: closed_def)
qed

text \<open>A rune is one ASCII byte, or bytes that no scanner state looks at.\<close>

lemma rune_bytes:
  "c \<in> set (runes s) \<Longrightarrow> (\<exists>b. c = [b] \<and> byte b < 128) \<or> (c \<noteq> [] \<and> list_all (\<lambda>b. 128 \<le> byte b) c)"
proof (induction s rule: runes.induct)
  case (2 a s)
  let ?r = "take (rune_width (a # s)) (a # s)"
  have "(\<exists>b. ?r = [b] \<and> byte b < 128) \<or> (?r \<noteq> [] \<and> list_all (\<lambda>b. 128 \<le> byte b) ?r)"
  proof (cases "byte a < 128")
    case True
    then have "rune_width (a # s) = 1" by (simp add: byte_in_def rune_width.simps(2))
    then show ?thesis using True by simp
  next
    case False
    then show ?thesis
      by (cases s; cases "tl s"; cases "tl (tl s)")
         (auto simp: rune_width.simps(2) byte_in_def cont_byte_def numeral_2_eq_2 numeral_3_eq_3 eval_nat_numeral split: if_splits)
  qed
  then show ?case using 2 by (auto simp: runes.simps(2))
qed simp

lemma write_rune_bytes:
  assumes "(\<exists>b. c = [b] \<and> byte b < 128) \<or> (c \<noteq> [] \<and> list_all (\<lambda>b. 128 \<le> byte b) c)"
  shows "(\<exists>b. c = [b] \<and> write_rune c = [b]) \<or>
    (list_all neutral c \<and> c \<noteq> [] \<and> list_all neutral (write_rune c) \<and> write_rune c \<noteq> [])"
proof -
  have e: "list_all (\<lambda>b. 128 \<le> byte b) [CHR 0xEF, CHR 0xBF, CHR 0xBD]" by (simp add: byte_def)
  show ?thesis
    using assms
  proof (elim disjE exE conjE)
    fix b assume "c = [b]" "byte b < 128"
    then show ?thesis by (simp add: write_rune_def invalid_lead_def)
  next
    assume "c \<noteq> []" "list_all (\<lambda>b. 128 \<le> byte b) c"
    then have "list_all neutral c" "c \<noteq> []" "list_all neutral (write_rune c)" "write_rune c \<noteq> []"
      using neutral_blank e by (auto simp: write_rune_def list_all_iff)
    then show ?thesis by blast
  qed
qed

lemma high_rune_step:
  assumes "scanner_ok st" "list_all neutral c" "c \<noteq> []"
  shows "scan_terminator c st = (False, st\<lparr>lit_escaped := False\<rparr>)"
proof -
  have h: "hd c \<notin> {CHR 0x27, CHR 0x22, CHR ''`'', CHR 0x5C, CHR '';''}"
    using assms(2,3) by (cases c) (auto simp: neutral_def)
  then have "c \<noteq> [CHR 0x27]" "c \<noteq> [CHR 0x22]" "c \<noteq> ''`''" "c \<noteq> [CHR 0x5C]" "c \<noteq> '';''" by auto
  moreover from this have "inLiteral c st = st" using assms(1) by (auto simp: inLiteral_def scanner_ok_def)
  moreover have "\<not> lit_escaped st \<Longrightarrow> st\<lparr>lit_escaped := False\<rparr> = st" by simp
  ultimately show ?thesis by (simp add: scan_terminator_def)
qed

lemma scan_rune:
  assumes "scanner_ok st" "(\<exists>b. c = [b] \<and> byte b < 128) \<or> (c \<noteq> [] \<and> list_all (\<lambda>b. 128 \<le> byte b) c)"
    "scan_terminator c st = (False, st')"
  shows "scan_bytes st (write_rune c) = Some st'"
  using write_rune_bytes [OF assms(2)]
proof (elim disjE exE conjE)
  fix b assume "c = [b]" "write_rune c = [b]"
  then show ?thesis using assms(3) by simp
next
  assume "list_all neutral c" "c \<noteq> []" "list_all neutral (write_rune c)" "write_rune c \<noteq> []"
  then show ?thesis using high_rune_step [OF assms(1), of c] scan_neutral [OF assms(1), of "write_rune c"] assms(3) by simp
qed

lemma terminator_found: "scan_terminator c st = (True, st') \<Longrightarrow> c = '';'' \<and> st = new_scanner"
  by (cases st) (auto simp: scan_terminator_def new_scanner_def split: if_splits)

lemma append_closed: "list_all closed stmts \<Longrightarrow> closed s \<Longrightarrow> list_all closed (appendStatement stmts s)"
  using closed_trim by (auto simp: appendStatement_def Let_def)

lemma split_loop_closed:
  "list_all (\<lambda>c. (\<exists>b. c = [b] \<and> byte b < 128) \<or> (c \<noteq> [] \<and> list_all (\<lambda>b. 128 \<le> byte b) c)) cs \<Longrightarrow>
   scanner_ok st \<Longrightarrow> scan_bytes new_scanner current = Some st \<Longrightarrow> list_all closed stmts \<Longrightarrow>
   list_all closed (butlast (split_loop cs st current stmts))"
proof (induction cs st current stmts rule: split_loop.induct)
  case (1 st current stmts)
  then show ?case by (auto simp: appendStatement_def Let_def list_all_iff dest: in_set_butlastD)
next
  case (2 c cs st current stmts)
  obtain found st' where step: "scan_terminator c st = (found, st')" by fastforce
  have ok': "scanner_ok st'" using scanner_ok_step [OF 2(4), of c] step by simp
  show ?case
  proof (cases found)
    case False
    then have "scan_bytes new_scanner (current @ write_rune c) = Some st'"
      using scan_rune [OF 2(4) _, of c st'] 2(3,5) step by (simp add: scan_bytes_append)
    then show ?thesis using 2(1) [OF refl step [symmetric]] 2(3,6) False step ok' by simp
  next
    case True
    then have c: "c = '';''" "st = new_scanner" using terminator_found [of c st st'] step by simp_all
    have "closed current" using 2(5) c by (simp add: closed_def)
    moreover have "write_rune c = '';''" using c by (simp add: write_rune_def invalid_lead_def byte_def byte_in_def)
    moreover have "st' = new_scanner" using step c True by (simp add: scan_terminator_def new_scanner_def)
    ultimately show ?thesis
      using 2(2) [OF refl step [symmetric]] 2(3,6) True step new_scanner_ok append_closed by simp
  qed
qed

lemma statements_closed: "list_all closed (butlast (splitStatements body))"
  unfolding splitStatements_def splitOnUnquotedSemicolons_def
  using rune_bytes new_scanner_ok by (intro split_loop_closed) (auto simp: list_all_iff)

section \<open>A digest of the applied prefix names it\<close>

lemma closed_then_terminator:
  assumes "closed a" "closed b" "a @ CHR '';'' # x = b @ CHR '';'' # y"
  shows "a = b \<and> x = y"
proof -
  have stop: "scan_bytes new_scanner (u @ CHR '';'' # v) = None" if "closed u" for u v
    using that by (simp add: closed_def scan_bytes_append scan_terminator_def new_scanner_def)
  have longer: False if h: "closed u" "closed v" "length u < length v" "u @ CHR '';'' # x' = v @ y'" for u v x' y'
  proof -
    obtain z where "v = u @ z" "CHR '';'' # x' = z @ y'"
      using h(3,4) by (metis append_eq_append_conv_if append_take_drop_id less_imp_le_nat append_eq_conv_conj)
    moreover from this obtain z' where "z = CHR '';'' # z'" using h(3) by (cases z) auto
    ultimately show False using stop [OF h(1), of z'] h(2) by (simp add: closed_def)
  qed
  have "length a = length b"
    using longer [OF assms(1,2), of x "CHR '';'' # y"] longer [OF assms(2,1), of y "CHR '';'' # x"] assms(3)
    by (metis linorder_neqE_nat)
  then show ?thesis using assms(3) by simp
qed

lemma join_closed_inj:
  "length p = length q \<Longrightarrow> list_all closed p \<Longrightarrow> list_all closed (butlast q) \<Longrightarrow>
   join (CHR '';'' # sep) p = join (CHR '';'' # sep) q \<Longrightarrow> p = q"
proof (induction p arbitrary: q)
  case (Cons a p)
  then obtain b q' where q: "q = b # q'" "length p = length q'" by (cases q) auto
  show ?case
  proof (cases p)
    case Nil
    then show ?thesis using Cons.prems(4) q by simp
  next
    case (Cons a2 p2)
    then obtain b2 q2 where q2: "q' = b2 # q2" using q by (cases q') auto
    have ab: "closed a" "closed b" using Cons.prems(2,3) q q2 by simp_all
    have "a @ CHR '';'' # (sep @ join (CHR '';'' # sep) p) = b @ CHR '';'' # (sep @ join (CHR '';'' # sep) q')"
      using Cons.prems(4) q q2 Cons by simp
    from closed_then_terminator [OF ab this] have "a = b" "join (CHR '';'' # sep) p = join (CHR '';'' # sep) q'" by simp_all
    then show ?thesis using Cons.IH [of q'] Cons.prems(2,3) q q2 by simp
  qed
qed simp

lemma prefix_digest_inj:
  assumes "inj sha256" "k < length (splitStatements b)" "k \<le> length (splitStatements b')"
    and "prefixChecksum sha256 (take k (splitStatements b)) = prefixChecksum sha256 (take k (splitStatements b'))"
  shows "take k (splitStatements b) = take k (splitStatements b')"
proof -
  have "take k (splitStatements b) = take k (butlast (splitStatements b))" using assms(2) by (simp add: take_butlast)
  then have p: "list_all closed (take k (splitStatements b))"
    using statements_closed [of b] by (auto simp: list_all_iff dest: in_set_takeD)
  have "butlast (take k (splitStatements b')) = take (k - 1) (butlast (splitStatements b'))"
    using assms(3) by (cases "k = 0") (simp_all add: butlast_take take_butlast)
  then have "set (butlast (take k (splitStatements b'))) \<subseteq> set (butlast (splitStatements b'))"
    using set_take_subset by metis
  then have q: "list_all closed (butlast (take k (splitStatements b')))"
    using statements_closed [of b'] by (auto simp: list_all_iff)
  have "join ('';'' @ [CHR 10]) (take k (splitStatements b)) = join ('';'' @ [CHR 10]) (take k (splitStatements b'))"
    using assms(1,4) by (simp add: prefixChecksum_def inj_eq)
  then show ?thesis using assms(2,3) p q by (intro join_closed_inj [of _ _ "[CHR 10]"]) simp_all
qed

section \<open>Every statement once\<close>

text \<open>The statements of a file that took effect, in order.\<close>

definition effected :: "string \<Rightarrow> mig_db \<Rightarrow> string list" where
  "effected name db = map snd (filter (\<lambda>(n, s). n = name) (took_effect db))"

definition mig_inv :: "(string \<Rightarrow> string) \<Rightarrow> mig_db \<Rightarrow> string \<Rightarrow> bool" where
  "mig_inv sha256 db name =
     (case schema_migrations db name of
        Some c \<Rightarrow> \<exists>body. sha256 body = c \<and> effected name db = splitStatements body
      | None \<Rightarrow>
          (case migration_progress db name of
             None \<Rightarrow> effected name db = []
           | Some (digest, k) \<Rightarrow> \<exists>body. k < length (splitStatements body) \<and>
               effected name db = take k (splitStatements body) \<and> digest = prefixChecksum sha256 (effected name db)))"

text \<open>A start that is not cut short and can write its own tables; the migrations' statements may fail.\<close>

definition steady_start :: "mig_env \<Rightarrow> bool" where
  "steady_start x = ((\<forall>n i. x_exec x n i \<noteq> ProcessEnds) \<and> (\<forall>n. x_record x n \<and> x_insert x n) \<and>
     (case x_entries x of None \<Rightarrow> True | Some es \<Rightarrow> distinct (map de_name es)))"

definition same_for :: "string \<Rightarrow> mig_db \<Rightarrow> mig_db \<Rightarrow> bool" where
  "same_for n db db' = (schema_migrations db' n = schema_migrations db n \<and> migration_progress db' n = migration_progress db n \<and>
     effected n db' = effected n db)"

lemma same_for_inv: "same_for n db db' \<Longrightarrow> mig_inv sha256 db' n = mig_inv sha256 db n"
  unfolding same_for_def mig_inv_def by (elim conjE) (simp only:)

lemma same_for_refl [simp]: "same_for n db db"
  by (simp add: same_for_def)

lemma same_for_trans: "same_for n a b \<Longrightarrow> same_for n b c \<Longrightarrow> same_for n a c"
  by (simp add: same_for_def)

lemma exec_from_other:
  "n \<noteq> name \<Longrightarrow> same_for n db (snd (exec_from sha256 x name c statements rest i db))"
proof (induction sha256 x name c statements rest i db rule: exec_from.induct)
  case (1 sha256 x name c statements i db)
  then show ?case by (simp add: mig_finish_def same_for_def effected_def Let_def)
next
  case (2 sha256 x name c statements s rest i db)
  have "same_for n db (db\<lparr>took_effect := took_effect db @ [(name, s)]\<rparr>)"
    using 2(2) by (simp add: same_for_def effected_def)
  then show ?case
    using 2 same_for_trans by (auto simp: recordProgress_def same_for_def effected_def split: exec_result.split)
qed

lemma drop_eq_cons: "s # rest = drop i xs \<Longrightarrow> i < length xs \<and> s = xs ! i \<and> rest = drop (i + 1) xs"
  by (metis Cons_nth_drop_Suc Suc_eq_plus1 drop_eq_Nil leI list.distinct(1) list.inject)

lemma exec_from_inv:
  assumes "steady_start x"
  shows "rest = drop i (splitStatements body) \<Longrightarrow> i \<le> length (splitStatements body) \<Longrightarrow>
    effected name db = take i (splitStatements body) \<Longrightarrow> schema_migrations db name = None \<Longrightarrow>
    mig_inv sha256 (snd (exec_from sha256 x name (sha256 body) (splitStatements body) rest i db)) name"
proof (induction rest arbitrary: i db)
  case Nil
  then have "effected name db = splitStatements body" by simp
  then show ?case using assms by (auto simp: mig_finish_def steady_start_def mig_inv_def effected_def Let_def)
next
  case (Cons s rest)
  have i: "i < length (splitStatements body)" "s = splitStatements body ! i" "rest = drop (i + 1) (splitStatements body)"
    using drop_eq_cons [OF Cons.prems(1)] by simp_all
  show ?case
  proof (cases "x_exec x name i")
    case Succeeds
    have "effected name (db\<lparr>took_effect := took_effect db @ [(name, s)]\<rparr>) = take (i + 1) (splitStatements body)"
      using Cons.prems(3) i(1,2) by (simp add: effected_def take_Suc_conv_app_nth)
    then show ?thesis using Cons.IH [of "i + 1"] Cons.prems(4) i Succeeds by simp
  next
    case FailsToRun
    then show ?thesis using assms Cons.prems(3,4) i(1)
      by (auto simp: recordProgress_def steady_start_def mig_inv_def effected_def)
  next
    case ProcessEnds
    then show ?thesis using assms by (simp add: steady_start_def)
  qed
qed

lemma applyFile_inv:
  assumes "steady_start x" "inj sha256" "mig_inv sha256 db name" "schema_migrations db name = None"
  shows "mig_inv sha256 (snd (applyFile sha256 x name body (sha256 body) db)) name"
proof (cases "resumePoint sha256 x name (splitStatements body) db")
  case (Inl err)
  then show ?thesis using assms(3) by (simp add: applyFile_def)
next
  case (Inr start)
  have "start \<le> length (splitStatements body) \<and> effected name db = take start (splitStatements body)"
  proof (cases "migration_progress db name")
    case None
    then show ?thesis using assms(3,4) Inr by (simp add: resumePoint_def mig_inv_def split: if_splits)
  next
    case (Some r)
    obtain digest k where r: "r = (digest, k)" by fastforce
    obtain b where b: "k < length (splitStatements b)" "effected name db = take k (splitStatements b)"
      "digest = prefixChecksum sha256 (take k (splitStatements b))"
      using assms(3,4) Some r by (auto simp: mig_inv_def)
    have "start = k \<and> k \<le> length (splitStatements body) \<and> digest = prefixChecksum sha256 (take k (splitStatements body))"
      using Inr Some r by (auto simp: resumePoint_def split: if_splits)
    then show ?thesis using prefix_digest_inj [OF assms(2) b(1), of body] b(2,3) by simp
  qed
  then show ?thesis using Inr exec_from_inv [OF assms(1) refl] assms(4) by (simp add: applyFile_def Let_def)
qed

lemma applyNamed_inv:
  assumes "steady_start x" "inj sha256" "\<forall>s. sha256 s \<noteq> []" "\<forall>n. mig_inv sha256 db n" "applied name = schema_migrations db name"
  shows "(\<forall>n. mig_inv sha256 (snd (applyNamed sha256 x name applied db)) n) \<and>
    (\<forall>n. n \<noteq> name \<longrightarrow> schema_migrations (snd (applyNamed sha256 x name applied db)) n = schema_migrations db n)"
proof (cases "x_file x name")
  case None
  then show ?thesis using assms(4) by (simp add: applyNamed_def)
next
  case (Some body)
  show ?thesis
  proof (cases "applied name")
    case None
    then have run: "snd (applyNamed sha256 x name applied db) = snd (applyFile sha256 x name body (sha256 body) db)"
      using Some by (simp add: applyNamed_def reconcileApplied_def Let_def)
    have other: "same_for n db (snd (applyFile sha256 x name body (sha256 body) db))" if "n \<noteq> name" for n
      using exec_from_other [OF that] by (simp add: applyFile_def Let_def split: sum.split)
    have "mig_inv sha256 (snd (applyFile sha256 x name body (sha256 body) db)) n" for n
    proof (cases "n = name")
      case True
      then show ?thesis using applyFile_inv [OF assms(1,2)] assms(4,5) None by simp
    next
      case False
      then show ?thesis using same_for_inv [OF other] assms(4) by simp
    qed
    moreover have "schema_migrations (snd (applyFile sha256 x name body (sha256 body) db)) n = schema_migrations db n"
      if "n \<noteq> name" for n
      using other [OF that] by (simp add: same_for_def)
    ultimately show ?thesis unfolding run by blast
  next
    case (Some prev)
    then have "prev \<noteq> []" using assms(3) assms(4) [rule_format, of name] assms(5) by (auto simp: mig_inv_def)
    then show ?thesis using Some \<open>x_file x name = _\<close> assms(4) by (simp add: applyNamed_def reconcileApplied_def Let_def)
  qed
qed

lemma apply_names_inv:
  assumes "steady_start x" "inj sha256" "\<forall>s. sha256 s \<noteq> []"
  shows "distinct names \<Longrightarrow> \<forall>n. mig_inv sha256 db n \<Longrightarrow> \<forall>n \<in> set names. applied n = schema_migrations db n \<Longrightarrow>
    mig_inv sha256 (snd (apply_names sha256 x names applied db)) n"
proof (induction names arbitrary: db)
  case (Cons name names)
  note step = applyNamed_inv [OF assms Cons.prems(2), of applied name]
  obtain err db' where run: "applyNamed sha256 x name applied db = (err, db')" by fastforce
  have s: "\<forall>n. mig_inv sha256 db' n" "\<forall>n. n \<noteq> name \<longrightarrow> schema_migrations db' n = schema_migrations db n"
    using step Cons.prems(3) run by simp_all
  have "\<forall>n \<in> set names. applied n = schema_migrations db' n" using s(2) Cons.prems(1,3) by auto
  then show ?case using Cons.IH [OF _ s(1)] Cons.prems(1) run s(1) by (cases err) simp_all
qed simp

lemma mig_Run_inv:
  assumes "steady_start x" "inj sha256" "\<forall>s. sha256 s \<noteq> []" "\<forall>n. mig_inv sha256 db n"
  shows "mig_inv sha256 (snd (mig_Run sha256 x db)) n"
proof (cases "x_entries x")
  case (Some es)
  then have "distinct (map de_name es)" using assms(1) by (simp add: steady_start_def)
  then have "distinct (migrationNames (x_euid x) es)"
    unfolding migrationNames_def by (simp add: distinct_map_filter)
  then show ?thesis using Some assms(4) apply_names_inv [OF assms(1-3)] by (simp add: mig_Run_def)
qed (use assms(4) in \<open>simp add: mig_Run_def\<close>)

definition empty_mig :: mig_db where
  "empty_mig = \<lparr>schema_migrations = Map.empty, migration_progress = Map.empty, took_effect = []\<rparr>"

lemma starts_inv:
  assumes "list_all steady_start xs" "inj sha256" "\<forall>s. sha256 s \<noteq> []"
  shows "mig_inv sha256 (foldl (\<lambda>db x. snd (mig_Run sha256 x db)) empty_mig xs) n"
proof -
  have "\<forall>n. mig_inv sha256 db n \<Longrightarrow> list_all steady_start xs \<Longrightarrow> \<forall>n. mig_inv sha256 (foldl (\<lambda>db x. snd (mig_Run sha256 x db)) db xs) n" for db
  proof (induction xs arbitrary: db)
    case (Cons x xs)
    have "\<forall>n. mig_inv sha256 (snd (mig_Run sha256 x db)) n"
      using mig_Run_inv [OF _ assms(2,3) Cons.prems(1), of x] Cons.prems(2) by simp
    then show ?case using Cons.IH Cons.prems(2) by simp
  qed simp
  moreover have "\<forall>n. mig_inv sha256 empty_mig n" by (simp add: mig_inv_def empty_mig_def effected_def)
  ultimately show ?thesis using assms(1) by blast
qed


text \<open>A server with one migration of two statements; the arguments are what its statements and the record of it do.\<close>

definition one_migration :: "(string \<Rightarrow> nat \<Rightarrow> exec_result) \<Rightarrow> bool \<Rightarrow> mig_env" where
  "one_migration run recorded =
     \<lparr>x_euid = 0, x_dir = Some \<lparr>dir_symlink = False, dir_is_dir = True, dir_mode = \<lparr>fi_perm = 0x1ED, fi_uid = Some 0\<rparr>\<rparr>,
      x_entries = Some [\<lparr>de_name = ''1.sql'', de_dir = False, de_symlink = False, de_regular = True,
        de_info = Some \<lparr>fi_perm = 0x1A4, fi_uid = Some 0\<rparr>\<rparr>],
      x_file = (\<lambda>n. if n = ''1.sql'' then Some (''A;'' @ [CHR 10] @ ''B;'') else None),
      x_tables = True, x_applied = True, x_backfill = (\<lambda>n. True), x_progress = (\<lambda>n. True), x_exec = run,
      x_record = (\<lambda>n. True), x_insert = (\<lambda>n. recorded), x_clear = (\<lambda>n. True)\<rparr>"

definition some_digest :: "string \<Rightarrow> string" where
  "some_digest s = CHR ''h'' # s"

definition second_fails :: mig_env where
  "second_fails = one_migration (\<lambda>n i. if i = 1 then FailsToRun else Succeeds) True"

definition second_ends :: mig_env where
  "second_ends = one_migration (\<lambda>n i. if i = 1 then ProcessEnds else Succeeds) True"

definition not_recorded :: mig_env where
  "not_recorded = one_migration (\<lambda>n i. Succeeds) False"

definition all_well :: mig_env where
  "all_well = one_migration (\<lambda>n i. Succeeds) True"

lemma resumed_file: "effected ''1.sql'' (foldl (\<lambda>db x. snd (mig_Run some_digest x db)) empty_mig [second_fails, all_well])
    = [''A'', ''B'']"
  by code_simp


section \<open>A start that is cut short\<close>

text \<open>
  Progress is written only when a statement answers with an error. A process that ends during a statement,
  or a file whose last record cannot be written, leaves no progress, and the next start runs the file again
  from its first statement.
\<close>

theorem cut_start_runs_again:
  "effected ''1.sql'' (foldl (\<lambda>db x. snd (mig_Run some_digest x db)) empty_mig [second_ends, all_well])
     = [''A'', ''B'', ''A'', ''B'']"
  by code_simp

theorem unrecorded_file_runs_again:
  "effected ''1.sql'' (foldl (\<lambda>db x. snd (mig_Run some_digest x db)) empty_mig [not_recorded, all_well])
     = [''A'', ''B'', ''A'', ''B'']"
  by code_simp

end
