(* ===== verification/TicketStore.thy ===== *)
theory TicketStore
  imports Main "HOL-Library.Sublist"
begin

text \<open>
  The contract of a table of single-use tickets, as the two sign-on paths of the panel use it
  (internal/pma, internal/mail/webmailsignon.go): a ticket is minted for a grant, is live for a
  while, is taken at most once, and dead rows are swept at any time. Times are seconds of the
  database's clock, which does not run backwards. Two tickets with the same \<open>key\<close> are the same to the
  database. The lemmas proved once here carry the agreement between minting and taking: whatever is
  taken was minted, not long ago, for this grant, and is taken only once.
\<close>

locale ticket_store =
  fixes key :: "'t \<Rightarrow> 'k"
    and invar :: "'s \<Rightarrow> bool"
    and live :: "'s \<Rightarrow> int \<Rightarrow> 't \<Rightarrow> 'g option"
    and minted :: "int \<Rightarrow> 't \<Rightarrow> 'g \<Rightarrow> 's \<Rightarrow> 's option"
    and consumed :: "int \<Rightarrow> 't \<Rightarrow> 's \<Rightarrow> bool \<times> 's"
    and swept :: "int \<Rightarrow> 's \<Rightarrow> 's"
    and shrunk :: "'s \<Rightarrow> 's \<Rightarrow> bool"
    and validity :: int
  assumes minted_live: "minted now t g s = Some s' \<Longrightarrow>
          live s' now' t' = (if key t' = key t then if now' \<le> now + validity then Some g else None else live s now' t')"
    and consumed_iff: "invar s \<Longrightarrow> fst (consumed now t s) \<longleftrightarrow> live s now t \<noteq> None"
    and consumed_live: "invar s \<Longrightarrow> live (snd (consumed now t s)) now' t' =
          (if key t' = key t \<and> live s now t \<noteq> None then None else live s now' t')"
    and swept_live: "invar s \<Longrightarrow> live (swept now s) now' t = Some g \<Longrightarrow> live s now' t = Some g"
    and shrunk_live: "invar s \<Longrightarrow> shrunk s s' \<Longrightarrow> live s' now t = Some g \<Longrightarrow> live s now t = Some g"
    and minted_invar: "invar s \<Longrightarrow> minted now t g s = Some s' \<Longrightarrow> invar s'"
    and consumed_invar: "invar s \<Longrightarrow> invar (snd (consumed now t s))"
    and swept_invar: "invar s \<Longrightarrow> invar (swept now s)"
    and shrunk_invar: "invar s \<Longrightarrow> shrunk s s' \<Longrightarrow> invar s'"
begin

text \<open>
  Two logs beside the table: the tickets minted and the tickets taken, each with its time and grant.
  \<open>agree\<close> relates them to a table.
\<close>

definition keys_of :: "(int \<times> 't \<times> 'g) list \<Rightarrow> 'k list" where
  "keys_of es = map (\<lambda>e. key (fst (snd e))) es"

definition backed :: "(int \<times> 't \<times> 'g) list \<Rightarrow> 't \<Rightarrow> 'g \<Rightarrow> bool" where
  "backed ms t g = (\<exists>m t'. (m, t', g) \<in> set ms \<and> key t' = key t)"

definition backed_at :: "(int \<times> 't \<times> 'g) list \<Rightarrow> int \<Rightarrow> 't \<Rightarrow> 'g \<Rightarrow> bool" where
  "backed_at ms now t g = (\<exists>m t'. (m, t', g) \<in> set ms \<and> key t' = key t \<and> m \<le> now \<and> now \<le> m + validity)"

definition agree :: "int \<Rightarrow> (int \<times> 't \<times> 'g) list \<Rightarrow> (int \<times> 't \<times> 'g) list \<Rightarrow> 's \<Rightarrow> bool" where
  "agree now ms rs s = (invar s \<and> distinct (keys_of ms) \<and> distinct (keys_of rs) \<and> (\<forall>(m, t, g) \<in> set ms. m \<le> now) \<and>
     (\<forall>(n, t, g) \<in> set rs. backed_at ms n t g) \<and>
     (\<forall>n t g. now \<le> n \<longrightarrow> live s n t = Some g \<longrightarrow> backed_at ms n t g \<and> key t \<notin> set (keys_of rs)))"

lemma backed_at_backed: "backed_at ms now t g \<Longrightarrow> backed ms t g"
  by (auto simp: backed_at_def backed_def)

lemma backed_more: "backed ms t g \<Longrightarrow> backed (e # ms) t g" "backed_at ms now t g \<Longrightarrow> backed_at (e # ms) now t g"
  by (auto simp: backed_def backed_at_def)

text \<open>With fresh tickets a key names one grant.\<close>

lemma backed_unique:
  assumes "distinct (keys_of ms)" "backed ms t g" "backed ms t g'"
  shows "g = g'"
proof -
  obtain e e' where e: "e \<in> set ms" "e' \<in> set ms" "key (fst (snd e)) = key t" "key (fst (snd e')) = key t"
      "g = snd (snd e)" "g' = snd (snd e')"
    using assms(2,3) unfolding backed_def by force
  have "e = e'" using assms(1) e(1-4) by (auto simp: keys_of_def distinct_map inj_on_def)
  then show ?thesis using e(5,6) by simp
qed

lemma agree_init: "invar s \<Longrightarrow> (\<And>n t. live s n t = None) \<Longrightarrow> agree now [] [] s"
  by (simp add: agree_def keys_of_def)

lemma agreeD:
  assumes "agree now ms rs s"
  shows "distinct (keys_of ms)" "distinct (keys_of rs)" "(m, t, g) \<in> set ms \<Longrightarrow> m \<le> now"
    "(n, t, g) \<in> set rs \<Longrightarrow> backed_at ms n t g"
    "now \<le> n \<Longrightarrow> live s n t = Some g \<Longrightarrow> backed_at ms n t g"
    "now \<le> n \<Longrightarrow> live s n t = Some g \<Longrightarrow> key t \<notin> set (keys_of rs)"
    "invar s"
  using assms unfolding agree_def by fast+

lemma agreeI:
  assumes "invar s" "distinct (keys_of ms)" "distinct (keys_of rs)" "\<And>m t g. (m, t, g) \<in> set ms \<Longrightarrow> m \<le> now"
    and "\<And>n t g. (n, t, g) \<in> set rs \<Longrightarrow> backed_at ms n t g"
    and "\<And>n t g. now \<le> n \<Longrightarrow> live s n t = Some g \<Longrightarrow> backed_at ms n t g \<and> key t \<notin> set (keys_of rs)"
  shows "agree now ms rs s"
  using assms unfolding agree_def by fast

lemma agree_later:
  assumes a: "agree now ms rs s" and le: "now \<le> now'"
  shows "agree now' ms rs s"
proof (rule agreeI)
  show "m \<le> now'" if "(m, t, g) \<in> set ms" for m t g using agreeD(3) [OF a that] le by simp
  show "backed_at ms n t g \<and> key t \<notin> set (keys_of rs)" if "now' \<le> n" "live s n t = Some g" for n t g
    using agreeD(5,6) [OF a _ that(2)] that(1) le by simp
qed (use agreeD [OF a] in blast)+

lemma agree_fewer:
  assumes a: "agree now ms rs s" and i: "invar s'" and f: "\<And>n t g. live s' n t = Some g \<Longrightarrow> live s n t = Some g"
  shows "agree now ms rs s'"
  by (rule agreeI) (use agreeD [OF a] i f in blast)+

lemma agree_swept: "agree now ms rs s \<Longrightarrow> agree now ms rs (swept at s)"
  by (rule agree_fewer [OF _ swept_invar [OF agreeD(7)] swept_live [OF agreeD(7)]])

lemma agree_shrunk: "agree now ms rs s \<Longrightarrow> shrunk s s' \<Longrightarrow> agree now ms rs s'"
  by (rule agree_fewer [OF _ shrunk_invar [OF agreeD(7)] shrunk_live [OF agreeD(7)]])

lemma agree_minted:
  assumes a: "agree now ms rs s" and new: "key t \<notin> set (keys_of ms)" and mint: "minted now t g s = Some s'"
  shows "agree now ((now, t, g) # ms) rs s'"
proof -
  have unused: "key t \<notin> set (keys_of rs)"
  proof
    assume "key t \<in> set (keys_of rs)"
    then obtain n t' g' where r: "(n, t', g') \<in> set rs" "key t' = key t" by (auto simp: keys_of_def)
    then show False using agreeD(4) [OF a r(1)] new by (force simp: backed_at_def keys_of_def)
  qed
  show ?thesis
  proof (rule agreeI)
    show "backed_at ((now, t, g) # ms) n t' g' \<and> key t' \<notin> set (keys_of rs)"
      if n: "now \<le> n" and l: "live s' n t' = Some g'" for n t' g'
    proof (cases "key t' = key t")
      case True
      then have "n \<le> now + validity \<and> g' = g" using l minted_live [OF mint, of n t'] by (simp split: if_splits)
      then show ?thesis using n True unused by (auto simp: backed_at_def)
    next
      case False
      then have "live s n t' = Some g'" using l minted_live [OF mint, of n t'] by simp
      then show ?thesis using agreeD(5,6) [OF a n] backed_more(2) by blast
    qed
    show "m \<le> now" if "(m, t', g') \<in> set ((now, t, g) # ms)" for m t' g'
      using that agreeD(3) [OF a] by auto
  qed (use agreeD [OF a] minted_invar [OF agreeD(7) [OF a] mint] backed_more(2) new in \<open>auto simp: keys_of_def\<close>)
qed

lemma agree_refused: "agree now ms rs s \<Longrightarrow> \<not> fst (consumed n t s) \<Longrightarrow> agree now ms rs (snd (consumed n t s))"
  by (frule agreeD(7)) (rule agree_fewer; simp add: consumed_iff consumed_live consumed_invar)

text \<open>Taking a ticket whose grant was read before, at any earlier moment: the grant is still the one minted.\<close>

lemma agree_consumed:
  assumes a: "agree now ms rs s" and le: "now \<le> n" and read: "backed ms t g" and ok: "fst (consumed n t s)"
  shows "agree n ms ((n, t, g) # rs) (snd (consumed n t s))"
proof -
  have i: "invar s" by (rule agreeD(7) [OF a])
  obtain g' where l: "live s n t = Some g'" using ok i by (auto simp: consumed_iff)
  have b: "backed_at ms n t g'" "key t \<notin> set (keys_of rs)" using agreeD(5,6) [OF a le l] by auto
  have "g' = g" by (rule backed_unique [OF agreeD(1) [OF a] backed_at_backed [OF b(1)] read])
  then have b': "backed_at ms n t g" using b(1) by simp
  show ?thesis
  proof (rule agreeI)
    show "backed_at ms m t' h \<and> key t' \<notin> set (keys_of ((n, t, g) # rs))"
      if m: "n \<le> m" and k: "live (snd (consumed n t s)) m t' = Some h" for m t' h
    proof -
      have "key t' \<noteq> key t" "live s m t' = Some h" using k l consumed_live [OF i, of n t m t'] by (auto split: if_splits)
      then show ?thesis using agreeD(5,6) [OF a _ \<open>live s m t' = Some h\<close>] m le by (simp add: keys_of_def)
    qed
    show "m \<le> n" if "(m, t', h) \<in> set ms" for m t' h using agreeD(3) [OF a that] le by simp
    show "distinct (keys_of ((n, t, g) # rs))" using agreeD(2) [OF a] b(2) by (simp add: keys_of_def)
    show "backed_at ms m t' h" if "(m, t', h) \<in> set ((n, t, g) # rs)" for m t' h
      using that b' agreeD(4) [OF a] by auto
  qed (use agreeD(1) [OF a] consumed_invar [OF i] in blast)+
qed

text \<open>
  What a client keeps: the reads that are still to be redeemed, and the redemptions it answered. \<open>view\<close> is
  the part of a grant a redemption is answered with.
\<close>

definition sound :: "('g \<Rightarrow> 'v) \<Rightarrow> int \<Rightarrow> (int \<times> 't \<times> 'g) list \<Rightarrow> ('t \<times> 'v) list \<Rightarrow> (int \<times> 't \<times> 'v) list \<Rightarrow> 's \<Rightarrow> bool" where
  "sound view now ms pend opened s = (\<exists>rs. agree now ms rs s \<and> subseq (map (\<lambda>e. key (fst (snd e))) opened) (keys_of rs) \<and>
     (\<forall>t v. (t, v) \<in> set pend \<longrightarrow> (\<exists>g. backed ms t g \<and> view g = v)) \<and>
     (\<forall>n t v. (n, t, v) \<in> set opened \<longrightarrow> (\<exists>g. backed_at ms n t g \<and> view g = v)))"

lemma soundE:
  assumes "sound view now ms pend opened s"
  obtains rs where "agree now ms rs s" "subseq (map (\<lambda>e. key (fst (snd e))) opened) (keys_of rs)"
    "\<And>t v. (t, v) \<in> set pend \<Longrightarrow> \<exists>g. backed ms t g \<and> view g = v"
    "\<And>n t v. (n, t, v) \<in> set opened \<Longrightarrow> \<exists>g. backed_at ms n t g \<and> view g = v"
  using assms unfolding sound_def by blast

lemma soundI:
  assumes "agree now ms rs s" "subseq (map (\<lambda>e. key (fst (snd e))) opened) (keys_of rs)"
    and "\<And>t v. (t, v) \<in> set pend \<Longrightarrow> \<exists>g. backed ms t g \<and> view g = v"
    and "\<And>n t v. (n, t, v) \<in> set opened \<Longrightarrow> \<exists>g. backed_at ms n t g \<and> view g = v"
  shows "sound view now ms pend opened s"
  using assms unfolding sound_def by blast

lemma sound_init: "invar s \<Longrightarrow> (\<And>n t. live s n t = None) \<Longrightarrow> sound view now [] [] [] s"
  unfolding sound_def using agree_init by (intro exI [of _ "[]"]) (simp add: keys_of_def)

lemma sound_mono:
  assumes "sound view now ms pend opened s" and "\<And>rs. agree now ms rs s \<Longrightarrow> agree now' ms rs s'"
  shows "sound view now' ms pend opened s'"
  using assms unfolding sound_def by blast

lemmas sound_later = sound_mono [OF _ agree_later]
lemmas sound_swept = sound_mono [OF _ agree_swept]
lemmas sound_shrunk = sound_mono [OF _ agree_shrunk]
lemmas sound_refused = sound_mono [OF _ agree_refused]

lemma sound_minted:
  assumes "sound view now ms pend opened s" "key t \<notin> set (keys_of ms)" "minted now t g s = Some s'"
  shows "sound view now ((now, t, g) # ms) pend opened s'"
proof (rule soundE [OF assms(1)])
  fix rs
  assume rs: "agree now ms rs s" "subseq (map (\<lambda>e. key (fst (snd e))) opened) (keys_of rs)"
    "\<And>t v. (t, v) \<in> set pend \<Longrightarrow> \<exists>g. backed ms t g \<and> view g = v"
    "\<And>n t v. (n, t, v) \<in> set opened \<Longrightarrow> \<exists>g. backed_at ms n t g \<and> view g = v"
  show ?thesis
    by (rule soundI [OF agree_minted [OF rs(1) assms(2,3)] rs(2)]) (use rs(3,4) backed_more in blast)+
qed

lemma sound_read:
  assumes "sound view now ms pend opened s" "live s now t = Some g"
  shows "sound view now ms ((t, view g) # pend) opened s"
proof (rule soundE [OF assms(1)])
  fix rs
  assume rs: "agree now ms rs s" "subseq (map (\<lambda>e. key (fst (snd e))) opened) (keys_of rs)"
    "\<And>t v. (t, v) \<in> set pend \<Longrightarrow> \<exists>g. backed ms t g \<and> view g = v"
    "\<And>n t v. (n, t, v) \<in> set opened \<Longrightarrow> \<exists>g. backed_at ms n t g \<and> view g = v"
  have "backed ms t g" by (rule backed_at_backed [OF agreeD(5) [OF rs(1) order_refl assms(2)]])
  then show ?thesis by (intro soundI [OF rs(1,2)]) (use rs(3,4) in auto)
qed

lemma sound_taken:
  assumes s: "sound view now ms pend opened s" and ok: "fst (consumed now t s)" and p: "(t, v) \<in> set pend"
  shows "sound view now ms pend ((now, t, v) # opened) (snd (consumed now t s))"
    and "sound view now ms pend opened (snd (consumed now t s))"
proof -
  obtain rs where rs: "agree now ms rs s" "subseq (map (\<lambda>e. key (fst (snd e))) opened) (keys_of rs)"
    "\<And>t v. (t, v) \<in> set pend \<Longrightarrow> \<exists>g. backed ms t g \<and> view g = v"
    "\<And>n t v. (n, t, v) \<in> set opened \<Longrightarrow> \<exists>g. backed_at ms n t g \<and> view g = v"
    using soundE [OF s] by blast
  obtain g where g: "backed ms t g" "view g = v" using rs(3) [OF p] by blast
  have a: "agree now ms ((now, t, g) # rs) (snd (consumed now t s))"
    by (rule agree_consumed [OF rs(1) order_refl g(1) ok])
  have b: "backed_at ms now t g" by (rule agreeD(4) [OF a]) simp
  show "sound view now ms pend ((now, t, v) # opened) (snd (consumed now t s))"
    by (rule soundI [OF a]) (use rs(2-4) b g(2) in \<open>auto simp: keys_of_def\<close>)
  show "sound view now ms pend opened (snd (consumed now t s))"
    by (rule soundI [OF a]) (use rs(2-4) in \<open>auto simp: keys_of_def\<close>)
qed

lemma sound_invar: "sound view now ms pend opened s \<Longrightarrow> invar s"
  by (elim soundE) (rule agreeD(7))

text \<open>No ticket is redeemed twice, and every redemption is for the grant of its minting, not long after it.\<close>

lemma opened_once: "sound view now ms pend opened s \<Longrightarrow> distinct (map (\<lambda>e. key (fst (snd e))) opened)"
  by (elim soundE) (metis agreeD(2) subseq_conv_nths distinct_nthsI)

lemma opened_minted:
  "sound view now ms pend opened s \<Longrightarrow> (n, t, v) \<in> set opened \<Longrightarrow>
     \<exists>m t' g. (m, t', g) \<in> set ms \<and> key t' = key t \<and> m \<le> n \<and> n \<le> m + validity \<and> view g = v"
  by (elim soundE) (fastforce simp: backed_at_def)

end

end
