(* ===== verification/MariaAccounts.thy ===== *)
theory MariaAccounts
  imports Credentials "HOL-Library.AList"
begin

text \<open>
  The names, passwords and statements with which the panel keeps the accounts of MariaDB
  (internal/credentials/credentials.go, remote.go, grantheal.go). A statement is a value with the text the
  panel sends; what MariaDB makes of it is written out for the kinds of statement used: schemas, accounts
  (a user with a host), and grants, whose schema position is a pattern.
\<close>

section \<open>Names and passwords\<close>

definition mysql_ident_char :: "char \<Rightarrow> bool" where
  "mysql_ident_char c = (byte_in 65 90 c \<or> byte_in 97 122 c \<or> byte_in 48 57 c \<or> c = CHR ''_'')"

definition ValidDBIdentifier :: "string \<Rightarrow> bool" where
  "ValidDBIdentifier name = (name \<noteq> [] \<and> length name \<le> 64 \<and> list_all mysql_ident_char name)"

definition ValidCustomerDBIdentifier :: "string \<Rightarrow> string \<Rightarrow> bool" where
  "ValidCustomerDBIdentifier systemUser identifier =
     (ValidDBIdentifier systemUser \<and> ValidDBIdentifier identifier \<and> has_prefix identifier (systemUser @ ''_''))"

definition ValidDBSuffix :: "string \<Rightarrow> bool" where
  "ValidDBSuffix sfx = (sfx \<noteq> [] \<and> length sfx \<le> 32 \<and>
     list_all (\<lambda>c. byte_in 97 122 c \<or> byte_in 48 57 c \<or> c = CHR ''_'') sfx)"

text \<open>One to 45 characters of an address, then perhaps a slash and a dotted mask.\<close>

definition ValidRemoteHost :: "string \<Rightarrow> bool" where
  "ValidRemoteHost host =
     (let addr = takeWhile (\<lambda>c. c \<noteq> CHR ''/'') host; rest = drop (length addr) host in
      addr \<noteq> [] \<and> length addr \<le> 45 \<and>
      list_all (\<lambda>c. byte_in 48 57 c \<or> byte_in 97 102 c \<or> byte_in 65 70 c \<or> c = CHR ''.'' \<or> c = CHR '':'') addr \<and>
      (rest = [] \<or> (tl rest \<noteq> [] \<and> length (tl rest) \<le> 15 \<and> list_all (\<lambda>c. byte_in 48 57 c \<or> c = CHR ''.'') (tl rest))))"

definition PasswordAlphabet :: string where
  "PasswordAlphabet = ''ABCDEFGHJKLMNPQRSTUVWXYZabcdefghijkmnpqrstuvwxyz23456789''"

definition mysqlPasswordPattern :: "string \<Rightarrow> bool" where
  "mysqlPasswordPattern p = (p \<noteq> [] \<and> length p \<le> 255 \<and> list_all (\<lambda>c. c \<in> set PasswordAlphabet) p)"

text \<open>\<open>None\<close> while the random bytes given do not suffice; the loop draws more.\<close>

definition draw_limit :: nat where
  "draw_limit = 256 - 256 mod length PasswordAlphabet"

definition RandomPassword :: "int \<Rightarrow> nat list \<Rightarrow> string option" where
  "RandomPassword n draws =
     (let n = nat (if n \<le> 0 then 20 else n); kept = filter (\<lambda>c. c < draw_limit) draws in
      if length kept < n then None
      else Some (map (\<lambda>c. PasswordAlphabet ! (c mod length PasswordAlphabet)) (take n kept)))"

definition ValidPassword :: "string \<Rightarrow> bool" where
  "ValidPassword password = (CHR 13 \<notin> set password \<and> CHR 10 \<notin> set password \<and> CHR 0x00 \<notin> set password)"

definition hasLetterAndDigit :: "string \<Rightarrow> bool" where
  "hasLetterAndDigit password =
     (list_ex (\<lambda>c. byte_in 97 122 c \<or> byte_in 65 90 c) password \<and> list_ex (byte_in 48 57) password)"

definition StrongPassword :: "string \<Rightarrow> bool" where
  "StrongPassword password =
     (if \<not> ValidPassword password then False
      else if length (runes password) < 12 then False
      else hasLetterAndDigit password)"

definition GrantSchema :: "string \<Rightarrow> string" where
  "GrantSchema dbName = replace_all (replace_all dbName ''_'' (CHR 0x5C # ''_'')) ''%'' (CHR 0x5C # ''%'')"

definition escapeSQLString :: "string \<Rightarrow> string" where
  "escapeSQLString value =
     replace_all (replace_all value [CHR 0x5C] [CHR 0x5C, CHR 0x5C]) [CHR 0x27] [CHR 0x5C, CHR 0x27]"

section \<open>Statements\<close>

type_synonym maria_account = "string \<times> string"

datatype root_sql =
    SqlCreateDatabase string
  | SqlCreateUser bool maria_account string bool
  | SqlAlterUser maria_account string bool
  | SqlGrant string maria_account
  | SqlRevoke string maria_account
  | SqlDropUser maria_account
  | SqlDropDatabase string
  | SqlFlush

definition in_quotes :: "char \<Rightarrow> string \<Rightarrow> string" where
  "in_quotes q s = [q] @ s @ [q]"

definition account_text :: "maria_account \<Rightarrow> string" where
  "account_text a = in_quotes (CHR 0x27) (fst a) @ ''@'' @ in_quotes (CHR 0x27) (snd a)"

definition identified :: "string \<Rightarrow> bool \<Rightarrow> string" where
  "identified p ssl = '' IDENTIFIED BY '' @ in_quotes (CHR 0x27) (escapeSQLString p) @ (if ssl then '' REQUIRE SSL'' else []) @ '';''"

fun sql_text :: "root_sql \<Rightarrow> string" where
  "sql_text (SqlCreateDatabase n) =
     ''CREATE DATABASE IF NOT EXISTS '' @ in_quotes (CHR ''`'') n @ '' CHARACTER SET utf8mb4 COLLATE utf8mb4_unicode_ci;''"
| "sql_text (SqlCreateUser lenient a p ssl) =
     ''CREATE USER '' @ (if lenient then ''IF NOT EXISTS '' else []) @ account_text a @ identified p ssl"
| "sql_text (SqlAlterUser a p ssl) = ''ALTER USER '' @ account_text a @ identified p ssl"
| "sql_text (SqlGrant s a) = ''GRANT ALL PRIVILEGES ON '' @ in_quotes (CHR ''`'') s @ ''.* TO '' @ account_text a @ '';''"
| "sql_text (SqlRevoke s a) = ''REVOKE ALL PRIVILEGES ON '' @ in_quotes (CHR ''`'') s @ ''.* FROM '' @ account_text a @ '';''"
| "sql_text (SqlDropUser a) = ''DROP USER IF EXISTS '' @ account_text a @ '';''"
| "sql_text (SqlDropDatabase n) = ''DROP DATABASE IF EXISTS '' @ in_quotes (CHR ''`'') n @ '';''"
| "sql_text SqlFlush = ''FLUSH PRIVILEGES;''"

section \<open>What MariaDB does\<close>

record maria =
  ma_schemas :: "string list"
  ma_users :: "(maria_account \<times> string \<times> bool) list"
  ma_grants :: "(string \<times> maria_account) list"

fun exec_sql :: "root_sql \<Rightarrow> maria \<Rightarrow> maria option" where
  "exec_sql (SqlCreateDatabase n) m = Some (m\<lparr>ma_schemas := List.insert n (ma_schemas m)\<rparr>)"
| "exec_sql (SqlCreateUser lenient a p ssl) m =
     (if map_of (ma_users m) a \<noteq> None then (if lenient then Some m else None)
      else Some (m\<lparr>ma_users := (a, p, ssl) # ma_users m\<rparr>))"
| "exec_sql (SqlAlterUser a p ssl) m =
     (case map_of (ma_users m) a of
        None \<Rightarrow> None
      | Some (old, s) \<Rightarrow> Some (m\<lparr>ma_users := AList.update a (p, s \<or> ssl) (ma_users m)\<rparr>))"
| "exec_sql (SqlGrant s a) m =
     (if map_of (ma_users m) a = None then None else Some (m\<lparr>ma_grants := List.insert (s, a) (ma_grants m)\<rparr>))"
| "exec_sql (SqlRevoke s a) m =
     (if (s, a) \<notin> set (ma_grants m) then None else Some (m\<lparr>ma_grants := removeAll (s, a) (ma_grants m)\<rparr>))"
| "exec_sql (SqlDropUser a) m =
     Some (m\<lparr>ma_users := AList.delete a (ma_users m), ma_grants := filter (\<lambda>(s, b). b \<noteq> a) (ma_grants m)\<rparr>)"
| "exec_sql (SqlDropDatabase n) m = Some (m\<lparr>ma_schemas := removeAll n (ma_schemas m)\<rparr>)"
| "exec_sql SqlFlush m = Some m"

text \<open>The client stops at the first error.\<close>

fun run_statements :: "root_sql list \<Rightarrow> maria \<Rightarrow> bool \<times> maria" where
  "run_statements [] m = (True, m)"
| "run_statements (s # ss) m = (case exec_sql s m of None \<Rightarrow> (False, m) | Some m \<Rightarrow> run_statements ss m)"

text \<open>\<open>Some k\<close>: the client is cut short, or cannot be started, after \<open>k\<close> statements.\<close>

definition runRootSQL :: "nat option \<Rightarrow> root_sql list \<Rightarrow> maria \<Rightarrow> bool \<times> maria" where
  "runRootSQL dead statements m =
     (case dead of None \<Rightarrow> run_statements statements m | Some k \<Rightarrow> (False, snd (run_statements (take k statements) m)))"

text \<open>The schema position of a grant: \<open>_\<close> is any character, \<open>%\<close> any text, a backslash makes the next one literal.\<close>

fun schema_matches :: "string \<Rightarrow> string \<Rightarrow> bool" where
  "schema_matches [] s = (s = [])"
| "schema_matches (p # ps) s =
     (if p = CHR 0x5C then (case ps of [] \<Rightarrow> s = [p] | q # qs \<Rightarrow> (case s of [] \<Rightarrow> False | c # cs \<Rightarrow> c = q \<and> schema_matches qs cs))
      else if p = CHR ''%'' then list_ex (\<lambda>k. schema_matches ps (drop k s)) [0..<Suc (length s)]
      else (case s of [] \<Rightarrow> False | c # cs \<Rightarrow> (p = CHR ''_'' \<or> c = p) \<and> schema_matches ps cs))"

definition reaches :: "maria \<Rightarrow> maria_account \<Rightarrow> string \<Rightarrow> bool" where
  "reaches m a n = list_ex (\<lambda>(s, b). b = a \<and> schema_matches s n) (ma_grants m)"

section \<open>A grant reaches one schema\<close>

lemma replace_all_char: "replace_all s [c] t = concat (map (\<lambda>x. if x = c then t else [x]) s)"
  by (induction s) (simp_all add: replace_all.simps has_prefix_def)

lemma ident_no_special:
  "mysql_ident_char c \<Longrightarrow> c \<noteq> CHR ''%'' \<and> c \<noteq> CHR 0x5C \<and> c \<noteq> CHR '';'' \<and> c \<noteq> CHR 10 \<and> c \<noteq> CHR 0x27 \<and> c \<noteq> CHR ''`''"
  by (auto simp: mysql_ident_char_def byte_in_def byte_def)

lemma GrantSchema_ident:
  assumes "list_all mysql_ident_char n"
  shows "GrantSchema n = concat (map (\<lambda>c. if c = CHR ''_'' then CHR 0x5C # ''_'' else [c]) n)"
proof -
  let ?e = "concat (map (\<lambda>c. if c = CHR ''_'' then CHR 0x5C # ''_'' else [c]) n)"
  have "CHR ''%'' \<notin> set ?e" using assms ident_no_special by (auto simp: list_all_iff)
  then have "replace_all ?e ''%'' (CHR 0x5C # ''%'') = ?e" by (simp add: replace_all_absent)
  then show ?thesis by (simp add: GrantSchema_def replace_all_char [of n])
qed

theorem GrantSchema_exact:
  assumes "ValidDBIdentifier n"
  shows "schema_matches (GrantSchema n) s \<longleftrightarrow> s = n"
proof -
  have "schema_matches (concat (map (\<lambda>c. if c = CHR ''_'' then CHR 0x5C # ''_'' else [c]) n)) s \<longleftrightarrow> s = n"
    if "list_all mysql_ident_char n"
    using that
  proof (induction n arbitrary: s)
    case (Cons c n)
    then show ?case using ident_no_special [of c] by (cases s) auto
  qed simp
  then show ?thesis using assms by (simp add: ValidDBIdentifier_def GrantSchema_ident)
qed

lemma GrantSchema_inj: "ValidDBIdentifier n \<Longrightarrow> ValidDBIdentifier n' \<Longrightarrow> GrantSchema n = GrantSchema n' \<Longrightarrow> n = n'"
  using GrantSchema_exact by metis

text \<open>Without the escape the name of one schema reaches another.\<close>

lemma unescaped_reaches_neighbour: "schema_matches ''c_acme_wp'' ''c_acmeXwp''"
  by code_simp

section \<open>Generated passwords\<close>

lemma draw_limit_eq: "draw_limit = 224" "length PasswordAlphabet = 56"
  by (simp_all add: draw_limit_def PasswordAlphabet_def)

lemma alphabet_distinct: "distinct PasswordAlphabet"
  by (simp add: PasswordAlphabet_def)

text \<open>Every character of the alphabet stands for exactly four of the byte values that are kept.\<close>

theorem draws_are_fair:
  assumes "c \<in> set PasswordAlphabet"
  shows "length (filter (\<lambda>b. PasswordAlphabet ! (b mod length PasswordAlphabet) = c) [0..<draw_limit]) = 4"
proof -
  obtain i where i: "i < 56" "PasswordAlphabet ! i = c" using assms by (auto simp: in_set_conv_nth draw_limit_eq)
  have "PasswordAlphabet ! (b mod 56) = c \<longleftrightarrow> b mod 56 = i" for b
    using i alphabet_distinct by (auto simp: nth_eq_iff_index_eq draw_limit_eq)
  moreover have "length (filter (\<lambda>b. b mod 56 = i) [0..<224]) = 4" if "i < 56" for i
  proof -
    have "filter (\<lambda>b. b mod 56 = i) [0..<224] = [i, i + 56, i + 112, i + 168]"
    proof (rule sorted_distinct_set_unique)
      have "b mod 56 = i \<longleftrightarrow> b \<in> {i, i + 56, i + 112, i + 168}" if "b < 224" for b :: nat
        using that \<open>i < 56\<close> by (auto simp: mod_if)
      then show "set (filter (\<lambda>b. b mod 56 = i) [0..<224]) = set [i, i + 56, i + 112, i + 168]"
        using \<open>i < 56\<close> by auto
    qed (auto simp: sorted_wrt_filter)
    then show ?thesis by simp
  qed
  ultimately show ?thesis using i(1) by (simp add: draw_limit_eq)
qed

lemma RandomPassword_pattern:
  assumes "RandomPassword n draws = Some p" "n \<le> 255"
  shows "mysqlPasswordPattern p \<and> length p = nat (if n \<le> 0 then 20 else n)"
proof -
  have "\<forall>c \<in> set p. c \<in> set PasswordAlphabet"
    using assms(1) by (auto simp: RandomPassword_def Let_def draw_limit_eq split: if_splits)
  moreover have "length p = nat (if n \<le> 0 then 20 else n)" using assms(1) by (auto simp: RandomPassword_def Let_def split: if_splits)
  ultimately show ?thesis using assms(2) by (auto simp: mysqlPasswordPattern_def list_all_iff split: if_splits)
qed

text \<open>A password a customer chooses as strong enough is often not one the statements take.\<close>

theorem strong_password_refused:
  "StrongPassword ''blue-horse-4711'' \<and> \<not> mysqlPasswordPattern ''blue-horse-4711''"
  by code_simp

end
