(* ===== verification/DbAccounts.thy ===== *)
theory DbAccounts
  imports MariaAccounts
begin

text \<open>
  The databases of the panel's domains (internal/credentials/credentials.go, password.go, remote.go,
  grantheal.go, and the handlers of internal/domains/handlers.go and handlers_dbpw.go): the rows of
  \<open>db_accounts\<close> and \<open>db_remote_hosts\<close> beside MariaDB's own accounts. \<open>key\<close> is the collation of the name
  columns, as the value it compares. Which statements fail, the cipher, quotas and random draws are
  arguments.
\<close>

section \<open>State\<close>

record db_account =
  da_id :: int
  da_domain :: int
  da_user :: string
  da_name :: string
  da_pass :: string

record remote_row =
  rh_id :: int
  rh_domain :: int
  rh_user :: string
  rh_cidr :: string
  rh_mysql :: string

record dbacc =
  ac_domains :: "(int \<times> string) list"   \<comment> \<open>\<open>domains.system_user\<close>\<close>
  ac_rows :: "db_account list"
  ac_hosts :: "remote_row list"
  ac_next :: int
  ac_maria :: maria

text \<open>
  Which statements of one request work: the reads of an owner, of a stored row, of the remote hosts and of a
  count (or the first of two deletes), and the write; how far the MariaDB client gets.
\<close>

record dba_env =
  de_owner :: bool
  de_stored :: bool
  de_hosts :: bool
  de_count :: bool
  de_dead :: "nat option"
  de_gcm :: "aead option"
  de_nonce :: "string option"
  de_write :: bool

datatype dba_error = ErrInvalidMySQLCredentials | ErrDBUserOwnedByAnotherDomain | ErrDatabase

section \<open>The accounts\<close>

definition validateMySQLCredentials :: "string \<Rightarrow> string \<Rightarrow> string \<Rightarrow> bool" where
  "validateMySQLCredentials dbName dbUser dbPass =
     (ValidDBIdentifier dbName \<and> ValidDBIdentifier dbUser \<and> mysqlPasswordPattern dbPass)"

definition encryptDBPass :: "dba_env \<Rightarrow> string \<Rightarrow> string \<Rightarrow> secret_error + string" where
  "encryptDBPass e dbUser plaintext = EncryptWith (de_gcm e) (de_nonce e) plaintext dbUser"

definition DecryptDBPass :: "dba_env \<Rightarrow> string \<Rightarrow> string \<Rightarrow> secret_error + string" where
  "DecryptDBPass e dbUser stored = DecryptWith (de_gcm e) stored dbUser"

definition run_maria :: "dba_env \<Rightarrow> root_sql list \<Rightarrow> dbacc \<Rightarrow> bool \<times> dbacc" where
  "run_maria e statements db =
     (case runRootSQL (de_dead e) statements (ac_maria db) of (ok, m) \<Rightarrow> (ok, db\<lparr>ac_maria := m\<rparr>))"

text \<open>\<open>INSERT INTO db_accounts\<close>: a database name is unique.\<close>

definition insert_account :: "(string \<Rightarrow> 'k) \<Rightarrow> dba_env \<Rightarrow> db_account \<Rightarrow> dbacc \<Rightarrow> dba_error option \<times> dbacc" where
  "insert_account key e row db =
     (if \<not> de_write e \<or> list_ex (\<lambda>r. key (da_name r) = key (da_name row)) (ac_rows db) then (Some ErrDatabase, db)
      else (None, db\<lparr>ac_rows := ac_rows db @ [row\<lparr>da_id := ac_next db\<rparr>], ac_next := ac_next db + 1\<rparr>))"

definition db_user_row :: "(string \<Rightarrow> 'k) \<Rightarrow> string \<Rightarrow> dbacc \<Rightarrow> db_account option" where
  "db_user_row key dbUser db = find (\<lambda>r. key (da_user r) = key dbUser) (ac_rows db)"

definition RemoteHostsFor :: "(string \<Rightarrow> 'k) \<Rightarrow> dba_env \<Rightarrow> string \<Rightarrow> dbacc \<Rightarrow> string list option" where
  "RemoteHostsFor key e dbUser db =
     (if \<not> de_hosts e then None else Some (map rh_mysql (filter (\<lambda>h. key (rh_user h) = key dbUser) (ac_hosts db))))"

definition remoteHostStatements :: "(string \<Rightarrow> 'k) \<Rightarrow> dba_env \<Rightarrow> string \<Rightarrow> (string \<Rightarrow> root_sql list) \<Rightarrow> dbacc \<Rightarrow> root_sql list option" where
  "remoteHostStatements key e dbUser build db =
     (case RemoteHostsFor key e dbUser db of
        None \<Rightarrow> None
      | Some hosts \<Rightarrow> if list_all ValidRemoteHost hosts then Some (concat (map build hosts)) else None)"

definition local_host :: string where "local_host = ''localhost''"

definition MySQLCreateDB :: "(string \<Rightarrow> 'k) \<Rightarrow> dba_env \<Rightarrow> int \<Rightarrow> string \<Rightarrow> string \<Rightarrow> string \<Rightarrow> dbacc \<Rightarrow> dba_error option \<times> dbacc" where
  "MySQLCreateDB key e domainID dbName dbUser dbPass db =
     (if \<not> validateMySQLCredentials dbName dbUser dbPass then (Some ErrInvalidMySQLCredentials, db)
      else if \<not> de_owner e then (Some ErrDatabase, db)
      else if (case db_user_row key dbUser db of None \<Rightarrow> False | Some r \<Rightarrow> da_domain r \<noteq> domainID)
      then (Some ErrDBUserOwnedByAnotherDomain, db)
      else (case run_maria e
          [SqlCreateDatabase dbName, SqlCreateUser True (dbUser, local_host) dbPass False, SqlAlterUser (dbUser, local_host) dbPass False,
           SqlGrant (GrantSchema dbName) (dbUser, local_host), SqlFlush] db of
          (False, db) \<Rightarrow> (Some ErrDatabase, db)
        | (True, db) \<Rightarrow>
            (case encryptDBPass e dbUser dbPass of
               Inl err \<Rightarrow> (Some ErrDatabase, db)
             | Inr enc \<Rightarrow> insert_account key e
                 \<lparr>da_id = 0, da_domain = domainID, da_user = dbUser, da_name = dbName, da_pass = enc\<rparr> db)))"

definition MySQLCreateDBForUser :: "(string \<Rightarrow> 'k) \<Rightarrow> dba_env \<Rightarrow> int \<Rightarrow> string \<Rightarrow> string \<Rightarrow> dbacc \<Rightarrow> dba_error option \<times> dbacc" where
  "MySQLCreateDBForUser key e domainID dbName dbUser db =
     (if \<not> ValidDBIdentifier dbName \<or> \<not> ValidDBIdentifier dbUser then (Some ErrInvalidMySQLCredentials, db)
      else case (if de_stored e then db_user_row key dbUser db else None) of
          None \<Rightarrow> (Some ErrDatabase, db)
        | Some r \<Rightarrow>
            (case DecryptDBPass e dbUser (da_pass r) of
               Inl err \<Rightarrow> (Some ErrDatabase, db)
             | Inr pass \<Rightarrow>
                 (case remoteHostStatements key e dbUser (\<lambda>host. [SqlGrant (GrantSchema dbName) (dbUser, host)]) db of
                    None \<Rightarrow> (Some ErrDatabase, db)
                  | Some remote \<Rightarrow>
                      (case run_maria e ([SqlCreateDatabase dbName, SqlGrant (GrantSchema dbName) (dbUser, local_host)] @ remote @ [SqlFlush]) db of
                         (False, db) \<Rightarrow> (Some ErrDatabase, db)
                       | (True, db) \<Rightarrow>
                           (case encryptDBPass e dbUser pass of
                              Inl err \<Rightarrow> (Some ErrDatabase, db)
                            | Inr enc \<Rightarrow> insert_account key e
                                \<lparr>da_id = 0, da_domain = domainID, da_user = dbUser, da_name = dbName, da_pass = enc\<rparr> db)))))"

text \<open>The two deletes at the end; the first one that fails ends the call.\<close>

definition MySQLDropDB :: "(string \<Rightarrow> 'k) \<Rightarrow> dba_env \<Rightarrow> string \<Rightarrow> string \<Rightarrow> dbacc \<Rightarrow> dba_error option \<times> dbacc" where
  "MySQLDropDB key e dbName dbUser db =
     (if \<not> ValidDBIdentifier dbName \<or> \<not> ValidDBIdentifier dbUser then (Some ErrInvalidMySQLCredentials, db)
      else case remoteHostStatements key e dbUser (\<lambda>host. [SqlDropUser (dbUser, host)]) db of
          None \<Rightarrow> (Some ErrDatabase, db)
        | Some remote \<Rightarrow>
            (case run_maria e ([SqlDropDatabase dbName, SqlDropUser (dbUser, local_host)] @ remote @ [SqlFlush]) db of
               (False, db) \<Rightarrow> (Some ErrDatabase, db)
             | (True, db) \<Rightarrow>
                 if \<not> de_count e then (Some ErrDatabase, db)
                 else let db = db\<lparr>ac_hosts := filter (\<lambda>h. key (rh_user h) \<noteq> key dbUser) (ac_hosts db)\<rparr> in
                   if \<not> de_write e then (Some ErrDatabase, db)
                   else (None, db\<lparr>ac_rows := filter (\<lambda>r. key (da_name r) \<noteq> key dbName) (ac_rows db)\<rparr>)))"

definition MySQLDropDBKeepUser :: "(string \<Rightarrow> 'k) \<Rightarrow> dba_env \<Rightarrow> string \<Rightarrow> dbacc \<Rightarrow> dba_error option \<times> dbacc" where
  "MySQLDropDBKeepUser key e dbName db =
     (if \<not> ValidDBIdentifier dbName then (Some ErrInvalidMySQLCredentials, db)
      else (case run_maria e [SqlDropDatabase dbName] db of
          (False, db) \<Rightarrow> (Some ErrDatabase, db)
        | (True, db) \<Rightarrow>
            if \<not> de_write e then (Some ErrDatabase, db)
            else (None, db\<lparr>ac_rows := filter (\<lambda>r. key (da_name r) \<noteq> key dbName) (ac_rows db)\<rparr>)))"

text \<open>Every database of a domain; a failure is kept and the rest still dropped.\<close>

fun drop_all :: "(string \<Rightarrow> 'k) \<Rightarrow> (nat \<Rightarrow> dba_env) \<Rightarrow> db_account list \<Rightarrow> dbacc \<Rightarrow> bool \<times> dbacc" where
  "drop_all key e [] db = (True, db)"
| "drop_all key e (r # rs) db =
     (case MySQLDropDB key (e 0) (da_name r) (da_user r) db of
        (err, db) \<Rightarrow> (case drop_all key (\<lambda>i. e (Suc i)) rs db of (ok, db) \<Rightarrow> (err = None \<and> ok, db)))"

definition MySQLDropAllForDomain :: "(string \<Rightarrow> 'k) \<Rightarrow> bool \<Rightarrow> (nat \<Rightarrow> dba_env) \<Rightarrow> int \<Rightarrow> dbacc \<Rightarrow> bool \<times> dbacc" where
  "MySQLDropAllForDomain key readable e domainID db =
     (if \<not> readable then (False, db) else drop_all key e (filter (\<lambda>r. da_domain r = domainID) (ac_rows db)) db)"

definition MySQLChangePassword :: "(string \<Rightarrow> 'k) \<Rightarrow> dba_env \<Rightarrow> string \<Rightarrow> string \<Rightarrow> dbacc \<Rightarrow> dba_error option \<times> dbacc" where
  "MySQLChangePassword key e dbUser newPassword db =
     (if \<not> has_prefix dbUser ''c_'' then (Some ErrDatabase, db)
      else if \<not> ValidDBIdentifier dbUser \<or> \<not> ValidPassword newPassword \<or> \<not> mysqlPasswordPattern newPassword
      then (Some ErrInvalidMySQLCredentials, db)
      else case remoteHostStatements key e dbUser (\<lambda>host. [SqlAlterUser (dbUser, host) newPassword False]) db of
          None \<Rightarrow> (Some ErrDatabase, db)
        | Some remote \<Rightarrow>
            (case run_maria e ([SqlAlterUser (dbUser, local_host) newPassword False] @ remote @ [SqlFlush]) db of
               (False, db) \<Rightarrow> (Some ErrDatabase, db)
             | (True, db) \<Rightarrow>
                 (case encryptDBPass e dbUser newPassword of
                    Inl err \<Rightarrow> (Some ErrDatabase, db)
                  | Inr enc \<Rightarrow>
                      if \<not> de_write e then (Some ErrDatabase, db)
                      else (None, db\<lparr>ac_rows := map (\<lambda>r. if key (da_user r) = key dbUser then r\<lparr>da_pass := enc\<rparr> else r) (ac_rows db)\<rparr>))))"

definition MySQLAddUser :: "dba_env \<Rightarrow> string \<Rightarrow> string \<Rightarrow> string \<Rightarrow> dbacc \<Rightarrow> dba_error option \<times> dbacc" where
  "MySQLAddUser e dbName dbUser dbPass db =
     (if \<not> validateMySQLCredentials dbName dbUser dbPass then (Some ErrInvalidMySQLCredentials, db)
      else (case run_maria e
          [SqlCreateUser True (dbUser, local_host) dbPass False, SqlAlterUser (dbUser, local_host) dbPass False,
           SqlGrant (GrantSchema dbName) (dbUser, local_host), SqlFlush] db of
          (ok, db) \<Rightarrow> (if ok then None else Some ErrDatabase, db)))"

definition MySQLCreateScopedUser :: "dba_env \<Rightarrow> string \<Rightarrow> string \<Rightarrow> string \<Rightarrow> dbacc \<Rightarrow> dba_error option \<times> dbacc" where
  "MySQLCreateScopedUser e dbUser dbPass dbName db =
     (if \<not> validateMySQLCredentials dbName dbUser dbPass then (Some ErrInvalidMySQLCredentials, db)
      else (case run_maria e
          [SqlCreateUser False (dbUser, local_host) dbPass False, SqlGrant (GrantSchema dbName) (dbUser, local_host), SqlFlush] db of
          (ok, db) \<Rightarrow> (if ok then None else Some ErrDatabase, db)))"

definition MySQLDropUser :: "dba_env \<Rightarrow> string \<Rightarrow> dbacc \<Rightarrow> dba_error option \<times> dbacc" where
  "MySQLDropUser e dbUser db =
     (if \<not> ValidDBIdentifier dbUser then (Some ErrInvalidMySQLCredentials, db)
      else (case run_maria e [SqlDropUser (dbUser, local_host)] db of (ok, db) \<Rightarrow> (if ok then None else Some ErrDatabase, db)))"

section \<open>Accounts for remote clients\<close>

definition MySQLGrantRemote :: "dba_env \<Rightarrow> string \<Rightarrow> string \<Rightarrow> string \<Rightarrow> string list \<Rightarrow> dbacc \<Rightarrow> dba_error option \<times> dbacc" where
  "MySQLGrantRemote e dbUser mysqlHost dbPass dbNames db =
     (if \<not> ValidDBIdentifier dbUser \<or> \<not> ValidRemoteHost mysqlHost \<or> \<not> mysqlPasswordPattern dbPass \<or>
         \<not> list_all ValidDBIdentifier dbNames
      then (Some ErrInvalidMySQLCredentials, db)
      else (case run_maria e
          ([SqlCreateUser True (dbUser, mysqlHost) dbPass True, SqlAlterUser (dbUser, mysqlHost) dbPass True] @
           map (\<lambda>n. SqlGrant (GrantSchema n) (dbUser, mysqlHost)) dbNames @ [SqlFlush]) db of
          (ok, db) \<Rightarrow> (if ok then None else Some ErrDatabase, db)))"

definition MySQLRevokeRemote :: "dba_env \<Rightarrow> string \<Rightarrow> string \<Rightarrow> dbacc \<Rightarrow> dba_error option \<times> dbacc" where
  "MySQLRevokeRemote e dbUser mysqlHost db =
     (if \<not> ValidDBIdentifier dbUser \<or> \<not> ValidRemoteHost mysqlHost then (Some ErrInvalidMySQLCredentials, db)
      else (case run_maria e [SqlDropUser (dbUser, mysqlHost), SqlFlush] db of (ok, db) \<Rightarrow> (if ok then None else Some ErrDatabase, db)))"

section \<open>Repairing old grants\<close>

definition needsEscape :: "string \<times> maria_account \<Rightarrow> bool" where
  "needsEscape g =
     (if (CHR ''_'' \<notin> set (fst g) \<and> CHR ''%'' \<notin> set (fst g)) \<or> CHR 0x5C \<in> set (fst g) then False
      else if \<not> ValidDBIdentifier (fst g) \<or> \<not> ValidDBIdentifier (fst (snd g)) then False
      else snd (snd g) = local_host \<or> ValidRemoteHost (snd (snd g)))"

definition repairGrant :: "nat option \<Rightarrow> string \<times> maria_account \<Rightarrow> maria \<Rightarrow> maria" where
  "repairGrant dead g m = snd (runRootSQL dead [SqlRevoke (fst g) (snd g), SqlGrant (GrantSchema (fst g)) (snd g), SqlFlush] m)"

definition HealGrantWildcards :: "bool \<Rightarrow> bool \<Rightarrow> (string \<times> maria_account \<Rightarrow> nat option) \<Rightarrow> dbacc \<Rightarrow> dbacc" where
  "HealGrantWildcards owned_readable grants_readable dead db =
     (if \<not> owned_readable \<or> map da_name (ac_rows db) = [] \<or> \<not> grants_readable then db
      else db\<lparr>ac_maria := foldl (\<lambda>m g. if fst g \<notin> da_name ` set (ac_rows db) then m else repairGrant (dead g) g m)
        (ac_maria db) (filter needsEscape (ma_grants (ac_maria db)))\<rparr>)"

section \<open>The handlers\<close>

record createDBReq =
  cr_auto :: bool
  cr_suffix :: string
  cr_mode :: string
  cr_user :: string
  cr_existing :: string
  cr_password :: string

record databasePlan =
  pl_name :: string
  pl_user :: string
  pl_password :: string
  pl_existing :: bool

definition wantsGeneratedDatabase :: "createDBReq \<Rightarrow> bool" where
  "wantsGeneratedDatabase req =
     (cr_auto req \<or> (cr_suffix req = [] \<and> cr_user req = [] \<and> cr_existing req = [] \<and> cr_password req = []))"

definition planNewUserPassword :: "string \<Rightarrow> createDBReq \<Rightarrow> databasePlan \<Rightarrow> int + databasePlan" where
  "planNewUserPassword generated req plan =
     (if cr_password req = [] then Inr (plan\<lparr>pl_password := generated\<rparr>)
      else if \<not> StrongPassword (cr_password req) then Inl 400
      else Inr (plan\<lparr>pl_password := cr_password req\<rparr>))"

definition planExistingUser :: "(string \<Rightarrow> 'k) \<Rightarrow> dba_env \<Rightarrow> int \<Rightarrow> string \<Rightarrow> createDBReq \<Rightarrow> databasePlan \<Rightarrow> dbacc \<Rightarrow> int + databasePlan" where
  "planExistingUser key e domainID sk req plan db =
     (if cr_existing req = [] \<or> \<not> ValidCustomerDBIdentifier sk (cr_existing req) then Inl 400
      else if \<not> de_stored e \<or> \<not> list_ex (\<lambda>r. da_domain r = domainID \<and> key (da_user r) = key (cr_existing req)) (ac_rows db) then Inl 400
      else Inr (plan\<lparr>pl_user := cr_existing req, pl_existing := True\<rparr>))"

definition planNewUser :: "(string \<Rightarrow> 'k) \<Rightarrow> dba_env \<Rightarrow> string \<Rightarrow> string \<Rightarrow> createDBReq \<Rightarrow> databasePlan \<Rightarrow> dbacc \<Rightarrow> int + databasePlan" where
  "planNewUser key e sk generated req plan db =
     (if cr_user req = [] \<or> \<not> ValidDBSuffix (cr_user req) then Inl 400
      else let user = sk @ ''_'' @ cr_user req in
        if \<not> ValidCustomerDBIdentifier sk user then Inl 400
        else if \<not> de_stored e then Inl 500
        else if db_user_row key user db \<noteq> None then Inl 409
        else planNewUserPassword generated req (plan\<lparr>pl_user := user\<rparr>))"

definition planDatabase :: "(string \<Rightarrow> 'k) \<Rightarrow> dba_env \<Rightarrow> int \<Rightarrow> string \<Rightarrow> string \<Rightarrow> createDBReq \<Rightarrow> dbacc \<Rightarrow> int + databasePlan" where
  "planDatabase key e domainID sk generated req db =
     (if wantsGeneratedDatabase req
      then let name = sk @ ''_db'' @ itoa domainID in
        Inr \<lparr>pl_name = name, pl_user = name, pl_password = generated, pl_existing = False\<rparr>
      else if cr_suffix req = [] \<or> \<not> ValidDBSuffix (cr_suffix req) then Inl 400
      else let plan = \<lparr>pl_name = sk @ ''_'' @ cr_suffix req, pl_user = [], pl_password = [], pl_existing = False\<rparr> in
        if \<not> ValidCustomerDBIdentifier sk (pl_name plan) then Inl 400
        else if cr_mode req = ''existing'' then planExistingUser key e domainID sk req plan db
        else planNewUser key e sk generated req plan db)"

text \<open>
  \<open>CreateDatabase\<close> up to the creation: the domain's system user, the plan's limit (a refusal's status), the
  names, and the collision count, whose error is not looked at.
\<close>

definition plan_create :: "(string \<Rightarrow> 'k) \<Rightarrow> dba_env \<Rightarrow> bool \<Rightarrow> int option \<Rightarrow> string \<Rightarrow> string \<Rightarrow> createDBReq option \<Rightarrow> dbacc \<Rightarrow>
    int + int \<times> databasePlan" where
  "plan_create key e readable quota generated idParam body db =
     (case body of
        None \<Rightarrow> Inl 400
      | Some req \<Rightarrow>
          if \<not> readable then Inl 500
          else case map_of (ac_domains db) (parse_int_lossy idParam) of
              None \<Rightarrow> Inl 404
            | Some sk \<Rightarrow>
                (case quota of
                   Some code \<Rightarrow> Inl code
                 | None \<Rightarrow>
                     (case planDatabase key e (parse_int_lossy idParam) sk generated req db of
                        Inl code \<Rightarrow> Inl code
                      | Inr plan \<Rightarrow>
                          let collision = (if de_count e then length (filter (\<lambda>r. key (da_name r) = key (pl_name plan)) (ac_rows db)) else 0)
                          in if 0 < collision then Inl 409 else Inr (parse_int_lossy idParam, plan))))"

definition create_status :: "bool \<Rightarrow> dba_error \<Rightarrow> int" where
  "create_status new_user err =
     (if new_user \<and> err = ErrDBUserOwnedByAnotherDomain then 409
      else if err = ErrInvalidMySQLCredentials then 400 else 500)"

definition createPlannedDatabase :: "(string \<Rightarrow> 'k) \<Rightarrow> dba_env \<Rightarrow> int \<Rightarrow> databasePlan \<Rightarrow> dbacc \<Rightarrow> int \<times> dbacc" where
  "createPlannedDatabase key e domainID plan db =
     (case (if pl_existing plan then MySQLCreateDBForUser key e domainID (pl_name plan) (pl_user plan) db
            else MySQLCreateDB key e domainID (pl_name plan) (pl_user plan) (pl_password plan) db) of
        (Some err, db) \<Rightarrow> (create_status (\<not> pl_existing plan) err, db)
      | (None, db) \<Rightarrow> (201, db))"

definition CreateDatabase :: "(string \<Rightarrow> 'k) \<Rightarrow> dba_env \<Rightarrow> dba_env \<Rightarrow> bool \<Rightarrow> int option \<Rightarrow> string \<Rightarrow> string \<Rightarrow> createDBReq option \<Rightarrow> dbacc \<Rightarrow>
    int \<times> dbacc" where
  "CreateDatabase key e1 e2 readable quota generated idParam body db =
     (case plan_create key e1 readable quota generated idParam body db of
        Inl code \<Rightarrow> (code, db)
      | Inr (domainID, plan) \<Rightarrow> createPlannedDatabase key e2 domainID plan db)"

definition row_by_id :: "int \<Rightarrow> dbacc \<Rightarrow> db_account option" where
  "row_by_id i db = find (\<lambda>r. da_id r = i \<and> list_ex (\<lambda>(d, sk). d = da_domain r) (ac_domains db)) (ac_rows db)"

definition DeleteDatabase :: "(string \<Rightarrow> 'k) \<Rightarrow> dba_env \<Rightarrow> bool \<Rightarrow> string \<Rightarrow> dbacc \<Rightarrow> int \<times> dbacc" where
  "DeleteDatabase key e readable param db =
     (if \<not> readable then (500, db)
      else case row_by_id (parse_int_lossy param) db of
          None \<Rightarrow> (404, db)
        | Some r \<Rightarrow>
            if da_name r = [] \<or> da_user r = [] then (500, db)
            else if \<not> de_stored e then (500, db)
            else let shared = list_ex (\<lambda>x. key (da_user x) = key (da_user r) \<and> key (da_name x) \<noteq> key (da_name r)) (ac_rows db) in
              (case (if shared then MySQLDropDBKeepUser key e (da_name r) db else MySQLDropDB key e (da_name r) (da_user r) db) of
                 (Some err, db) \<Rightarrow> (500, db)
               | (None, db) \<Rightarrow> (200, db)))"

definition acceptDatabasePassword :: "string \<Rightarrow> string \<Rightarrow> string option" where
  "acceptDatabasePassword generated given =
     (let p = (if given = [] then generated else given) in
      if IsEncrypted p then None else if length p < 6 then None else Some p)"

definition createMissingDBUser :: "(string \<Rightarrow> 'k) \<Rightarrow> dba_env \<Rightarrow> db_account \<Rightarrow> string \<Rightarrow> string \<Rightarrow> dbacc \<Rightarrow> int option \<times> dbacc" where
  "createMissingDBUser key e r user password db =
     (let newUser = trim_space user in
      if newUser = [] \<or> \<not> ValidDBIdentifier newUser then (Some 400, db)
      else if \<not> de_stored e \<or> list_ex (\<lambda>x. key (da_user x) = key newUser \<and> da_id x \<noteq> da_id r) (ac_rows db) then (Some 409, db)
      else (case MySQLAddUser e (da_name r) newUser password db of
          (Some err, db) \<Rightarrow> (Some 500, db)
        | (None, db) \<Rightarrow>
            (case encryptDBPass e newUser password of
               Inl err \<Rightarrow> (Some 500, db)
             | Inr enc \<Rightarrow>
                 if \<not> de_write e then (Some 500, db)
                 else (None, db\<lparr>ac_rows := map (\<lambda>x. if da_id x = da_id r then x\<lparr>da_user := newUser, da_pass := enc\<rparr> else x) (ac_rows db)\<rparr>))))"

definition SetDatabasePassword :: "(string \<Rightarrow> 'k) \<Rightarrow> dba_env \<Rightarrow> bool \<Rightarrow> string \<Rightarrow> string \<Rightarrow> (string \<times> string) option \<Rightarrow> dbacc \<Rightarrow> int \<times> dbacc" where
  "SetDatabasePassword key e readable generated param body db =
     (case body of
        None \<Rightarrow> (400, db)
      | Some (given, user) \<Rightarrow>
          (case acceptDatabasePassword generated given of
             None \<Rightarrow> (400, db)
           | Some password \<Rightarrow>
               if \<not> readable then (500, db)
               else (case row_by_id (parse_int_lossy param) db of
                   None \<Rightarrow> (404, db)
                 | Some r \<Rightarrow>
                     if trim_space (da_user r) = []
                     then (case createMissingDBUser key e r user password db of (Some code, db) \<Rightarrow> (code, db) | (None, db) \<Rightarrow> (200, db))
                     else (case MySQLChangePassword key e (da_user r) password db of (Some err, db) \<Rightarrow> (500, db) | (None, db) \<Rightarrow> (200, db)))))"

end
