(* ===== verification/SignonTokens.thy ===== *)
theory SignonTokens
  imports TicketStore Access Accounts DbAccounts
begin

text \<open>
  Opening phpMyAdmin and webmail from the panel (internal/pma/pma.go, sweep.go, internal/mail/
  webmailsignon.go): a token is minted for a database account or a mailbox, and the web application
  exchanges it once for a credential. Both tables have the same columns around what the token stands for
  and are read and written by the same statements. Times are seconds of the database's clock. The
  collation of the token column (as the value it compares), randomness, the cipher and which statements
  fail are arguments.
\<close>

section \<open>A table of tokens\<close>

record 'g ticket_row =
  tk_token :: string
  tk_grant :: 'g
  tk_expires :: int
  tk_used :: int

definition ticket_validity :: int where "ticket_validity = 120"

text \<open>\<open>INSERT\<close>, refused when the primary key is taken.\<close>

definition insert_ticket :: "(string \<Rightarrow> 'k) \<Rightarrow> int \<Rightarrow> string \<Rightarrow> 'g \<Rightarrow> 'g ticket_row list \<Rightarrow> 'g ticket_row list option" where
  "insert_ticket collate now token g rows =
     (if list_ex (\<lambda>r. collate (tk_token r) = collate token) rows then None
      else Some (rows @ [\<lparr>tk_token = token, tk_grant = g, tk_expires = now + ticket_validity, tk_used = 0\<rparr>]))"

definition select_ticket :: "(string \<Rightarrow> 'k) \<Rightarrow> string \<Rightarrow> 'g ticket_row list \<Rightarrow> 'g ticket_row option" where
  "select_ticket collate token rows = find (\<lambda>r. collate (tk_token r) = collate token) rows"

text \<open>\<open>UPDATE ... SET used=1 WHERE token=? AND used=0 AND expires_at >= NOW()\<close>, with the rows affected.\<close>

definition redeemable :: "(string \<Rightarrow> 'k) \<Rightarrow> int \<Rightarrow> string \<Rightarrow> 'g ticket_row \<Rightarrow> bool" where
  "redeemable collate now token r = (collate (tk_token r) = collate token \<and> tk_used r = 0 \<and> now \<le> tk_expires r)"

definition use_ticket :: "(string \<Rightarrow> 'k) \<Rightarrow> int \<Rightarrow> string \<Rightarrow> 'g ticket_row list \<Rightarrow> nat \<times> 'g ticket_row list" where
  "use_ticket collate now token rows =
     (length (filter (redeemable collate now token) rows),
      map (\<lambda>r. if redeemable collate now token r then r\<lparr>tk_used := 1\<rparr> else r) rows)"

text \<open>\<open>DELETE ... WHERE expires_at < NOW() OR used=1\<close>.\<close>

definition sweepStatement :: "int \<Rightarrow> 'g ticket_row list \<Rightarrow> 'g ticket_row list" where
  "sweepStatement now rows = filter (\<lambda>r. \<not> (tk_expires r < now \<or> tk_used r = 1)) rows"

section \<open>The table keeps the contract\<close>

definition live_ticket :: "(string \<Rightarrow> 'k) \<Rightarrow> 'g ticket_row list \<Rightarrow> int \<Rightarrow> string \<Rightarrow> 'g option" where
  "live_ticket collate rows now token = map_option tk_grant (find (redeemable collate now token) rows)"

text \<open>The primary key.\<close>

definition distinct_tokens :: "(string \<Rightarrow> 'k) \<Rightarrow> 'g ticket_row list \<Rightarrow> bool" where
  "distinct_tokens collate rows = distinct (map (\<lambda>r. collate (tk_token r)) rows)"

text \<open>What the statements keep of a table.\<close>

definition tickets_ok :: "(string \<Rightarrow> 'k) \<Rightarrow> 'g ticket_row list \<Rightarrow> bool" where
  "tickets_ok collate rows = (distinct_tokens collate rows \<and> list_all (\<lambda>r. tk_used r \<in> {0, 1}) rows)"

lemma same_row:
  "distinct_tokens collate rows \<Longrightarrow> r \<in> set rows \<Longrightarrow> r' \<in> set rows \<Longrightarrow> collate (tk_token r') = collate (tk_token r) \<Longrightarrow> r' = r"
  by (rule inj_onD [of "\<lambda>r. collate (tk_token r)" "set rows"]) (simp_all add: distinct_tokens_def distinct_map)

definition take_ticket :: "(string \<Rightarrow> 'k) \<Rightarrow> int \<Rightarrow> string \<Rightarrow> 'g ticket_row list \<Rightarrow> bool \<times> 'g ticket_row list" where
  "take_ticket collate now token rows = (fst (use_ticket collate now token rows) = 1, snd (use_ticket collate now token rows))"

text \<open>Rows go with the domain or account they belong to.\<close>

definition fewer_rows :: "'g ticket_row list \<Rightarrow> 'g ticket_row list \<Rightarrow> bool" where
  "fewer_rows rows rows' = (\<exists>keep. rows' = filter keep rows)"

lemma find_append: "find p (xs @ ys) = (case find p xs of None \<Rightarrow> find p ys | Some x \<Rightarrow> Some x)"
  by (induction xs) auto

lemma insert_live:
  assumes "insert_ticket collate now t g rows = Some rows'"
  shows "live_ticket collate rows' now' t' =
    (if collate t' = collate t then if now' \<le> now + ticket_validity then Some g else None else live_ticket collate rows now' t')"
proof -
  have "find (redeemable collate now' t') rows = None" if "collate t' = collate t"
    using assms that by (auto simp: insert_ticket_def find_None_iff list_ex_iff redeemable_def split: if_splits)
  then show ?thesis using assms
    by (auto simp: live_ticket_def insert_ticket_def find_append redeemable_def split: if_splits option.split)
qed

lemma one_redeemable:
  "distinct_tokens collate rows \<Longrightarrow> length (filter (redeemable collate now t) rows) = (if live_ticket collate rows now t = None then 0 else 1)"
proof (induction rows)
  case (Cons r rows)
  show ?case
  proof (cases "redeemable collate now t r")
    case True
    then have "filter (redeemable collate now t) rows = []"
      using Cons.prems by (force simp: distinct_tokens_def filter_empty_conv redeemable_def)
    then show ?thesis using True by (simp add: live_ticket_def)
  next
    case False
    then show ?thesis using Cons by (simp add: live_ticket_def distinct_tokens_def)
  qed
qed (simp add: live_ticket_def)

lemma redeemable_used [simp]: "\<not> redeemable collate now t (r\<lparr>tk_used := 1\<rparr>)"
  by (simp add: redeemable_def)

lemma redeemable_key: "redeemable collate now t r \<Longrightarrow> redeemable collate now' t' r \<Longrightarrow> collate t' = collate t"
  by (simp add: redeemable_def)

lemma find_used:
  "find (redeemable collate now' t') (map (\<lambda>r. if redeemable collate now t r then r\<lparr>tk_used := 1\<rparr> else r) rows) =
    (if collate t' = collate t
     then find (\<lambda>r. redeemable collate now' t' r \<and> \<not> redeemable collate now t r) rows
     else find (redeemable collate now' t') rows)"
  by (induction rows) (auto dest: redeemable_key)

lemma use_live:
  assumes "distinct_tokens collate rows"
  shows "live_ticket collate (snd (use_ticket collate now t rows)) now' t' =
    (if collate t' = collate t \<and> live_ticket collate rows now t \<noteq> None then None else live_ticket collate rows now' t')"
proof (cases "collate t' = collate t")
  case True
  show ?thesis
  proof (cases "live_ticket collate rows now t")
    case None
    then have "\<forall>r \<in> set rows. \<not> redeemable collate now t r" by (auto simp: live_ticket_def find_None_iff)
    then have "find (\<lambda>r. redeemable collate now' t' r \<and> \<not> redeemable collate now t r) rows = find (redeemable collate now' t') rows"
      by (intro find_cong) auto
    then show ?thesis using None by (simp add: live_ticket_def use_ticket_def find_used)
  next
    case (Some g)
    then obtain r where r: "r \<in> set rows" "redeemable collate now t r"
      by (auto simp: live_ticket_def find_Some_iff in_set_conv_nth)
    have "r' = r" if "r' \<in> set rows" "redeemable collate now' t' r'" for r'
    proof -
      have "collate (tk_token r') = collate (tk_token r)" using r(2) that(2) True by (simp add: redeemable_def)
      then show ?thesis using same_row [OF assms r(1) that(1)] by simp
    qed
    then have "find (\<lambda>r. redeemable collate now' t' r \<and> \<not> redeemable collate now t r) rows = None"
      using r(2) by (auto simp: find_None_iff)
    then show ?thesis using Some True by (auto simp: live_ticket_def use_ticket_def find_used)
  qed
qed (simp add: live_ticket_def use_ticket_def find_used)

lemma find_filter_Some:
  assumes "distinct (map f rows)" "\<And>r. p r \<Longrightarrow> f r = k" "find p (filter q rows) = Some r"
  shows "find p rows = Some r"
  using assms
proof (induction rows)
  case (Cons x rows)
  show ?case
  proof (cases "p x \<and> x \<noteq> r")
    case True
    then have "\<not> q x" using Cons.prems(3) by (auto split: if_splits)
    then have "r \<in> set rows" "p r" using Cons.prems(3) by (auto simp: find_Some_iff dest: nth_mem)
    then have "f r = f x" using Cons.prems(2) True by simp
    moreover have "f r \<in> f ` set rows" using \<open>r \<in> set rows\<close> by simp
    ultimately show ?thesis using Cons.prems(1) by simp
  next
    case False
    then show ?thesis using Cons by (auto split: if_splits)
  qed
qed simp

lemma fewer_live:
  assumes "distinct_tokens collate rows" "live_ticket collate (filter keep rows) now t = Some g"
  shows "live_ticket collate rows now t = Some g"
  using assms find_filter_Some [of "\<lambda>r. collate (tk_token r)" rows "redeemable collate now t" "collate t" keep]
  by (auto simp: live_ticket_def distinct_tokens_def redeemable_def)

interpretation tickets: ticket_store collate "tickets_ok collate" "live_ticket collate" "insert_ticket collate"
  "take_ticket collate" sweepStatement fewer_rows ticket_validity for collate :: "string \<Rightarrow> 'k"
proof unfold_locales
  show "insert_ticket collate now t g s = Some s' \<Longrightarrow> live_ticket collate s' now' t' =
      (if collate t' = collate t then if now' \<le> now + ticket_validity then Some g else None else live_ticket collate s now' t')"
    for now t g s s' now' t' by (rule insert_live)
  show "tickets_ok collate s \<Longrightarrow> fst (take_ticket collate now t s) = (live_ticket collate s now t \<noteq> None)" for s now t
    by (simp add: take_ticket_def use_ticket_def one_redeemable tickets_ok_def)
  show "tickets_ok collate s \<Longrightarrow> live_ticket collate (snd (take_ticket collate now t s)) now' t' =
      (if collate t' = collate t \<and> live_ticket collate s now t \<noteq> None then None else live_ticket collate s now' t')"
    for s now t now' t' by (simp add: take_ticket_def use_live tickets_ok_def)
  show "tickets_ok collate s \<Longrightarrow> live_ticket collate (sweepStatement now s) now' t = Some g \<Longrightarrow> live_ticket collate s now' t = Some g"
    for s now now' t g by (simp add: sweepStatement_def fewer_live tickets_ok_def)
  show "tickets_ok collate s \<Longrightarrow> fewer_rows s s' \<Longrightarrow> live_ticket collate s' now t = Some g \<Longrightarrow> live_ticket collate s now t = Some g"
    for s s' now t g by (auto simp: fewer_rows_def fewer_live tickets_ok_def)
  show "tickets_ok collate s \<Longrightarrow> insert_ticket collate now t g s = Some s' \<Longrightarrow> tickets_ok collate s'" for now t g s s'
    by (fastforce simp: insert_ticket_def tickets_ok_def distinct_tokens_def list_ex_iff split: if_splits)
  show "tickets_ok collate s \<Longrightarrow> tickets_ok collate (snd (take_ticket collate now t s))" for now t s
    by (auto simp: take_ticket_def use_ticket_def tickets_ok_def distinct_tokens_def comp_def if_distrib list_all_iff cong: if_cong)
  show "tickets_ok collate s \<Longrightarrow> tickets_ok collate (sweepStatement now s)" for now s
    by (auto simp: sweepStatement_def tickets_ok_def distinct_tokens_def distinct_map_filter list_all_iff)
  show "tickets_ok collate s \<Longrightarrow> fewer_rows s s' \<Longrightarrow> tickets_ok collate s'" for s s'
    by (auto simp: fewer_rows_def tickets_ok_def distinct_tokens_def distinct_map_filter list_all_iff)
qed

section \<open>phpMyAdmin\<close>

record pma_grant =
  pg_domain :: int
  pg_account :: int
  pg_user :: string
  pg_name :: string

record pma_db =
  pd_scope :: scope_db
  pd_accounts :: "db_account list"
  pma_tokens :: "pma_grant ticket_row list"

record signonToken =
  st_user :: string
  st_name :: string
  st_stored :: string

text \<open>What one request meets: which statements fail, the database's clock, and 24 random bytes.\<close>

record signon_env =
  se_reads :: bool
  se_scope :: bool
  se_state :: read_env
  se_random :: "string option"
  se_writes :: bool
  se_sweeps :: bool
  se_affected :: bool
  se_now :: int
  se_later :: int

definition hex_lower :: "nat \<Rightarrow> char" where
  "hex_lower n = ''0123456789abcdef'' ! n"

definition randomHex :: "string option \<Rightarrow> string option" where
  "randomHex b = map_option (\<lambda>s. concat (map (\<lambda>c. [hex_lower (of_char c div 16), hex_lower (of_char c mod 16)]) s)) b"

definition account_by_id :: "int \<Rightarrow> pma_db \<Rightarrow> db_account option" where
  "account_by_id dbID db = find (\<lambda>a. da_id a = dbID) (pd_accounts db)"

text \<open>The account with a domain that exists (the query joins \<open>domains\<close>).\<close>

definition requested_account :: "int \<Rightarrow> pma_db \<Rightarrow> db_account option" where
  "requested_account dbID db =
     (case account_by_id dbID db of
        None \<Rightarrow> None
      | Some a \<Rightarrow> if list_ex (\<lambda>d. d_id d = da_domain a) (domains (pd_scope db)) then Some a else None)"

definition grant_for :: "db_account \<Rightarrow> pma_grant" where
  "grant_for a = \<lparr>pg_domain = da_domain a, pg_account = da_id a, pg_user = da_user a, pg_name = da_name a\<rparr>"

definition RequestToken :: "(string \<Rightarrow> 'k) \<Rightarrow> signon_env \<Rightarrow> claims option \<Rightarrow> string \<Rightarrow> auth_state \<Rightarrow> pma_db \<Rightarrow>
    (int \<times> string option) \<times> auth_state \<times> pma_db" where
  "RequestToken collate e cl param ast db =
     (if \<not> se_reads e then ((500, None), ast, db)
      else case requested_account (parse_int_lossy param) db of
          None \<Rightarrow> ((404, None), ast, db)
        | Some a \<Rightarrow>
            if \<not> DomainOwnedBy True (se_scope e) (pd_scope db) cl (da_domain a) then ((404, None), ast, db)
            else (case EnforceCustomerNotSuspended True (se_state e) cl (da_domain a) ast of
                (Deny code msg, ast) \<Rightarrow> ((code, None), ast, db)
              | (Next, ast) \<Rightarrow>
                  (case randomHex (se_random e) of
                     None \<Rightarrow> ((500, None), ast, db)
                   | Some token \<Rightarrow>
                       if \<not> se_writes e then ((500, None), ast, db)
                       else (case insert_ticket collate (se_now e) token (grant_for a) (pma_tokens db) of
                           None \<Rightarrow> ((500, None), ast, db)
                         | Some rows \<Rightarrow> ((201, Some token), ast,
                             db\<lparr>pma_tokens := (if se_sweeps e then sweepStatement (se_later e) rows else rows)\<rparr>)))))"

text \<open>The internal token of \<open>signon.php\<close>, as read from its file.\<close>

definition internalCaller :: "string option \<Rightarrow> string \<Rightarrow> bool" where
  "internalCaller file auth =
     (let expected = (case file of None \<Rightarrow> [] | Some b \<Rightarrow> trim_space b)
      in \<not> (expected = [] \<or> auth = [] \<or> auth \<noteq> expected))"

definition liveToken :: "(string \<Rightarrow> 'k) \<Rightarrow> signon_env \<Rightarrow> string \<Rightarrow> pma_db \<Rightarrow> int + signonToken" where
  "liveToken collate e token db =
     (if \<not> se_reads e then Inl 500
      else case select_ticket collate token (pma_tokens db) of
          None \<Rightarrow> Inl 404
        | Some r \<Rightarrow>
            (case account_by_id (pg_account (tk_grant r)) db of
               None \<Rightarrow> Inl 404
             | Some a \<Rightarrow>
                 if tk_used r = 1 then Inl 410
                 else if tk_expires r < se_now e then Inl 410
                 else Inr \<lparr>st_user = pg_user (tk_grant r), st_name = pg_name (tk_grant r), st_stored = da_pass a\<rparr>))"

text \<open>\<open>None\<close> when this request is the one that consumed the token.\<close>

definition consumeToken :: "(string \<Rightarrow> 'k) \<Rightarrow> signon_env \<Rightarrow> string \<Rightarrow> 'g ticket_row list \<Rightarrow> int option \<times> 'g ticket_row list" where
  "consumeToken collate e token rows =
     (if \<not> se_writes e then (Some 500, rows)
      else case use_ticket collate (se_now e) token rows of
          (consumed, rows) \<Rightarrow> if \<not> se_affected e \<or> consumed \<noteq> 1 then (Some 410, rows) else (None, rows))"

text \<open>\<open>Redeem\<close> up to the read and from the consuming statement on; requests interleave between the two.\<close>

definition redeem_read :: "(string \<Rightarrow> 'k) \<Rightarrow> signon_env \<Rightarrow> string option \<Rightarrow> string \<Rightarrow> string option \<Rightarrow> pma_db \<Rightarrow>
    int + string \<times> signonToken" where
  "redeem_read collate e file auth body db =
     (if \<not> internalCaller file auth then Inl 401
      else case body of
          None \<Rightarrow> Inl 400
        | Some token \<Rightarrow>
            if token = [] then Inl 400
            else (case liveToken collate e token db of Inl code \<Rightarrow> Inl code | Inr found \<Rightarrow> Inr (token, found)))"

definition redeem_consume :: "(string \<Rightarrow> 'k) \<Rightarrow> aead option \<Rightarrow> signon_env \<Rightarrow> string \<times> signonToken \<Rightarrow> pma_db \<Rightarrow>
    (int \<times> (string \<times> string \<times> string) option) \<times> pma_db" where
  "redeem_consume collate gcm e read db =
     (case read of (token, found) \<Rightarrow>
       (case consumeToken collate e token (pma_tokens db) of
          (Some code, rows) \<Rightarrow> ((code, None), db\<lparr>pma_tokens := rows\<rparr>)
        | (None, rows) \<Rightarrow>
            (case DecryptWith gcm (st_stored found) (st_user found) of
               Inl err \<Rightarrow> ((500, None), db\<lparr>pma_tokens := rows\<rparr>)
             | Inr password \<Rightarrow> ((200, Some (st_user found, password, st_name found)), db\<lparr>pma_tokens := rows\<rparr>))))"

definition Redeem :: "(string \<Rightarrow> 'k) \<Rightarrow> aead option \<Rightarrow> signon_env \<Rightarrow> signon_env \<Rightarrow> string option \<Rightarrow> string \<Rightarrow> string option \<Rightarrow>
    pma_db \<Rightarrow> (int \<times> (string \<times> string \<times> string) option) \<times> pma_db" where
  "Redeem collate gcm e1 e2 file auth body db =
     (case redeem_read collate e1 file auth body db of
        Inl code \<Rightarrow> ((code, None), db)
      | Inr read \<Rightarrow> redeem_consume collate gcm e2 read db)"

section \<open>Runs of the phpMyAdmin sign-on\<close>

text \<open>
  Requests, sweeps and changes of the other tables in any order; a redemption reads and consumes in two
  steps with anything in between. The tokens drawn are fresh. Beside the tables: the tokens minted, each with
  the caller and the ownership tables of its request, the redemptions that have read, and those answered
  with a credential.
\<close>

record pma_world =
  pw_now :: int
  pw_db :: pma_db
  pw_minted :: "(int \<times> string \<times> pma_grant \<times> claims option \<times> scope_db) list"
  pw_reads :: "(string \<times> signonToken) list"
  pw_opened :: "(int \<times> string \<times> signonToken) list"

definition minted_log :: "pma_world \<Rightarrow> (int \<times> string \<times> pma_grant) list" where
  "minted_log w = map (\<lambda>(n, t, g, cl, sc). (n, t, g)) (pw_minted w)"

inductive pma_step :: "(string \<Rightarrow> 'k) \<Rightarrow> pma_world \<Rightarrow> pma_world \<Rightarrow> bool" for collate where
  Elapse: "0 \<le> d \<Longrightarrow> pma_step collate w (w\<lparr>pw_now := pw_now w + d\<rparr>)"
| Mint: "RequestToken collate e cl param ast (pw_db w) = ((201, Some token), ast', db') \<Longrightarrow> se_now e = pw_now w \<Longrightarrow>
    requested_account (parse_int_lossy param) (pw_db w) = Some a \<Longrightarrow>
    collate token \<notin> (\<lambda>(n, t, g). collate t) ` set (minted_log w) \<Longrightarrow>
    pma_step collate w (w\<lparr>pw_db := db', pw_minted := (pw_now w, token, grant_for a, cl, pd_scope (pw_db w)) # pw_minted w\<rparr>)"
| Read: "redeem_read collate e file auth body (pw_db w) = Inr read \<Longrightarrow> se_now e = pw_now w \<Longrightarrow>
    pma_step collate w (w\<lparr>pw_reads := read # pw_reads w\<rparr>)"
| Answer: "read \<in> set (pw_reads w) \<Longrightarrow> se_now e = pw_now w \<Longrightarrow>
    redeem_consume collate gcm e read (pw_db w) = ((200, cred), db') \<Longrightarrow>
    pma_step collate w (w\<lparr>pw_db := db', pw_opened := (pw_now w, fst read, snd read) # pw_opened w\<rparr>)"
| Refuse: "read \<in> set (pw_reads w) \<Longrightarrow> se_now e = pw_now w \<Longrightarrow>
    redeem_consume collate gcm e read (pw_db w) = ((code, cred), db') \<Longrightarrow> code \<noteq> 200 \<Longrightarrow>
    pma_step collate w (w\<lparr>pw_db := db'\<rparr>)"
| Sweep: "pma_step collate w (w\<lparr>pw_db := (pw_db w)\<lparr>pma_tokens := sweepStatement n (pma_tokens (pw_db w))\<rparr>\<rparr>)"
| Change: "fewer_rows (pma_tokens (pw_db w)) (pma_tokens db') \<Longrightarrow> pma_step collate w (w\<lparr>pw_db := db'\<rparr>)"


definition pma_start :: "pma_world \<Rightarrow> bool" where
  "pma_start w = (pma_tokens (pw_db w) = [] \<and> pw_minted w = [] \<and> pw_reads w = [] \<and> pw_opened w = [])"

definition pma_reachable :: "(string \<Rightarrow> 'k) \<Rightarrow> pma_world \<Rightarrow> bool" where
  "pma_reachable collate w = (\<exists>w0. pma_start w0 \<and> (pma_step collate)\<^sup>*\<^sup>* w0 w)"

definition shown :: "signonToken \<Rightarrow> string \<times> string" where
  "shown f = (st_user f, st_name f)"

definition pma_view :: "pma_grant \<Rightarrow> string \<times> string" where
  "pma_view g = (pg_user g, pg_name g)"

lemma RequestToken_201:
  assumes "RequestToken collate e cl param ast db = ((201, Some token), ast', db')"
    "requested_account (parse_int_lossy param) db = Some a"
  obtains rows where "insert_ticket collate (se_now e) token (grant_for a) (pma_tokens db) = Some rows"
    "db' = db\<lparr>pma_tokens := (if se_sweeps e then sweepStatement (se_later e) rows else rows)\<rparr>"
    "DomainOwnedBy True (se_scope e) (pd_scope db) cl (da_domain a)"
    "fst (EnforceCustomerNotSuspended True (se_state e) cl (da_domain a) ast) = Next"
  using assms unfolding RequestToken_def
  by (auto split: if_splits option.splits prod.splits response.splits)

lemma select_live:
  assumes "tickets_ok collate rows" "select_ticket collate token rows = Some r" "tk_used r \<noteq> 1" "now \<le> tk_expires r"
  shows "live_ticket collate rows now token = Some (tk_grant r)"
proof -
  have mem: "r \<in> set rows" "collate (tk_token r) = collate token"
    using assms(2) by (auto simp: select_ticket_def find_Some_iff)
  then have red: "redeemable collate now token r" using assms(1,3,4) by (auto simp: redeemable_def tickets_ok_def list_all_iff)
  then have "find (redeemable collate now token) rows \<noteq> None" using mem by (auto simp: find_None_iff)
  then obtain r' where r': "find (redeemable collate now token) rows = Some r'" by blast
  then have "r' \<in> set rows" "collate (tk_token r') = collate token" by (auto simp: find_Some_iff redeemable_def)
  then have "r' = r" using same_row [of collate rows r r'] assms(1) mem by (simp add: tickets_ok_def)
  then show ?thesis using r' by (simp add: live_ticket_def)
qed

lemma redeem_read_live:
  assumes "redeem_read collate e file auth body db = Inr (token, found)" "tickets_ok collate (pma_tokens db)"
  obtains g where "live_ticket collate (pma_tokens db) (se_now e) token = Some g" "pma_view g = shown found"
proof -
  obtain r where r: "select_ticket collate token (pma_tokens db) = Some r" "tk_used r \<noteq> 1"
    "se_now e \<le> tk_expires r" "shown found = pma_view (tk_grant r)"
    using assms(1) unfolding redeem_read_def liveToken_def
    by (auto simp: shown_def pma_view_def split: if_splits option.splits sum.splits)
  then show thesis using that [OF select_live [OF assms(2) r(1-3)]] by simp
qed

lemma consumeToken_take:
  "consumeToken collate e token rows = (None, rows') \<Longrightarrow> fst (take_ticket collate (se_now e) token rows) \<and>
     rows' = snd (take_ticket collate (se_now e) token rows)"
  "snd (consumeToken collate e token rows) \<in> {rows, snd (take_ticket collate (se_now e) token rows)}"
  by (auto simp: consumeToken_def take_ticket_def split: if_splits prod.splits)

abbreviation signon_sound :: "(string \<Rightarrow> 'k) \<Rightarrow> ('g \<Rightarrow> 'v) \<Rightarrow> int \<Rightarrow> (int \<times> string \<times> 'g) list \<Rightarrow> (string \<times> 'v) list \<Rightarrow>
    (int \<times> string \<times> 'v) list \<Rightarrow> 'g ticket_row list \<Rightarrow> bool" where
  "signon_sound collate \<equiv> ticket_store.sound collate (tickets_ok collate) (live_ticket collate) ticket_validity"

definition pma_inv :: "(string \<Rightarrow> 'k) \<Rightarrow> pma_world \<Rightarrow> bool" where
  "pma_inv collate w =
     (signon_sound collate pma_view (pw_now w) (minted_log w) (map (\<lambda>(t, f). (t, shown f)) (pw_reads w))
        (map (\<lambda>(n, t, f). (n, t, shown f)) (pw_opened w)) (pma_tokens (pw_db w)) \<and>
      list_all (\<lambda>(n, t, g, cl, sc). \<exists>readable. DomainOwnedBy True readable sc cl (pg_domain g)) (pw_minted w))"

lemma keys_of_log: "set (tickets.keys_of collate ms) = (\<lambda>(n, t, g). collate t) ` set ms"
  by (force simp: tickets.keys_of_def)

lemma consume_sound:
  assumes s: "signon_sound collate view now ms pend opened rows" and p: "(t, v) \<in> set pend"
    and c: "consumeToken collate e t rows = (code, rows')" and n: "se_now e = now"
  shows "signon_sound collate view now ms pend opened rows'"
    and "code = None \<Longrightarrow> signon_sound collate view now ms pend ((now, t, v) # opened) rows'"
proof -
  have "rows' \<in> {rows, snd (take_ticket collate now t rows)}" using consumeToken_take(2) [of collate e t rows] c n by simp
  then show "signon_sound collate view now ms pend opened rows'"
    using s tickets.sound_taken(2) [OF s _ p] tickets.sound_refused [OF s] by blast
  show "signon_sound collate view now ms pend ((now, t, v) # opened) rows'" if "code = None"
    using tickets.sound_taken(1) [OF s _ p] consumeToken_take(1) [of collate e t rows rows'] c n that by simp
qed

lemma redeem_consume_code:
  assumes "redeem_consume collate gcm e (token, found) db = ((code, cred), db')"
  obtains c rows where "consumeToken collate e token (pma_tokens db) = (c, rows)" "db' = db\<lparr>pma_tokens := rows\<rparr>"
    "code = 200 \<Longrightarrow> c = None \<and> cred \<noteq> None"
proof -
  obtain c rows where cr: "consumeToken collate e token (pma_tokens db) = (c, rows)" by fastforce
  then have "c \<noteq> Some 200" by (auto simp: consumeToken_def split: if_splits prod.splits)
  then show thesis using that [OF cr] assms cr by (auto simp: redeem_consume_def split: option.splits sum.splits)
qed

lemma pma_step_inv:
  assumes "pma_step collate w w'" and inv: "pma_inv collate w"
  shows "pma_inv collate w'"
  using assms(1)
proof (cases rule: pma_step.cases)
  case (Elapse d)
  then show ?thesis using inv unfolding pma_inv_def minted_log_def by (auto intro: tickets.sound_later)
next
  case (Mint e cl param ast token ast' db' a)
  then obtain rows where r: "insert_ticket collate (pw_now w) token (grant_for a) (pma_tokens (pw_db w)) = Some rows"
    "pma_tokens db' = (if se_sweeps e then sweepStatement (se_later e) rows else rows)"
    "DomainOwnedBy True (se_scope e) (pd_scope (pw_db w)) cl (da_domain a)"
    by (auto elim: RequestToken_201)
  have "signon_sound collate pma_view (pw_now w) ((pw_now w, token, grant_for a) # minted_log w) (map (\<lambda>(t, f). (t, shown f)) (pw_reads w))
        (map (\<lambda>(n, t, f). (n, t, shown f)) (pw_opened w)) rows"
    by (rule tickets.sound_minted [OF _ _ r(1)]) (use inv Mint(5) in \<open>simp_all add: pma_inv_def keys_of_log\<close>)
  then show ?thesis using Mint(1) r(2,3) inv tickets.sound_swept
    by (auto simp: pma_inv_def minted_log_def grant_for_def)
next
  case (Read e fl auth body rd)
  obtain token found where rd: "rd = (token, found)" by fastforce
  obtain g where "live_ticket collate (pma_tokens (pw_db w)) (pw_now w) token = Some g" "pma_view g = shown found"
  proof (rule redeem_read_live [of collate e fl auth body "pw_db w" token found])
    show "tickets_ok collate (pma_tokens (pw_db w))"
      using inv tickets.sound_invar unfolding pma_inv_def by blast
  qed (use Read rd in simp_all)
  then show ?thesis using inv Read(1) rd tickets.sound_read [of collate pma_view "pw_now w" "minted_log w" _ _ _ token g]
    by (auto simp: pma_inv_def minted_log_def)
next
  case (Answer rd e gcm cred db')
  obtain token found where rd: "rd = (token, found)" by fastforce
  obtain c rows where c: "consumeToken collate e token (pma_tokens (pw_db w)) = (c, rows)" "db' = (pw_db w)\<lparr>pma_tokens := rows\<rparr>" "c = None"
    using redeem_consume_code Answer(4) rd by metis
  have p: "(token, shown found) \<in> set (map (\<lambda>(t, f). (t, shown f)) (pw_reads w))" using Answer(2) rd by force
  show ?thesis using consume_sound(2) [OF _ p c(1) Answer(3) c(3)] inv Answer(1) c(2) rd
    by (simp add: pma_inv_def minted_log_def)
next
  case (Refuse rd e gcm code cred db')
  obtain token found where rd: "rd = (token, found)" by fastforce
  obtain c rows where c: "consumeToken collate e token (pma_tokens (pw_db w)) = (c, rows)" "db' = (pw_db w)\<lparr>pma_tokens := rows\<rparr>"
    using redeem_consume_code Refuse(4) rd by metis
  have p: "(token, shown found) \<in> set (map (\<lambda>(t, f). (t, shown f)) (pw_reads w))" using Refuse(2) rd by force
  show ?thesis using consume_sound(1) [OF _ p c(1) Refuse(3)] inv Refuse(1) c(2)
    by (simp add: pma_inv_def minted_log_def)
next
  case (Sweep n)
  then show ?thesis using inv tickets.sound_swept by (auto simp: pma_inv_def minted_log_def)
next
  case (Change db')
  then show ?thesis using inv tickets.sound_shrunk by (auto simp: pma_inv_def minted_log_def)
qed

lemma pma_reachable_inv:
  assumes "pma_reachable collate w"
  shows "pma_inv collate w"
proof -
  obtain w0 where w0: "pma_start w0" "(pma_step collate)\<^sup>*\<^sup>* w0 w" using assms unfolding pma_reachable_def by blast
  have "pma_inv collate w0"
    using w0(1) tickets.sound_init [of collate "[]"]
    by (simp add: pma_start_def pma_inv_def minted_log_def tickets_ok_def distinct_tokens_def live_ticket_def)
  with w0(2) show ?thesis by (induction rule: rtranclp_induct) (auto intro: pma_step_inv)
qed

lemma DomainOwnedBy_readable: "DomainOwnedBy True readable sc cl d \<Longrightarrow> DomainOwnedBy True True sc cl d"
  by (auto simp: DomainOwnedBy_def ResellerOwnsDomain_def CustomerUserOwnsDomain_def split: option.splits if_splits)

text \<open>
  C33. A phpMyAdmin token opens one session. Whatever requests, redemptions, sweeps and changes of the other
  tables happen and however they interleave, no token is answered with a credential twice, and every
  answered one was minted at most two minutes before for exactly the database user and schema answered, at
  the request of a caller who owned the domain the database belongs to.
\<close>

theorem pma_signon_once:
  assumes "pma_reachable collate w"
  shows "distinct (map (\<lambda>(n, t, f). collate t) (pw_opened w)) \<and>
    (\<forall>n t f. (n, t, f) \<in> set (pw_opened w) \<longrightarrow>
      (\<exists>m t' g cl sc. (m, t', g, cl, sc) \<in> set (pw_minted w) \<and> collate t' = collate t \<and> m \<le> n \<and> n \<le> m + 120 \<and>
        st_user f = pg_user g \<and> st_name f = pg_name g \<and> DomainOwnedBy True True sc cl (pg_domain g)))"
proof -
  have inv: "pma_inv collate w" by (rule pma_reachable_inv [OF assms])
  then have s: "signon_sound collate pma_view (pw_now w) (minted_log w) (map (\<lambda>(t, f). (t, shown f)) (pw_reads w))
      (map (\<lambda>(n, t, f). (n, t, shown f)) (pw_opened w)) (pma_tokens (pw_db w))"
    unfolding pma_inv_def by blast
  have "distinct (map (\<lambda>e. collate (fst (snd e))) (map (\<lambda>(n, t, f). (n, t, shown f)) (pw_opened w)))"
    by (rule tickets.opened_once [OF s])
  then have once: "distinct (map (\<lambda>(n, t, f). collate t) (pw_opened w))" by (simp add: comp_def case_prod_unfold)
  have "\<exists>m t' g cl sc. (m, t', g, cl, sc) \<in> set (pw_minted w) \<and> collate t' = collate t \<and> m \<le> n \<and> n \<le> m + 120 \<and>
        st_user f = pg_user g \<and> st_name f = pg_name g \<and> DomainOwnedBy True True sc cl (pg_domain g)"
    if o: "(n, t, f) \<in> set (pw_opened w)" for n t f
  proof -
    have mem: "(n, t, shown f) \<in> set (map (\<lambda>(n, t, f). (n, t, shown f)) (pw_opened w))" using o by force
    obtain m t' g where m: "(m, t', g) \<in> set (minted_log w)" "collate t' = collate t" "m \<le> n" "n \<le> m + ticket_validity"
      "pma_view g = shown f"
      using tickets.opened_minted [OF s mem] by blast
    then obtain cl sc where e: "(m, t', g, cl, sc) \<in> set (pw_minted w)" by (auto simp: minted_log_def)
    then have "DomainOwnedBy True True sc cl (pg_domain g)"
      using inv DomainOwnedBy_readable unfolding pma_inv_def list_all_iff by fast
    moreover have "st_user f = pg_user g \<and> st_name f = pg_name g \<and> n \<le> m + 120"
      using m(4,5) by (simp add: ticket_validity_def pma_view_def shown_def)
    ultimately show ?thesis using m(2,3) e by blast
  qed
  then show ?thesis using once by blast
qed

definition calm_env :: "string option \<Rightarrow> int \<Rightarrow> signon_env" where
  "calm_env random now = \<lparr>se_reads = True, se_scope = True, se_state = down_env 0, se_random = random, se_writes = True,
     se_sweeps = True, se_affected = True, se_now = now, se_later = now\<rparr>"

definition sample_pma :: pma_db where
  "sample_pma = \<lparr>pd_scope = sample_db,
     pd_accounts = [\<lparr>da_id = 3, da_domain = 10, da_user = ''shop'', da_name = ''shop_db'', da_pass = ''secret''\<rparr>], pma_tokens = []\<rparr>"

definition sample_grant :: pma_grant where
  "sample_grant = \<lparr>pg_domain = 10, pg_account = 3, pg_user = ''shop'', pg_name = ''shop_db''\<rparr>"

definition sample_token_row :: "int \<Rightarrow> pma_grant ticket_row" where
  "sample_token_row used = \<lparr>tk_token = ''6b'', tk_grant = sample_grant, tk_expires = 170, tk_used = used\<rparr>"

definition sample_found :: signonToken where
  "sample_found = \<lparr>st_user = ''shop'', st_name = ''shop_db'', st_stored = ''secret''\<rparr>"

lemma sample_account: "map_option grant_for (requested_account (parse_int_lossy ''3'') sample_pma) = Some sample_grant"
  by code_simp

lemma RequestToken_frame:
  "RequestToken c e cl p ast db = (reply, ast', db') \<Longrightarrow> db' = db\<lparr>pma_tokens := pma_tokens db'\<rparr>"
  unfolding RequestToken_def by (auto split: if_splits option.splits prod.splits response.splits)

lemma sample_mint:
  "\<exists>ast. RequestToken (\<lambda>s. s) (calm_env (Some ''k'') 50) (Some sample_claims) ''3'' init_auth_state sample_pma =
     ((201, Some ''6b''), ast, sample_pma\<lparr>pma_tokens := [sample_token_row 0]\<rparr>)"
proof -
  have f: "fst (RequestToken (\<lambda>s. s) (calm_env (Some ''k'') 50) (Some sample_claims) ''3'' init_auth_state sample_pma) = (201, Some ''6b'')"
    "pma_tokens (snd (snd (RequestToken (\<lambda>s. s) (calm_env (Some ''k'') 50) (Some sample_claims) ''3'' init_auth_state sample_pma))) = [sample_token_row 0]"
    by code_simp+
  obtain reply ast db where r: "RequestToken (\<lambda>s. s) (calm_env (Some ''k'') 50) (Some sample_claims) ''3'' init_auth_state sample_pma = (reply, ast, db)"
    by (metis prod.exhaust)
  then have "reply = (201, Some ''6b'')" "pma_tokens db = [sample_token_row 0]" using f by (simp_all only: fst_conv snd_conv)
  then show ?thesis using r RequestToken_frame [OF r] by auto
qed

lemma sample_read:
  "redeem_read (\<lambda>s. s) (calm_env None 50) (Some ''tok'') ''tok'' (Some ''6b'') (sample_pma\<lparr>pma_tokens := [sample_token_row 0]\<rparr>) = Inr (''6b'', sample_found)"
  by code_simp

lemma sample_consume:
  "redeem_consume (\<lambda>s. s) None (calm_env None 50) (''6b'', sample_found) (sample_pma\<lparr>pma_tokens := [sample_token_row 0]\<rparr>) =
    ((200, Some (''shop'', ''secret'', ''shop_db'')), sample_pma\<lparr>pma_tokens := [sample_token_row 1]\<rparr>)"
  by (simp add: redeem_consume_def consumeToken_def use_ticket_def redeemable_def sample_token_row_def sample_found_def calm_env_def
      DecryptWith_def has_prefix_def seal_prefix_def)

theorem pma_signon_once_witness:
  "\<exists>w. pma_reachable (\<lambda>s. s) w \<and> pw_opened w \<noteq> [] \<and> distinct (map (\<lambda>(n, t, f). t) (pw_opened w))"
proof -
  let ?w0 = "\<lparr>pw_now = 50, pw_db = sample_pma, pw_minted = [], pw_reads = [], pw_opened = []\<rparr>"
  let ?w1 = "?w0\<lparr>pw_db := sample_pma\<lparr>pma_tokens := [sample_token_row 0]\<rparr>, pw_minted := [(50, ''6b'', sample_grant, Some sample_claims, sample_db)]\<rparr>"
  let ?w2 = "?w1\<lparr>pw_reads := [(''6b'', sample_found)]\<rparr>"
  let ?w3 = "?w2\<lparr>pw_db := sample_pma\<lparr>pma_tokens := [sample_token_row 1]\<rparr>, pw_opened := [(50, ''6b'', sample_found)]\<rparr>"
  obtain ast where mint: "RequestToken (\<lambda>s. s) (calm_env (Some ''k'') 50) (Some sample_claims) ''3'' init_auth_state sample_pma =
     ((201, Some ''6b''), ast, sample_pma\<lparr>pma_tokens := [sample_token_row 0]\<rparr>)" using sample_mint by blast
  obtain a where a: "requested_account (parse_int_lossy ''3'') sample_pma = Some a" "grant_for a = sample_grant"
    using sample_account by blast
  have sc: "pd_scope sample_pma = sample_db" by (simp add: sample_pma_def)
  have "pma_step (\<lambda>s. s) ?w0 ?w1"
    using pma_step.Mint [of "\<lambda>s. s" "calm_env (Some ''k'') 50" "Some sample_claims" "''3''" init_auth_state ?w0 "''6b''" ast _ a] mint a sc
    by (simp add: calm_env_def minted_log_def)
  moreover have "pma_step (\<lambda>s. s) ?w1 ?w2"
    using pma_step.Read [of "\<lambda>s. s" "calm_env None 50" "Some ''tok''" "''tok''" "Some ''6b''" ?w1] sample_read by (simp add: calm_env_def)
  moreover have "pma_step (\<lambda>s. s) ?w2 ?w3"
    using pma_step.Answer [of "(''6b'', sample_found)" ?w2 "calm_env None 50" "\<lambda>s. s" None] sample_consume by (simp add: calm_env_def)
  ultimately have "(pma_step (\<lambda>s. s))\<^sup>*\<^sup>* ?w0 ?w3" by (meson rtranclp.rtrancl_into_rtrancl rtranclp.rtrancl_refl)
  then have r: "pma_reachable (\<lambda>s. s) ?w3" unfolding pma_reachable_def by (intro exI [of _ ?w0]) (simp add: pma_start_def sample_pma_def)
  show ?thesis by (rule exI [of _ ?w3]) (use r pma_signon_once [OF r] in simp)
qed

end
