(* ===== verification/WebmailSignon.thy ===== *)
theory WebmailSignon
  imports SignonTokens
begin

text \<open>
  Opening webmail from the panel (internal/mail/webmailsignon.go, the two names of masteruser.go): the same
  table of tokens as the phpMyAdmin sign-on, answered with Dovecot's master login for the mailbox.
\<close>

section \<open>The handlers\<close>

record mailbox_row =
  mb_id :: int
  mb_domain :: int
  mb_email :: string
  mb_status :: string

record webmail_grant =
  wg_domain :: int
  wg_mailbox :: int
  wg_email :: string

record mail_db =
  md_scope :: scope_db
  mailboxes :: "mailbox_row list"
  webmail_tokens :: "webmail_grant ticket_row list"
  md_panel :: panel

definition MasterPassword :: "string \<Rightarrow> string" where
  "MasterPassword env = trim_space env"

definition MasterLogin :: "string \<Rightarrow> string" where
  "MasterLogin email = email @ ''*'' @ ''servika-webmail''"

definition mailbox_of :: "int \<Rightarrow> int \<Rightarrow> mail_db \<Rightarrow> mailbox_row option" where
  "mailbox_of mid domainID db = find (\<lambda>m. mb_id m = mid \<and> mb_domain m = domainID) (mailboxes db)"

definition webmail_grant_for :: "mailbox_row \<Rightarrow> webmail_grant" where
  "webmail_grant_for m = \<lparr>wg_domain = mb_domain m, wg_mailbox = mb_id m, wg_email = mb_email m\<rparr>"

definition webmail_audit :: "login_env \<Rightarrow> claims option \<Rightarrow> string \<Rightarrow> panel \<Rightarrow> panel" where
  "webmail_audit le cl target db =
     (case cl of None \<Rightarrow> db
      | Some c \<Rightarrow> WriteAudit le (UserID c) (Username c) (le_audit_ip le) ''mail.webmail.signon'' target True db)"

definition WebmailToken :: "(string \<Rightarrow> 'k) \<Rightarrow> signon_env \<Rightarrow> login_env \<Rightarrow> string \<Rightarrow> claims option \<Rightarrow> string \<Rightarrow> string \<Rightarrow> auth_state \<Rightarrow>
    mail_db \<Rightarrow> (int \<times> string option) \<times> auth_state \<times> mail_db" where
  "WebmailToken collate e le master cl idParam midParam ast db =
     (let domainID = parse_int_lossy idParam in
      if \<not> se_scope e \<or> \<not> list_ex (\<lambda>d. d_id d = domainID) (domains (md_scope db)) then ((404, None), ast, db)
      else (case EnforceCustomerNotSuspended True (se_state e) cl domainID ast of
          (Deny code msg, ast) \<Rightarrow> ((code, None), ast, db)
        | (Next, ast) \<Rightarrow>
            if MasterPassword master = [] then ((503, None), ast, db)
            else if \<not> se_reads e then ((500, None), ast, db)
            else (case mailbox_of (parse_int_lossy midParam) domainID db of
                None \<Rightarrow> ((404, None), ast, db)
              | Some m \<Rightarrow>
                  if mb_status m \<noteq> ''active'' then ((403, None), ast, db)
                  else (case randomHex (se_random e) of
                      None \<Rightarrow> ((500, None), ast, db)
                    | Some token \<Rightarrow>
                        if \<not> se_writes e then ((500, None), ast, db)
                        else (case insert_ticket collate (se_now e) token (webmail_grant_for m) (webmail_tokens db) of
                            None \<Rightarrow> ((500, None), ast, db)
                          | Some rows \<Rightarrow> ((201, Some token), ast,
                              db\<lparr>webmail_tokens := (if se_sweeps e then sweepStatement (se_later e) rows else rows),
                                 md_panel := webmail_audit le cl (mb_email m) (md_panel db)\<rparr>))))))"

definition internalCallerMatches :: "string option \<Rightarrow> string \<Rightarrow> bool" where
  "internalCallerMatches file provided =
     (let expected = (case file of None \<Rightarrow> [] | Some raw \<Rightarrow> trim_space raw)
      in expected \<noteq> [] \<and> provided \<noteq> [] \<and> provided = expected)"

text \<open>\<open>redeemWebmailToken\<close> up to its read, within the checks of \<open>WebmailRedeem\<close> before it.\<close>

definition webmail_read :: "(string \<Rightarrow> 'k) \<Rightarrow> signon_env \<Rightarrow> string option \<Rightarrow> string \<Rightarrow> string \<Rightarrow> string option \<Rightarrow> mail_db \<Rightarrow>
    int + string \<times> string" where
  "webmail_read collate e file auth master body db =
     (if \<not> internalCallerMatches file auth then Inl 401
      else if MasterPassword master = [] then Inl 503
      else case body of
          None \<Rightarrow> Inl 400
        | Some token \<Rightarrow>
            if token = [] then Inl 400
            else if \<not> se_reads e then Inl 500
            else (case select_ticket collate token (webmail_tokens db) of
                None \<Rightarrow> Inl 404
              | Some r \<Rightarrow> if tk_used r = 1 \<or> tk_expires r < se_now e then Inl 410 else Inr (token, wg_email (tk_grant r))))"

definition webmail_consume :: "(string \<Rightarrow> 'k) \<Rightarrow> signon_env \<Rightarrow> string \<Rightarrow> string \<times> string \<Rightarrow> mail_db \<Rightarrow>
    (int \<times> (string \<times> string) option) \<times> mail_db" where
  "webmail_consume collate e master read db =
     (case read of (token, email) \<Rightarrow>
       (case consumeToken collate e token (webmail_tokens db) of
          (Some code, rows) \<Rightarrow> ((code, None), db\<lparr>webmail_tokens := rows\<rparr>)
        | (None, rows) \<Rightarrow> ((200, Some (MasterLogin email, MasterPassword master)), db\<lparr>webmail_tokens := rows\<rparr>)))"

definition WebmailRedeem :: "(string \<Rightarrow> 'k) \<Rightarrow> signon_env \<Rightarrow> signon_env \<Rightarrow> string option \<Rightarrow> string \<Rightarrow> string \<Rightarrow> string option \<Rightarrow>
    mail_db \<Rightarrow> (int \<times> (string \<times> string) option) \<times> mail_db" where
  "WebmailRedeem collate e1 e2 file auth master body db =
     (case webmail_read collate e1 file auth master body db of
        Inl code \<Rightarrow> ((code, None), db)
      | Inr read \<Rightarrow> webmail_consume collate e2 master read db)"

definition pruneWebmailTokens :: "int \<Rightarrow> mail_db \<Rightarrow> mail_db" where
  "pruneWebmailTokens now db = db\<lparr>webmail_tokens := sweepStatement now (webmail_tokens db)\<rparr>"

section \<open>Runs\<close>

record mail_world =
  mw_now :: int
  mw_db :: mail_db
  mw_minted :: "(int \<times> string \<times> mailbox_row) list"
  mw_reads :: "(string \<times> string) list"
  mw_opened :: "(int \<times> string \<times> string) list"

definition mail_log :: "mail_world \<Rightarrow> (int \<times> string \<times> webmail_grant) list" where
  "mail_log w = map (\<lambda>(n, t, m). (n, t, webmail_grant_for m)) (mw_minted w)"

inductive mail_step :: "(string \<Rightarrow> 'k) \<Rightarrow> mail_world \<Rightarrow> mail_world \<Rightarrow> bool" for collate where
  Elapse: "0 \<le> d \<Longrightarrow> mail_step collate w (w\<lparr>mw_now := mw_now w + d\<rparr>)"
| Mint: "WebmailToken collate e le master cl idParam midParam ast (mw_db w) = ((201, Some token), ast', db') \<Longrightarrow> se_now e = mw_now w \<Longrightarrow>
    mailbox_of (parse_int_lossy midParam) (parse_int_lossy idParam) (mw_db w) = Some m \<Longrightarrow>
    collate token \<notin> (\<lambda>(n, t, g). collate t) ` set (mail_log w) \<Longrightarrow>
    mail_step collate w (w\<lparr>mw_db := db', mw_minted := (mw_now w, token, m) # mw_minted w\<rparr>)"
| Read: "webmail_read collate e file auth master body (mw_db w) = Inr read \<Longrightarrow> se_now e = mw_now w \<Longrightarrow>
    mail_step collate w (w\<lparr>mw_reads := read # mw_reads w\<rparr>)"
| Answer: "read \<in> set (mw_reads w) \<Longrightarrow> se_now e = mw_now w \<Longrightarrow>
    webmail_consume collate e master read (mw_db w) = ((200, cred), db') \<Longrightarrow>
    mail_step collate w (w\<lparr>mw_db := db', mw_opened := (mw_now w, fst read, snd read) # mw_opened w\<rparr>)"
| Refuse: "read \<in> set (mw_reads w) \<Longrightarrow> se_now e = mw_now w \<Longrightarrow>
    webmail_consume collate e master read (mw_db w) = ((code, cred), db') \<Longrightarrow> code \<noteq> 200 \<Longrightarrow>
    mail_step collate w (w\<lparr>mw_db := db'\<rparr>)"
| Prune: "mail_step collate w (w\<lparr>mw_db := pruneWebmailTokens n (mw_db w)\<rparr>)"
| Change: "fewer_rows (webmail_tokens (mw_db w)) (webmail_tokens db') \<Longrightarrow> mail_step collate w (w\<lparr>mw_db := db'\<rparr>)"

definition mail_start :: "mail_world \<Rightarrow> bool" where
  "mail_start w = (webmail_tokens (mw_db w) = [] \<and> mw_minted w = [] \<and> mw_reads w = [] \<and> mw_opened w = [])"

definition mail_reachable :: "(string \<Rightarrow> 'k) \<Rightarrow> mail_world \<Rightarrow> bool" where
  "mail_reachable collate w = (\<exists>w0. mail_start w0 \<and> (mail_step collate)\<^sup>*\<^sup>* w0 w)"

definition mail_inv :: "(string \<Rightarrow> 'k) \<Rightarrow> mail_world \<Rightarrow> bool" where
  "mail_inv collate w =
     (signon_sound collate wg_email (mw_now w) (mail_log w) (mw_reads w) (mw_opened w) (webmail_tokens (mw_db w)) \<and>
      list_all (\<lambda>(n, t, m). mb_status m = ''active'') (mw_minted w))"

lemma WebmailToken_201:
  assumes "WebmailToken collate e le master cl idParam midParam ast db = ((201, Some token), ast', db')"
    "mailbox_of (parse_int_lossy midParam) (parse_int_lossy idParam) db = Some m"
  obtains rows where "insert_ticket collate (se_now e) token (webmail_grant_for m) (webmail_tokens db) = Some rows"
    "webmail_tokens db' = (if se_sweeps e then sweepStatement (se_later e) rows else rows)" "mb_status m = ''active''"
  using assms unfolding WebmailToken_def
  by (auto simp: Let_def split: if_splits option.splits prod.splits response.splits)

lemma webmail_consume_code:
  assumes "webmail_consume collate e master (token, email) db = ((code, cred), db')"
  obtains c rows where "consumeToken collate e token (webmail_tokens db) = (c, rows)" "db' = db\<lparr>webmail_tokens := rows\<rparr>"
    "code = 200 \<Longrightarrow> c = None"
proof -
  obtain c rows where cr: "consumeToken collate e token (webmail_tokens db) = (c, rows)" by fastforce
  then have "c \<noteq> Some 200" by (auto simp: consumeToken_def split: if_splits prod.splits)
  then show thesis using that [OF cr] assms cr by (auto simp: webmail_consume_def split: option.splits)
qed

lemma mail_step_inv:
  assumes "mail_step collate w w'" and inv: "mail_inv collate w"
  shows "mail_inv collate w'"
  using assms(1)
proof (cases rule: mail_step.cases)
  case (Elapse d)
  then show ?thesis using inv unfolding mail_inv_def mail_log_def by (auto intro: tickets.sound_later)
next
  case (Mint e le master cl idParam midParam ast token ast' db' m)
  then obtain rows where r: "insert_ticket collate (mw_now w) token (webmail_grant_for m) (webmail_tokens (mw_db w)) = Some rows"
    "webmail_tokens db' = (if se_sweeps e then sweepStatement (se_later e) rows else rows)" "mb_status m = ''active''"
    by (auto elim: WebmailToken_201)
  have "signon_sound collate wg_email (mw_now w) ((mw_now w, token, webmail_grant_for m) # mail_log w) (mw_reads w) (mw_opened w) rows"
    by (rule tickets.sound_minted [OF _ _ r(1)]) (use inv Mint(5) in \<open>simp_all add: mail_inv_def keys_of_log\<close>)
  then show ?thesis using Mint(1) r(2,3) inv tickets.sound_swept by (auto simp: mail_inv_def mail_log_def)
next
  case (Read e fl auth master body rd)
  obtain token email where rd: "rd = (token, email)" by fastforce
  obtain r where r: "select_ticket collate token (webmail_tokens (mw_db w)) = Some r" "tk_used r \<noteq> 1"
    "mw_now w \<le> tk_expires r" "email = wg_email (tk_grant r)"
    using Read(2,3) rd unfolding webmail_read_def by (auto split: if_splits option.splits)
  have "tickets_ok collate (webmail_tokens (mw_db w))" using inv tickets.sound_invar unfolding mail_inv_def by blast
  then have "live_ticket collate (webmail_tokens (mw_db w)) (mw_now w) token = Some (tk_grant r)"
    using select_live r(1-3) by blast
  then have "signon_sound collate wg_email (mw_now w) (mail_log w) ((token, email) # mw_reads w) (mw_opened w) (webmail_tokens (mw_db w))"
    unfolding r(4) using inv by (intro tickets.sound_read) (simp_all add: mail_inv_def)
  then show ?thesis using Read(1) rd inv by (simp add: mail_inv_def mail_log_def)
next
  case (Answer rd e master cred db')
  obtain token email where rd: "rd = (token, email)" by fastforce
  obtain c rows where c: "consumeToken collate e token (webmail_tokens (mw_db w)) = (c, rows)" "db' = (mw_db w)\<lparr>webmail_tokens := rows\<rparr>" "c = None"
    using webmail_consume_code Answer(4) rd by metis
  have p: "(token, email) \<in> set (mw_reads w)" using Answer(2) rd by simp
  show ?thesis using consume_sound(2) [OF _ p c(1) Answer(3) c(3)] inv Answer(1) c(2) rd
    by (simp add: mail_inv_def mail_log_def)
next
  case (Refuse rd e master code cred db')
  obtain token email where rd: "rd = (token, email)" by fastforce
  obtain c rows where c: "consumeToken collate e token (webmail_tokens (mw_db w)) = (c, rows)" "db' = (mw_db w)\<lparr>webmail_tokens := rows\<rparr>"
    using webmail_consume_code Refuse(4) rd by metis
  have p: "(token, email) \<in> set (mw_reads w)" using Refuse(2) rd by simp
  show ?thesis using consume_sound(1) [OF _ p c(1) Refuse(3)] inv Refuse(1) c(2)
    by (simp add: mail_inv_def mail_log_def)
next
  case (Prune n)
  then show ?thesis using inv tickets.sound_swept by (auto simp: mail_inv_def mail_log_def pruneWebmailTokens_def)
next
  case (Change db')
  then show ?thesis using inv tickets.sound_shrunk by (auto simp: mail_inv_def mail_log_def)
qed

lemma mail_reachable_inv:
  assumes "mail_reachable collate w"
  shows "mail_inv collate w"
proof -
  obtain w0 where w0: "mail_start w0" "(mail_step collate)\<^sup>*\<^sup>* w0 w" using assms unfolding mail_reachable_def by blast
  have "mail_inv collate w0"
    using w0(1) tickets.sound_init [of collate "[]"]
    by (simp add: mail_start_def mail_inv_def mail_log_def tickets_ok_def distinct_tokens_def live_ticket_def)
  with w0(2) show ?thesis by (induction rule: rtranclp_induct) (auto intro: mail_step_inv)
qed

text \<open>
  A webmail token opens one session. Under every interleaving no token is answered with the master login
  twice, and every answered one was minted at most two minutes before for the mailbox answered, which was
  active then.
\<close>

theorem webmail_signon_once:
  assumes "mail_reachable collate w"
  shows "distinct (map (\<lambda>e. collate (fst (snd e))) (mw_opened w)) \<and>
    (\<forall>n t email. (n, t, email) \<in> set (mw_opened w) \<longrightarrow>
      (\<exists>i t' m. (i, t', m) \<in> set (mw_minted w) \<and> collate t' = collate t \<and> i \<le> n \<and> n \<le> i + 120 \<and>
        email = mb_email m \<and> mb_status m = ''active''))"
proof -
  have s: "signon_sound collate wg_email (mw_now w) (mail_log w) (mw_reads w) (mw_opened w) (webmail_tokens (mw_db w))"
    and act: "list_all (\<lambda>(n, t, m). mb_status m = ''active'') (mw_minted w)"
    using mail_reachable_inv [OF assms] unfolding mail_inv_def by blast+
  have "\<exists>i t' m. (i, t', m) \<in> set (mw_minted w) \<and> collate t' = collate t \<and> i \<le> n \<and> n \<le> i + 120 \<and>
        email = mb_email m \<and> mb_status m = ''active''" if o: "(n, t, email) \<in> set (mw_opened w)" for n t email
  proof -
    obtain i t' g where g: "(i, t', g) \<in> set (mail_log w)" "collate t' = collate t" "i \<le> n" "n \<le> i + ticket_validity" "wg_email g = email"
      using tickets.opened_minted [OF s o] by blast
    then obtain m where m: "(i, t', m) \<in> set (mw_minted w)" "g = webmail_grant_for m" by (auto simp: mail_log_def)
    then have "mb_status m = ''active''" using act by (auto simp: list_all_iff)
    moreover have "email = mb_email m \<and> n \<le> i + 120" using g(4,5) m(2) by (auto simp: webmail_grant_for_def ticket_validity_def)
    ultimately show ?thesis using g(2,3) m(1) by blast
  qed
  then show ?thesis using tickets.opened_once [OF s] by blast
qed

section \<open>A mailbox that is gone\<close>

text \<open>
  Redemption reads the token's own row alone. Where the mailbox is deleted or disabled within the two
  minutes, the token is still exchanged for its master login; the phpMyAdmin redemption joins the account and
  answers 404 there.
\<close>

theorem webmail_token_outlives_mailbox:
  assumes "se_reads e" "se_writes e" "se_affected e" "internalCallerMatches file auth" "MasterPassword master \<noteq> []" "token \<noteq> []"
    and "webmail_tokens db = [\<lparr>tk_token = token, tk_grant = g, tk_expires = x, tk_used = 0\<rparr>]" "se_now e \<le> x"
    and "mailboxes db = []"
  shows "fst (WebmailRedeem collate e e file auth master (Some token) db) = (200, Some (MasterLogin (wg_email g), MasterPassword master))"
  using assms
  by (simp add: WebmailRedeem_def webmail_read_def webmail_consume_def consumeToken_def select_ticket_def use_ticket_def redeemable_def)

theorem pma_token_needs_account:
  assumes "pd_accounts db = []"
  shows "fst (fst (Redeem collate gcm e1 e2 file auth body db)) \<noteq> 200"
  using assms by (auto simp: Redeem_def redeem_read_def liveToken_def account_by_id_def split: option.splits if_splits sum.splits)

end
