(* ===== verification/Cidr.thy ===== *)
theory Cidr
  imports IpText
begin

text \<open>
  Address ranges as Go's package \<open>net\<close> reads and prints them (\<open>ParseCIDR\<close>, \<open>IP.Mask\<close>, \<open>IPMask.Size\<close>,
  \<open>IPNet.String\<close>), which the remote database hosts and the firewall are built on. A range that is printed reads
  back as itself.
\<close>

section \<open>Masks\<close>

definition IP_Mask :: "IP \<Rightarrow> 8 word list \<Rightarrow> IP" where
  "IP_Mask ip mk =
     (let mk = (if length mk = 16 \<and> length ip = 4 \<and> take 12 mk = replicate 12 0xFF then drop 12 mk else mk);
          ip = (if length mk = 4 \<and> length ip = 16 \<and> take 12 ip = v4InV6Prefix then drop 12 ip else ip)
      in if length ip \<noteq> length mk then [] else map2 (AND) ip mk)"

fun simpleMaskLength :: "8 word list \<Rightarrow> nat option" where
  "simpleMaskLength [] = Some 0"
| "simpleMaskLength (v # m) =
     (if v = 0xFF then map_option (\<lambda>n. 8 + n) (simpleMaskLength m)
      else if list_all (\<lambda>w. w = 0) m then find (\<lambda>k. v = NOT (drop_bit k 0xFF)) [0..<8] else None)"

text \<open>\<open>(0, 0)\<close> for a mask that is not ones followed by zeros.\<close>

definition Mask_Size :: "8 word list \<Rightarrow> nat \<times> nat" where
  "Mask_Size m = (case simpleMaskLength m of None \<Rightarrow> (0, 0) | Some n \<Rightarrow> (n, 8 * length m))"

text \<open>\<open>IPNet.String\<close>, for a mask of ones followed by zeros.\<close>

definition IPNet_String :: "IPNet \<Rightarrow> string" where
  "IPNet_String network = IP_String (fst network) @ ''/'' @ digits_of (fst (Mask_Size (snd network)))"

section \<open>Reading\<close>

text \<open>Whether an address text is in the dotted form alone, which makes it one of 32 bits.\<close>

definition dotted :: "string \<Rightarrow> bool" where
  "dotted s = (case dropWhile (\<lambda>c. c \<notin> set ''.:%'') s of [] \<Rightarrow> False | c # _ \<Rightarrow> c = CHR ''.'')"

definition ParseCIDR :: "string \<Rightarrow> (IP \<times> IPNet) option" where
  "ParseCIDR s =
     (case cut_at (CHR ''/'') s of (addr, mk, found) \<Rightarrow>
        if \<not> found then None
        else case ParseIP addr of
            None \<Rightarrow> None
          | Some ip \<Rightarrow>
              let bits = (if dotted addr then 32 else 128) in
              if mk = [] \<or> \<not> all_digits mk \<or> bits < value_of 0 mk then None
              else let m = CIDRMask (value_of 0 mk) (bits div 8) in Some (ip, IP_Mask ip m, m))"

lemma length_CIDRMask [simp]: "length (CIDRMask n k) = k"
  by (induction n k rule: CIDRMask.induct) simp_all

lemma CIDRMask_0: "CIDRMask 0 k = replicate k 0"
  by (induction k) simp_all

lemma partial_mask: "n < 8 \<Longrightarrow> NOT (drop_bit n (0xFF :: 8 word)) \<noteq> 0xFF \<and>
  find (\<lambda>k. NOT (drop_bit n (0xFF :: 8 word)) = NOT (drop_bit k 0xFF)) [0..<8] = Some n"
proof -
  assume "n < 8"
  then consider "n = 0" | "n = 1" | "n = 2" | "n = 3" | "n = 4" | "n = 5" | "n = 6" | "n = 7" by linarith
  then show ?thesis by cases (simp_all, code_simp+)
qed

lemma simpleMaskLength_CIDRMask: "n \<le> 8 * k \<Longrightarrow> simpleMaskLength (CIDRMask n k) = Some n"
proof (induction n k rule: CIDRMask.induct)
  case (2 n k)
  show ?case
  proof (cases "8 \<le> n")
    case True
    then show ?thesis using 2 by simp
  next
    case False
    then show ?thesis using partial_mask [of n] by (simp add: CIDRMask_0 list_all_iff)
  qed
qed simp

lemma Mask_Size_CIDRMask: "n \<le> 8 * k \<Longrightarrow> Mask_Size (CIDRMask n k) = (n, 8 * k)"
  by (simp add: Mask_Size_def simpleMaskLength_CIDRMask)

section \<open>A printed range reads back\<close>

lemma cut_at_absent: "d \<notin> set a \<Longrightarrow> cut_at d a = (a, [], False)"
  by (induction a) auto

lemma string4_chars: "c \<in> set (string4 ip) \<Longrightarrow> is_digit c \<or> c = CHR ''.''"
  using digits_of_chars by (auto simp: string4_def dest!: join_subset)

lemma IP_String_4: "length b = 4 \<Longrightarrow> IP_String b = string4 b"
  by (simp add: IP_String_def To4_def)

lemma dotted_string4: "length b = 4 \<Longrightarrow> dotted (string4 b)"
  using string4_dispatch [of b] by (auto simp: dotted_def)

text \<open>A base address has no bits below its mask.\<close>

definition based :: "IPNet \<Rightarrow> bool" where
  "based network = (map2 (AND) (fst network) (snd network) = fst network)"

lemma IP_Mask_4: "length b = 4 \<Longrightarrow> length m = 4 \<Longrightarrow> IP_Mask (v4InV6Prefix @ b) m = map2 (AND) b m"
  by (simp add: IP_Mask_def v4InV6Prefix_def)

lemma map2_and_idem: "length b = length m \<Longrightarrow> map2 (AND) (map2 (AND) b m) m = map2 (AND) b (m :: 8 word list)"
  by (induction b m rule: list_induct2) (simp_all add: and.assoc)

lemma ParseCIDR_String:
  assumes "length b = 4" "n \<le> 32" "based (b, CIDRMask n 4)"
  shows "ParseCIDR (IPNet_String (b, CIDRMask n 4)) = Some (v4InV6Prefix @ b, (b, CIDRMask n 4))"
proof -
  have s: "IPNet_String (b, CIDRMask n 4) = string4 b @ CHR ''/'' # digits_of n"
    using assms(1,2) Mask_Size_CIDRMask [of n 4] by (simp add: IPNet_String_def IP_String_4)
  have "CHR ''/'' \<notin> set (string4 b)"
    using string4_chars [of "CHR ''/''" b] by (auto simp: is_digit_def byte_in_def byte_def)
  then have "cut_at (CHR ''/'') (IPNet_String (b, CIDRMask n 4)) = (string4 b, digits_of n, True)"
    unfolding s by (rule cut_at_first)
  moreover have "ParseIP (string4 b) = Some (v4InV6Prefix @ b)"
    using ParseIP_String [of b] assms(1) by (simp add: IP_String_4 canonical16_def To16_def)
  ultimately show ?thesis using assms digits_of_digits [of n] dotted_string4 [OF assms(1)]
    by (simp add: ParseCIDR_def IP_Mask_4 based_def)
qed

text \<open>What reading a range gives.\<close>

lemma ParseCIDR_shape:
  assumes "ParseCIDR s = Some (ip, network)"
  obtains addr n k where "ParseIP addr = Some ip" "k = (if dotted addr then 4 else 16)" "n \<le> 8 * k"
    "network = (IP_Mask ip (CIDRMask n k), CIDRMask n k)"
proof -
  obtain addr mk found where c: "cut_at (CHR ''/'') s = (addr, mk, found)" by (cases "cut_at (CHR ''/'') s")
  have "ParseIP addr = Some ip \<and> value_of 0 mk \<le> 8 * (if dotted addr then 4 else 16) \<and>
     network = (IP_Mask ip (CIDRMask (value_of 0 mk) (if dotted addr then 4 else 16)), CIDRMask (value_of 0 mk) (if dotted addr then 4 else 16))"
    using assms c by (auto simp: ParseCIDR_def Let_def split: option.splits if_splits)
  then show ?thesis using that by blast
qed

end
