(* ===== verification/RemoteHosts.thy ===== *)
theory RemoteHosts
  imports Cidr MariaAccounts
begin

text \<open>
  The addresses from which a database account may be used (internal/dbremote/host.go): what a customer types
  becomes a canonical text, which the firewall and the unique key use, and the host component of a MariaDB
  account. The two name the same clients.
\<close>

section \<open>Reading what was typed\<close>

datatype host_error = ErrHostInvalid | ErrIPv6RangeUnsupported | ErrHostTooBroad

definition minIPv4Prefix :: nat where "minIPv4Prefix = 8"

definition checkAddress :: "IP \<Rightarrow> host_error option" where
  "checkAddress address =
     (if IsUnspecified address then Some ErrHostTooBroad
      else if IsLoopback address then Some ErrHostTooBroad
      else if IsLinkLocalUnicast address \<or> IsLinkLocalMulticast address \<or> IsMulticast address then Some ErrHostInvalid
      else None)"

definition dottedMask :: "8 word list \<Rightarrow> string" where
  "dottedMask m = string4 (take 4 (if length m = 16 then drop 12 m else m))"

definition ParseHost :: "string \<Rightarrow> host_error + string \<times> string" where
  "ParseHost input =
     (let trimmed = trim_space input in
      if trimmed = [] then Inl ErrHostInvalid
      else case ParseIP trimmed of
          Some address \<Rightarrow>
            (case checkAddress address of
               Some err \<Rightarrow> Inl err
             | None \<Rightarrow> Inr (IP_String address, IP_String address))
        | None \<Rightarrow>
            (case ParseCIDR trimmed of
               None \<Rightarrow> Inl ErrHostInvalid
             | Some (address, network) \<Rightarrow>
                 (case checkAddress address of
                    Some err \<Rightarrow> Inl err
                  | None \<Rightarrow>
                      (case Mask_Size (snd network) of (ones, bits) \<Rightarrow>
                         if bits = 128
                         then (if ones \<noteq> 128 then Inl ErrIPv6RangeUnsupported
                               else Inr (IP_String (fst network), IP_String (fst network)))
                         else if ones < minIPv4Prefix then Inl ErrHostTooBroad
                         else if ones = 32 then Inr (IP_String (fst network), IP_String (fst network))
                         else Inr (IPNet_String network, IP_String (fst network) @ ''/'' @ dottedMask (snd network))))))"

text \<open>
  What MariaDB makes of a host component without wildcards: the text of the client's address, or a dotted
  base and netmask, which a client matches when its address under the netmask is the base.
\<close>

definition maria_host_matches :: "string \<Rightarrow> IP \<Rightarrow> bool" where
  "maria_host_matches host client =
     (case cut_at (CHR ''/'') host of (base, m, found) \<Rightarrow>
        if \<not> found then IP_String client = host
        else (case (parseIPv4Fields base, parseIPv4Fields m, To4 client) of
                (Some b, Some k, Some c) \<Rightarrow> map2 (AND) c k = b
              | _ \<Rightarrow> False))"

text \<open>The clients a stored text names in the firewall: an address, or a range.\<close>

definition source_matches :: "string \<Rightarrow> IP \<Rightarrow> bool" where
  "source_matches src client =
     (case ParseIP src of
        Some a \<Rightarrow> IP_Equal a client
      | None \<Rightarrow> (case ParseCIDR src of Some (a, network) \<Rightarrow> IPNet_Contains network client | None \<Rightarrow> False))"

section \<open>The texts that come out\<close>

lemma string4_visible: "visible (string4 a)"
  using string4_chars by (fastforce simp: visible_def list_all_iff is_digit_def byte_in_def byte_def ascii_space_def)

lemma string6_visible: "visible (string6 gs)"
proof -
  have "byte c < 128 \<and> \<not> ascii_space c" if "is_hex c \<or> c = CHR '':''" for c
    using that by (auto simp: is_hex_def byte_in_def byte_def ascii_space_def)
  then show ?thesis using string6_chars [of gs] by (auto simp: visible_def list_all_iff)
qed

lemma IP_String_visible: "visible (IP_String ip)"
  by (simp add: IP_String_def string4_visible string6_visible split: option.split)

lemma visible_append [simp]: "visible (a @ b) = (visible a \<and> visible b)"
  by (simp add: visible_def)

lemma digits_visible: "visible (digits_of n)"
  using digits_of_chars by (fastforce simp: visible_def list_all_iff is_digit_def byte_in_def byte_def ascii_space_def)

lemma slash_visible [simp]: "visible (CHR ''/'' # s) = visible s"
  by (simp add: visible_def byte_def ascii_space_def byte_in_def)

lemma IP_String_nonempty:
  assumes "length ip = 4 \<or> length ip = 16"
  shows "IP_String ip \<noteq> []"
proof
  assume "IP_String ip = []"
  then have "ParseIP [] = Some (canonical16 ip)" using ParseIP_String [OF assms] by simp
  then show False by (simp add: ParseIP_def)
qed

lemma split_on_member: "c \<in> set s \<Longrightarrow> c \<noteq> d \<Longrightarrow> \<exists>f \<in> set (split_on d s). c \<in> set f"
  using join_subset [of c "[d]" "split_on d s"] by (simp add: join_split_on)

lemma ParseIP_range:
  assumes "dotted s" "CHR ''/'' \<in> set s"
  shows "ParseIP s = None"
proof -
  obtain f where f: "f \<in> set (split_on (CHR ''.'') s)" "CHR ''/'' \<in> set f"
    using split_on_member [of "CHR ''/''" s "CHR ''.''"] assms(2) by auto
  then have "\<not> all_digits f" using bspec [of "set f" is_digit "CHR ''/''"]
    by (auto simp: all_digits_def list_all_iff is_digit_def byte_in_def byte_def)
  then have "octet f = None" by (simp add: octet_def)
  then have "parseIPv4Fields s = None" using f(1) by (auto simp: parseIPv4Fields_def Let_def image_iff intro!: bexI [of _ f])
  then show ?thesis using assms(1) by (auto simp: ParseIP_def dotted_def split: list.splits)
qed

section \<open>What is accepted\<close>

lemma length_IP_Mask_4: "length a = 4 \<Longrightarrow> length (IP_Mask (v4InV6Prefix @ a) (CIDRMask n 4)) = 4"
  by (simp add: IP_Mask_4)

lemma ParseIP_dotted:
  assumes "ParseIP s = Some ip" "dotted s"
  obtains a where "length a = 4" "ip = v4InV6Prefix @ a"
  using assms parse4_length by (auto simp: ParseIP_def dotted_def split: list.splits if_splits)

lemma CIDRMask_full: "CIDRMask 128 16 = replicate 16 0xFF" "CIDRMask 32 4 = replicate 4 0xFF"
  by code_simp+

lemma map2_and_full: "map2 (AND) b (replicate (length b) (0xFF :: 8 word)) = b"
proof -
  have e: "(0xFF :: 8 word) = - 1" by simp
  have "a AND 0xFF = a" for a :: "8 word" by (simp only: e and.right_neutral)
  then show ?thesis by (induction b) simp_all
qed

lemma IP_Mask_full: "length ip = 16 \<Longrightarrow> IP_Mask ip (CIDRMask 128 16) = ip"
  using map2_and_full [of ip] by (simp add: IP_Mask_def CIDRMask_full)

text \<open>The two shapes an accepted address has.\<close>

definition single_host :: "IP \<Rightarrow> string \<times> string \<Rightarrow> bool" where
  "single_host ip r = ((length ip = 4 \<or> length ip = 16) \<and> checkAddress (canonical16 ip) = None \<and> r = (IP_String ip, IP_String ip))"

definition range_host :: "IP \<Rightarrow> nat \<Rightarrow> string \<times> string \<Rightarrow> bool" where
  "range_host b n r = (length b = 4 \<and> 8 \<le> n \<and> n < 32 \<and> based (b, CIDRMask n 4) \<and>
     r = (IPNet_String (b, CIDRMask n 4), string4 b @ ''/'' @ string4 (CIDRMask n 4)))"

lemma canonical16_16 [simp]: "length ip = 16 \<Longrightarrow> canonical16 ip = ip"
  by (simp add: canonical16_def To16_def)

lemma canonical16_4: "length a = 4 \<Longrightarrow> canonical16 a = v4InV6Prefix @ a"
  by (simp add: canonical16_def To16_def)

lemma ParseHost_shape:
  assumes "ParseHost s = Inr r"
  shows "(\<exists>ip. single_host ip r) \<or> (\<exists>b n. range_host b n r)"
proof -
  consider ip where "ParseIP (trim_space s) = Some ip" "checkAddress ip = None" "r = (IP_String ip, IP_String ip)"
    | address network where "ParseCIDR (trim_space s) = Some (address, network)" "checkAddress address = None"
      "Mask_Size (snd network) = (128, 128) \<or> Mask_Size (snd network) = (32, snd (Mask_Size (snd network))) \<and> snd (Mask_Size (snd network)) \<noteq> 128"
      "r = (IP_String (fst network), IP_String (fst network))"
    | address network ones bits where "ParseCIDR (trim_space s) = Some (address, network)"
      "Mask_Size (snd network) = (ones, bits)" "bits \<noteq> 128" "8 \<le> ones" "ones \<noteq> 32"
      "r = (IPNet_String network, IP_String (fst network) @ ''/'' @ dottedMask (snd network))"
    using assms by (auto simp: ParseHost_def Let_def minIPv4Prefix_def split: option.splits prod.splits if_splits)
  then show ?thesis
  proof cases
    case (1 ip)
    then have "length ip = 16" using ParseIP_length by blast
    then show ?thesis using 1 by (auto simp: single_host_def)
  next
    case (2 address network)
    obtain addr n k where c: "ParseIP addr = Some address" "k = (if dotted addr then 4 else 16)" "n \<le> 8 * k"
        "network = (IP_Mask address (CIDRMask n k), CIDRMask n k)" by (rule ParseCIDR_shape [OF 2(1)])
    have m: "Mask_Size (snd network) = (n, 8 * k)" using c(3,4) Mask_Size_CIDRMask by simp
    have l: "length address = 16" using c(1) ParseIP_length by blast
    show ?thesis
    proof (cases "dotted addr")
      case True
      obtain a where a: "length a = 4" "address = v4InV6Prefix @ a" by (rule ParseIP_dotted [OF c(1) True])
      then have "fst network = a" using c m 2(3) True map2_and_full [of a] by (simp add: IP_Mask_4 CIDRMask_full)
      then show ?thesis using 2 a canonical16_4 [of a] by (auto simp: single_host_def)
    next
      case False
      then have "fst network = address" using c m 2(3) l by (simp add: IP_Mask_full)
      then show ?thesis using 2 l by (auto simp: single_host_def)
    qed
  next
    case (3 address network ones bits)
    obtain addr n k where c: "ParseIP addr = Some address" "k = (if dotted addr then 4 else 16)" "n \<le> 8 * k"
        "network = (IP_Mask address (CIDRMask n k), CIDRMask n k)" by (rule ParseCIDR_shape [OF 3(1)])
    have m: "Mask_Size (snd network) = (n, 8 * k)" using c(3,4) Mask_Size_CIDRMask by simp
    then have k: "k = 4" "dotted addr" using 3(2,3) c(2) by (auto split: if_splits)
    obtain a where a: "length a = 4" "address = v4InV6Prefix @ a" by (rule ParseIP_dotted [OF c(1) k(2)])
    then have b: "length (fst network) = 4" "fst network = map2 (AND) a (CIDRMask n 4)" using c(4) k(1) by (simp_all add: IP_Mask_4)
    have "based (fst network, CIDRMask n 4)" using a by (simp add: based_def b(2) map2_and_idem)
    moreover have "dottedMask (snd network) = string4 (CIDRMask n 4)" using c(4) k(1) by (simp add: dottedMask_def)
    ultimately have "range_host (fst network) n r" using 3 m b(1) c k(1)
      by (cases network) (auto simp: range_host_def IP_String_4)
    then show ?thesis by blast
  qed
qed

lemma visible_trim_IP: "trim_space (IP_String ip) = IP_String ip"
  by (rule trim_space_visible) (rule IP_String_visible)

text \<open>A canonical text that is accepted again is read as itself.\<close>

lemma single_again:
  assumes "single_host ip r"
  shows "ParseHost (fst r) = Inr r"
proof -
  have l: "length ip = 4 \<or> length ip = 16" and c: "checkAddress (canonical16 ip) = None" and r: "r = (IP_String ip, IP_String ip)"
    using assms by (auto simp: single_host_def)
  have "IP_String (canonical16 ip) = IP_String ip" using l by (auto simp: canonical16_4 IP_String_def To4_def v4InV6Prefix_def)
  then show ?thesis using ParseIP_String [OF l] c IP_String_nonempty [OF l] by (simp add: ParseHost_def Let_def visible_trim_IP r)
qed

lemma range_text: "length b = 4 \<Longrightarrow> n \<le> 32 \<Longrightarrow> IPNet_String (b, CIDRMask n 4) = string4 b @ ''/'' @ digits_of n"
  using Mask_Size_CIDRMask [of n 4] by (simp add: IPNet_String_def IP_String_4)

lemma dotted_append: "dotted a \<Longrightarrow> dotted (a @ b)"
  by (induction a) (simp_all add: dotted_def split: if_splits)

lemma range_text_not_address: "length b = 4 \<Longrightarrow> n \<le> 32 \<Longrightarrow> ParseIP (IPNet_String (b, CIDRMask n 4)) = None"
  using dotted_append [OF dotted_string4, of b "''/'' @ digits_of n"] by (intro ParseIP_range) (simp_all add: range_text)

lemma range_again:
  assumes "range_host b n r" "checkAddress (v4InV6Prefix @ b) = None"
  shows "ParseHost (fst r) = Inr r"
proof -
  have b: "length b = 4" "8 \<le> n" "n < 32" "based (b, CIDRMask n 4)"
    and r: "r = (IPNet_String (b, CIDRMask n 4), string4 b @ ''/'' @ string4 (CIDRMask n 4))" using assms(1) by (auto simp: range_host_def)
  have "visible (IPNet_String (b, CIDRMask n 4))" using b digits_visible string4_visible by (simp add: range_text)
  then have t: "trim_space (fst r) = IPNet_String (b, CIDRMask n 4)" using r trim_space_visible by simp
  show ?thesis using b ParseCIDR_String [of b n] range_text_not_address [of b n] Mask_Size_CIDRMask [of n 4] assms(2)
    unfolding ParseHost_def Let_def t by (simp add: r range_text IP_String_4 minIPv4Prefix_def dottedMask_def)
qed

text \<open>Two spellings of one address or range come out the same: what comes out, typed in, comes out unchanged if it is accepted.\<close>

theorem ParseHost_canonical:
  assumes "ParseHost s = Inr (cidr, host)" "ParseHost cidr = Inr r"
  shows "r = (cidr, host)"
proof -
  consider ip where "single_host ip (cidr, host)" | b n where "range_host b n (cidr, host)" using ParseHost_shape [OF assms(1)] by blast
  then show ?thesis
  proof cases
    case 1
    then show ?thesis using single_again [OF 1] assms(2) by simp
  next
    case (2 b n)
    have b: "length b = 4" "n < 32" "cidr = IPNet_String (b, CIDRMask n 4)" using 2 by (auto simp: range_host_def)
    have "visible cidr" using b digits_visible string4_visible by (simp add: range_text)
    then have "checkAddress (v4InV6Prefix @ b) = None" using b 2 assms(2) trim_space_visible range_text_not_address [of b n] ParseCIDR_String [of b n]
      by (auto simp: ParseHost_def range_host_def Let_def split: option.splits if_splits)
    then show ?thesis using range_again [OF 2] assms(2) by simp
  qed
qed

text \<open>The base of a range is not always accepted again: the checks look at the address that was typed.\<close>

lemma range_base_unchecked:
  "ParseHost ''0.0.0.1/8'' = Inr (''0.0.0.0/8'', ''0.0.0.0/255.0.0.0'') \<and> ParseHost ''0.0.0.0/8'' = Inl ErrHostTooBroad"
  by (rule conjI; code_simp)

lemma link_local_accepted:
  "ParseHost ''169.255.1.1/15'' = Inr (''169.254.0.0/15'', ''169.254.0.0/255.254.0.0'') \<and>
   ParseHost ''169.254.0.0/15'' = Inl ErrHostInvalid"
  by (rule conjI; code_simp)

section \<open>The host component names what the firewall opens\<close>

lemma string4_length: "length a = 4 \<Longrightarrow> length (string4 a) \<le> 15"
proof -
  have d: "length (digits_of (unat b)) \<le> 3" for b :: "8 word"
  proof -
    have "unat b < 256" by (rule word8_lt)
    then show ?thesis by (simp add: digits_of.simps [of "unat b"] digits_of.simps [of "unat b div 10"] digits_of.simps [of "unat b div 10 div 10"])
  qed
  assume "length a = 4"
  then obtain w x y z where "a = [w, x, y, z]" using list_four by blast
  then show ?thesis using d [of w] d [of x] d [of y] d [of z] by (simp add: string4_def)
qed

lemma string4_parts: "c \<in> set (string4 a) \<Longrightarrow> byte_in 48 57 c \<or> c = CHR ''.''"
  using string4_chars by (auto simp: is_digit_def)

lemma no_slash: "c \<in> set (string4 a) \<Longrightarrow> c \<noteq> CHR ''/''"
  using string4_parts [of "CHR ''/''" a] by (auto simp: byte_in_def byte_def)

lemma range_match:
  assumes "range_host b n (cidr, host)" "length client = 4 \<or> length client = 16"
  shows "maria_host_matches host client = source_matches cidr client"
proof -
  let ?m = "CIDRMask n 4"
  have b: "length b = 4" "n < 32" "based (b, ?m)" "cidr = IPNet_String (b, ?m)" and h: "host = string4 b @ CHR ''/'' # string4 ?m"
    using assms(1) by (auto simp: range_host_def)
  have "cut_at (CHR ''/'') host = (string4 b, string4 ?m, True)" unfolding h by (rule cut_at_first) (use no_slash in blast)
  then have host: "maria_host_matches host client = (case To4 client of None \<Rightarrow> False | Some c \<Rightarrow> map2 (AND) c ?m = b)"
    using b parse_string4 by (simp add: maria_host_matches_def split: option.split)
  have "ParseCIDR cidr = Some (v4InV6Prefix @ b, (b, ?m))" using b ParseCIDR_String [of b n] by simp
  then have src: "source_matches cidr client = IPNet_Contains (b, ?m) client"
    using range_text_not_address [of b n] b by (simp add: source_matches_def)
  show ?thesis
  proof (cases "To4 client")
    case None
    then have "length client = 16" using assms(2) by (auto simp: To4_def)
    then show ?thesis using host src None b by (simp add: IPNet_Contains_def)
  next
    case (Some c)
    have lc: "length c = 4" using Some by (auto simp: To4_def split: if_splits)
    obtain c1 c2 c3 c4 where c: "c = [c1, c2, c3, c4]" using list_four [OF lc] by blast
    obtain b1 b2 b3 b4 where b': "b = [b1, b2, b3, b4]" using list_four [OF b(1)] by blast
    obtain m1 m2 m3 m4 where m: "?m = [m1, m2, m3, m4]" using list_four [of ?m] by auto
    have "map2 (AND) b ?m = b" using b(3) by (simp add: based_def)
    then show ?thesis unfolding host src Some IPNet_Contains_def using m b' c by (auto simp: eq_commute)
  qed
qed

lemma single_match:
  assumes "single_host ip (cidr, host)" "length client = 4 \<or> length client = 16"
  shows "maria_host_matches host client = source_matches cidr client"
proof -
  have l: "length ip = 4 \<or> length ip = 16" and r: "cidr = IP_String ip" "host = IP_String ip" using assms(1) by (auto simp: single_host_def)
  have "CHR ''/'' \<notin> set (IP_String ip)"
    using string6_chars no_slash by (fastforce simp: IP_String_def list_all_iff is_hex_def byte_in_def byte_def split: option.splits)
  then have h: "maria_host_matches host client = (IP_String client = IP_String ip)" using r by (simp add: maria_host_matches_def cut_at_absent)
  have e: "IP_String client = IP_String ip \<longleftrightarrow> canonical16 client = canonical16 ip"
  proof
    assume "IP_String client = IP_String ip"
    then have "Some (canonical16 client) = Some (canonical16 ip)" using ParseIP_String [OF l] ParseIP_String [OF assms(2)] by simp
    then show "canonical16 client = canonical16 ip" by simp
  next
    have s: "IP_String (canonical16 i) = IP_String i" if "length i = 4 \<or> length i = 16" for i
      using that by (auto simp: canonical16_4 IP_String_def To4_def v4InV6Prefix_def)
    assume "canonical16 client = canonical16 ip"
    then show "IP_String client = IP_String ip" using s [OF l] s [OF assms(2)] by simp
  qed
  have "IP_Equal (canonical16 ip) client \<longleftrightarrow> canonical16 client = canonical16 ip"
  proof -
    have "length (canonical16 ip) = 16" using l by (auto simp: canonical16_4 v4InV6Prefix_def)
    then show ?thesis using assms(2) by (auto simp: IP_Equal_def canonical16_4)
  qed
  then show ?thesis using h e r ParseIP_String [OF l] by (simp add: source_matches_def)
qed

lemma host_agrees:
  assumes "ParseHost s = Inr (cidr, host)" "length client = 4 \<or> length client = 16"
  shows "maria_host_matches host client = source_matches cidr client"
  using ParseHost_shape [OF assms(1)] single_match [OF _ assms(2)] range_match [OF _ assms(2)] by blast

text \<open>
  C38. Whatever a customer types that is accepted, the host component given to MariaDB and the source given to the firewall match exactly the
  same clients.
\<close>
theorem grant_and_firewall_agree:
  assumes "ParseHost s = Inr (cidr, host)" "length client = 4 \<or> length client = 16"
  shows "maria_host_matches host client = source_matches cidr client"
  by (rule host_agrees [OF assms])

theorem grant_and_firewall_agree_witness:
  "maria_host_matches ''10.1.2.3'' [10, 1, 2, 3] = source_matches ''10.1.2.3'' [10, 1, 2, 3]"
proof -
  have "ParseHost ''10.1.2.3/32'' = Inr (''10.1.2.3'', ''10.1.2.3'')" by code_simp
  then show ?thesis by (rule grant_and_firewall_agree) simp
qed

section \<open>No wildcard reaches the statement\<close>

lemma groups_text_length: "list_all group_ok gs \<Longrightarrow> length (groups_text gs) \<le> 5 * length gs"
proof (induction gs)
  case (Cons g gs)
  then show ?case using hex_of_group [of g] by (cases "gs = []") (simp_all add: groups_text_one groups_text_Cons)
qed (simp add: groups_text_def)

lemma string6_length: "length gs = 8 \<Longrightarrow> list_all group_ok gs \<Longrightarrow> length (string6 gs) \<le> 42"
proof -
  assume gs: "length gs = 8" "list_all group_ok gs"
  obtain s n where r: "best_run gs = (s, n)" by fastforce
  have ok: "list_all group_ok (take s gs)" "list_all group_ok (drop (s + n) gs)"
    using gs(2) by (auto simp: list_all_iff dest: in_set_takeD in_set_dropD)
  have "length (take s gs) + length (drop (s + n) gs) \<le> 8" using gs(1) by simp
  then have "length (groups_text (take s gs)) + length (groups_text (drop (s + n) gs)) \<le> 40"
    using groups_text_length [OF ok(1)] groups_text_length [OF ok(2)] by linarith
  moreover have "length (groups_text gs) \<le> 40" using groups_text_length [OF gs(2)] gs(1) by simp
  ultimately show ?thesis by (simp add: string6_def r del: length_take length_drop)
qed

lemma address_host_valid:
  "a \<noteq> [] \<Longrightarrow> length a \<le> 45 \<Longrightarrow> list_all (\<lambda>c. is_hex c \<or> c = CHR ''.'' \<or> c = CHR '':'') a \<Longrightarrow> ValidRemoteHost a"
proof -
  assume a: "a \<noteq> []" "length a \<le> 45" "list_all (\<lambda>c. is_hex c \<or> c = CHR ''.'' \<or> c = CHR '':'') a"
  have "\<not> is_hex (CHR ''/'')" by (simp add: is_hex_def byte_in_def byte_def)
  then have t: "takeWhile (\<lambda>c. c \<noteq> CHR ''/'') a = a" using a(3) by (auto simp: takeWhile_eq_all_conv list_all_iff)
  have "list_all (\<lambda>c. byte_in 48 57 c \<or> byte_in 97 102 c \<or> byte_in 65 70 c \<or> c = CHR ''.'' \<or> c = CHR '':'') a"
    using a(3) by (simp only: is_hex_def disj_assoc)
  then show ?thesis using a(1,2) unfolding ValidRemoteHost_def Let_def t by (simp only: drop_all order.refl simp_thms)
qed

lemma string4_hex: "list_all (\<lambda>c. is_hex c \<or> c = CHR ''.'' \<or> c = CHR '':'') (string4 a)"
  using string4_parts by (auto simp: list_all_iff is_hex_def)

lemma single_host_valid: "single_host ip r \<Longrightarrow> ValidRemoteHost (snd r)"
proof -
  assume s: "single_host ip r"
  then have l: "length ip = 4 \<or> length ip = 16" and r: "snd r = IP_String ip" by (auto simp: single_host_def)
  have g: "length (groups_of ip) = 8 \<and> list_all group_ok (groups_of ip)" if "To4 ip = None"
    using that l groups_of_bytes [of ip] by (auto simp: To4_def)
  have "length (IP_String ip) \<le> 45 \<and> list_all (\<lambda>c. is_hex c \<or> c = CHR ''.'' \<or> c = CHR '':'') (IP_String ip)"
  proof (cases "To4 ip")
    case None
    then show ?thesis using g string6_length [of "groups_of ip"] string6_chars [of "groups_of ip"]
      by (auto simp: IP_String_def list_all_iff)
  next
    case (Some a)
    then have "length a = 4" by (auto simp: To4_def split: if_splits)
    then show ?thesis using Some string4_length [of a] string4_hex [of a] by (simp add: IP_String_def)
  qed
  then show ?thesis using address_host_valid IP_String_nonempty [OF l] r by simp
qed

lemma range_host_valid: "range_host b n r \<Longrightarrow> ValidRemoteHost (snd r)"
proof -
  assume "range_host b n r"
  then have b: "length b = 4" "snd r = string4 b @ CHR ''/'' # string4 (CIDRMask n 4)" by (auto simp: range_host_def)
  have t: "takeWhile (\<lambda>c. c \<noteq> CHR ''/'') (snd r) = string4 b" unfolding b(2) using no_slash by (simp add: takeWhile_tail)
  have "string4 b \<noteq> []" "string4 (CIDRMask n 4) \<noteq> []"
    using IP_String_nonempty [of b] IP_String_nonempty [of "CIDRMask n 4"] b(1) by (simp_all add: IP_String_4)
  moreover have "list_all (\<lambda>c. byte_in 48 57 c \<or> byte_in 97 102 c \<or> byte_in 65 70 c \<or> c = CHR ''.'' \<or> c = CHR '':'') (string4 b)"
    "list_all (\<lambda>c. byte_in 48 57 c \<or> c = CHR ''.'') (string4 (CIDRMask n 4))"
    using string4_parts unfolding list_all_iff by blast+
  moreover have "drop (length (string4 b)) (snd r) = CHR ''/'' # string4 (CIDRMask n 4)" by (simp add: b(2))
  ultimately show ?thesis using string4_length [of b] string4_length [of "CIDRMask n 4"] b(1)
    unfolding ValidRemoteHost_def Let_def t by simp
qed

theorem ParseHost_host_valid: "ParseHost s = Inr (cidr, host) \<Longrightarrow> ValidRemoteHost host"
  using ParseHost_shape [of s "(cidr, host)"] single_host_valid [of _ "(cidr, host)"] range_host_valid [of _ _ "(cidr, host)"] by auto

end
