(* ===== verification/Firewall.thy ===== *)
theory Firewall
  imports RemoteHosts "HOL-Library.List_Lexorder" "HOL-Library.Char_ord"
begin

text \<open>
  The panel's firewall (internal/firewall/firewall.go, geo.go, and the country ranges of internal/geoip): the
  stored rules and countries, the ruleset rendered from them, the handlers that change them, and what the
  kernel does with a packet under the ruleset that runs: the first rule that matches decides, and no match
  accepts. A rule of the chain is a value with the text the panel writes for it.
\<close>

section \<open>Country ranges\<close>

definition NormalizeCountry :: "string \<Rightarrow> string" where
  "NormalizeCountry s =
     (let v = seed_upper (trim_space s) in if length v = 2 \<and> list_all (byte_in 65 90) v then v else [])"

record geo_files =
  gf_v4 :: "string option"
  gf_v6 :: "string option"

definition geo_available :: "geo_files \<Rightarrow> bool" where
  "geo_available files = (case gf_v4 files of None \<Rightarrow> False | Some text \<Rightarrow> text \<noteq> [])"

text \<open>A scanner with a buffer of a megabyte: the lines before one that is longer, and whether there was one.\<close>

definition geo_line_limit :: int where "geo_line_limit = 1048576"

fun geo_lines :: "string list \<Rightarrow> string list \<times> bool" where
  "geo_lines [] = ([], False)"
| "geo_lines (l # ls) =
     (if geo_line_limit \<le> int (length l) then ([], True)
      else if ls = [] \<and> l = [] then ([], False)
      else (case geo_lines ls of (rows, err) \<Rightarrow> (drop_cr l # rows, err)))"

definition scanNetworks :: "string option \<Rightarrow> (string \<times> string) list \<times> bool" where
  "scanNetworks content =
     (case content of
        None \<Rightarrow> ([], True)
      | Some text \<Rightarrow>
          (case geo_lines (split_on (CHR 10) text) of (rows, err) \<Rightarrow>
             (List.map_filter (\<lambda>l. case cut_at (CHR '','') l of (cidr, country, found) \<Rightarrow>
                if \<not> found \<or> cidr = [] \<or> country = [] then None else Some (cidr, country)) rows, err)))"

definition Countries :: "geo_files \<Rightarrow> string list option" where
  "Countries files =
     (case scanNetworks (gf_v4 files) of (v4, err) \<Rightarrow>
        if err then None
        else let seen = map snd v4 @ map snd (fst (scanNetworks (gf_v6 files))) in
          if seen = [] then None else Some (sort (remdups seen)))"

definition KnownCountry :: "geo_files \<Rightarrow> string \<Rightarrow> bool" where
  "KnownCountry files code =
     (NormalizeCountry code \<noteq> [] \<and> (case Countries files of None \<Rightarrow> False | Some codes \<Rightarrow> NormalizeCountry code \<in> set codes))"

text \<open>The ranges of both families; \<open>None\<close> is the error.\<close>

definition Lookup :: "geo_files \<Rightarrow> string list \<Rightarrow> (string list \<times> string list) option" where
  "Lookup files codes =
     (let wanted = filter (\<lambda>c. c \<noteq> []) (map NormalizeCountry codes);
          keep = (\<lambda>rows. map fst (filter (\<lambda>(cidr, country). country \<in> set wanted) rows))
      in if wanted = [] then Some ([], [])
         else if \<not> geo_available files then None
         else (case scanNetworks (gf_v4 files) of (v4, err) \<Rightarrow>
             if err then None else Some (keep v4, keep (fst (scanNetworks (gf_v6 files))))))"

section \<open>Rules of the chain\<close>

datatype nft_rule =
    NftEstablished
  | NftLoopback
  | NftPorts nat nat                       \<comment> \<open>a range of tcp ports, dropped\<close>
  | NftGeo bool                            \<comment> \<open>the set of blocked countries, of IPv6 or not, dropped\<close>
  | NftRule "string option" "(string \<times> int) option" bool   \<comment> \<open>source, protocol and port, accepted or dropped\<close>

definition saddr_ip6 :: "string \<Rightarrow> bool" where
  "saddr_ip6 ip =
     (case ParseIP (fst (cut_at (CHR ''/'') ip)) of None \<Rightarrow> False | Some p \<Rightarrow> To4 p = None)"

definition saddr :: "string \<Rightarrow> string" where
  "saddr ip = (if saddr_ip6 ip then ''ip6'' else ''ip'') @ '' saddr '' @ ip @ '' ''"

definition dport_text :: "string \<times> int \<Rightarrow> string" where
  "dport_text pp = fst pp @ '' dport '' @ itoa (snd pp) @ '' ''"

definition dport :: "string \<Rightarrow> int \<Rightarrow> (string \<times> int) option" where
  "dport proto port = (if port \<le> 0 then None else Some (proto, port))"

fun rule_text :: "nft_rule \<Rightarrow> string" where
  "rule_text NftEstablished = ''ct state established,related accept''"
| "rule_text NftLoopback = ''iif '' @ [CHR 0x22] @ ''lo'' @ [CHR 0x22] @ '' accept''"
| "rule_text (NftPorts lo hi) = ''tcp dport '' @ digits_of lo @ ''-'' @ digits_of hi @ '' drop''"
| "rule_text (NftGeo six) = (if six then ''ip6 saddr @servika_geo6 drop'' else ''ip saddr @servika_geo4 drop'')"
| "rule_text (NftRule src pp accept) =
     (case src of None \<Rightarrow> [] | Some ip \<Rightarrow> saddr ip) @ (case pp of None \<Rightarrow> [] | Some p \<Rightarrow> dport_text p) @
     (if accept then ''accept'' else ''drop'')"

section \<open>The tables\<close>

record fw_rule =
  fr_id :: int
  fr_type :: string
  fr_ip :: string
  fr_port :: int
  fr_proto :: string
  fr_desc :: string
  fr_enabled :: bool

text \<open>What other parts of the panel keep and the ruleset reads: remote database access and the ports of server applications.\<close>

record fw_view =
  fv_switch :: bool
  fv_hosts :: "string list"
  fv_apps :: bool
  fv_ports :: "int list"

record firewall =
  fw_rules :: "fw_rule list"
  fw_next :: int
  fw_geo :: "string list"                             \<comment> \<open>the countries blocked\<close>
  fw_sets :: "string list \<times> string list"              \<comment> \<open>the file of country ranges\<close>
  fw_running :: "(nft_rule list \<times> string list \<times> string list) option"

text \<open>
  How one rebuild fares: the query of the rules, and the number of rows that arrive when the connection is
  lost while they are read; the countries; the file; the two other tables; and what \<open>nft\<close> says of a text.
\<close>

record fw_env =
  fe_rules :: bool
  fe_cut :: "nat option"
  fe_codes :: bool
  fe_files :: geo_files
  fe_write :: bool
  fe_view :: bool
  fe_check :: "string \<Rightarrow> bool"
  fe_apply :: bool

section \<open>Rendering\<close>

definition app_ports :: "nat \<times> nat" where "app_ports = (30000, 30999)"
definition host_app_ports :: "nat \<times> nat" where "host_app_ports = (31000, 31999)"

record storedRules =
  sr_allowlisted :: "nft_rule list"
  sr_restricted :: "nft_rule list"
  sr_closed :: "nft_rule list"
  sr_banned :: "nft_rule list"

definition restrictedDrops :: "(string \<times> int) list \<Rightarrow> nft_rule list" where
  "restrictedDrops ports =
     map (\<lambda>pp. NftRule None (Some pp) False) (sort_key (\<lambda>pp. fst pp @ ''/'' @ itoa (snd pp)) (remdups ports))"

definition enabled_of :: "string \<Rightarrow> fw_rule list \<Rightarrow> fw_rule list" where
  "enabled_of t rs = filter (\<lambda>r. fr_enabled r \<and> fr_type r = t) rs"

text \<open>The rows as the query orders them, as far as they arrive; an error after them is not looked at.\<close>

definition rows_read :: "fw_env \<Rightarrow> fw_rule list \<Rightarrow> fw_rule list" where
  "rows_read e rs =
     (let rows = filter (\<lambda>r. fr_enabled r \<and> fr_type r \<notin> {''whitelist'', ''close'', ''banned''}) rs @
            enabled_of ''whitelist'' rs @ enabled_of ''close'' rs @ enabled_of ''banned'' rs
      in case fe_cut e of None \<Rightarrow> rows | Some k \<Rightarrow> take k rows)"

definition readRules :: "fw_env \<Rightarrow> fw_rule list \<Rightarrow> storedRules option" where
  "readRules e rs =
     (if \<not> fe_rules e then None
      else let rows = rows_read e rs; white = filter (\<lambda>r. fr_type r = ''whitelist'') rows in
        Some \<lparr>sr_allowlisted = map (\<lambda>r. NftRule (Some (fr_ip r)) (dport (fr_proto r) (fr_port r)) True) white,
          sr_restricted = restrictedDrops (map (\<lambda>r. (fr_proto r, fr_port r)) (filter (\<lambda>r. 0 < fr_port r) white)),
          sr_closed = map (\<lambda>r. NftRule None (Some (fr_proto r, fr_port r)) False) (filter (\<lambda>r. fr_type r = ''close'') rows),
          sr_banned = map (\<lambda>r. NftRule (Some (fr_ip r)) (dport (fr_proto r) (fr_port r)) False) (filter (\<lambda>r. fr_type r = ''banned'') rows)\<rparr>)"

definition validIP :: "string \<Rightarrow> bool" where
  "validIP s = (s \<noteq> [] \<and> (ParseIP s \<noteq> None \<or> ParseCIDR s \<noteq> None))"

definition remoteAccess :: "fw_view \<Rightarrow> nft_rule list option" where
  "remoteAccess v =
     (if \<not> fv_switch v then None
      else Some (map (\<lambda>h. NftRule (Some h) (Some (''tcp'', 3306)) True) (filter validIP (sort (remdups (fv_hosts v))))))"

definition hostAppAccess :: "fw_view \<Rightarrow> nft_rule list option" where
  "hostAppAccess v =
     (if \<not> fv_apps v then None
      else Some (map (\<lambda>p. NftRule None (Some (''tcp'', p)) True)
        (filter (\<lambda>p. int (fst host_app_ports) \<le> p \<and> p \<le> int (snd host_app_ports)) (sort (fv_ports v)))))"

text \<open>The rules of the chain, in the order of \<open>buildRuleset\<close>, and its text.\<close>

definition chain_rules :: "storedRules \<Rightarrow> nft_rule list option \<Rightarrow> nft_rule list option \<Rightarrow> nft_rule list" where
  "chain_rules s remote apps =
     [NftEstablished, NftLoopback, NftPorts (fst app_ports) (snd app_ports), NftGeo False, NftGeo True] @
     sr_allowlisted s @ sr_restricted s @ sr_closed s @ sr_banned s @
     (case remote of None \<Rightarrow> [] | Some accepts \<Rightarrow> accepts @ [NftRule None (Some (''tcp'', 3306)) False]) @
     (case apps of None \<Rightarrow> [] | Some accepts \<Rightarrow> accepts @ [NftPorts (fst host_app_ports) (snd host_app_ports)])"

definition tabs :: "nat \<Rightarrow> string" where "tabs n = replicate n (CHR 9)"

definition buildRuleset :: "nft_rule list \<Rightarrow> string" where
  "buildRuleset rs = concat (map (\<lambda>l. l @ [CHR 10])
     ([''table inet servika_fw {}'', ''delete table inet servika_fw'', ''table inet servika_fw {'',
       tabs 1 @ ''include '' @ [CHR 0x22] @ ''/etc/nftables/servika-geo.nft'' @ [CHR 0x22],
       tabs 1 @ ''chain input {'', tabs 2 @ ''type filter hook input priority filter; policy accept;''] @
      map (\<lambda>r. tabs 2 @ rule_text r) rs @ [tabs 1 @ ''}'', ''}'']))"

section \<open>Rebuilding\<close>

definition blockedCountries :: "firewall \<Rightarrow> string list" where
  "blockedCountries st = filter (\<lambda>c. c \<noteq> []) (map NormalizeCountry (sort (fw_geo st)))"

definition writeGeoSets :: "fw_env \<Rightarrow> firewall \<Rightarrow> bool \<times> firewall" where
  "writeGeoSets e st =
     (if \<not> fe_codes e then (False, st)
      else case (if blockedCountries st \<noteq> [] \<and> geo_available (fe_files e) then Lookup (fe_files e) (blockedCountries st) else Some ([], [])) of
          None \<Rightarrow> (False, st)
        | Some ranges \<Rightarrow> if \<not> fe_write e then (False, st) else (True, st\<lparr>fw_sets := ranges\<rparr>))"

definition applyRuleset :: "fw_env \<Rightarrow> nft_rule list \<Rightarrow> firewall \<Rightarrow> bool \<times> firewall" where
  "applyRuleset e rs st =
     (if \<not> fe_check e (buildRuleset rs) then (False, st)
      else if \<not> fe_apply e then (False, st)
      else (True, st\<lparr>fw_running := Some (rs, fw_sets st)\<rparr>))"

definition rebuild :: "fw_env \<Rightarrow> fw_view \<Rightarrow> firewall \<Rightarrow> bool \<times> firewall" where
  "rebuild e v st =
     (case readRules e (fw_rules st) of
        None \<Rightarrow> (False, st)
      | Some s \<Rightarrow>
          (case writeGeoSets e st of
             (False, st) \<Rightarrow> (False, st)
           | (True, st) \<Rightarrow>
               if \<not> fe_view e then (False, st)
               else applyRuleset e (chain_rules s (remoteAccess v) (hostAppAccess v)) st))"

section \<open>Handlers\<close>

record fw_request =
  rq_type :: string
  rq_ip :: string
  rq_port :: int
  rq_proto :: string
  rq_desc :: string

definition isProtectedPort :: "int list \<Rightarrow> int list \<Rightarrow> int \<Rightarrow> bool" where
  "isProtectedPort ssh panel port = (port \<in> {80, 443, 53} \<or> port \<in> set ssh \<or> port \<in> set panel)"

definition normalize_request :: "fw_request \<Rightarrow> fw_request" where
  "normalize_request q =
     (let proto = go_lower (trim_space (rq_proto q)) in
      q\<lparr>rq_type := go_lower (trim_space (rq_type q)), rq_ip := trim_space (rq_ip q), rq_proto := (if proto = [] then ''tcp'' else proto)\<rparr>)"

definition renderable :: "fw_request \<Rightarrow> bool" where
  "renderable q = (rq_proto q \<in> {''tcp'', ''udp''} \<and> 0 \<le> rq_port q \<and> rq_port q \<le> 65535)"

text \<open>\<open>None\<close> is a refusal; a close loses its address.\<close>

definition allowedTarget :: "int list \<Rightarrow> int list \<Rightarrow> fw_request \<Rightarrow> fw_request option" where
  "allowedTarget ssh panel q =
     (if rq_type q = ''banned'' \<or> rq_type q = ''whitelist'' then (if validIP (rq_ip q) then Some q else None)
      else if rq_type q = ''close''
      then (if rq_port q = 0 then None else if isProtectedPort ssh panel (rq_port q) then None else Some (q\<lparr>rq_ip := []\<rparr>))
      else None)"

definition insert_rule :: "fw_request \<Rightarrow> firewall \<Rightarrow> firewall" where
  "insert_rule q st = st\<lparr>fw_rules := fw_rules st @
     [\<lparr>fr_id = fw_next st, fr_type = rq_type q, fr_ip = rq_ip q, fr_port = rq_port q, fr_proto = rq_proto q, fr_desc = rq_desc q, fr_enabled = True\<rparr>],
     fw_next := fw_next st + 1\<rparr>"

definition delete_rule :: "int \<Rightarrow> firewall \<Rightarrow> firewall" where
  "delete_rule i st = st\<lparr>fw_rules := filter (\<lambda>r. fr_id r \<noteq> i) (fw_rules st)\<rparr>"

text \<open>\<open>undo\<close>: the rollback's delete works; \<open>e2\<close> is its rebuild.\<close>

definition firewall_Add :: "fw_env \<Rightarrow> fw_env \<Rightarrow> int list \<Rightarrow> int list \<Rightarrow> bool \<Rightarrow> bool \<Rightarrow> fw_request option \<Rightarrow> fw_view \<Rightarrow> firewall \<Rightarrow> int \<times> firewall" where
  "firewall_Add e1 e2 ssh panel stores undo body v st =
     (case body of
        None \<Rightarrow> (400, st)
      | Some q \<Rightarrow>
          let q = normalize_request q in
          if \<not> renderable q then (400, st)
          else case allowedTarget ssh panel q of
              None \<Rightarrow> (400, st)
            | Some q \<Rightarrow>
                if \<not> stores then (500, st)
                else (case rebuild e1 v (insert_rule q st) of
                    (True, st') \<Rightarrow> (201, st')
                  | (False, st') \<Rightarrow> (500, snd (rebuild e2 v (if undo then delete_rule (fw_next st) st' else st')))))"

definition firewall_Delete :: "fw_env \<Rightarrow> bool \<Rightarrow> string \<Rightarrow> fw_view \<Rightarrow> firewall \<Rightarrow> int \<times> firewall" where
  "firewall_Delete e stores param v st =
     (if \<not> stores then (500, st)
      else (case rebuild e v (delete_rule (parse_int_lossy param) st) of (ok, st) \<Rightarrow> (if ok then 200 else 500, st)))"

definition firewall_Status :: "fw_env \<Rightarrow> bool \<Rightarrow> string \<Rightarrow> bool option \<Rightarrow> fw_view \<Rightarrow> firewall \<Rightarrow> int \<times> firewall" where
  "firewall_Status e stores param body v st =
     (case body of
        None \<Rightarrow> (400, st)
      | Some on \<Rightarrow>
          if \<not> stores then (500, st)
          else (case rebuild e v (st\<lparr>fw_rules := map (\<lambda>r. if fr_id r = parse_int_lossy param then r\<lparr>fr_enabled := on\<rparr> else r) (fw_rules st)\<rparr>) of
              (ok, st) \<Rightarrow> (if ok then 200 else 500, st)))"

definition firewallTemplates :: "(string \<times> (string \<times> string \<times> string \<times> int) list) list" where
  "firewallTemplates =
     [(''close_mysql'', [(''close'', ''tcp'', ''Template: MySQL closed to external access'', 3306)]),
      (''close_ftp'', [(''close'', ''tcp'', ''Template: FTP closed to external access'', 21)]),
      (''close_mail'', [(''close'', ''tcp'', ''Template: SMTP closed'', 25), (''close'', ''tcp'', ''Template: SMTPS closed'', 465),
         (''close'', ''tcp'', ''Template: Submission closed'', 587), (''close'', ''tcp'', ''Template: POP3 closed'', 110),
         (''close'', ''tcp'', ''Template: IMAP closed'', 143)]),
      (''close_rpc'', [(''close'', ''tcp'', ''Template: rpcbind closed'', 111), (''close'', ''tcp'', ''Template: NFS closed'', 2049)])]"

text \<open>\<open>writes i\<close>: the reads and writes of the i-th rule work; the first that does not ends the loop.\<close>

fun storeTemplateRules :: "int list \<Rightarrow> int list \<Rightarrow> (nat \<Rightarrow> bool) \<Rightarrow> (string \<times> string \<times> string \<times> int) list \<Rightarrow> firewall \<Rightarrow> bool \<times> firewall" where
  "storeTemplateRules ssh panel writes [] st = (True, st)"
| "storeTemplateRules ssh panel writes ((t, proto, desc, port) # ts) st =
     (if isProtectedPort ssh panel port then storeTemplateRules ssh panel (\<lambda>i. writes (Suc i)) ts st
      else if \<not> writes 0 then (False, st)
      else if list_ex (\<lambda>r. fr_type r = t \<and> fr_port r = port \<and> fr_proto r = proto \<and> fr_ip r = []) (fw_rules st)
      then storeTemplateRules ssh panel (\<lambda>i. writes (Suc i)) ts st
      else storeTemplateRules ssh panel (\<lambda>i. writes (Suc i)) ts
        (insert_rule \<lparr>rq_type = t, rq_ip = [], rq_port = port, rq_proto = proto, rq_desc = desc\<rparr> st))"

definition firewall_Template :: "fw_env \<Rightarrow> int list \<Rightarrow> int list \<Rightarrow> (nat \<Rightarrow> bool) \<Rightarrow> string option \<Rightarrow> fw_view \<Rightarrow> firewall \<Rightarrow> int \<times> firewall" where
  "firewall_Template e ssh panel writes body v st =
     (case body of
        None \<Rightarrow> (400, st)
      | Some name \<Rightarrow>
          (case map_of firewallTemplates name of
             None \<Rightarrow> (400, st)
           | Some rules \<Rightarrow>
               (case storeTemplateRules ssh panel writes rules st of
                  (stored, st) \<Rightarrow>
                    (case rebuild e v st of
                       (False, st) \<Rightarrow> (500, st)
                     | (True, st) \<Rightarrow> (if stored then 200 else 500, st)))))"

definition AddGeo :: "fw_env \<Rightarrow> geo_files \<Rightarrow> bool \<Rightarrow> string option \<Rightarrow> fw_view \<Rightarrow> firewall \<Rightarrow> int \<times> firewall" where
  "AddGeo e files stores body v st =
     (case body of
        None \<Rightarrow> (400, st)
      | Some country \<Rightarrow>
          let code = NormalizeCountry country in
          if code = [] then (400, st)
          else if \<not> geo_available files then (409, st)
          else if \<not> KnownCountry files code then (400, st)
          else if \<not> stores then (500, st)
          else (case rebuild e v (st\<lparr>fw_geo := List.insert code (fw_geo st)\<rparr>) of
              (ok, st) \<Rightarrow> (if ok then 201 else 500, st)))"

definition DeleteGeo :: "fw_env \<Rightarrow> bool \<Rightarrow> string \<Rightarrow> fw_view \<Rightarrow> firewall \<Rightarrow> int \<times> firewall" where
  "DeleteGeo e stores param v st =
     (let code = NormalizeCountry param in
      if code = [] then (400, st)
      else if \<not> stores then (500, st)
      else (case rebuild e v (st\<lparr>fw_geo := removeAll code (fw_geo st)\<rparr>) of (ok, st) \<Rightarrow> (if ok then 200 else 500, st)))"

definition Reapply :: "fw_env \<Rightarrow> fw_view \<Rightarrow> firewall \<Rightarrow> bool \<times> firewall" where
  "Reapply e v st = rebuild e v st"

section \<open>What the kernel does\<close>

record packet =
  pk_established :: bool
  pk_loopback :: bool
  pk_proto :: string
  pk_port :: int
  pk_src :: IP

definition nft_source :: "string \<Rightarrow> IP \<Rightarrow> bool" where
  "nft_source src client = (length client = (if saddr_ip6 src then 16 else 4) \<and> source_matches src client)"

fun rule_matches :: "string list \<times> string list \<Rightarrow> nft_rule \<Rightarrow> packet \<Rightarrow> bool" where
  "rule_matches sets NftEstablished p = pk_established p"
| "rule_matches sets NftLoopback p = pk_loopback p"
| "rule_matches sets (NftPorts lo hi) p = (pk_proto p = ''tcp'' \<and> int lo \<le> pk_port p \<and> pk_port p \<le> int hi)"
| "rule_matches sets (NftGeo six) p =
     (length (pk_src p) = (if six then 16 else 4) \<and> list_ex (\<lambda>c. source_matches c (pk_src p)) (if six then snd sets else fst sets))"
| "rule_matches sets (NftRule src pp accept) p =
     ((case src of None \<Rightarrow> True | Some ip \<Rightarrow> nft_source ip (pk_src p)) \<and>
      (case pp of None \<Rightarrow> True | Some q \<Rightarrow> pk_proto p = fst q \<and> pk_port p = snd q))"

fun rule_accepts :: "nft_rule \<Rightarrow> bool" where
  "rule_accepts NftEstablished = True"
| "rule_accepts NftLoopback = True"
| "rule_accepts (NftPorts lo hi) = False"
| "rule_accepts (NftGeo six) = False"
| "rule_accepts (NftRule src pp accept) = accept"

fun chain_accepts :: "string list \<times> string list \<Rightarrow> nft_rule list \<Rightarrow> packet \<Rightarrow> bool" where
  "chain_accepts sets [] p = True"
| "chain_accepts sets (r # rs) p = (if rule_matches sets r p then rule_accepts r else chain_accepts sets rs p)"

text \<open>Before the first ruleset everything is accepted.\<close>

definition accepts :: "firewall \<Rightarrow> packet \<Rightarrow> bool" where
  "accepts st p = (case fw_running st of None \<Rightarrow> True | Some (rs, sets) \<Rightarrow> chain_accepts sets rs p)"

end
