(* ===== verification/FirewallSafety.thy ===== *)
theory FirewallSafety
  imports Firewall
begin

text \<open>
  What the running ruleset accepts, as a decision over the tables instead of an order of rules; that the
  handlers keep the ports of the panel and its sites from being closed by a close rule, and undo what could
  not be applied; and the rules by which a protected port is closed all the same.
\<close>

section \<open>The chain as a decision\<close>

lemma chain_all_accept:
  "list_all rule_accepts xs \<Longrightarrow> chain_accepts sets (xs @ ys) p = (list_ex (\<lambda>r. rule_matches sets r p) xs \<or> chain_accepts sets ys p)"
  by (induction xs) auto

lemma chain_all_drop:
  "list_all (\<lambda>r. \<not> rule_accepts r) xs \<Longrightarrow>
   chain_accepts sets (xs @ ys) p = (\<not> list_ex (\<lambda>r. rule_matches sets r p) xs \<and> chain_accepts sets ys p)"
  by (induction xs) auto

definition in_ports :: "nat \<times> nat \<Rightarrow> packet \<Rightarrow> bool" where
  "in_ports pr p = (pk_proto p = ''tcp'' \<and> int (fst pr) \<le> pk_port p \<and> pk_port p \<le> int (snd pr))"

definition from_country :: "string list \<times> string list \<Rightarrow> packet \<Rightarrow> bool" where
  "from_country sets p = (rule_matches sets (NftGeo False) p \<or> rule_matches sets (NftGeo True) p)"

definition source_rule :: "fw_rule \<Rightarrow> packet \<Rightarrow> bool" where
  "source_rule r p = (nft_source (fr_ip r) (pk_src p) \<and> (fr_port r \<le> 0 \<or> pk_proto p = fr_proto r \<and> pk_port p = fr_port r))"

definition listed :: "string \<Rightarrow> fw_rule list \<Rightarrow> packet \<Rightarrow> bool" where
  "listed t rs p = list_ex (\<lambda>r. source_rule r p) (enabled_of t rs)"

definition port_of :: "string \<Rightarrow> fw_rule list \<Rightarrow> packet \<Rightarrow> bool" where
  "port_of t rs p = list_ex (\<lambda>r. pk_proto p = fr_proto r \<and> pk_port p = fr_port r) (enabled_of t rs)"

definition allowlist_port :: "fw_rule list \<Rightarrow> packet \<Rightarrow> bool" where
  "allowlist_port rs p = (0 < pk_port p \<and> port_of ''whitelist'' rs p)"

definition database_port_open :: "fw_view \<Rightarrow> packet \<Rightarrow> bool" where
  "database_port_open v p =
     (fv_switch v \<and> pk_proto p = ''tcp'' \<and> pk_port p = 3306 \<longrightarrow>
        list_ex (\<lambda>h. validIP h \<and> nft_source h (pk_src p)) (fv_hosts v))"

definition host_app_open :: "fw_view \<Rightarrow> packet \<Rightarrow> bool" where
  "host_app_open v p = (fv_apps v \<and> in_ports host_app_ports p \<longrightarrow> pk_port p \<in> set (fv_ports v))"

text \<open>The policy the tables state.\<close>

definition policy :: "fw_rule list \<Rightarrow> string list \<times> string list \<Rightarrow> fw_view \<Rightarrow> packet \<Rightarrow> bool" where
  "policy rs sets v p =
     (if pk_established p \<or> pk_loopback p then True
      else if in_ports app_ports p \<or> from_country sets p then False
      else if listed ''whitelist'' rs p then True
      else if allowlist_port rs p \<or> port_of ''close'' rs p \<or> listed ''banned'' rs p then False
      else database_port_open v p \<and> host_app_open v p)"

lemma rule_matches_source:
  "rule_matches sets (NftRule (Some (fr_ip r)) (dport (fr_proto r) (fr_port r)) accept) p = source_rule r p"
  by (auto simp: source_rule_def dport_def)

lemma restricted_match:
  "list_ex (\<lambda>r. rule_matches sets r p) (restrictedDrops ports) = ((pk_proto p, pk_port p) \<in> set ports)"
  by (force simp: restrictedDrops_def list_ex_iff)

lemma restricted_drop: "list_all (\<lambda>r. \<not> rule_accepts r) (restrictedDrops ports)"
  by (simp add: restrictedDrops_def list_all_iff)

lemma remote_decides:
  "chain_accepts sets ((case remoteAccess v of None \<Rightarrow> [] | Some a \<Rightarrow> a @ [NftRule None (Some (''tcp'', 3306)) False]) @ ys) p =
    (if fv_switch v \<and> pk_proto p = ''tcp'' \<and> pk_port p = 3306
     then list_ex (\<lambda>h. validIP h \<and> nft_source h (pk_src p)) (fv_hosts v) else chain_accepts sets ys p)"
proof (cases "fv_switch v")
  case True
  let ?hs = "filter validIP (sort (remdups (fv_hosts v)))"
  let ?a = "map (\<lambda>h. NftRule (Some h) (Some (''tcp'', 3306)) True) ?hs"
  have "chain_accepts sets (?a @ NftRule None (Some (''tcp'', 3306)) False # ys) p =
      (list_ex (\<lambda>r. rule_matches sets r p) ?a \<or> chain_accepts sets (NftRule None (Some (''tcp'', 3306)) False # ys) p)"
    by (rule chain_all_accept) (simp add: list_all_iff)
  then show ?thesis using True by (auto simp: remoteAccess_def list_ex_iff)
qed (simp add: remoteAccess_def)

lemma apps_decide:
  "chain_accepts sets (case hostAppAccess v of None \<Rightarrow> [] | Some a \<Rightarrow> a @ [NftPorts (fst host_app_ports) (snd host_app_ports)]) p =
    host_app_open v p"
proof (cases "fv_apps v")
  case True
  let ?ps = "filter (\<lambda>q. int (fst host_app_ports) \<le> q \<and> q \<le> int (snd host_app_ports)) (sort (fv_ports v))"
  let ?a = "map (\<lambda>q. NftRule None (Some (''tcp'', q)) True) ?ps"
  have "chain_accepts sets (?a @ [NftPorts (fst host_app_ports) (snd host_app_ports)]) p =
      (list_ex (\<lambda>r. rule_matches sets r p) ?a \<or> chain_accepts sets [NftPorts (fst host_app_ports) (snd host_app_ports)] p)"
    by (rule chain_all_accept) (simp add: list_all_iff)
  then show ?thesis using True by (auto simp: hostAppAccess_def list_ex_iff host_app_open_def in_ports_def)
qed (simp add: hostAppAccess_def host_app_open_def)

text \<open>Without a loss of rows, the rows of each type are the enabled ones.\<close>

lemma types_apart: "''whitelist'' \<noteq> ''close''" "''whitelist'' \<noteq> ''banned''" "''close'' \<noteq> ''banned''"
  by simp_all

lemma rows_of_type:
  assumes "fe_cut e = None" "t \<in> {''whitelist'', ''close'', ''banned''}"
  shows "filter (\<lambda>r. fr_type r = t) (rows_read e rs) = enabled_of t rs"
proof -
  have o: "filter (\<lambda>r. fr_type r = t) (enabled_of u rs) = (if t = u then enabled_of t rs else [])" for u
    by (auto simp: enabled_of_def filter_empty_conv intro: filter_cong)
  have "filter (\<lambda>r. fr_type r = t) (filter (\<lambda>r. fr_enabled r \<and> fr_type r \<notin> {''whitelist'', ''close'', ''banned''}) rs) = []"
    using assms(2) by (auto simp: filter_empty_conv)
  then show ?thesis using assms o by (auto simp: rows_read_def Let_def)
qed

lemma rendered_decides:
  assumes "readRules e rs = Some s" "fe_cut e = None"
  shows "chain_accepts sets (chain_rules s (remoteAccess v) (hostAppAccess v)) p = policy rs sets v p"
proof -
  let ?w = "enabled_of ''whitelist'' rs" and ?c = "enabled_of ''close'' rs" and ?b = "enabled_of ''banned'' rs"
  let ?white = "map (\<lambda>r. NftRule (Some (fr_ip r)) (dport (fr_proto r) (fr_port r)) True) ?w"
  let ?restricted = "restrictedDrops (map (\<lambda>r. (fr_proto r, fr_port r)) (filter (\<lambda>r. 0 < fr_port r) ?w))"
  let ?close = "map (\<lambda>r. NftRule None (Some (fr_proto r, fr_port r)) False) ?c"
  let ?ban = "map (\<lambda>r. NftRule (Some (fr_ip r)) (dport (fr_proto r) (fr_port r)) False) ?b"
  let ?remote = "case remoteAccess v of None \<Rightarrow> [] | Some a \<Rightarrow> a @ [NftRule None (Some (''tcp'', 3306)) False]"
  let ?apps = "case hostAppAccess v of None \<Rightarrow> [] | Some a \<Rightarrow> a @ [NftPorts (fst host_app_ports) (snd host_app_ports)]"
  have s: "s = \<lparr>sr_allowlisted = ?white, sr_restricted = ?restricted, sr_closed = ?close, sr_banned = ?ban\<rparr>"
    using assms rows_of_type [OF assms(2)] by (simp add: readRules_def Let_def del: filter_filter split: if_splits)
  have w: "list_ex (\<lambda>r. rule_matches sets r p) ?white = listed ''whitelist'' rs p" "list_ex (\<lambda>r. rule_matches sets r p) ?ban = listed ''banned'' rs p"
    by (simp_all only: listed_def list_ex_iff set_map bex_simps(7) rule_matches_source)
  have c: "list_ex (\<lambda>r. rule_matches sets r p) ?close = port_of ''close'' rs p"
    by (simp add: port_of_def list_ex_iff)
  have d: "list_ex (\<lambda>r. rule_matches sets r p) ?restricted = allowlist_port rs p"
    by (subst restricted_match) (auto simp: allowlist_port_def port_of_def list_ex_iff)
  have apart: "database_port_open v p = (if fv_switch v \<and> pk_proto p = ''tcp'' \<and> pk_port p = 3306
      then list_ex (\<lambda>h. validIP h \<and> nft_source h (pk_src p)) (fv_hosts v) else True)"
    "fv_switch v \<and> pk_proto p = ''tcp'' \<and> pk_port p = 3306 \<Longrightarrow> host_app_open v p"
    by (auto simp: database_port_open_def host_app_open_def in_ports_def host_app_ports_def)
  have all: "list_all rule_accepts ?white" "list_all (\<lambda>r. \<not> rule_accepts r) ?restricted" "list_all (\<lambda>r. \<not> rule_accepts r) ?close"
    "list_all (\<lambda>r. \<not> rule_accepts r) ?ban" using restricted_drop by (simp_all add: list_all_iff)
  have tail: "chain_accepts sets (?remote @ ?apps) p = (database_port_open v p \<and> host_app_open v p)"
    using apart by (simp add: remote_decides apps_decide)
  have "chain_accepts sets (?white @ ?restricted @ ?close @ ?ban @ ?remote @ ?apps) p =
      (listed ''whitelist'' rs p \<or> \<not> allowlist_port rs p \<and> \<not> port_of ''close'' rs p \<and> \<not> listed ''banned'' rs p \<and>
       database_port_open v p \<and> host_app_open v p)"
    by (simp only: chain_all_accept [OF all(1)] chain_all_drop [OF all(2)] chain_all_drop [OF all(3)] chain_all_drop [OF all(4)] w c d tail)
  moreover have "chain_rules s (remoteAccess v) (hostAppAccess v) =
      [NftEstablished, NftLoopback, NftPorts (fst app_ports) (snd app_ports), NftGeo False, NftGeo True] @
      ?white @ ?restricted @ ?close @ ?ban @ ?remote @ ?apps"
    by (simp only: s chain_rules_def storedRules.simps)
  ultimately show ?thesis by (auto simp: policy_def from_country_def in_ports_def)
qed

lemma writeGeoSets_rules: "writeGeoSets e st = (ok, st') \<Longrightarrow> fw_rules st' = fw_rules st \<and> fw_geo st' = fw_geo st \<and> fw_next st' = fw_next st \<and> fw_running st' = fw_running st"
  by (auto simp: writeGeoSets_def split: if_splits option.splits)

lemma rebuild_frame: "rebuild e v st = (ok, st') \<Longrightarrow> fw_rules st' = fw_rules st \<and> fw_geo st' = fw_geo st \<and> fw_next st' = fw_next st"
  using writeGeoSets_rules by (fastforce simp: rebuild_def applyRuleset_def split: option.splits prod.splits bool.splits if_splits)

lemma rebuild_failed: "rebuild e v st = (False, st') \<Longrightarrow> fw_running st' = fw_running st"
  using writeGeoSets_rules by (fastforce simp: rebuild_def applyRuleset_def split: option.splits prod.splits bool.splits if_splits)

lemma running_ruleset_is_policy_aux:
  assumes "rebuild e v st = (True, st')" "fe_cut e = None"
  shows "accepts st' p = policy (fw_rules st) (fw_sets st') v p"
proof -
  obtain s st1 where s: "readRules e (fw_rules st) = Some s" "writeGeoSets e st = (True, st1)"
      "applyRuleset e (chain_rules s (remoteAccess v) (hostAppAccess v)) st1 = (True, st')"
    using assms(1) by (auto simp: rebuild_def split: option.splits prod.splits bool.splits if_splits)
  then have "fw_running st' = Some (chain_rules s (remoteAccess v) (hostAppAccess v), fw_sets st1)" "fw_sets st' = fw_sets st1"
    by (auto simp: applyRuleset_def split: if_splits)
  then show ?thesis using rendered_decides [OF s(1) assms(2)] by (simp add: accepts_def)
qed


section \<open>The stored rules\<close>

definition rule_ok :: "fw_rule \<Rightarrow> bool" where
  "rule_ok r =
     (fr_proto r \<in> {''tcp'', ''udp''} \<and> 0 \<le> fr_port r \<and> fr_port r \<le> 65535 \<and>
      (if fr_type r = ''close'' then fr_ip r = [] \<and> fr_port r \<notin> {0, 53, 80, 443}
       else fr_type r \<in> {''banned'', ''whitelist''} \<and> validIP (fr_ip r)))"

definition rules_ok :: "firewall \<Rightarrow> bool" where
  "rules_ok st = (list_all rule_ok (fw_rules st) \<and> list_all (\<lambda>r. fr_id r < fw_next st) (fw_rules st))"

lemma rules_ok_I: "rules_ok st \<Longrightarrow> fw_rules st' = fw_rules st \<Longrightarrow> fw_next st' = fw_next st \<Longrightarrow> rules_ok st'"
  by (simp add: rules_ok_def)

lemma rules_ok_rebuild: "rules_ok st \<Longrightarrow> rules_ok (snd (rebuild e v st))"
  using rebuild_frame [OF surjective_pairing] rules_ok_I by blast

lemma rules_ok_delete: "rules_ok st \<Longrightarrow> rules_ok (delete_rule i st)"
  by (auto simp: rules_ok_def delete_rule_def list_all_iff)

lemma allowed_rule_ok:
  assumes "renderable q" "allowedTarget ssh panel q = Some q'"
  shows "rule_ok \<lparr>fr_id = i, fr_type = rq_type q', fr_ip = rq_ip q', fr_port = rq_port q', fr_proto = rq_proto q', fr_desc = d, fr_enabled = b\<rparr>"
proof -
  have q: "rq_proto q \<in> {''tcp'', ''udp''}" "0 \<le> rq_port q" "rq_port q \<le> 65535" using assms(1) by (simp_all add: renderable_def)
  show ?thesis
  proof (cases "rq_type q = ''banned'' \<or> rq_type q = ''whitelist''")
    case True
    then have "q' = q" "validIP (rq_ip q)" using assms(2) by (simp_all add: allowedTarget_def split: if_split_asm)
    then show ?thesis using True q by (auto simp: rule_ok_def)
  next
    case False
    then have "rq_type q = ''close''" "rq_port q \<noteq> 0" "\<not> isProtectedPort ssh panel (rq_port q)" "q' = q\<lparr>rq_ip := []\<rparr>"
      using assms(2) by (simp_all add: allowedTarget_def split: if_split_asm)
    then show ?thesis using q by (simp add: rule_ok_def isProtectedPort_def)
  qed
qed

lemma rules_ok_insert:
  assumes "rules_ok st" "renderable q" "allowedTarget ssh panel q = Some q'"
  shows "rules_ok (insert_rule q' st)"
  using assms(1) allowed_rule_ok [OF assms(2,3)] by (auto simp: rules_ok_def insert_rule_def list_all_iff)

lemma rules_ok_answer: "rules_ok st \<Longrightarrow> rules_ok (snd (case rebuild e v st of (ok, st) \<Rightarrow> (if ok then a else b, st)))"
  using rules_ok_rebuild [of st e v] by (cases "rebuild e v st") simp

lemma rules_ok_geo: "rules_ok (st\<lparr>fw_geo := cs\<rparr>) = rules_ok st"
  by (simp add: rules_ok_def)

lemma rules_ok_switch: "rules_ok st \<Longrightarrow> rules_ok (st\<lparr>fw_rules := map (\<lambda>r. if fr_id r = i then r\<lparr>fr_enabled := on\<rparr> else r) (fw_rules st)\<rparr>)"
  by (auto simp: rules_ok_def list_all_iff rule_ok_def)

text \<open>What an addition comes to.\<close>

lemma Add_cases:
  assumes "firewall_Add e1 e2 ssh panel stores undo body v st = (code, st')"
  obtains "st' = st" "code \<noteq> 201"
    | q q' where "renderable q" "allowedTarget ssh panel q = Some q'" "rebuild e1 v (insert_rule q' st) = (True, st')" "code = 201"
    | q q' st1 where "renderable q" "allowedTarget ssh panel q = Some q'" "rebuild e1 v (insert_rule q' st) = (False, st1)"
      "st' = snd (rebuild e2 v (if undo then delete_rule (fw_next st) st1 else st1))" "code \<noteq> 201"
proof -
  define q where "q = normalize_request (the body)"
  consider "body = None" | "body \<noteq> None" "\<not> renderable q \<or> allowedTarget ssh panel q = None \<or> \<not> stores"
    | q' where "body \<noteq> None" "renderable q" "allowedTarget ssh panel q = Some q'" stores
    by (cases "allowedTarget ssh panel q") auto
  then show ?thesis
  proof cases
    case (3 q')
    obtain ok st1 where r: "rebuild e1 v (insert_rule q' st) = (ok, st1)" by fastforce
    have "(code, st') = (if ok then (201, st1) else (500, snd (rebuild e2 v (if undo then delete_rule (fw_next st) st1 else st1))))"
      using assms 3 r by (auto simp: firewall_Add_def q_def Let_def)
    then show ?thesis using that(2) [OF 3(2,3)] that(3) [OF 3(2,3)] r by (cases ok) auto
  qed (use assms that(1) in \<open>auto simp: firewall_Add_def q_def Let_def split: if_splits option.splits\<close>)
qed

lemma rules_ok_Add:
  assumes "rules_ok st" "firewall_Add e1 e2 ssh panel stores undo body v st = (code, st')"
  shows "rules_ok st'"
  using assms(2)
proof (cases rule: Add_cases)
  case (2 q q')
  then show ?thesis using rules_ok_rebuild [OF rules_ok_insert [OF assms(1)], of q ssh panel q' e1 v] by simp
next
  case (3 q q' st1)
  then have "rules_ok st1" using rules_ok_rebuild [OF rules_ok_insert [OF assms(1)], of q ssh panel q' e1 v] by simp
  then show ?thesis using 3 by (auto intro!: rules_ok_rebuild rules_ok_delete)
qed (use assms(1) in simp)

definition template_ok :: "(string \<times> string \<times> string \<times> int) list \<Rightarrow> bool" where
  "template_ok ts = list_all (\<lambda>(t, proto, desc, port). t = ''close'' \<and> proto = ''tcp'' \<and> 0 < port \<and> port \<le> 65535) ts"

lemma template_rules_ok: "map_of firewallTemplates name = Some ts \<Longrightarrow> template_ok ts"
  by (auto simp: firewallTemplates_def template_ok_def split: if_splits)

lemma rules_ok_store:
  "storeTemplateRules ssh panel writes ts st = (ok, st') \<Longrightarrow> rules_ok st \<Longrightarrow> template_ok ts \<Longrightarrow> rules_ok st'"
proof (induction ssh panel writes ts st rule: storeTemplateRules.induct)
  case (2 ssh panel writes t proto desc port ts st)
  have t: "t = ''close''" "proto = ''tcp''" "0 < port" "port \<le> 65535" "template_ok ts" using 2(6) by (auto simp: template_ok_def)
  then have "rules_ok (insert_rule \<lparr>rq_type = t, rq_ip = [], rq_port = port, rq_proto = proto, rq_desc = desc\<rparr> st)" if "\<not> isProtectedPort ssh panel port"
    using that 2(5) by (auto simp: rules_ok_def insert_rule_def rule_ok_def isProtectedPort_def list_all_iff)
  then show ?case using 2 t(5) by (auto split: if_splits)
qed simp

lemma rules_ok_Template: 
  assumes "rules_ok st"
  shows "rules_ok (snd (firewall_Template e ssh panel writes body v st))"
proof -
  have "rules_ok st1 \<and> rules_ok (snd (rebuild e v st1))"
    if "map_of firewallTemplates name = Some ts" "storeTemplateRules ssh panel writes ts st = (stored, st1)" for name ts stored st1
    using rules_ok_store [OF that(2) assms] template_rules_ok [OF that(1)] rules_ok_rebuild by simp
  then show ?thesis using assms
    by (auto simp: firewall_Template_def split: option.split prod.split bool.split) (metis snd_conv)+
qed

text \<open>Every sequence of changes, with any failures, at any moment's SSH and panel ports.\<close>

inductive fw_run :: "firewall \<Rightarrow> bool" where
  start: "fw_rules st = [] \<Longrightarrow> fw_run st"
| add: "fw_run st \<Longrightarrow> fw_run (snd (firewall_Add e1 e2 ssh panel stores undo body v st))"
| template: "fw_run st \<Longrightarrow> fw_run (snd (firewall_Template e ssh panel writes name v st))"
| delete: "fw_run st \<Longrightarrow> fw_run (snd (firewall_Delete e stores param v st))"
| status: "fw_run st \<Longrightarrow> fw_run (snd (firewall_Status e stores param switch v st))"
| block_country: "fw_run st \<Longrightarrow> fw_run (snd (AddGeo e files stores country v st))"
| unblock_country: "fw_run st \<Longrightarrow> fw_run (snd (DeleteGeo e stores code v st))"
| reapply: "fw_run st \<Longrightarrow> fw_run (snd (Reapply e v st))"

text \<open>
  C36. Whatever is requested and whatever fails, every stored rule is one the ruleset can carry, and none closes port 53, 80 or 443 or
  every port.
\<close>
theorem stored_rules_ok:
  assumes "fw_run st"
  shows "rules_ok st"
  using assms
proof (induction rule: fw_run.induct)
  case (start st)
  then show ?case by (simp add: rules_ok_def)
next
  case (add st e1 e2 ssh panel stores undo body v)
  show ?case by (rule rules_ok_Add [OF add(2) surjective_pairing])
next
  case (template st)
  then show ?case by (simp add: rules_ok_Template)
next
  case (delete st e stores param v)
  then show ?case by (simp add: firewall_Delete_def rules_ok_answer rules_ok_delete)
next
  case (status st e stores param switch v)
  then show ?case by (simp add: firewall_Status_def rules_ok_answer rules_ok_switch split: option.split)
next
  case (block_country st e files stores country v)
  then show ?case by (simp add: AddGeo_def Let_def rules_ok_answer rules_ok_geo split: option.split)
next
  case (unblock_country st e stores code v)
  then show ?case by (simp add: DeleteGeo_def Let_def rules_ok_answer rules_ok_geo)
qed (simp add: Reapply_def rules_ok_rebuild)

section \<open>An addition is applied or undone\<close>

lemma undone_rules:
  assumes "rules_ok st" "rebuild e v (insert_rule q st) = (ok, st1)"
  shows "fw_rules (delete_rule (fw_next st) st1) = fw_rules st"
proof -
  have "fw_rules st1 = fw_rules (insert_rule q st)" using rebuild_frame [OF assms(2)] by simp
  moreover have "filter (\<lambda>r. fr_id r \<noteq> fw_next st) (fw_rules st) = fw_rules st"
    using assms(1) by (auto simp: rules_ok_def list_all_iff intro!: filter_True)
  ultimately show ?thesis by (simp add: delete_rule_def insert_rule_def)
qed


section \<open>Examples\<close>

definition no_files :: geo_files where "no_files = \<lparr>gf_v4 = None, gf_v6 = None\<rparr>"

text \<open>A rebuild in which everything works and \<open>nft\<close> takes every text, on the given files, with the rows that arrive.\<close>

definition fw_fine :: "nat option \<Rightarrow> geo_files \<Rightarrow> fw_env" where
  "fw_fine rows files = \<lparr>fe_rules = True, fe_cut = rows, fe_codes = True, fe_files = files, fe_write = True, fe_view = True,
     fe_check = (\<lambda>text. True), fe_apply = True\<rparr>"

definition applied :: "nat option \<Rightarrow> string list \<times> string list \<Rightarrow> fw_view \<Rightarrow> firewall \<Rightarrow> firewall" where
  "applied rows ranges v st = st\<lparr>fw_sets := ranges,
     fw_running := Some (chain_rules (the (readRules (fw_fine rows no_files) (fw_rules st))) (remoteAccess v) (hostAppAccess v), ranges)\<rparr>"

lemma rebuild_fine:
  assumes "(if blockedCountries st \<noteq> [] \<and> geo_available files then Lookup files (blockedCountries st) else Some ([], [])) = Some ranges"
  shows "rebuild (fw_fine rows files) v st = (True, applied rows ranges v st)"
proof -
  have w: "writeGeoSets (fw_fine rows files) st = (True, st\<lparr>fw_sets := ranges\<rparr>)"
    unfolding writeGeoSets_def by (simp only: fw_fine_def fw_env.simps assms option.case) simp
  have r: "readRules (fw_fine rows files) (fw_rules st) = readRules (fw_fine rows no_files) (fw_rules st)"
    "readRules (fw_fine rows no_files) (fw_rules st) \<noteq> None"
    by (simp_all add: readRules_def rows_read_def fw_fine_def Let_def)
  obtain s where s: "readRules (fw_fine rows no_files) (fw_rules st) = Some s" using r(2) by blast
  have "fe_view (fw_fine rows files)" "fe_check (fw_fine rows files) t" "fe_apply (fw_fine rows files)" for t by (simp_all add: fw_fine_def)
  then show ?thesis unfolding rebuild_def r(1) s option.case w by (simp add: applyRuleset_def applied_def s)
qed

definition fw_empty :: firewall where
  "fw_empty = \<lparr>fw_rules = [], fw_next = 1, fw_geo = [], fw_sets = ([], []), fw_running = None\<rparr>"

definition quiet_view :: fw_view where "quiet_view = \<lparr>fv_switch = False, fv_hosts = [], fv_apps = False, fv_ports = []\<rparr>"

definition request :: "string \<Rightarrow> string \<Rightarrow> int \<Rightarrow> fw_request" where
  "request t ip port = \<lparr>rq_type = t, rq_ip = ip, rq_port = port, rq_proto = [], rq_desc = []\<rparr>"

definition tcp_packet :: "IP \<Rightarrow> int \<Rightarrow> packet" where
  "tcp_packet src port = \<lparr>pk_established = False, pk_loopback = False, pk_proto = ''tcp'', pk_port = port, pk_src = src\<rparr>"

definition added :: "fw_request \<Rightarrow> firewall \<Rightarrow> int \<times> firewall" where
  "added q st = firewall_Add (fw_fine None no_files) (fw_fine None no_files) [22] [8080, 8443] True True (Some q) quiet_view st"

lemma added_fine:
  assumes "renderable (normalize_request q)" "allowedTarget [22] [8080, 8443] (normalize_request q) = Some q'" "fw_geo st = []"
  shows "added q st = (201, applied None ([], []) quiet_view (insert_rule q' st))"
proof -
  have "rebuild (fw_fine None no_files) quiet_view (insert_rule q' st) = (True, applied None ([], []) quiet_view (insert_rule q' st))"
    by (rule rebuild_fine) (simp add: blockedCountries_def insert_rule_def assms(3))
  then show ?thesis using assms by (simp add: added_def firewall_Add_def)
qed

text \<open>A close of port 443 is refused; an allowlist entry for it, or a ban of every address, is stored and closes it.\<close>

definition normal :: "string \<Rightarrow> string \<Rightarrow> int \<Rightarrow> fw_request" where
  "normal t ip port = \<lparr>rq_type = t, rq_ip = ip, rq_port = port, rq_proto = ''tcp'', rq_desc = []\<rparr>"

lemma normal_request:
  "normalize_request (request ''whitelist'' ''198.51.100.4'' 443) = normal ''whitelist'' ''198.51.100.4'' 443"
  "normalize_request (request ''banned'' ''0.0.0.0/0'' 443) = normal ''banned'' ''0.0.0.0/0'' 443"
  "normalize_request (request ''banned'' ''203.0.113.9'' 0) = normal ''banned'' ''203.0.113.9'' 0"
  "normalize_request (request ''close'' [] p) = normal ''close'' [] p"
  by (unfold request_def normal_def normalize_request_def Let_def) (simp_all, code_simp+)

lemma allowed_targets:
  "allowedTarget [22] [8080, 8443] (normal ''whitelist'' ''198.51.100.4'' 443) = Some (normal ''whitelist'' ''198.51.100.4'' 443)"
  "allowedTarget [22] [8080, 8443] (normal ''banned'' ''0.0.0.0/0'' 443) = Some (normal ''banned'' ''0.0.0.0/0'' 443)"
  "allowedTarget [22] [8080, 8443] (normal ''banned'' ''203.0.113.9'' 0) = Some (normal ''banned'' ''203.0.113.9'' 0)"
  "allowedTarget [22] [8080, 8443] (normal ''close'' [] 21) = Some (normal ''close'' [] 21)"
  "allowedTarget [22] [8080, 8443] (normal ''close'' [] 443) = None"
  by (code_simp+)

lemma normal_renderable: "renderable (normal t ip port) = (0 \<le> port \<and> port \<le> 65535)"
  by (simp add: renderable_def normal_def)

lemma applied_geo [simp]: "fw_geo (applied rows ranges v st) = fw_geo st" "fw_geo (insert_rule q st) = fw_geo st" "fw_geo fw_empty = []"
  "fw_rules (applied rows ranges v st) = fw_rules st" "fw_next (applied rows ranges v st) = fw_next st"
  by (simp_all add: applied_def insert_rule_def fw_empty_def)

lemma added_normal:
  "added (request ''whitelist'' ''198.51.100.4'' 443) fw_empty =
     (201, applied None ([], []) quiet_view (insert_rule (normal ''whitelist'' ''198.51.100.4'' 443) fw_empty))"
  "added (request ''banned'' ''0.0.0.0/0'' 443) fw_empty =
     (201, applied None ([], []) quiet_view (insert_rule (normal ''banned'' ''0.0.0.0/0'' 443) fw_empty))"
  "added (request ''close'' [] 21) fw_empty = (201, applied None ([], []) quiet_view (insert_rule (normal ''close'' [] 21) fw_empty))"
  "fw_geo st = [] \<Longrightarrow> added (request ''banned'' ''203.0.113.9'' 0) st =
     (201, applied None ([], []) quiet_view (insert_rule (normal ''banned'' ''203.0.113.9'' 0) st))"
  by (rule added_fine; simp add: normal_request allowed_targets normal_renderable)+

lemma close_refused: "added (request ''close'' [] 443) fw_empty = (400, fw_empty)"
  by (simp add: added_def firewall_Add_def normal_request allowed_targets normal_renderable Let_def)

lemma accepts_applied: "accepts (applied None ranges v st) p = policy (fw_rules st) ranges v p"
proof -
  have "readRules (fw_fine None no_files) (fw_rules st) \<noteq> None" by (simp add: readRules_def fw_fine_def Let_def)
  then obtain s where s: "readRules (fw_fine None no_files) (fw_rules st) = Some s" by blast
  have "fe_cut (fw_fine None no_files) = None" by (simp add: fw_fine_def)
  then show ?thesis using rendered_decides [OF s] by (simp add: accepts_def applied_def s)
qed

lemmas sample_policy = policy_def listed_def port_of_def allowlist_port_def enabled_of_def source_rule_def in_ports_def from_country_def
  app_ports_def insert_rule_def normal_def fw_empty_def tcp_packet_def quiet_view_def database_port_open_def host_app_open_def

lemma sample_sources:
  "nft_source ''0.0.0.0/0'' [203, 0, 113, 9]" "\<not> nft_source ''198.51.100.4'' [203, 0, 113, 9]" "nft_source ''203.0.113.9'' [203, 0, 113, 9]"
  "source_matches ''203.0.113.0/24'' [203, 0, 113, 9]"
  by (code_simp+)

text \<open>
  A close of port 443 is refused as one of the ports that must stay open; an allowlist entry for it, or a ban of every address from
  it, is stored and applied, and the port is closed to the public.
\<close>
theorem protected_port_closed_anyway:
  "added (request ''close'' [] 443) fw_empty = (400, fw_empty) \<and>
   (case added (request ''whitelist'' ''198.51.100.4'' 443) fw_empty of (code, st) \<Rightarrow>
      code = 201 \<and> \<not> accepts st (tcp_packet [203, 0, 113, 9] 443)) \<and>
   (case added (request ''banned'' ''0.0.0.0/0'' 443) fw_empty of (code, st) \<Rightarrow>
      code = 201 \<and> \<not> accepts st (tcp_packet [203, 0, 113, 9] 443))"
proof -
  have "\<not> accepts (applied None ([], []) quiet_view (insert_rule (normal ''whitelist'' ''198.51.100.4'' 443) fw_empty)) (tcp_packet [203, 0, 113, 9] 443)"
    "\<not> accepts (applied None ([], []) quiet_view (insert_rule (normal ''banned'' ''0.0.0.0/0'' 443) fw_empty)) (tcp_packet [203, 0, 113, 9] 443)"
    by (simp_all add: accepts_applied sample_policy sample_sources)
  then show ?thesis by (simp add: added_normal close_refused)
qed

text \<open>The connection is lost while the rules are read: the rows that did not arrive are left out, and the change is answered 200.\<close>

theorem lost_rows_open_the_firewall:
  "case added (request ''close'' [] 21) fw_empty of (c1, st) \<Rightarrow>
     (case added (request ''banned'' ''203.0.113.9'' 0) st of (c2, st) \<Rightarrow>
        (case firewall_Status (fw_fine (Some 1) no_files) True ''1'' (Some True) quiet_view st of (c3, st') \<Rightarrow>
           [c1, c2, c3] = [201, 201, 200] \<and> \<not> accepts st (tcp_packet [203, 0, 113, 9] 25) \<and> accepts st' (tcp_packet [203, 0, 113, 9] 25)))"
proof -
  let ?s1 = "applied None ([], []) quiet_view (insert_rule (normal ''close'' [] 21) fw_empty)"
  let ?s2 = "applied None ([], []) quiet_view (insert_rule (normal ''banned'' ''203.0.113.9'' 0) ?s1)"
  let ?on = "?s2\<lparr>fw_rules := map (\<lambda>r. if fr_id r = parse_int_lossy ''1'' then r\<lparr>fr_enabled := True\<rparr> else r) (fw_rules ?s2)\<rparr>"
  have "rebuild (fw_fine (Some 1) no_files) quiet_view ?on = (True, applied (Some 1) ([], []) quiet_view ?on)"
    by (rule rebuild_fine) (simp add: blockedCountries_def)
  then have "firewall_Status (fw_fine (Some 1) no_files) True ''1'' (Some True) quiet_view ?s2 = (200, applied (Some 1) ([], []) quiet_view ?on)"
    by (simp add: firewall_Status_def)
  moreover have "\<not> accepts ?s2 (tcp_packet [203, 0, 113, 9] 25)" by (simp add: accepts_applied sample_policy sample_sources)
  moreover have "accepts (applied (Some 1) ([], []) quiet_view ?on) (tcp_packet [203, 0, 113, 9] 25)"
    by (simp add: applied_def accepts_def readRules_def rows_read_def fw_fine_def sample_policy chain_rules_def remoteAccess_def hostAppAccess_def restrictedDrops_def)
  ultimately show ?thesis by (simp add: added_normal)
qed

text \<open>A country stays stored as blocked; once its database is gone the next rebuild blocks nobody and reports nothing.\<close>

definition tr_files :: geo_files where "tr_files = no_files\<lparr>gf_v4 := Some ''203.0.113.0/24,TR''\<rparr>"

theorem country_block_lost_silently:
  "case AddGeo (fw_fine None tr_files) tr_files True (Some ''tr'') quiet_view fw_empty of (code, st) \<Rightarrow>
     (case Reapply (fw_fine None no_files) quiet_view st of (ok, st') \<Rightarrow>
        code = 201 \<and> ok \<and> fw_geo st' = [''TR''] \<and> \<not> accepts st (tcp_packet [203, 0, 113, 9] 25) \<and> accepts st' (tcp_packet [203, 0, 113, 9] 25))"
proof -
  have n: "NormalizeCountry ''tr'' = ''TR''" "geo_available tr_files" "KnownCountry tr_files ''TR''" by (code_simp+)
  let ?st = "fw_empty\<lparr>fw_geo := List.insert ''TR'' (fw_geo fw_empty)\<rparr>"
  let ?s1 = "applied None ([''203.0.113.0/24''], []) quiet_view ?st"
  have b: "blockedCountries ?st = [''TR'']" "Lookup tr_files [''TR''] = Some ([''203.0.113.0/24''], [])" by (code_simp+)
  have "rebuild (fw_fine None tr_files) quiet_view ?st = (True, ?s1)" by (rule rebuild_fine) (simp only: b n(2), simp)
  then have a: "AddGeo (fw_fine None tr_files) tr_files True (Some ''tr'') quiet_view fw_empty = (201, ?s1)" by (simp add: AddGeo_def n Let_def)
  have "\<not> geo_available no_files" by code_simp
  then have r: "rebuild (fw_fine None no_files) quiet_view ?s1 = (True, applied None ([], []) quiet_view ?s1)" by (intro rebuild_fine) simp
  have "\<not> accepts ?s1 (tcp_packet [203, 0, 113, 9] 25)" by (simp add: accepts_applied sample_policy sample_sources)
  moreover have "accepts (applied None ([], []) quiet_view ?s1) (tcp_packet [203, 0, 113, 9] 25)" by (simp add: accepts_applied sample_policy sample_sources)
  ultimately show ?thesis unfolding a prod.case Reapply_def r by simp
qed


theorem stored_rules_ok_witness: "rules_ok (snd (added (request ''close'' [] 21) fw_empty))"
proof -
  have "fw_run fw_empty" by (rule fw_run.start) (simp add: fw_empty_def)
  then show ?thesis unfolding added_def by (rule stored_rules_ok [OF fw_run.add])
qed


end
