(* ===== verification/RemoteAccess.thy ===== *)
theory RemoteAccess
  imports DbAccounts FirewallSafety
begin

text \<open>
  Remote access to the databases (internal/dbremote/handlers.go, heal.go): the switch that binds MariaDB to
  every interface, through a file MariaDB reads when it starts, and the addresses from which an account may
  be used. An address is a MariaDB account, a row of the panel and a rule of the firewall.
\<close>

section \<open>State\<close>

text \<open>
  \<open>ra_maria\<close>: what the file held when the running MariaDB started, \<open>None\<close> while it is down. The
  other parts of the firewall's view are the server applications.
\<close>

record remote =
  ra_db :: dbacc
  ra_fw :: firewall
  ra_switch :: bool
  ra_file :: "string option"
  ra_maria :: "string option option"
  ra_error :: string
  ra_apps :: bool
  ra_ports :: "int list"

definition remote_view :: "remote \<Rightarrow> fw_view" where
  "remote_view st = \<lparr>fv_switch = ra_switch st, fv_hosts = map rh_cidr (ac_hosts (ra_db st)), fv_apps = ra_apps st, fv_ports = ra_ports st\<rparr>"

definition rebuild_remote :: "fw_env \<Rightarrow> remote \<Rightarrow> bool \<times> remote" where
  "rebuild_remote e st = (case Reapply e (remote_view st) (ra_fw st) of (ok, fw) \<Rightarrow> (ok, st\<lparr>ra_fw := fw\<rparr>))"

section \<open>The switch\<close>

text \<open>
  How one application of the switch fares. A write that fails leaves what it leaves; a restart that fails
  leaves MariaDB down, or up as it was; \<open>ap_ping\<close>: MariaDB answered before the deadline; \<open>ap_restore\<close>: the
  file could be put back.
\<close>

record apply_env =
  ap_cert :: bool
  ap_readable :: bool
  ap_write :: "string option option"
  ap_restart :: "string option option option"
  ap_ping :: bool
  ap_restore :: bool
  ap_restart2 :: "string option option option"

datatype apply_error = ErrTLSUnavailable | ErrDropIn | ErrRestart | ErrBindVerifyFailed

definition drop_in_body :: "string \<Rightarrow> string" where
  "drop_in_body certDir = concat (map (\<lambda>l. l @ [CHR 10])
     [''# Managed by Servika. Remote database access is ON.'',
      ''#'',
      ''# This file sorts after zz-servika-security.cnf, so this bind-address is the'',
      ''# one MariaDB uses. Removing the file restores the loopback bind that file'',
      ''# sets. `*` rather than 0.0.0.0 because only `*` listens on IPv4 AND IPv6.'',
      ''#'',
      ''# The key pair is what lets the server offer TLS at all. MariaDB, unlike'',
      ''# MySQL 8, generates none of its own, so without these lines a client asking'',
      ''# for an encrypted connection is refused rather than protected, and an'',
      ''# account created with REQUIRE SSL could never connect. The same restart that'',
      ''# applies the bind applies these.'',
      ''[mysqld]'',
      ''bind-address = *'',
      ''ssl_cert = '' @ certDir @ ''/server.crt'',
      ''ssl_key = '' @ certDir @ ''/server.key''])"

text \<open>\<open>Inr changed\<close>.\<close>

definition writeDropIn :: "string \<Rightarrow> apply_env \<Rightarrow> bool \<Rightarrow> remote \<Rightarrow> (unit + bool) \<times> remote" where
  "writeDropIn certDir e enable st =
     (if \<not> enable
      then (if ra_file st = None then (Inr False, st)
            else case ap_write e of
                Some left \<Rightarrow> (Inl (), st)
              | None \<Rightarrow> (Inr True, st\<lparr>ra_file := None\<rparr>))
      else if ra_file st = Some (drop_in_body certDir) \<and> ap_readable e then (Inr False, st)
      else case ap_write e of
          Some left \<Rightarrow> (Inl (), st\<lparr>ra_file := left\<rparr>)
        | None \<Rightarrow> (Inr True, st\<lparr>ra_file := Some (drop_in_body certDir)\<rparr>))"

definition restart_maria :: "string option option option \<Rightarrow> remote \<Rightarrow> bool \<times> remote" where
  "restart_maria failure st =
     (case failure of None \<Rightarrow> (True, st\<lparr>ra_maria := Some (ra_file st)\<rparr>) | Some m \<Rightarrow> (False, st\<lparr>ra_maria := m\<rparr>))"

definition restartAndVerify :: "apply_env \<Rightarrow> remote \<Rightarrow> apply_error option \<times> remote" where
  "restartAndVerify e st =
     (case restart_maria (ap_restart e) st of
        (False, st) \<Rightarrow> (Some ErrRestart, st)
      | (True, st) \<Rightarrow> (if ap_ping e then None else Some ErrBindVerifyFailed, st))"

definition apply_switch :: "string \<Rightarrow> apply_env \<Rightarrow> bool \<Rightarrow> remote \<Rightarrow> apply_error option \<times> remote" where
  "apply_switch certDir e enable st =
     (if enable \<and> \<not> ap_cert e then (Some ErrTLSUnavailable, st)
      else let previous = (if ap_readable e then ra_file st else None) in
        (case writeDropIn certDir e enable st of
           (Inl _, st) \<Rightarrow> (Some ErrDropIn, st)
         | (Inr changed, st) \<Rightarrow>
             (case restartAndVerify e st of
                (None, st) \<Rightarrow> (None, st)
              | (Some err, st) \<Rightarrow>
                  let st = (if ap_restore e then st\<lparr>ra_file := previous\<rparr> else st)
                  in (Some err, snd (restart_maria (ap_restart2 e) st)))))"

text \<open>At startup the file follows the switch; MariaDB is not restarted.\<close>

definition HealBind :: "string \<Rightarrow> apply_env \<Rightarrow> bool \<Rightarrow> remote \<Rightarrow> remote" where
  "HealBind certDir e readable st = (if \<not> readable then st else snd (writeDropIn certDir e (ra_switch st) st))"

definition portRuleConflict :: "remote \<Rightarrow> bool" where
  "portRuleConflict st = list_ex (\<lambda>r. fr_enabled r \<and> fr_port r = 3306 \<and> fr_type r \<in> {''close'', ''whitelist''}) (fw_rules (ra_fw st))"

text \<open>
  \<open>reads\<close>: the conflict could be looked up; \<open>writes\<close>: the row of the settings could be written; \<open>shown\<close>: the
  answer could be read. The text of the error, which holds what the tools printed, is an argument.
\<close>

definition ServerSet :: "string \<Rightarrow> apply_env \<Rightarrow> string \<Rightarrow> fw_env \<Rightarrow> bool \<Rightarrow> bool \<Rightarrow> bool \<Rightarrow> bool option option \<Rightarrow> remote \<Rightarrow> int \<times> remote" where
  "ServerSet certDir e message fe reads writes shown body st =
     (case body of
        None \<Rightarrow> (400, st)
      | Some None \<Rightarrow> (400, st)
      | Some (Some enable) \<Rightarrow>
          if enable \<and> \<not> reads then (500, st)
          else if enable \<and> portRuleConflict st then (409, st)
          else (case apply_switch certDir e enable st of
              (Some err, st) \<Rightarrow> (500, if writes then st\<lparr>ra_error := take 255 message\<rparr> else st)
            | (None, st) \<Rightarrow>
                if \<not> writes then (500, st)
                else (if shown then 200 else 500, snd (rebuild_remote fe (st\<lparr>ra_switch := enable, ra_error := []\<rparr>)))))"

section \<open>Addresses\<close>

definition domainParam :: "string \<Rightarrow> int option" where
  "domainParam s = (case atoi s of None \<Rightarrow> None | Some n \<Rightarrow> if n \<le> 0 then None else Some n)"

definition own_rows :: "(string \<Rightarrow> 'k) \<Rightarrow> int \<Rightarrow> string \<Rightarrow> dbacc \<Rightarrow> db_account list" where
  "own_rows key domainID dbUser db = filter (\<lambda>r. da_domain r = domainID \<and> key (da_user r) = key dbUser) (ac_rows db)"

text \<open>The password of the last row read and the schemas; \<open>Inl\<close> a status.\<close>

definition ownedAccount :: "(string \<Rightarrow> 'k) \<Rightarrow> dba_env \<Rightarrow> int \<Rightarrow> string \<Rightarrow> dbacc \<Rightarrow> int + string \<times> string list" where
  "ownedAccount key e domainID dbUser db =
     (if \<not> ValidDBIdentifier dbUser then Inl 400
      else if \<not> de_stored e then Inl 500
      else let rows = own_rows key domainID dbUser db in
        if rows = [] then Inl 400
        else case DecryptDBPass e dbUser (da_pass (last rows)) of
            Inl err \<Rightarrow> Inl 500
          | Inr password \<Rightarrow> Inr (password, map da_name rows))"

text \<open>The row of an address; a user has an address once.\<close>

definition insert_host :: "(string \<Rightarrow> 'k) \<Rightarrow> dba_env \<Rightarrow> remote_row \<Rightarrow> dbacc \<Rightarrow> int option \<times> dbacc" where
  "insert_host key e row db =
     (if \<not> de_write e then (Some 500, db)
      else if list_ex (\<lambda>h. key (rh_user h) = key (rh_user row) \<and> key (rh_cidr h) = key (rh_cidr row)) (ac_hosts db) then (Some 409, db)
      else (None, db\<lparr>ac_hosts := ac_hosts db @ [row\<lparr>rh_id := ac_next db\<rparr>], ac_next := ac_next db + 1\<rparr>))"

text \<open>\<open>e2\<close> is the undo's statements; the result is a status to answer at once.\<close>

definition recordHost :: "(string \<Rightarrow> 'k) \<Rightarrow> dba_env \<Rightarrow> dba_env \<Rightarrow> int \<Rightarrow> string \<Rightarrow> string \<Rightarrow> string \<Rightarrow> dbacc \<Rightarrow> int option \<times> dbacc" where
  "recordHost key e e2 domainID dbUser cidr mysqlHost db =
     (case insert_host key e \<lparr>rh_id = 0, rh_domain = domainID, rh_user = dbUser, rh_cidr = cidr, rh_mysql = mysqlHost\<rparr> db of
        (None, db) \<Rightarrow> (None, db)
      | (Some code, db) \<Rightarrow> (Some code, snd (MySQLRevokeRemote e2 dbUser mysqlHost db)))"

definition DomainAdd :: "(string \<Rightarrow> 'k) \<Rightarrow> dba_env \<Rightarrow> dba_env \<Rightarrow> fw_env \<Rightarrow> bool \<Rightarrow> bool \<Rightarrow> string \<Rightarrow> (string \<times> string) option \<Rightarrow> remote \<Rightarrow> int \<times> remote" where
  "DomainAdd key e e2 fe reads shown param body st =
     (case domainParam param of
        None \<Rightarrow> (400, st)
      | Some domainID \<Rightarrow>
          (case body of
             None \<Rightarrow> (400, st)
           | Some (dbUser, host) \<Rightarrow>
               if \<not> reads then (500, st)
               else if \<not> ra_switch st then (409, st)
               else case ParseHost host of
                   Inl err \<Rightarrow> (400, st)
                 | Inr (cidr, mysqlHost) \<Rightarrow>
                     (case ownedAccount key e domainID dbUser (ra_db st) of
                        Inl code \<Rightarrow> (code, st)
                      | Inr (password, databases) \<Rightarrow>
                          (case MySQLGrantRemote e dbUser mysqlHost password databases (ra_db st) of
                             (Some err, db) \<Rightarrow> (500, st\<lparr>ra_db := db\<rparr>)
                           | (None, db) \<Rightarrow>
                               (case recordHost key e e2 domainID dbUser cidr mysqlHost db of
                                  (Some code, db) \<Rightarrow> (code, st\<lparr>ra_db := db\<rparr>)
                                | (None, db) \<Rightarrow>
                                    (case rebuild_remote fe (st\<lparr>ra_db := db\<rparr>) of
                                       (False, st) \<Rightarrow> (500, st)
                                     | (True, st) \<Rightarrow> (if shown then 200 else 500, st)))))))"

definition DomainDelete :: "dba_env \<Rightarrow> fw_env \<Rightarrow> bool \<Rightarrow> bool \<Rightarrow> string \<Rightarrow> string \<Rightarrow> remote \<Rightarrow> int \<times> remote" where
  "DomainDelete e fe reads shown param hid st =
     (case domainParam param of
        None \<Rightarrow> (400, st)
      | Some domainID \<Rightarrow>
          (case domainParam hid of
             None \<Rightarrow> (400, st)
           | Some hostID \<Rightarrow>
               if \<not> reads then (500, st)
               else case find (\<lambda>h. rh_id h = hostID \<and> rh_domain h = domainID) (ac_hosts (ra_db st)) of
                   None \<Rightarrow> (404, st)
                 | Some h \<Rightarrow>
                     if \<not> de_write e then (500, st)
                     else let db = (ra_db st)\<lparr>ac_hosts := filter (\<lambda>h. \<not> (rh_id h = hostID \<and> rh_domain h = domainID)) (ac_hosts (ra_db st))\<rparr>;
                              st = snd (rebuild_remote fe (st\<lparr>ra_db := db\<rparr>))
                       in (case MySQLRevokeRemote e (rh_user h) (rh_mysql h) (ra_db st) of
                             (Some err, db) \<Rightarrow> (500, st\<lparr>ra_db := db\<rparr>)
                           | (None, db) \<Rightarrow> (if shown then 200 else 500, st\<lparr>ra_db := db\<rparr>))))"

text \<open>The badge of an address: whether MariaDB holds an account of that user with TLS required, at that address.\<close>

definition markTLSRequirement :: "dbacc \<Rightarrow> remote_row \<Rightarrow> bool" where
  "markTLSRequirement db h =
     list_ex (\<lambda>(a, p, ssl). ssl \<and> fst a @ ''@'' @ snd a = rh_user h @ ''@'' @ rh_cidr h) (ma_users (ac_maria db))"

end
