(* ===== verification/DbAccountsSafety.thy ===== *)
theory DbAccountsSafety
  imports DbAccounts
begin

text \<open>
  What an account of MariaDB can reach: every account stays within the namespace of its system user,
  whatever fails and however requests interleave, so where no system user's namespace holds another's a tenant
  reaches its own schemas only; and three ways to a neighbour's schema where one does.
\<close>

section \<open>Statements and grants\<close>

definition grants_within :: "(string \<times> maria_account \<Rightarrow> bool) \<Rightarrow> dbacc \<Rightarrow> bool" where
  "grants_within P db = list_all P (ma_grants (ac_maria db))"

definition statement_within :: "(string \<times> maria_account \<Rightarrow> bool) \<Rightarrow> root_sql \<Rightarrow> bool" where
  "statement_within P s = (case s of SqlGrant p a \<Rightarrow> P (p, a) | _ \<Rightarrow> True)"

lemma exec_within:
  "exec_sql s m = Some m' \<Longrightarrow> statement_within P s \<Longrightarrow> list_all P (ma_grants m) \<Longrightarrow> list_all P (ma_grants m')"
  by (cases s) (auto simp: statement_within_def list_all_iff split: if_splits option.splits)

lemma run_within:
  "list_all (statement_within P) ss \<Longrightarrow> list_all P (ma_grants m) \<Longrightarrow> list_all P (ma_grants (snd (run_statements ss m)))"
  by (induction ss m rule: run_statements.induct) (auto split: option.split dest: exec_within)

lemma runRootSQL_within:
  assumes "list_all (statement_within P) ss" "list_all P (ma_grants m)"
  shows "list_all P (ma_grants (snd (runRootSQL dead ss m)))"
proof -
  have "list_all (statement_within P) (take k ss)" for k using assms(1) by (auto simp: list_all_iff dest: in_set_takeD)
  then show ?thesis using assms by (simp add: runRootSQL_def run_within split: option.split)
qed

lemma run_maria_within:
  assumes "run_maria e ss db = (ok, db')" "list_all (statement_within P) ss" "grants_within P db"
  shows "grants_within P db'"
  using assms runRootSQL_within [of P ss "ac_maria db" "de_dead e"]
  by (auto simp: run_maria_def grants_within_def split: prod.splits)

lemma run_maria_frame:
  "run_maria e ss db = (ok, db') \<Longrightarrow> ac_rows db' = ac_rows db \<and> ac_hosts db' = ac_hosts db \<and> ac_domains db' = ac_domains db"
  by (auto simp: run_maria_def split: prod.splits)

section \<open>Namespaces\<close>

definition in_ns :: "string \<Rightarrow> string \<Rightarrow> bool" where
  "in_ns sk s = has_prefix s (sk @ ''_'')"

definition ns_grant :: "string list \<Rightarrow> string \<times> maria_account \<Rightarrow> bool" where
  "ns_grant systems g =
     (\<exists>sk \<in> set systems. \<exists>n. ValidDBIdentifier n \<and> in_ns sk n \<and> in_ns sk (fst (snd g)) \<and> fst g = GrantSchema n)"

definition ns_names :: "string list \<Rightarrow> string \<Rightarrow> string \<Rightarrow> bool" where
  "ns_names systems name user = (\<exists>sk \<in> set systems. in_ns sk name \<and> in_ns sk user)"

definition systems_of :: "dbacc \<Rightarrow> string list" where
  "systems_of db = map snd (ac_domains db)"

definition ns_inv :: "dbacc \<Rightarrow> bool" where
  "ns_inv db = (grants_within (ns_grant (systems_of db)) db \<and>
     list_all (\<lambda>r. ns_names (systems_of db) (da_name r) (da_user r)) (ac_rows db))"

lemma in_ns_append [simp]: "in_ns sk (sk @ CHR ''_'' # s)"
  by (simp add: in_ns_def has_prefix_def)

lemma ns_names_grant: "ns_names systems name user \<Longrightarrow> ValidDBIdentifier name \<Longrightarrow> ns_grant systems (GrantSchema name, user, host)"
  by (auto simp: ns_names_def ns_grant_def)

text \<open>What an operation keeps: the invariant and the system users.\<close>

definition ns_ok :: "dbacc \<Rightarrow> dbacc \<Rightarrow> bool" where
  "ns_ok db db' = (ns_inv db' \<and> systems_of db' = systems_of db)"

lemma ns_ok_refl: "ns_inv db \<Longrightarrow> ns_ok db db"
  by (simp add: ns_ok_def)

lemma ns_ok_trans: "ns_ok db db1 \<Longrightarrow> ns_ok db1 db2 \<Longrightarrow> ns_ok db db2"
  by (simp add: ns_ok_def)

lemma ns_run:
  assumes "ns_inv db" "run_maria e ss db = (ok, db')" "list_all (statement_within (ns_grant (systems_of db))) ss"
  shows "ns_ok db db'"
  using assms run_maria_frame [OF assms(2)] run_maria_within [OF assms(2,3)] by (simp add: ns_inv_def systems_of_def ns_ok_def)

lemma ns_fewer:
  assumes "ns_inv db" "set (ac_rows db') \<subseteq> set (ac_rows db)" "ac_maria db' = ac_maria db" "ac_domains db' = ac_domains db"
  shows "ns_ok db db'"
  using assms by (auto simp: ns_ok_def ns_inv_def systems_of_def grants_within_def list_all_iff)

lemma ns_insert:
  "ns_inv db \<Longrightarrow> ns_names (systems_of db) (da_name row) (da_user row) \<Longrightarrow> insert_account key e row db = (err, db') \<Longrightarrow> ns_ok db db'"
  by (auto simp: insert_account_def ns_inv_def systems_of_def grants_within_def ns_ok_def split: if_splits)

lemma hosts_within:
  "remoteHostStatements key e u build db = Some ss \<Longrightarrow> (\<And>h. list_all (statement_within P) (build h)) \<Longrightarrow> list_all (statement_within P) ss"
  by (auto simp: remoteHostStatements_def list_all_iff split: option.splits if_splits)

lemma ns_create:
  assumes inv: "ns_inv db" and names: "ns_names (systems_of db) name user"
    and c: "MySQLCreateDB key e d name user pass db = (err, db')"
  shows "ns_ok db db'"
proof -
  let ?ss = "[SqlCreateDatabase name, SqlCreateUser True (user, local_host) pass False, SqlAlterUser (user, local_host) pass False,
       SqlGrant (GrantSchema name) (user, local_host), SqlFlush]"
  consider "db' = db" | ok db1 where "ValidDBIdentifier name" "run_maria e ?ss db = (ok, db1)" "db' = db1"
    | ok db1 enc where "ValidDBIdentifier name" "run_maria e ?ss db = (ok, db1)"
      "insert_account key e \<lparr>da_id = 0, da_domain = d, da_user = user, da_name = name, da_pass = enc\<rparr> db1 = (err, db')"
    using c unfolding MySQLCreateDB_def validateMySQLCredentials_def by (auto split: if_splits prod.splits bool.splits sum.splits)
  moreover have r: "ns_ok db db1" if "ValidDBIdentifier name" "run_maria e ?ss db = (ok, db1)" for ok db1
    by (rule ns_run [OF inv that(2)]) (use ns_names_grant [OF names that(1)] in \<open>simp add: statement_within_def\<close>)
  ultimately show ?thesis
  proof cases
    case (3 ok db1 enc)
    have "ns_ok db1 db'" using ns_insert [OF _ _ 3(3)] r [OF 3(1,2)] names by (simp add: ns_ok_def)
    then show ?thesis using ns_ok_trans r [OF 3(1,2)] by blast
  qed (use inv ns_ok_refl in blast)+
qed

lemma ns_create_for_user:
  assumes inv: "ns_inv db" and names: "ns_names (systems_of db) name user"
    and c: "MySQLCreateDBForUser key e d name user db = (err, db')"
  shows "ns_ok db db'"
proof -
  let ?ss = "\<lambda>remote. [SqlCreateDatabase name, SqlGrant (GrantSchema name) (user, local_host)] @ remote @ [SqlFlush]"
  let ?remote = "remoteHostStatements key e user (\<lambda>host. [SqlGrant (GrantSchema name) (user, host)]) db"
  consider "db' = db" | ok db1 remote where "ValidDBIdentifier name" "?remote = Some remote" "run_maria e (?ss remote) db = (ok, db1)" "db' = db1"
    | ok db1 enc remote where "ValidDBIdentifier name" "?remote = Some remote" "run_maria e (?ss remote) db = (ok, db1)"
      "insert_account key e \<lparr>da_id = 0, da_domain = d, da_user = user, da_name = name, da_pass = enc\<rparr> db1 = (err, db')"
    using c unfolding MySQLCreateDBForUser_def by (auto split: if_splits prod.splits bool.splits sum.splits option.splits)
  moreover have r: "ns_ok db db1" if "ValidDBIdentifier name" "?remote = Some remote" "run_maria e (?ss remote) db = (ok, db1)" for ok db1 remote
  proof (rule ns_run [OF inv that(3)])
    have g: "ns_grant (systems_of db) (GrantSchema name, user, h)" for h by (rule ns_names_grant [OF names that(1)])
    then have "list_all (statement_within (ns_grant (systems_of db))) remote"
      by (intro hosts_within [OF that(2)]) (simp add: statement_within_def)
    then show "list_all (statement_within (ns_grant (systems_of db))) (?ss remote)" using g by (simp add: statement_within_def)
  qed
  ultimately show ?thesis
  proof cases
    case (3 ok db1 enc remote)
    have "ns_ok db1 db'" using ns_insert [OF _ _ 3(4)] r [OF 3(1-3)] names by (simp add: ns_ok_def)
    then show ?thesis using ns_ok_trans r [OF 3(1-3)] by blast
  qed (use inv ns_ok_refl in blast)+
qed

text \<open>Operations whose statements grant nothing and whose rows are those there were.\<close>

definition grants_nothing :: "root_sql \<Rightarrow> bool" where
  "grants_nothing s = (case s of SqlGrant p a \<Rightarrow> False | _ \<Rightarrow> True)"

lemma ns_run_silent:
  assumes "ns_inv db" "run_maria e ss db = (ok, db')" "list_all grants_nothing ss"
  shows "ns_ok db db'"
  by (rule ns_run [OF assms(1,2)])
     (use assms(3) in \<open>auto simp: list_all_iff grants_nothing_def statement_within_def split: root_sql.splits\<close>)

lemma trim_right_keeps_first:
  "\<not> ascii_space c \<Longrightarrow> byte c < 128 \<Longrightarrow> hd (trim_space_right (c # s)) = c \<and> trim_space_right (c # s) \<noteq> []"
proof (induction "length s" arbitrary: s rule: less_induct)
  case less
  show ?case
  proof (cases "space_suffix_width (c # s) = 0")
    case True
    then show ?thesis by (simp add: trim_space_right.simps [of "c # s"])
  next
    case False
    have "space_width (c # s) = 0" using less.prems by (auto simp: space_width_def split: list.split)
    then have k: "space_suffix_width (c # s) \<le> length s"
    proof (cases s)
      case (Cons x xs)
      then show ?thesis using \<open>space_width (c # s) = 0\<close> less.prems
        by (cases xs) (auto simp: space_suffix_width_def Suc_le_eq split: if_splits)
    qed (use less.prems in \<open>simp add: space_suffix_width_def\<close>)
    then have "take (length (c # s) - space_suffix_width (c # s)) (c # s) = c # take (length s - space_suffix_width (c # s)) s"
      by (simp add: Suc_diff_le)
    moreover have "length (take (length s - space_suffix_width (c # s)) s) < length s" using False k by simp
    ultimately show ?thesis using less False by (simp add: trim_space_right.simps [of "c # s"])
  qed
qed

lemma ns_user_not_blank:
  assumes "ns_names systems name user" "list_all (\<lambda>sk. has_prefix sk ''c_'') systems"
  shows "trim_space user \<noteq> []"
proof -
  obtain sk where "sk \<in> set systems" "in_ns sk user" using assms(1) by (auto simp: ns_names_def)
  then have "take (Suc (length sk)) user = sk @ ''_''" "take 2 sk = ''c_''"
    using assms(2) by (auto simp: in_ns_def has_prefix_def list_all_iff numeral_2_eq_2)
  then obtain t where u: "user = CHR ''c'' # t" by (cases user; cases sk) auto
  have "\<not> ascii_space (CHR ''c'')" "byte (CHR ''c'') < 128" by (simp_all add: ascii_space_def byte_def byte_in_def)
  then have "space_width (CHR ''c'' # t) = 0" by (auto simp: space_width_def split: list.split)
  then show ?thesis using trim_right_keeps_first [of "CHR ''c''" t] \<open>byte (CHR ''c'') < 128\<close> \<open>\<not> ascii_space (CHR ''c'')\<close> u
    by (simp add: trim_space_def trim_space_left.simps [of "CHR ''c'' # t"])
qed

lemma ns_rows:
  assumes "ns_inv db" "list_all (\<lambda>r. ns_names (systems_of db) (da_name r) (da_user r)) (ac_rows db')"
    "ac_maria db' = ac_maria db" "ac_domains db' = ac_domains db"
  shows "ns_ok db db'"
  using assms by (simp add: ns_ok_def ns_inv_def systems_of_def grants_within_def)

lemma grants_nothing_simps [simp]:
  "grants_nothing (SqlCreateDatabase n)" "grants_nothing (SqlCreateUser l a p ssl)" "grants_nothing (SqlAlterUser a p ssl)"
  "grants_nothing (SqlRevoke s a)" "grants_nothing (SqlDropUser a)" "grants_nothing (SqlDropDatabase n)" "grants_nothing SqlFlush"
  by (simp_all add: grants_nothing_def)

lemma hosts_silent:
  "remoteHostStatements key e u build db = Some ss \<Longrightarrow> (\<And>h. list_all grants_nothing (build h)) \<Longrightarrow> list_all grants_nothing ss"
  by (auto simp: remoteHostStatements_def list_all_iff split: option.splits if_splits)

lemma ns_drop:
  assumes inv: "ns_inv db" and d: "MySQLDropDB key e name user db = (err, db')"
  shows "ns_ok db db'"
proof -
  let ?remote = "remoteHostStatements key e user (\<lambda>host. [SqlDropUser (user, host)]) db"
  consider "db' = db" | ok db1 remote where "?remote = Some remote"
      "run_maria e ([SqlDropDatabase name, SqlDropUser (user, local_host)] @ remote @ [SqlFlush]) db = (ok, db1)"
      "set (ac_rows db') \<subseteq> set (ac_rows db1)" "ac_maria db' = ac_maria db1" "ac_domains db' = ac_domains db1"
    using d unfolding MySQLDropDB_def by (auto simp: Let_def split: if_splits prod.splits bool.splits option.splits)
  then show ?thesis
  proof cases
    case (2 ok db1 remote)
    have "list_all grants_nothing remote" by (rule hosts_silent [OF 2(1)]) simp
    then have "ns_ok db db1" using ns_run_silent [OF inv 2(2)] by simp
    moreover have "ns_ok db1 db'" using calculation 2 by (intro ns_fewer) (auto simp: ns_ok_def)
    ultimately show ?thesis by (rule ns_ok_trans)
  qed (use inv ns_ok_refl in blast)
qed

lemma ns_drop_keep_user:
  assumes inv: "ns_inv db" and d: "MySQLDropDBKeepUser key e name db = (err, db')"
  shows "ns_ok db db'"
proof -
  consider "db' = db" | ok db1 where "run_maria e [SqlDropDatabase name] db = (ok, db1)"
      "set (ac_rows db') \<subseteq> set (ac_rows db1)" "ac_maria db' = ac_maria db1" "ac_domains db' = ac_domains db1"
    using d unfolding MySQLDropDBKeepUser_def by (auto split: if_splits prod.splits bool.splits)
  then show ?thesis
  proof cases
    case (2 ok db1)
    then have "ns_ok db db1" using ns_run_silent [OF inv 2(1)] by simp
    moreover have "ns_ok db1 db'" using calculation 2 by (intro ns_fewer) (auto simp: ns_ok_def)
    ultimately show ?thesis by (rule ns_ok_trans)
  qed (use inv ns_ok_refl in blast)
qed

lemma ns_drop_all: "ns_inv db \<Longrightarrow> drop_all key e rs db = (ok, db') \<Longrightarrow> ns_ok db db'"
proof (induction key e rs db arbitrary: ok db' rule: drop_all.induct)
  case (2 key e r rs db)
  obtain err db1 where d: "MySQLDropDB key (e 0) (da_name r) (da_user r) db = (err, db1)" by fastforce
  obtain ok1 db2 where r: "drop_all key (\<lambda>i. e (Suc i)) rs db1 = (ok1, db2)" by fastforce
  have "ns_ok db db1" by (rule ns_drop [OF 2(2) d])
  moreover have "ns_ok db1 db2" using 2(1) [OF d [symmetric]] calculation r by (simp add: ns_ok_def)
  ultimately show ?case using 2(3) d r ns_ok_trans by auto
qed (simp add: ns_ok_refl)

lemma ns_drop_domain: "ns_inv db \<Longrightarrow> MySQLDropAllForDomain key readable e d db = (ok, db') \<Longrightarrow> ns_ok db db'"
  by (auto simp: MySQLDropAllForDomain_def ns_ok_refl split: if_splits intro: ns_drop_all)

lemma ns_change_password:
  assumes inv: "ns_inv db" and d: "MySQLChangePassword key e user pass db = (err, db')"
  shows "ns_ok db db'"
proof -
  let ?remote = "remoteHostStatements key e user (\<lambda>host. [SqlAlterUser (user, host) pass False]) db"
  consider "db' = db" | ok db1 remote enc where "?remote = Some remote"
      "run_maria e ([SqlAlterUser (user, local_host) pass False] @ remote @ [SqlFlush]) db = (ok, db1)"
      "db' = db1 \<or> db' = db1\<lparr>ac_rows := map (\<lambda>r. if key (da_user r) = key user then r\<lparr>da_pass := enc\<rparr> else r) (ac_rows db1)\<rparr>"
    using d unfolding MySQLChangePassword_def by (auto split: if_splits prod.splits bool.splits option.splits sum.splits)
  then show ?thesis
  proof cases
    case (2 ok db1 remote enc)
    have "list_all grants_nothing remote" by (rule hosts_silent [OF 2(1)]) simp
    then have o: "ns_ok db db1" using ns_run_silent [OF inv 2(2)] by simp
    moreover have "ns_ok db1 db'" using o 2(3)
      by (intro ns_rows) (auto simp: ns_ok_def ns_inv_def list_all_iff)
    ultimately show ?thesis by (rule ns_ok_trans)
  qed (use inv ns_ok_refl in blast)
qed

text \<open>A grant within a namespace is escaped already, so the repair leaves it alone.\<close>

lemma escaped_underscore: "list_all mysql_ident_char n \<Longrightarrow> CHR ''_'' \<in> set n \<Longrightarrow> CHR 0x5C \<in> set (GrantSchema n)"
  by (auto simp: GrantSchema_ident)

lemma in_ns_underscore: "in_ns sk n \<Longrightarrow> CHR ''_'' \<in> set n"
  using set_take_subset [of "Suc (length sk)" n] by (auto simp: in_ns_def has_prefix_def)

lemma ns_grant_sound: "ns_grant systems g \<Longrightarrow> \<not> needsEscape g"
  using escaped_underscore in_ns_underscore by (force simp: ns_grant_def needsEscape_def ValidDBIdentifier_def)

lemma heal_nothing:
  assumes "ns_inv db"
  shows "HealGrantWildcards owned readable dead db = db"
proof -
  have none: "filter needsEscape (ma_grants (ac_maria db)) = []"
    using assms ns_grant_sound by (auto simp: ns_inv_def grants_within_def list_all_iff filter_empty_conv)
  show ?thesis by (simp add: HealGrantWildcards_def none)
qed

lemma planned_names:
  assumes "planDatabase key e d sk generated req db = Inr plan"
  shows "in_ns sk (pl_name plan) \<and> in_ns sk (pl_user plan)"
proof -
  have "in_ns sk (sk @ CHR ''_'' # u)" for u by simp
  then show ?thesis using assms
    by (auto simp: planDatabase_def planExistingUser_def planNewUser_def planNewUserPassword_def Let_def
        ValidCustomerDBIdentifier_def in_ns_def split: if_splits)
qed

lemma plan_create_names:
  assumes "plan_create key e readable quota generated idParam body db = Inr (d, plan)"
  shows "ns_names (systems_of db) (pl_name plan) (pl_user plan)"
proof -
  obtain sk req where "map_of (ac_domains db) d = Some sk" and p: "planDatabase key e d sk generated req db = Inr plan"
    using assms by (auto simp: plan_create_def Let_def split: option.splits if_splits sum.splits)
  then have "sk \<in> set (systems_of db)" using map_of_SomeD by (force simp: systems_of_def)
  then show ?thesis using planned_names [OF p] by (auto simp: ns_names_def)
qed

lemma ns_created:
  "ns_inv db \<Longrightarrow> ns_names (systems_of db) (pl_name plan) (pl_user plan) \<Longrightarrow> createPlannedDatabase key e d plan db = (code, db') \<Longrightarrow>
   ns_ok db db'"
  by (auto simp: createPlannedDatabase_def split: if_splits prod.splits option.splits intro: ns_create ns_create_for_user)

lemma ns_deleted:
  "ns_inv db \<Longrightarrow> DeleteDatabase key e readable param db = (code, db') \<Longrightarrow> ns_ok db db'"
  by (auto simp: DeleteDatabase_def Let_def ns_ok_refl split: if_splits prod.splits option.splits intro: ns_drop ns_drop_keep_user)

definition tenant_systems :: "string list \<Rightarrow> bool" where
  "tenant_systems systems = list_all (\<lambda>sk. has_prefix sk ''c_'') systems"

lemma row_by_id_mem: "row_by_id i db = Some r \<Longrightarrow> r \<in> set (ac_rows db)"
  unfolding row_by_id_def by (metis (no_types, lifting) find_Some_iff nth_mem)

lemma ns_set_password:
  assumes "ns_inv db" "tenant_systems (systems_of db)" "SetDatabasePassword key e readable generated param body db = (code, db')"
  shows "ns_ok db db'"
proof -
  have "trim_space (da_user r) \<noteq> []" if "row_by_id i db = Some r" for i r
    using row_by_id_mem [OF that] assms(1,2) ns_user_not_blank
    by (auto simp: ns_inv_def list_all_iff tenant_systems_def)
  then show ?thesis using assms
    by (auto simp: SetDatabasePassword_def ns_ok_refl split: if_splits prod.splits option.splits intro: ns_change_password)
qed

section \<open>Every interleaving\<close>

text \<open>
  From an empty server: domains appear; a request to create a database plans (its checks and reads) and is
  carried out later, or never, or after others; deletes, password changes, the removal of a domain's
  databases and the repair of grants fall in between, each with any failures.
\<close>

inductive db_run :: "(string \<Rightarrow> 'k) \<Rightarrow> dbacc \<Rightarrow> (int \<times> databasePlan) list \<Rightarrow> bool" for key where
  start: "ac_domains db = [] \<Longrightarrow> ac_rows db = [] \<Longrightarrow> ma_grants (ac_maria db) = [] \<Longrightarrow> db_run key db []"
| domain: "db_run key db plans \<Longrightarrow> has_prefix sk ''c_'' \<Longrightarrow> db_run key (db\<lparr>ac_domains := (d, sk) # ac_domains db\<rparr>) plans"
| plan: "db_run key db plans \<Longrightarrow> plan_create key e readable quota generated idParam body db = Inr p \<Longrightarrow> db_run key db (p # plans)"
| create: "db_run key db plans \<Longrightarrow> (d, plan) \<in> set plans \<Longrightarrow> createPlannedDatabase key e d plan db = (code, db') \<Longrightarrow>
    db_run key db' plans"
| delete: "db_run key db plans \<Longrightarrow> DeleteDatabase key e readable param db = (code, db') \<Longrightarrow> db_run key db' plans"
| password: "db_run key db plans \<Longrightarrow> SetDatabasePassword key e readable generated param body db = (code, db') \<Longrightarrow> db_run key db' plans"
| drop: "db_run key db plans \<Longrightarrow> MySQLDropAllForDomain key readable es d db = (ok, db') \<Longrightarrow> db_run key db' plans"
| heal: "db_run key db plans \<Longrightarrow> db_run key (HealGrantWildcards owned readable dead db) plans"

definition plans_named :: "dbacc \<Rightarrow> (int \<times> databasePlan) list \<Rightarrow> bool" where
  "plans_named db plans = list_all (\<lambda>p. ns_names (systems_of db) (pl_name (snd p)) (pl_user (snd p))) plans"

lemma ns_names_mono: "ns_names ss n u \<Longrightarrow> ns_names (s # ss) n u"
  by (auto simp: ns_names_def)

lemma ns_grant_mono: "ns_grant ss g \<Longrightarrow> ns_grant (s # ss) g"
  by (auto simp: ns_grant_def)

lemma ns_new_domain: "ns_inv db \<Longrightarrow> ns_inv (db\<lparr>ac_domains := (d, sk) # ac_domains db\<rparr>)"
  by (auto simp: ns_inv_def systems_of_def grants_within_def list_all_iff intro: ns_grant_mono ns_names_mono)

lemma plans_new_domain: "plans_named db plans \<Longrightarrow> plans_named (db\<lparr>ac_domains := (d, sk) # ac_domains db\<rparr>) plans"
  by (auto simp: plans_named_def systems_of_def list_all_iff intro: ns_names_mono)

lemma db_run_inv: "db_run key db plans \<Longrightarrow> ns_inv db \<and> tenant_systems (systems_of db) \<and> plans_named db plans"
proof (induction rule: db_run.induct)
  case (start db)
  then show ?case by (simp add: ns_inv_def grants_within_def systems_of_def tenant_systems_def plans_named_def)
next
  case (domain db plans sk d)
  then show ?case using ns_new_domain plans_new_domain by (auto simp: tenant_systems_def systems_of_def)
next
  case (plan db plans e readable quota generated idParam body p)
  then show ?case using plan_create_names [of key e readable quota generated idParam body db "fst p" "snd p"] by (simp add: plans_named_def)
next
  case (create db plans d plan e code db')
  then have "ns_names (systems_of db) (pl_name plan) (pl_user plan)" by (auto simp: plans_named_def list_all_iff)
  then have "ns_ok db db'" using create ns_created by blast
  then show ?case using create by (simp add: ns_ok_def plans_named_def)
next
  case (delete db plans e readable param code db')
  then show ?case using ns_deleted by (fastforce simp: ns_ok_def plans_named_def)
next
  case (password db plans e readable generated param body code db')
  then have "ns_ok db db'" using ns_set_password by blast
  then show ?case using password by (simp add: ns_ok_def plans_named_def)
next
  case (drop db plans readable es d ok db')
  then show ?case using ns_drop_domain by (fastforce simp: ns_ok_def plans_named_def)
qed (simp add: heal_nothing)

definition systems_separate :: "string list \<Rightarrow> bool" where
  "systems_separate systems = list_all (\<lambda>a. list_all (\<lambda>b. a = b \<or> \<not> in_ns a b) systems) systems"

lemma namespaces_disjoint:
  assumes "systems_separate systems" "a \<in> set systems" "b \<in> set systems" "in_ns a s" "in_ns b s"
  shows "a = b"
proof -
  have nest: "in_ns a b" if "in_ns a s" "in_ns b s" "length a < length b" for a b
  proof -
    have "take (Suc (length a)) b = take (Suc (length a)) (take (length b) (take (Suc (length b)) s))"
      using that(2) by (simp add: in_ns_def has_prefix_def)
    also have "\<dots> = take (Suc (length a)) s" using that(3) by (simp add: min_def)
    finally show ?thesis using that(1) by (simp add: in_ns_def has_prefix_def)
  qed
  have "a = b" if "length a = length b" using assms(4,5) that by (simp add: in_ns_def has_prefix_def)
  moreover have "in_ns a b \<Longrightarrow> a = b" "in_ns b a \<Longrightarrow> a = b"
    using assms(1-3) by (auto simp: systems_separate_def list_all_iff)
  ultimately show ?thesis using nest [of a b] nest [of b a] assms(4,5) by (cases "length a" "length b" rule: linorder_cases) auto
qed


text \<open>Two tenants; the first makes a database with its own user, all statements working.\<close>

definition quiet_maria :: maria where
  "quiet_maria = \<lparr>ma_schemas = [], ma_users = [], ma_grants = []\<rparr>"

definition two_tenants :: "string \<Rightarrow> string \<Rightarrow> dbacc" where
  "two_tenants a b = \<lparr>ac_domains = [(2, b), (1, a)], ac_rows = [], ac_hosts = [], ac_next = 1, ac_maria = quiet_maria\<rparr>"

definition working_env :: dba_env where
  "working_env = \<lparr>de_owner = True, de_stored = True, de_hosts = True, de_count = True, de_dead = None,
     de_gcm = Some toy_aead, de_nonce = Some ''N'', de_write = True\<rparr>"

definition with_user :: "string \<Rightarrow> string \<Rightarrow> createDBReq" where
  "with_user sfx user = \<lparr>cr_auto = False, cr_suffix = sfx, cr_mode = ''new'', cr_user = user, cr_existing = [], cr_password = []\<rparr>"

lemma two_tenants_run:
  assumes "has_prefix a ''c_''" "has_prefix b ''c_''"
  shows "db_run key (two_tenants a b) []"
proof -
  have "db_run key \<lparr>ac_domains = [], ac_rows = [], ac_hosts = [], ac_next = 1, ac_maria = quiet_maria\<rparr> []"
    by (rule db_run.start) (simp_all add: quiet_maria_def)
  from db_run.domain [OF db_run.domain [OF this assms(1), of 1] assms(2), of 2] show ?thesis by (simp add: two_tenants_def)
qed

definition acme_plan :: databasePlan where
  "acme_plan = \<lparr>pl_name = ''c_acme_wp'', pl_user = ''c_acme_app'', pl_password = ''kMnp23456789'', pl_existing = False\<rparr>"

definition acme_db :: dbacc where
  "acme_db = snd (createPlannedDatabase id working_env 1 acme_plan (two_tenants ''c_acme'' ''c_bolt''))"

lemma acme_db_run: "db_run id acme_db [(1, acme_plan)]"
proof -
  have "plan_create id working_env True None ''kMnp23456789'' ''1'' (Some (with_user ''wp'' ''app'')) (two_tenants ''c_acme'' ''c_bolt'')
      = Inr (1, acme_plan)" by code_simp
  then have "db_run id (two_tenants ''c_acme'' ''c_bolt'') [(1, acme_plan)]"
    using db_run.plan two_tenants_run [of "''c_acme''" "''c_bolt''" id] by (force simp: has_prefix_def)
  then show ?thesis unfolding acme_db_def by (rule db_run.create [OF _ _ surjective_pairing]) simp_all
qed


section \<open>Where a namespace holds another\<close>

text \<open>
  \<open>c_shop_com_2\<close> is what a second domain is called whose own name is taken. Below a tenant \<open>c_shop_com\<close> names a
  database within that namespace.
\<close>

definition requests :: "(string \<Rightarrow> string) \<Rightarrow> (dba_env \<times> string \<times> createDBReq) list \<Rightarrow> dbacc \<Rightarrow> int list \<times> dbacc" where
  "requests key rs db = foldl (\<lambda>(codes, db) (e, param, req).
     case CreateDatabase key e working_env True None ''kMnp23456789'' param (Some req) db of (code, db) \<Rightarrow> (codes @ [code], db)) ([], db) rs"

definition shops :: dbacc where
  "shops = two_tenants ''c_shop_com'' ''c_shop_com_2''"

definition with_existing :: "string \<Rightarrow> string \<Rightarrow> createDBReq" where
  "with_existing sfx user = \<lparr>cr_auto = False, cr_suffix = sfx, cr_mode = ''existing'', cr_user = [], cr_existing = user, cr_password = []\<rparr>"

text \<open>The collision count fails: the request is answered 500, the neighbour's schema is granted.\<close>

theorem unread_collision_reaches_neighbour:
  "case requests id [(working_env, ''2'', with_user ''wp'' ''app''),
      (working_env\<lparr>de_count := False\<rparr>, ''1'', with_user ''2_wp'' ''x'')] shops of (codes, db) \<Rightarrow>
     codes = [201, 500] \<and> reaches (ac_maria db) (''c_shop_com_x'', ''localhost'') ''c_shop_com_2_wp''"
  by code_simp

text \<open>Both requests pass the collision count before either inserts its row.\<close>

theorem racing_creations_reach_neighbour:
  "case plan_create id working_env True None ''kMnp23456789'' ''2'' (Some (with_user ''wp'' ''app'')) shops of
     Inl _ \<Rightarrow> False
   | Inr p \<Rightarrow>
       (case plan_create id working_env True None ''kMnp23456789'' ''1'' (Some (with_user ''2_wp'' ''x'')) shops of
          Inl _ \<Rightarrow> False
        | Inr q \<Rightarrow>
            (case createPlannedDatabase id working_env (fst p) (snd p) shops of (code1, db) \<Rightarrow>
               (case createPlannedDatabase id working_env (fst q) (snd q) db of (code2, db) \<Rightarrow>
                  code1 = 201 \<and> code2 = 500 \<and> reaches (ac_maria db) (''c_shop_com_x'', ''localhost'') ''c_shop_com_2_wp'')))"
  by code_simp

text \<open>
  With no failure at all, a database deleted while its user keeps another leaves that user's grant behind: whoever is given the
  name next, a neighbour here, shares the new database with the old user.
\<close>
theorem kept_user_keeps_the_grant:
  "case requests id [(working_env, ''1'', with_user ''main'' ''x''), (working_env, ''1'', with_existing ''2_wp'' ''c_shop_com_x'')] shops of
     (created, db) \<Rightarrow>
       (case DeleteDatabase id working_env True ''2'' db of (deleted, db) \<Rightarrow>
          (case requests id [(working_env, ''2'', with_user ''wp'' ''app'')] db of (again, db) \<Rightarrow>
             created = [201, 201] \<and> deleted = 200 \<and> again = [201] \<and>
             reaches (ac_maria db) (''c_shop_com_x'', ''localhost'') ''c_shop_com_2_wp''))"
  by code_simp

end
