(* ===== verification/RemoteAccessSafety.thy ===== *)
theory RemoteAccessSafety
  imports RemoteAccess DbAccountsSafety
begin

text \<open>
  Remote access to the databases: what the switch leaves behind when it fails, that an address that was added
  opens the account and the port to the same clients, that it grants no schema of another domain, and where an
  account is lost or the port is left open to everybody.
\<close>

section \<open>The switch\<close>


section \<open>Running the grants\<close>

lemma run_grants:
  "map_of (ma_users m) a \<noteq> None \<Longrightarrow> \<exists>m'. run_statements (map (\<lambda>n. SqlGrant (GrantSchema n) a) ns @ [SqlFlush]) m = (True, m') \<and>
     ma_users m' = ma_users m \<and> set (ma_grants m') = set (ma_grants m) \<union> (\<lambda>n. (GrantSchema n, a)) ` set ns"
proof (induction ns arbitrary: m)
  case (Cons n ns)
  let ?m = "m\<lparr>ma_grants := List.insert (GrantSchema n, a) (ma_grants m)\<rparr>"
  show ?case using Cons.IH [of ?m] Cons.prems by auto
qed simp

lemma grant_remote_ok:
  assumes "MySQLGrantRemote e user host pass names db = (None, db')"
  shows "map_of (ma_users (ac_maria db')) (user, host) = Some (pass, True) \<and>
    set (ma_grants (ac_maria db')) = set (ma_grants (ac_maria db)) \<union> (\<lambda>n. (GrantSchema n, user, host)) ` set names \<and>
    list_all ValidDBIdentifier names \<and> ac_rows db' = ac_rows db \<and> ac_hosts db' = ac_hosts db \<and> ac_domains db' = ac_domains db"
proof -
  let ?a = "(user, host)"
  let ?rest = "map (\<lambda>n. SqlGrant (GrantSchema n) ?a) names @ [SqlFlush]"
  let ?ss = "[SqlCreateUser True ?a pass True, SqlAlterUser ?a pass True] @ ?rest"
  have v: "list_all ValidDBIdentifier names" and r: "run_maria e ?ss db = (True, db')"
    using assms by (auto simp: MySQLGrantRemote_def split: if_splits prod.splits)
  have run: "run_statements ?ss (ac_maria db) = (True, ac_maria db')"
    using r by (auto simp: run_maria_def runRootSQL_def split: option.splits prod.splits)
  define m1 where "m1 = (if map_of (ma_users (ac_maria db)) ?a \<noteq> None then ac_maria db
    else (ac_maria db)\<lparr>ma_users := (?a, pass, True) # ma_users (ac_maria db)\<rparr>)"
  define m2 where "m2 = m1\<lparr>ma_users := AList.update ?a (pass, True) (ma_users m1)\<rparr>"
  have m1: "exec_sql (SqlCreateUser True ?a pass True) (ac_maria db) = Some m1" by (simp add: m1_def)
  have "map_of (ma_users m1) ?a \<noteq> None" by (auto simp: m1_def)
  then have m2: "exec_sql (SqlAlterUser ?a pass True) m1 = Some m2" by (auto simp: m2_def)
  have "run_statements ?rest m2 = (True, ac_maria db')" using run m1 m2 by simp
  moreover have "map_of (ma_users m2) ?a = Some (pass, True)" by (simp add: m2_def update_conv)
  moreover have "ma_grants m2 = ma_grants (ac_maria db)" by (simp add: m2_def m1_def)
  ultimately show ?thesis using run_grants [of m2 ?a names] v run_maria_frame [OF r] by auto
qed

section \<open>The account and the firewall rule\<close>

text \<open>An address as it is on the wire: of four bytes, or of sixteen that embed none of four.\<close>

definition wire_address :: "IP \<Rightarrow> bool" where
  "wire_address client = (length client = 4 \<or> length client = 16 \<and> To4 client = None)"

lemma canonical_To4: "To4 (v4InV6Prefix @ a) = (if length a = 4 then Some a else None)"
  by (auto simp: To4_def v4InV6Prefix_def)

lemma single_rule:
  assumes "single_host ip (cidr, host)" "wire_address client" "source_matches cidr client"
  shows "validIP cidr \<and> nft_source cidr client"
proof -
  have l: "length ip = 4 \<or> length ip = 16" and r: "cidr = IP_String ip" using assms(1) by (auto simp: single_host_def)
  have p: "ParseIP cidr = Some (canonical16 ip)" using ParseIP_String [OF l] r by simp
  have "CHR ''/'' \<notin> set cidr" unfolding r
    using string6_chars no_slash by (fastforce simp: IP_String_def list_all_iff is_hex_def byte_in_def byte_def split: option.splits)
  then have s: "saddr_ip6 cidr = (To4 (canonical16 ip) = None)" using p by (simp add: saddr_ip6_def cut_at_absent)
  have "IP_Equal (canonical16 ip) client" using assms(3) p by (simp add: source_matches_def)
  moreover have "length (canonical16 ip) = 16" using l by (auto simp: canonical16_4 v4InV6Prefix_def)
  ultimately have "length client = (if saddr_ip6 cidr then 16 else 4)"
    using assms(2) by (auto simp: s IP_Equal_def wire_address_def canonical_To4 split: if_splits)
  then show ?thesis using assms(3) p IP_String_nonempty [OF l] r by (simp add: nft_source_def validIP_def)
qed

lemma range_rule:
  assumes "range_host b n (cidr, host)" "wire_address client" "source_matches cidr client"
  shows "validIP cidr \<and> nft_source cidr client"
proof -
  have b: "length b = 4" "n < 32" "based (b, CIDRMask n 4)" "cidr = IPNet_String (b, CIDRMask n 4)" using assms(1) by (auto simp: range_host_def)
  have p: "ParseCIDR cidr = Some (v4InV6Prefix @ b, (b, CIDRMask n 4))" using b ParseCIDR_String [of b n] by simp
  have "CHR ''/'' \<notin> set (string4 b)" using no_slash by blast
  then have "fst (cut_at (CHR ''/'') cidr) = string4 b" using b cut_at_first [of "CHR ''/''" "string4 b" "digits_of n"] by (simp add: range_text)
  then have s: "\<not> saddr_ip6 cidr" using ParseIP_String [of b] b(1) by (simp add: saddr_ip6_def IP_String_4 canonical16_4 canonical_To4)
  have "IPNet_Contains (b, CIDRMask n 4) client" using assms(3) p range_text_not_address [of b n] b by (simp add: source_matches_def)
  then have "length client = 4" using assms(2) b(1) by (auto simp: wire_address_def IPNet_Contains_def)
  then show ?thesis using assms(3) p s b by (auto simp: nft_source_def validIP_def range_text)
qed

lemma host_rule:
  assumes "ParseHost s = Inr (cidr, host)" "wire_address client" "maria_host_matches host client"
  shows "validIP cidr \<and> nft_source cidr client"
proof -
  have "length client = 4 \<or> length client = 16" using assms(2) by (auto simp: wire_address_def)
  then have "source_matches cidr client" using host_agrees [OF assms(1)] assms(3) by simp
  then show ?thesis using ParseHost_shape [OF assms(1)] single_rule range_rule assms(2) by blast
qed

text \<open>What an answered addition did.\<close>

lemma DomainAdd_200:
  assumes "DomainAdd key e e2 fe reads shown param (Some (user, host)) st = (200, st')"
  obtains d cidr mhost pass db1 db2 st2 where "domainParam param = Some d" "ra_switch st" "ParseHost host = Inr (cidr, mhost)"
    "ownedAccount key e d user (ra_db st) = Inr (pass, map da_name (own_rows key d user (ra_db st)))"
    "MySQLGrantRemote e user mhost pass (map da_name (own_rows key d user (ra_db st))) (ra_db st) = (None, db1)"
    "insert_host key e \<lparr>rh_id = 0, rh_domain = d, rh_user = user, rh_cidr = cidr, rh_mysql = mhost\<rparr> db1 = (None, db2)"
    "rebuild_remote fe (st\<lparr>ra_db := db2\<rparr>) = (True, st')"
proof -
  obtain d cidr mhost pass names db1 db2 where 1: "domainParam param = Some d" "ra_switch st" "ParseHost host = Inr (cidr, mhost)"
    "ownedAccount key e d user (ra_db st) = Inr (pass, names)" "MySQLGrantRemote e user mhost pass names (ra_db st) = (None, db1)"
    "recordHost key e e2 d user cidr mhost db1 = (None, db2)" "rebuild_remote fe (st\<lparr>ra_db := db2\<rparr>) = (True, st')"
    using assms unfolding DomainAdd_def ownedAccount_def recordHost_def insert_host_def
    by (auto simp: Let_def split: option.splits if_splits sum.splits prod.splits bool.splits)
  have "names = map da_name (own_rows key d user (ra_db st))" using 1(4) by (auto simp: ownedAccount_def Let_def split: if_splits sum.splits)
  moreover have "insert_host key e \<lparr>rh_id = 0, rh_domain = d, rh_user = user, rh_cidr = cidr, rh_mysql = mhost\<rparr> db1 = (None, db2)"
    using 1(6) by (auto simp: recordHost_def split: prod.splits option.splits)
  ultimately show ?thesis using 1 that by blast
qed

lemma rebuild_remote_state: "rebuild_remote fe st = (ok, st') \<Longrightarrow> ra_db st' = ra_db st"
  by (auto simp: rebuild_remote_def split: prod.splits)

lemma rebuild_remote_policy:
  assumes "rebuild_remote fe st = (True, st')" "fe_cut fe = None"
  shows "accepts (ra_fw st') p = policy (fw_rules (ra_fw st)) (fw_sets (ra_fw st')) (remote_view st) p"
proof -
  obtain fw where "rebuild fe (remote_view st) (ra_fw st) = (True, fw)" "st' = st\<lparr>ra_fw := fw\<rparr>"
    using assms(1) by (auto simp: rebuild_remote_def Reapply_def split: prod.splits)
  then show ?thesis using running_ruleset_is_policy_aux [OF _ assms(2)] by simp
qed

text \<open>The operator's own rules and country blocks leave a packet alone.\<close>

definition unblocked :: "firewall \<Rightarrow> packet \<Rightarrow> bool" where
  "unblocked fw p = (\<not> from_country (fw_sets fw) p \<and> \<not> allowlist_port (fw_rules fw) p \<and> \<not> port_of ''close'' (fw_rules fw) p \<and>
     \<not> listed ''banned'' (fw_rules fw) p)"

definition database_packet :: "IP \<Rightarrow> packet" where
  "database_packet client = \<lparr>pk_established = False, pk_loopback = False, pk_proto = ''tcp'', pk_port = 3306, pk_src = client\<rparr>"


text \<open>While the switch is on, and a rebuild worked, nobody else reaches the database port from outside but those the operator lists.\<close>

theorem database_port_guarded:
  assumes "rebuild_remote fe st = (True, st')" "fe_cut fe = None" "ra_switch st"
    and "accepts (ra_fw st') (database_packet client)"
  shows "listed ''whitelist'' (fw_rules (ra_fw st)) (database_packet client) \<or>
    (\<exists>h \<in> set (ac_hosts (ra_db st)). nft_source (rh_cidr h) client)"
  using assms rebuild_remote_policy [OF assms(1,2), of "database_packet client"]
  by (auto simp: policy_def database_packet_def database_port_open_def remote_view_def list_ex_iff split: if_splits)

section \<open>Only the domain's own schemas\<close>

lemma grant_remote_within:
  assumes "MySQLGrantRemote e user host pass names db = (err, db')" "grants_within P db"
    "\<And>n. n \<in> set names \<Longrightarrow> P (GrantSchema n, user, host)"
  shows "grants_within P db'"
proof -
  let ?ss = "[SqlCreateUser True (user, host) pass True, SqlAlterUser (user, host) pass True] @
    map (\<lambda>n. SqlGrant (GrantSchema n) (user, host)) names @ [SqlFlush]"
  have "list_all (statement_within P) ?ss" using assms(3) by (auto simp: statement_within_def list_all_iff)
  then show ?thesis using assms(1,2) run_maria_within [of e ?ss db]
    by (auto simp: MySQLGrantRemote_def split: if_splits prod.splits)
qed

lemma revoke_remote_within:
  assumes "MySQLRevokeRemote e user host db = (err, db')" "grants_within P db"
  shows "grants_within P db'"
proof -
  have "list_all (statement_within P) [SqlDropUser (user, host), SqlFlush]" by (simp add: statement_within_def)
  then show ?thesis using assms run_maria_within [of e "[SqlDropUser (user, host), SqlFlush]" db]
    by (auto simp: MySQLRevokeRemote_def split: if_splits prod.splits)
qed

lemma DomainAdd_cases:
  assumes "DomainAdd key e e2 fe reads shown param body st = (code, st')"
  obtains "ra_db st' = ra_db st"
    | d user host cidr mhost pass err db1 where "domainParam param = Some d" "body = Some (user, host)" "ParseHost host = Inr (cidr, mhost)"
      "MySQLGrantRemote e user mhost pass (map da_name (own_rows key d user (ra_db st))) (ra_db st) = (err, db1)"
      "ac_maria (ra_db st') = ac_maria db1 \<or> (\<exists>db2 err2. ac_maria db2 = ac_maria db1 \<and> MySQLRevokeRemote e2 user mhost db2 = (err2, ra_db st'))"
proof -
  consider "ra_db st' = ra_db st"
    | d user host cidr mhost pass names err db1 where "domainParam param = Some d" "body = Some (user, host)" "ParseHost host = Inr (cidr, mhost)"
      "ownedAccount key e d user (ra_db st) = Inr (pass, names)" "MySQLGrantRemote e user mhost pass names (ra_db st) = (err, db1)"
      "ra_db st' = db1 \<or> (\<exists>code. recordHost key e e2 d user cidr mhost db1 = (code, ra_db st'))"
    using assms rebuild_remote_state unfolding DomainAdd_def
    by (fastforce split: option.splits if_splits sum.splits prod.splits bool.splits)
  then show ?thesis
  proof cases
    case 1
    then show ?thesis by (rule that(1))
  next
    case (2 d user host cidr mhost pass names err db1)
    have n: "names = map da_name (own_rows key d user (ra_db st))" using 2(4) by (auto simp: ownedAccount_def Let_def split: if_splits sum.splits)
    have "ac_maria (ra_db st') = ac_maria db1 \<or> (\<exists>db2 err2. ac_maria db2 = ac_maria db1 \<and> MySQLRevokeRemote e2 user mhost db2 = (err2, ra_db st'))"
      using 2(6)
    proof
      assume "\<exists>code. recordHost key e e2 d user cidr mhost db1 = (code, ra_db st')"
      then obtain code where r: "recordHost key e e2 d user cidr mhost db1 = (code, ra_db st')" by blast
      obtain c db2 where i: "insert_host key e \<lparr>rh_id = 0, rh_domain = d, rh_user = user, rh_cidr = cidr, rh_mysql = mhost\<rparr> db1 = (c, db2)" by fastforce
      then have "ac_maria db2 = ac_maria db1" by (auto simp: insert_host_def split: if_splits)
      then show ?thesis using r i by (cases c) (auto simp: recordHost_def intro!: exI [of _ db2] prod_eqI)
    qed simp
    then show ?thesis using 2 n by (intro that(2)) auto
  qed
qed

theorem remote_grants_own_schemas:
  assumes "DomainAdd key e e2 fe reads shown param (Some (user, host)) st = (code, st')"
    and "(p, a) \<in> set (ma_grants (ac_maria (ra_db st')))" "(p, a) \<notin> set (ma_grants (ac_maria (ra_db st)))"
  shows "\<exists>d r mhost. domainParam param = Some d \<and> r \<in> set (ac_rows (ra_db st)) \<and> da_domain r = d \<and> key (da_user r) = key user \<and>
    a = (user, mhost) \<and> p = GrantSchema (da_name r)"
  using assms(1)
proof (cases rule: DomainAdd_cases)
  case (2 d user' host' cidr mhost pass err db1)
  have u: "user' = user" using 2(2) by simp
  let ?ns = "map da_name (own_rows key d user (ra_db st))"
  define P where "P g = (g \<in> set (ma_grants (ac_maria (ra_db st))) \<or> (\<exists>n \<in> set ?ns. g = (GrantSchema n, user, mhost)))" for g
  have "grants_within P (ra_db st)" by (auto simp: grants_within_def P_def list_all_iff)
  then have "grants_within P db1" by (rule grant_remote_within [OF 2(4) [unfolded u]]) (auto simp: P_def)
  then have "grants_within P (ra_db st')" using 2(5) revoke_remote_within [of e2 user' mhost _ _ "ra_db st'" P] by (auto simp: grants_within_def)
  then have "P (p, a)" using assms(2) by (auto simp: grants_within_def list_all_iff)
  then show ?thesis using assms(3) 2(1) by (auto simp: P_def own_rows_def)
qed (use assms in simp)

section \<open>Withdrawing an address\<close>

theorem withdrawn_address_is_gone:
  assumes "DomainDelete e fe reads shown param hid st = (200, st')"
  shows "\<exists>h \<in> set (ac_hosts (ra_db st)). domainParam hid = Some (rh_id h) \<and> domainParam param = Some (rh_domain h) \<and>
    map_of (ma_users (ac_maria (ra_db st'))) (rh_user h, rh_mysql h) = None \<and> \<not> reaches (ac_maria (ra_db st')) (rh_user h, rh_mysql h) n \<and>
    h \<notin> set (ac_hosts (ra_db st'))"
proof -
  obtain d i h where h: "domainParam param = Some d" "domainParam hid = Some i"
      "find (\<lambda>h. rh_id h = i \<and> rh_domain h = d) (ac_hosts (ra_db st)) = Some h"
    using assms by (auto simp: DomainDelete_def split: option.splits if_splits)
  define db1 where "db1 = (ra_db st)\<lparr>ac_hosts := filter (\<lambda>h. \<not> (rh_id h = i \<and> rh_domain h = d)) (ac_hosts (ra_db st))\<rparr>"
  have "MySQLRevokeRemote e (rh_user h) (rh_mysql h) db1 = (None, ra_db st')"
    using assms h rebuild_remote_state [OF surjective_pairing, of fe "st\<lparr>ra_db := db1\<rparr>"]
    by (auto simp: DomainDelete_def Let_def db1_def split: if_splits prod.splits option.splits)
  then have st1: "MySQLRevokeRemote e (rh_user h) (rh_mysql h) db1 = (None, ra_db st')" .
  let ?a = "(rh_user h, rh_mysql h)"
  have run: "run_maria e [SqlDropUser ?a, SqlFlush] db1 = (True, ra_db st')"
    using st1 by (auto simp: MySQLRevokeRemote_def split: if_splits prod.splits)
  then have m: "ac_maria (ra_db st') = (ac_maria db1)\<lparr>ma_users := AList.delete ?a (ma_users (ac_maria db1)),
      ma_grants := filter (\<lambda>(s, b). b \<noteq> ?a) (ma_grants (ac_maria db1))\<rparr>"
    by (auto simp: run_maria_def runRootSQL_def eq_commute [of _ "ra_db st'"] split: option.splits prod.splits)
  have "rh_id h = i" "rh_domain h = d" "h \<in> set (ac_hosts (ra_db st))" using h(3) by (auto simp: find_Some_iff)
  then show ?thesis using h(1,2) run_maria_frame [OF run]
    by (intro bexI [of _ h]) (auto simp: db1_def m delete_conv reaches_def list_ex_iff)
qed

section \<open>Examples\<close>

definition sample_apply :: apply_env where
  "sample_apply = \<lparr>ap_cert = True, ap_readable = True, ap_write = None, ap_restart = None, ap_ping = True, ap_restore = True, ap_restart2 = None\<rparr>"

definition sample_remote :: "bool \<Rightarrow> remote" where
  "sample_remote on = \<lparr>ra_db = acme_db, ra_fw = applied None ([], []) quiet_view fw_empty, ra_switch = on, ra_file = None, ra_maria = Some None,
     ra_error = [], ra_apps = False, ra_ports = []\<rparr>"

text \<open>
  The switch is turned on and MariaDB restarted, then the row of the settings cannot be written: MariaDB
  listens on every interface, the firewall has no rule for its port, and the panel says the switch is off.
\<close>

theorem port_left_open:
  "case ServerSet ''/etc/ssl/servika/mariadb'' sample_apply [] (fw_fine None no_files) True False True (Some (Some True)) (sample_remote False) of (code, st) \<Rightarrow>
     code = 500 \<and> ra_switch st = False \<and> ra_maria st = Some (Some (drop_in_body ''/etc/ssl/servika/mariadb'')) \<and>
     accepts (ra_fw st) (database_packet [203, 0, 113, 9])"
proof -
  have c: "\<not> portRuleConflict (sample_remote False)" by (simp add: portRuleConflict_def sample_remote_def fw_empty_def)
  have "accepts (ra_fw (sample_remote False)) (database_packet [203, 0, 113, 9])"
    by (simp add: sample_remote_def accepts_applied sample_policy database_packet_def)
  moreover have "fst (apply_switch ''/etc/ssl/servika/mariadb'' sample_apply True (sample_remote False)) = None"
    "ra_fw (snd (apply_switch ''/etc/ssl/servika/mariadb'' sample_apply True (sample_remote False))) = ra_fw (sample_remote False)"
    "ra_switch (snd (apply_switch ''/etc/ssl/servika/mariadb'' sample_apply True (sample_remote False))) = False"
    "ra_maria (snd (apply_switch ''/etc/ssl/servika/mariadb'' sample_apply True (sample_remote False))) = Some (Some (drop_in_body ''/etc/ssl/servika/mariadb''))"
    by (simp_all add: apply_switch_def writeDropIn_def restartAndVerify_def restart_maria_def sample_apply_def sample_remote_def)
  ultimately show ?thesis using c
    by (cases "apply_switch ''/etc/ssl/servika/mariadb'' sample_apply True (sample_remote False)") (simp add: ServerSet_def)
qed

text \<open>The firewall could not be rebuilt: the answer is 200 all the same.\<close>

theorem unguarded_port_answered_200:
  "case ServerSet ''/etc/ssl/servika/mariadb'' sample_apply [] ((fw_fine None no_files)\<lparr>fe_rules := False\<rparr>) True True True (Some (Some True)) (sample_remote False) of
     (code, st) \<Rightarrow> code = 200 \<and> ra_switch st \<and> accepts (ra_fw st) (database_packet [203, 0, 113, 9])"
proof -
  have c: "\<not> portRuleConflict (sample_remote False)" by (simp add: portRuleConflict_def sample_remote_def fw_empty_def)
  have a: "accepts (ra_fw (sample_remote False)) (database_packet [203, 0, 113, 9])"
    by (simp add: sample_remote_def accepts_applied sample_policy database_packet_def)
  have s: "fst (apply_switch ''/etc/ssl/servika/mariadb'' sample_apply True (sample_remote False)) = None"
    "ra_fw (snd (apply_switch ''/etc/ssl/servika/mariadb'' sample_apply True (sample_remote False))) = ra_fw (sample_remote False)"
    by (simp_all add: apply_switch_def writeDropIn_def restartAndVerify_def restart_maria_def sample_apply_def sample_remote_def)
  have "rebuild ((fw_fine None no_files)\<lparr>fe_rules := False\<rparr>) v st = (False, st)" for v st by (simp add: rebuild_def readRules_def)
  then show ?thesis using a s c
    by (cases "apply_switch ''/etc/ssl/servika/mariadb'' sample_apply True (sample_remote False)")
       (simp add: ServerSet_def rebuild_remote_def Reapply_def)
qed

text \<open>
  Adding an address that is allowed already answers 409 and undoes a grant that was there before: the account the customer uses from that
  address is dropped, while its row, and so the firewall's opening, stays.
\<close>
theorem readding_an_address_removes_it:
  assumes "domainParam param = Some d" "ra_switch st" "ParseHost host = Inr (cidr, mhost)"
    and "ownedAccount key e d user (ra_db st) = Inr (pass, names)"
    and "MySQLGrantRemote e user mhost pass names (ra_db st) = (None, db1)"
    and "h \<in> set (ac_hosts (ra_db st))" "rh_user h = user" "rh_cidr h = cidr" "de_write e" "de_dead e2 = None"
  shows "\<exists>st'. DomainAdd key e e2 fe True shown param (Some (user, host)) st = (409, st') \<and>
    map_of (ma_users (ac_maria (ra_db st'))) (user, mhost) = None \<and> ac_hosts (ra_db st') = ac_hosts (ra_db st) \<and> ra_fw st' = ra_fw st"
proof -
  have db1: "ac_hosts db1 = ac_hosts (ra_db st)" using grant_remote_ok [OF assms(5)] by simp
  let ?row = "\<lparr>rh_id = 0, rh_domain = d, rh_user = user, rh_cidr = cidr, rh_mysql = mhost\<rparr>"
  have i: "insert_host key e ?row db1 = (Some 409, db1)" using assms(6-9) db1 by (auto simp: insert_host_def list_ex_iff)
  have v: "ValidDBIdentifier user" "ValidRemoteHost mhost" using assms(5) by (auto simp: MySQLGrantRemote_def split: if_splits)
  define db2 where "db2 = snd (MySQLRevokeRemote e2 user mhost db1)"
  have "map_of (ma_users (ac_maria db2)) (user, mhost) = None" "ac_hosts db2 = ac_hosts db1"
    using v assms(10) by (auto simp: db2_def MySQLRevokeRemote_def run_maria_def runRootSQL_def delete_conv)
  then show ?thesis using assms(1-5) i db1 by (auto simp: DomainAdd_def recordHost_def db2_def)
qed


text \<open>The account of the sample database, opened to one address.\<close>

definition sample_granted :: dbacc where
  "sample_granted = snd (MySQLGrantRemote working_env ''c_acme_app'' ''203.0.113.9'' ''kMnp23456789'' [''c_acme_wp''] acme_db)"

definition sample_opened :: dbacc where
  "sample_opened = snd (insert_host id working_env
     \<lparr>rh_id = 0, rh_domain = 1, rh_user = ''c_acme_app'', rh_cidr = ''203.0.113.9'', rh_mysql = ''203.0.113.9''\<rparr> sample_granted)"

definition sample_open_remote :: remote where
  "sample_open_remote = (let st = (sample_remote True)\<lparr>ra_db := sample_opened\<rparr> in
     st\<lparr>ra_fw := applied None ([], []) (remote_view st) (ra_fw st)\<rparr>)"

lemma sample_typed_host: "ParseHost ''203.0.113.9'' = Inr (''203.0.113.9'', ''203.0.113.9'')"
  by code_simp

lemma sample_add:
  "DomainAdd id working_env working_env (fw_fine None no_files) True True ''1'' (Some (''c_acme_app'', ''203.0.113.9'')) (sample_remote True) =
     (200, sample_open_remote)"
proof -
  have p: "domainParam ''1'' = Some 1" "ownedAccount id working_env 1 ''c_acme_app'' acme_db = Inr (''kMnp23456789'', [''c_acme_wp''])"
    by (code_simp+)
  have "fst (MySQLGrantRemote working_env ''c_acme_app'' ''203.0.113.9'' ''kMnp23456789'' [''c_acme_wp''] acme_db) = None" by code_simp
  then have g: "MySQLGrantRemote working_env ''c_acme_app'' ''203.0.113.9'' ''kMnp23456789'' [''c_acme_wp''] acme_db = (None, sample_granted)"
    by (simp add: sample_granted_def prod_eq_iff)
  let ?row = "\<lparr>rh_id = 0, rh_domain = 1, rh_user = ''c_acme_app'', rh_cidr = ''203.0.113.9'', rh_mysql = ''203.0.113.9''\<rparr>"
  have "fst (insert_host id working_env ?row sample_granted) = None" by code_simp
  then have i: "insert_host id working_env ?row sample_granted = (None, sample_opened)" by (simp add: sample_opened_def prod_eq_iff)
  let ?st = "(sample_remote True)\<lparr>ra_db := sample_opened\<rparr>"
  have "rebuild (fw_fine None no_files) (remote_view ?st) (ra_fw ?st) = (True, applied None ([], []) (remote_view ?st) (ra_fw ?st))"
    by (rule rebuild_fine) (simp add: blockedCountries_def sample_remote_def)
  then have r: "rebuild_remote (fw_fine None no_files) ?st = (True, sample_open_remote)"
    by (simp add: rebuild_remote_def Reapply_def sample_open_remote_def Let_def)
  have d: "ra_db (sample_remote True) = acme_db" "ra_switch (sample_remote True)" by (simp_all add: sample_remote_def)
  show ?thesis by (simp add: DomainAdd_def p sample_typed_host recordHost_def g i r d)
qed


end
