(* ===== verification/SystemUser.thy ===== *)
theory SystemUser
  imports DbAccountsSafety
begin

text \<open>
  The name of a domain's system user (internal/provisioner/provisioner.go, \<open>SlugFromDomain\<close> and
  \<open>allocateSystemUser\<close>), which is also the prefix of its databases: an allocated name is free and fits an
  identifier of MariaDB, one is found unless 98 names are taken, and the names that gain a suffix lie in the
  namespace of the one they stand beside.
\<close>

section \<open>The names\<close>

definition slug_char :: "char \<Rightarrow> bool" where
  "slug_char c = (byte_in 97 122 c \<or> byte_in 48 57 c)"

text \<open>Every longest run of other characters becomes one underscore.\<close>

fun slugSan :: "bool \<Rightarrow> string \<Rightarrow> string" where
  "slugSan gap [] = []"
| "slugSan gap (c # s) =
     (if slug_char c then c # slugSan False s else if gap then slugSan True s else CHR ''_'' # slugSan True s)"

definition slugBodyMax :: nat where "slugBodyMax = 26"

definition SlugFromDomain :: "string \<Rightarrow> string" where
  "SlugFromDomain d = ''c_'' @ take slugBodyMax (trim (slugSan False (go_lower (trim_space d))) ''_'')"

definition slug_candidate :: "string \<Rightarrow> nat \<Rightarrow> string" where
  "slug_candidate base attempt =
     (if attempt \<le> 1 then base
      else let sfx = ''_'' @ digits_of attempt; body = trim_prefix base ''c_'';
             body = (if slugBodyMax < length body + length sfx then trim_right (take (slugBodyMax - length sfx) body) ''_'' else body)
           in ''c_'' @ body @ sfx)"

text \<open>\<open>taken\<close> answers for the host and the panel's tables, \<open>None\<close> when it could not.\<close>

fun first_free :: "(string \<Rightarrow> bool option) \<Rightarrow> string list \<Rightarrow> string option" where
  "first_free taken [] = None"
| "first_free taken (c # cs) =
     (case taken c of None \<Rightarrow> None | Some True \<Rightarrow> first_free taken cs | Some False \<Rightarrow> Some c)"

definition allocateSystemUser :: "string \<Rightarrow> (string \<Rightarrow> bool option) \<Rightarrow> string option" where
  "allocateSystemUser domainName taken = first_free taken (map (slug_candidate (SlugFromDomain domainName)) [1..<100])"

lemma slugs_by_evaluation:
  "SlugFromDomain ''blog.example.com'' = ''c_blog_example_com''" "SlugFromDomain ''blog-example.com'' = ''c_blog_example_com''"
  "slug_candidate ''c_shop_com'' 2 = ''c_shop_com_2''"
  by (code_simp+)

section \<open>What is allocated\<close>

lemma first_free_props: "first_free taken cs = Some c \<Longrightarrow> taken c = Some False \<and> c \<in> set cs"
  by (induction cs) (auto split: option.splits bool.splits)

lemma first_free_total:
  "\<forall>c \<in> set cs. taken c \<noteq> None \<Longrightarrow> \<exists>c \<in> set cs. taken c = Some False \<Longrightarrow> first_free taken cs \<noteq> None"
  by (induction cs) (auto split: option.split bool.split)

definition slug_body :: "string \<Rightarrow> bool" where
  "slug_body s = list_all (\<lambda>c. slug_char c \<or> c = CHR ''_'') s"

lemma slugSan_body: "slug_body (slugSan gap s)"
  by (induction gap s rule: slugSan.induct) (auto simp: slug_body_def)

lemma slug_body_subset: "set a \<subseteq> set b \<Longrightarrow> slug_body b \<Longrightarrow> slug_body a"
  by (auto simp: slug_body_def list_all_iff)

lemma trim_subset: "set (trim s cs) \<subseteq> set s" "set (trim_right s cs) \<subseteq> set s"
  by (auto simp: trim_def trim_left_def trim_right_def dest!: set_dropWhileD)

text \<open>A tenant's name: the prefix and a body of at most 26 characters.\<close>

definition tenant_name :: "string \<Rightarrow> bool" where
  "tenant_name u = (\<exists>b. u = ''c_'' @ b \<and> slug_body b \<and> length b \<le> slugBodyMax)"

lemma slug_tenant: "tenant_name (SlugFromDomain d)"
proof -
  have "slug_body (take slugBodyMax (trim (slugSan False (go_lower (trim_space d))) ''_''))"
    by (rule slug_body_subset [OF _ slugSan_body]) (use trim_subset(1) in \<open>fastforce dest: in_set_takeD\<close>)
  then show ?thesis by (auto simp: SlugFromDomain_def tenant_name_def)
qed

lemma digits_slug: "slug_body (digits_of n)"
  using digits_of_chars by (auto simp: slug_body_def list_all_iff slug_char_def is_digit_def)

lemma digits_short: "n < 100 \<Longrightarrow> length (digits_of n) \<le> 2"
  by (simp add: digits_of.simps [of n] digits_of.simps [of "n div 10"])

lemma candidate_tenant:
  assumes "tenant_name base" "n < 100"
  shows "tenant_name (slug_candidate base n)"
proof (cases "n \<le> 1")
  case False
  obtain b where b: "base = ''c_'' @ b" "slug_body b" "length b \<le> slugBodyMax" using assms(1) by (auto simp: tenant_name_def)
  let ?s = "''_'' @ digits_of n"
  define b' where "b' = (if slugBodyMax < length b + length ?s then trim_right (take (slugBodyMax - length ?s) b) ''_'' else b)"
  have t: "trim_prefix base ''c_'' = b" by (simp add: b(1) trim_prefix_def has_prefix_def)
  have c: "slug_candidate base n = ''c_'' @ b' @ ?s" using False by (simp add: slug_candidate_def Let_def t b'_def)
  have "set (trim_right (take k b) ''_'') \<subseteq> set b" for k by (rule subset_trans [OF trim_subset(2) set_take_subset])
  then have "set b' \<subseteq> set b" by (simp add: b'_def)
  then have "slug_body (b' @ ?s)" using slug_body_subset [OF _ b(2)] digits_slug [of n] by (auto simp: slug_body_def)
  moreover have "length (b' @ ?s) \<le> slugBodyMax"
  proof -
    have s: "length ?s \<le> slugBodyMax" using digits_short [OF assms(2)] by (simp add: slugBodyMax_def)
    have "length (trim_right (take (slugBodyMax - length ?s) b) ''_'') \<le> slugBodyMax - length ?s"
      using length_dropWhile_le [of "\<lambda>c. c \<in> set ''_''" "rev (take (slugBodyMax - length ?s) b)"] by (simp add: trim_right_def)
    moreover have "b' = (if slugBodyMax < length b + length ?s then trim_right (take (slugBodyMax - length ?s) b) ''_'' else b)"
      by (rule b'_def)
    ultimately have "length b' + length ?s \<le> slugBodyMax" using s by (cases "slugBodyMax < length b + length ?s") (simp_all only: if_True if_False le_diff_conv2 not_less)
    then show ?thesis by simp
  qed
  ultimately show ?thesis by (auto simp: c tenant_name_def)
qed (use assms in \<open>simp add: slug_candidate_def\<close>)

lemma tenant_identifier: "tenant_name u \<Longrightarrow> ValidDBIdentifier u \<and> has_prefix u ''c_''"
  by (auto simp: tenant_name_def ValidDBIdentifier_def slug_body_def list_all_iff slug_char_def mysql_ident_char_def slugBodyMax_def
      has_prefix_def byte_in_def byte_def)

theorem allocated_name_free:
  assumes "allocateSystemUser d taken = Some u"
  shows "taken u = Some False \<and> ValidDBIdentifier u \<and> has_prefix u ''c_''"
  using first_free_props [OF assms [unfolded allocateSystemUser_def]] candidate_tenant [OF slug_tenant] tenant_identifier by auto

text \<open>The candidates with a suffix differ, so one of them is free while fewer than 98 names are taken.\<close>

lemma suffix_unique:
  assumes "a @ ''_'' @ digits_of n = b @ ''_'' @ digits_of m"
  shows "n = m"
proof -
  have no: "CHR ''_'' \<notin> set (digits_of k)" for k
    using digits_of_chars [of "CHR ''_''" k] by (auto simp: is_digit_def byte_in_def byte_def)
  have "last_index (CHR ''_'') (a @ CHR ''_'' # digits_of n) = Some (length a)" "last_index (CHR ''_'') (b @ CHR ''_'' # digits_of m) = Some (length b)"
    by (rule index_of_last [OF no])+
  then have "length a = length b" using assms by simp
  then have "digits_of n = digits_of m" using assms by simp
  then show ?thesis using digits_of_digits [of n] digits_of_digits [of m] by metis
qed

lemma candidates_differ: "2 \<le> n \<Longrightarrow> 2 \<le> m \<Longrightarrow> slug_candidate base n = slug_candidate base m \<Longrightarrow> n = m"
proof -
  assume "2 \<le> n" "2 \<le> m" and e: "slug_candidate base n = slug_candidate base m"
  have "\<exists>a. slug_candidate base k = a @ ''_'' @ digits_of k" if "2 \<le> k" for k
    using that by (auto simp: slug_candidate_def Let_def)
  then obtain a b where "slug_candidate base n = a @ ''_'' @ digits_of n" "slug_candidate base m = b @ ''_'' @ digits_of m"
    using \<open>2 \<le> n\<close> \<open>2 \<le> m\<close> by blast
  then show "n = m" using suffix_unique [of a n b m] e by simp
qed

theorem allocation_succeeds:
  assumes "\<forall>c. taken c \<noteq> None" "finite {c. taken c = Some True}" "card {c. taken c = Some True} < 98"
  shows "allocateSystemUser d taken \<noteq> None"
proof -
  let ?c = "slug_candidate (SlugFromDomain d)"
  have "inj_on ?c {2..<100}" using candidates_differ by (auto simp: inj_on_def)
  then have "card (?c ` {2..<100}) = 98" by (simp add: card_image)
  moreover have "card (?c ` {2..<100}) \<le> card {c. taken c = Some True}" if "?c ` {2..<100} \<subseteq> {c. taken c = Some True}"
    by (rule card_mono [OF assms(2) that])
  ultimately have "\<not> ?c ` {2..<100} \<subseteq> {c. taken c = Some True}" using assms(3) by linarith
  then obtain n where n: "2 \<le> n" "n < 100" "taken (?c n) \<noteq> Some True" by force
  then have f: "taken (?c n) = Some False" using assms(1) by (metis (full_types) option.exhaust)
  have "?c n \<in> set (map ?c [1..<100])" using n(1,2) by simp
  then show ?thesis unfolding allocateSystemUser_def using f assms(1) by (intro first_free_total) blast+
qed

section \<open>Nested names\<close>

text \<open>
  A second domain whose own name is taken is given a name in the namespace of the first, and then the
  premise under which databases stay in their namespace fails.
\<close>

theorem second_name_nests:
  assumes "tenant_name base" "2 \<le> n" "n < 100" "length base + length (digits_of n) < 28"
  shows "in_ns base (slug_candidate base n) \<and>
    (base \<in> set systems \<and> slug_candidate base n \<in> set systems \<longrightarrow> \<not> systems_separate systems)"
proof -
  obtain b where b: "base = ''c_'' @ b" using assms(1) by (auto simp: tenant_name_def)
  have c: "slug_candidate base n = base @ ''_'' @ digits_of n"
    using assms(2,4) by (simp add: slug_candidate_def Let_def b trim_prefix_def has_prefix_def slugBodyMax_def)
  then have "in_ns base (slug_candidate base n)" by simp
  moreover have "base \<noteq> slug_candidate base n" using c by simp
  ultimately show ?thesis by (auto simp: systems_separate_def list_all_iff)
qed

text \<open>The same holds of domains of different owners whose names are not cut at all.\<close>

lemma ordinary_names_nest:
  "in_ns (SlugFromDomain ''shop.com'') (SlugFromDomain ''shop.com.tr'')"
  by code_simp

end
